(* ===== verification/AVS_Prelude.thy ===== *)
theory AVS_Prelude
  imports Main "HOL-Library.Word" "HOL-Library.Multiset" "HOL-Library.Monad_Syntax"
begin

unbundle bit_operations_syntax

text \<open>
  Shared vocabulary of the development: the machine integers of the C sources as words,
  byte buffers with checked loads and stores, the error codes the sources return, and the
  generic lemmas on lists, sorting and words the component theories use.

  Conventions. A C function that returns an \<^verbatim>\<open>int\<close> error code and changes an object becomes a
  function that returns the code (\<open>OK\<close> is 0) together with the new object. Where the C text
  can run into undefined behaviour (a load or store outside a buffer, a dereference of a NULL
  pointer, a failed assertion) the model returns an \<open>option\<close> and \<open>None\<close> stands for it, so that
  its absence is a theorem and not an assumption.
\<close>

type_synonym u8 = "8 word"
type_synonym u32 = "32 word"
type_synonym u64 = "64 word"
type_synonym bytes = "8 word list"

text \<open>Error codes. \<open>EOTHER\<close> carries a code that an external function or the application gave.\<close>

datatype err =
    OK
  | EINVAL | ENOMEM | ENOENT | EALREADY | ERANGE | EAGAIN | EPROTO | ENOTSUP
  | ECANCELED | ETIMEDOUT_ECONN | EBADMSG | EPROTONOSUPPORT | EIO | EBADF | ENOSYS
  | EADDRINUSE | ENODATA | ETIMEDOUT | ENOTCONN | EACCES | EOVERFLOW | EAFNOSUPPORT | EINTR | EAUTH
  | EDURATION | ENOONEJOINED | EEVERYONELEFT
  | EOTHER int

text \<open>
  \<^verbatim>\<open>err |= f()\<close>: the bitwise or of two different codes is a code of its own, which the sources only
  compare with 0.
\<close>

definition err_or :: "err \<Rightarrow> err \<Rightarrow> err" where
  "err_or a b = (if a = OK then b else if b = OK \<or> a = b then a else EOTHER (-1))"

lemma err_or_OK [simp]: "err_or a b = OK \<longleftrightarrow> a = OK \<and> b = OK"
  by (auto simp: err_or_def)

lemma if_err_OK [simp]:
  "(if e \<noteq> OK then (e, x) else (OK, y)) = (OK, u) \<longleftrightarrow> e = OK \<and> u = y"
  "(if e = OK then (OK, y) else (e, x)) = (OK, u) \<longleftrightarrow> e = OK \<and> u = y"
  by auto

section \<open>Buffers with checked access\<close>

definition load :: "bytes \<Rightarrow> nat \<Rightarrow> u8 option" where
  "load buf i = (if i < length buf then Some (buf ! i) else None)"

definition store :: "bytes \<Rightarrow> nat \<Rightarrow> u8 \<Rightarrow> bytes option" where
  "store buf i v = (if i < length buf then Some (buf[i := v]) else None)"

text \<open>A C string compared with strcmp: bytes in order, the shorter string first.\<close>

fun strcmp_gt :: "string \<Rightarrow> string \<Rightarrow> bool" where
  "strcmp_gt [] ys = False"
| "strcmp_gt (x # xs) [] = True"
| "strcmp_gt (x # xs) (y # ys) =
     (if x = y then strcmp_gt xs ys else (of_char y :: nat) < of_char x)"

text \<open>
  What the sources rely on of libre's \<^verbatim>\<open>list_sort\<close> ("sort a linked list in an order defined by the
  sort handler"): with a total and transitive handler the result is a permutation of the list in
  the handler's order. \<open>isort_by\<close> is a function with this behaviour, used in witnesses.
\<close>

definition list_sort_ok :: "(('a \<Rightarrow> 'a \<Rightarrow> bool) \<Rightarrow> 'a list \<Rightarrow> 'a list) \<Rightarrow> bool" where
  "list_sort_ok srt \<longleftrightarrow>
     (\<forall>le xs. (\<forall>x y. le x y \<or> le y x) \<and> transp le \<longrightarrow>
        mset (srt le xs) = mset xs \<and> sorted_wrt le (srt le xs))"

fun insert_by :: "('a \<Rightarrow> 'a \<Rightarrow> bool) \<Rightarrow> 'a \<Rightarrow> 'a list \<Rightarrow> 'a list" where
  "insert_by le x [] = [x]"
| "insert_by le x (y # ys) = (if le x y then x # y # ys else y # insert_by le x ys)"

definition isort_by :: "('a \<Rightarrow> 'a \<Rightarrow> bool) \<Rightarrow> 'a list \<Rightarrow> 'a list" where
  "isort_by le xs = foldr (insert_by le) xs []"

text \<open>A run of a machine whose steps may be undefined, and the guards met along it.\<close>

fun run :: "('s \<Rightarrow> 'e \<Rightarrow> 's option) \<Rightarrow> 's \<Rightarrow> 'e list \<Rightarrow> 's option" where
  "run step s [] = Some s"
| "run step s (e # es) = (case step s e of None \<Rightarrow> None | Some s' \<Rightarrow> run step s' es)"

fun guarded :: "('s \<Rightarrow> 'e \<Rightarrow> 's option) \<Rightarrow> ('s \<Rightarrow> 'e \<Rightarrow> bool) \<Rightarrow> 's \<Rightarrow> 'e list \<Rightarrow> bool" where
  "guarded step g s [] = True"
| "guarded step g s (e # es) =
     (g s e \<and> (case step s e of None \<Rightarrow> True | Some s' \<Rightarrow> guarded step g s' es))"

named_theorems buf_simps \<open>checked access to buffers\<close>

lemma load_in [buf_simps]: "i < length buf \<Longrightarrow> load buf i = Some (buf ! i)"
  by (simp add: load_def)

lemma store_in [buf_simps]: "i < length buf \<Longrightarrow> store buf i v = Some (buf[i := v])"
  by (simp add: store_def)

lemma load_append_right [simp]: "load (xs @ ys) (length xs + i) = load ys i"
  by (simp add: load_def nth_append)

lemma load_append_right0 [simp]: "load (xs @ y # ys) (length xs) = Some y"
  by (simp add: load_def)

lemma store_length: "store buf i v = Some buf' \<Longrightarrow> length buf' = length buf"
  by (auto simp: store_def split: if_splits)

section \<open>strcmp is a strict linear order\<close>

lemma strcmp_gt_irrefl [simp]: "\<not> strcmp_gt s s"
  by (induction s) auto

lemma strcmp_gt_asym: "strcmp_gt s t \<Longrightarrow> \<not> strcmp_gt t s"
  by (induction s t rule: strcmp_gt.induct) (auto split: if_splits)

lemma strcmp_gt_total: "s \<noteq> t \<Longrightarrow> strcmp_gt s t \<or> strcmp_gt t s"
proof (induction s t rule: strcmp_gt.induct)
  case (1 ys)
  then show ?case by (cases ys) auto
next
  case (3 x xs y ys)
  show ?case
  proof (cases "x = y")
    case False
    then have "(of_char x :: nat) \<noteq> of_char y" by simp
    then have "(of_char x :: nat) < of_char y \<or> (of_char y :: nat) < of_char x"
      by (simp only: nat_neq_iff)
    with False show ?thesis by auto
  qed (use 3 in auto)
qed simp

section \<open>Words\<close>

lemma drop_bit_less_word:
  fixes v :: "'a :: len word"
  assumes "v \<noteq> 0" and "0 < n"
  shows "unat (drop_bit n v) < unat v"
proof -
  have "unat (drop_bit n v) = unat v div 2 ^ n"
    by (simp only: unat_drop_bit_eq) (simp add: drop_bit_eq_div)
  moreover have "0 < unat v"
    using assms(1) by (simp add: unat_gt_0)
  moreover have "(1::nat) < 2 ^ n"
    using assms(2) one_less_power [of "2::nat" n] by simp
  ultimately show ?thesis by simp
qed

lemma unat_plus_one:
  fixes i :: "'a :: len word"
  assumes "i < w"
  shows "unat (i + 1) = unat i + 1"
proof -
  have "unat i < unat w" using assms by (simp add: word_less_nat_alt)
  also have "unat w < 2 ^ LENGTH('a)" by (rule unsigned_less)
  finally have "unat i + 1 < 2 ^ LENGTH('a) \<or> unat i + 1 = 2 ^ LENGTH('a)" by linarith
  moreover have "unat i + 1 \<le> unat w" using \<open>unat i < unat w\<close> by simp
  ultimately have "unat i + 1 < 2 ^ LENGTH('a)" using \<open>unat w < 2 ^ LENGTH('a)\<close> by linarith
  then show ?thesis by (simp add: unat_word_ariths)
qed

lemma u32_less_plus_one:
  fixes i :: u32
  assumes "i \<noteq> 0xffffffff"
  shows "i < i + 1" and "unat (i + 1) = unat i + 1"
proof -
  have "unat i \<noteq> unat (0xffffffff :: u32)" using assms by (metis word_unat_eq_iff)
  moreover have "unat i < 2 ^ LENGTH(32)" by (rule unsigned_less)
  ultimately have "i < 0xffffffff" by (simp add: word_less_nat_alt)
  then show "unat (i + 1) = unat i + 1" by (rule unat_plus_one)
  then show "i < i + 1" by (simp add: word_less_nat_alt)
qed

lemma find_append:
  "find P (xs @ ys) = (case find P xs of None \<Rightarrow> find P ys | Some x \<Rightarrow> Some x)"
  by (induction xs) auto

section \<open>Sorting\<close>

lemma mset_insert_by [simp]: "mset (insert_by le x xs) = add_mset x (mset xs)"
  by (induction xs) auto

lemma set_insert_by [simp]: "set (insert_by le x xs) = insert x (set xs)"
  by (induction xs) auto

lemma sorted_insert_by:
  assumes "\<forall>x y. le x y \<or> le y x" and "transp le" and "sorted_wrt le xs"
  shows "sorted_wrt le (insert_by le x xs)"
  using assms(3)
proof (induction xs)
  case (Cons y ys)
  show ?case
  proof (cases "le x y")
    case True
    then have "\<forall>z \<in> set ys. le x z" using Cons.prems assms(2) by (meson sorted_wrt.simps(2) transpE)
    with True Cons.prems show ?thesis by simp
  next
    case False
    then have "le y x" using assms(1) by blast
    with False Cons show ?thesis by simp
  qed
qed simp

lemma isort_by_ok: "list_sort_ok isort_by"
proof -
  have "mset (isort_by le xs) = mset xs" for le :: "'a \<Rightarrow> 'a \<Rightarrow> bool" and xs
    by (induction xs) (auto simp: isort_by_def)
  moreover have "sorted_wrt le (isort_by le xs)"
    if "\<forall>x y. le x y \<or> le y x" "transp le" for le :: "'a \<Rightarrow> 'a \<Rightarrow> bool" and xs
    by (induction xs) (simp_all add: isort_by_def sorted_insert_by that)
  ultimately show ?thesis unfolding list_sort_ok_def by blast
qed

lemma list_sort_okD:
  assumes "list_sort_ok srt" and "\<And>x y. le x y \<or> le y x" and "transp le"
  shows "mset (srt le xs) = mset xs" and "sorted_wrt le (srt le xs)" and "set (srt le xs) = set xs"
proof -
  show m: "mset (srt le xs) = mset xs" and "sorted_wrt le (srt le xs)"
    using assms unfolding list_sort_ok_def by blast+
  from m show "set (srt le xs) = set xs" by (metis set_mset_mset)
qed

section \<open>Invariants of machines\<close>

lemma guarded_True [simp]: "guarded step (\<lambda>_ _. True) s es"
  by (induction es arbitrary: s) (auto split: option.split)

text \<open>
  The contract of a component whose operations are steps: from a state of the invariant every
  step that its guard allows is defined and leads to a state of the invariant.
\<close>

locale inv_machine =
  fixes step :: "'s \<Rightarrow> 'e \<Rightarrow> 's option"
    and guard :: "'s \<Rightarrow> 'e \<Rightarrow> bool"
    and inv :: "'s \<Rightarrow> bool"
  assumes inv_step: "inv s \<Longrightarrow> guard s e \<Longrightarrow> \<exists>s'. step s e = Some s' \<and> inv s'"
begin

lemma run_inv: "inv s \<Longrightarrow> guarded step guard s es \<Longrightarrow> \<exists>s'. run step s es = Some s' \<and> inv s'"
proof (induction es arbitrary: s)
  case (Cons e es)
  have "guard s e" using Cons.prems(2) by simp
  from inv_step [OF Cons.prems(1) this] obtain s' where s': "step s e = Some s'" "inv s'" by blast
  moreover have "guarded step guard s' es" using Cons.prems(2) s'(1) by simp
  ultimately show ?case using Cons.IH [of s'] by simp
qed simp

end

lemma find_P: "List.find P xs = Some x \<Longrightarrow> P x"
  by (metis find_Some_iff)

lemma find_map: "List.find P (map f xs) = map_option f (List.find (P \<circ> f) xs)"
  by (induction xs) auto

end
