(* ===== verification/Frame_Hdr.thy ===== *)
theory Frame_Hdr
  imports AVS_Prelude
begin

text \<open>
  The header of an encrypted media frame, \<^verbatim>\<open>src/src/frame_hdr/frame_hdr.c\<close>: two fixed bytes,
  the key index (when it does not fit three bits), the frame counter and an optional extension
  that carries the CSRC. Buffers are byte lists; every access of the C code is a checked load or
  store. Shown: writing stays inside the buffer and returns what it wrote, reading stays inside
  the buffer whatever its contents, and reading a written header gives back its fields when they
  fit 32 bits.
\<close>

section \<open>Definitions\<close>

definition MAX_EXTS :: nat where
  "MAX_EXTS = 16"

definition FRAME_HDR_MINSZ :: nat where
  "FRAME_HDR_MINSZ = 2"

definition frame_hdr_max_size :: nat where
  "frame_hdr_max_size = 18 + 9 * 8"

function calc_len_loop :: "u32 \<Rightarrow> nat \<Rightarrow> nat" where
  "calc_len_loop val l = (if val \<noteq> 0 then calc_len_loop (drop_bit 8 val) (l + 1) else l)"
  by pat_completeness auto
termination
  by (relation "measure (\<lambda>(val, l). unat val)") (auto simp: drop_bit_less_word)

definition calc_len :: "u32 \<Rightarrow> nat" where
  "calc_len val = (if val = 0 then 1 else calc_len_loop val 0)"

text \<open>The switch of \<^verbatim>\<open>write_bytes\<close> enters at \<open>len\<close> and falls through to 1.\<close>

fun write_bytes_from :: "nat \<Rightarrow> u64 \<Rightarrow> bytes \<Rightarrow> nat \<Rightarrow> bytes option" where
  "write_bytes_from 0 val buf p = Some buf"
| "write_bytes_from (Suc l) val buf p =
     do { buf' \<leftarrow> store buf p (ucast (drop_bit (8 * l) val AND 0xff));
          write_bytes_from l val buf' (Suc p) }"

definition write_bytes :: "bytes \<Rightarrow> nat \<Rightarrow> nat \<Rightarrow> u64 \<Rightarrow> (nat \<times> bytes) option" where
  "write_bytes buf p len val =
     (if 1 \<le> len \<and> len \<le> 8
      then do { buf' \<leftarrow> write_bytes_from len val buf p; Some (len, buf') }
      else Some (0, buf))"

fun read_bytes_loop :: "bytes \<Rightarrow> nat \<Rightarrow> nat \<Rightarrow> u64 \<Rightarrow> u64 option" where
  "read_bytes_loop buf p 0 v = Some v"
| "read_bytes_loop buf p (Suc l) v =
     do { b \<leftarrow> load buf p; read_bytes_loop buf (Suc p) l (push_bit 8 v OR ucast b) }"

definition read_bytes :: "bytes \<Rightarrow> nat \<Rightarrow> nat \<Rightarrow> (nat \<times> u64) option" where
  "read_bytes buf p len = do { v \<leftarrow> read_bytes_loop buf p len 0; Some (len, v) }"

definition hdr_byte0 :: "u32 \<Rightarrow> u8" where
  "hdr_byte0 csrc = push_bit 5 0 OR push_bit 4 (if csrc \<noteq> 0 then 1 else 0)"

definition hdr_byte1 :: "nat \<Rightarrow> nat \<Rightarrow> nat \<Rightarrow> u8" where
  "hdr_byte1 flen x klen =
     push_bit 7 0 OR push_bit 4 (word_of_nat (flen - 1)) OR push_bit 3 (word_of_nat x)
       OR word_of_nat klen"

text \<open>
  \<open>buf\<close> is the memory behind the pointer, \<open>bsz\<close> the size the caller passes. The result is the
  number of bytes (0 when \<open>bsz\<close> is too small) and the memory afterwards. \<^verbatim>\<open>calc_len\<close> takes a
  32 bit argument, so its calls convert.
\<close>

definition frame_hdr_write ::
  "bytes \<Rightarrow> nat \<Rightarrow> u64 \<Rightarrow> u64 \<Rightarrow> u32 \<Rightarrow> (nat \<times> bytes) option" where
  "frame_hdr_write buf bsz frame key csrc =
     (let xsz = (if csrc \<noteq> 0 then 5 else 0);
          x = (if key > 7 then 1 else 0);
          ksz = (if key > 7 then calc_len (ucast key) else 0);
          klen = (if key > 7 then ksz - 1 else unat key);
          flen = calc_len (ucast frame);
          hsz = 2 + ksz + flen + xsz
      in if bsz < hsz then Some (0, buf)
         else do {
           buf \<leftarrow> store buf 0 (hdr_byte0 csrc);
           buf \<leftarrow> store buf 1 (hdr_byte1 flen x klen);
           (n, buf) \<leftarrow> (if x \<noteq> 0 then write_bytes buf 2 (klen + 1) key else Some (0, buf));
           let p = 2 + n;
           (n, buf) \<leftarrow> write_bytes buf p flen frame;
           let p = p + n;
           if csrc \<noteq> 0 then do {
             buf \<leftarrow> store buf p 0x31;
             (_, buf) \<leftarrow> write_bytes buf (p + 1) 4 (ucast csrc);
             Some (p + 5, buf) }
           else Some (p, buf) })"

record hdr_out =
  ho_frameid :: u64
  ho_key :: u64
  ho_csrc :: u32
  ho_rlen :: nat

function read_exts ::
  "bytes \<Rightarrow> nat \<Rightarrow> u8 \<Rightarrow> nat \<Rightarrow> nat \<Rightarrow> u32 \<Rightarrow> (err \<times> nat \<times> u32) option" where
  "read_exts buf bsz ext p i csrc =
     (if ext \<noteq> 0 \<and> p < bsz \<and> i < MAX_EXTS
      then do {
        b \<leftarrow> load buf p;
        let ext' = b AND 0x80;
        let elen = unat (drop_bit 4 b AND 7) + 1;
        if bsz \<le> p + elen + 1 then Some (OK, p, csrc)
        else do {
          let eid = b AND 0x0f;
          if eid = 1 \<and> elen = 4
          then if bsz < p + 5 then Some (ERANGE, p, csrc)
               else do {
                 (_, csrc64) \<leftarrow> read_bytes buf (p + 1) 4;
                 read_exts buf bsz ext' (p + elen + 1) (i + 1) (ucast csrc64) }
          else read_exts buf bsz ext' (p + elen + 1) (i + 1) csrc } }
      else Some (OK, p, csrc))"
  by pat_completeness auto
termination
  by (relation "measure (\<lambda>(buf, bsz, ext, p, i, csrc). MAX_EXTS - i)") auto

text \<open>
  The output parameters are a record: what the caller holds before the call goes in, and only
  the fields that the C code assigns change.
\<close>

definition frame_hdr_read :: "bytes \<Rightarrow> nat \<Rightarrow> hdr_out \<Rightarrow> (err \<times> hdr_out) option" where
  "frame_hdr_read buf bsz out =
     do {
       b0 \<leftarrow> load buf 0;
       b1 \<leftarrow> load buf 1;
       let ext = b0 AND 0x10;
       let flen = unat (drop_bit 4 b1 AND 7) + 1;
       let x = drop_bit 3 b1 AND 1;
       let klen = unat (b1 AND 7);
       let p = FRAME_HDR_MINSZ;
       if x \<noteq> 0 \<and> bsz < p + klen + 1 then Some (ERANGE, out)
       else do {
         (p, out) \<leftarrow> (if x \<noteq> 0
            then do { (n, k) \<leftarrow> read_bytes buf p (klen + 1); Some (p + n, out\<lparr>ho_key := k\<rparr>) }
            else Some (p, out\<lparr>ho_key := word_of_nat klen\<rparr>));
         if bsz < p + flen then Some (ERANGE, out)
         else do {
           (n, f) \<leftarrow> read_bytes buf p flen;
           let out = out\<lparr>ho_frameid := f\<rparr>;
           (e, p, c) \<leftarrow> read_exts buf bsz ext (p + n) 0 (ho_csrc out);
           let out = out\<lparr>ho_csrc := c\<rparr>;
           if e \<noteq> OK then Some (e, out)
           else Some (OK, out\<lparr>ho_rlen := p\<rparr>) } } }"

text \<open>Reference definitions: the big-endian bytes of a value and the header as a byte list.\<close>

fun be_bytes :: "nat \<Rightarrow> u64 \<Rightarrow> bytes" where
  "be_bytes 0 v = []"
| "be_bytes (Suc l) v = ucast (drop_bit (8 * l) v AND 0xff) # be_bytes l v"

definition hdr_bytes :: "u64 \<Rightarrow> u64 \<Rightarrow> u32 \<Rightarrow> bytes" where
  "hdr_bytes frame key csrc =
     (let ksz = (if key > 7 then calc_len (ucast key) else 0);
          flen = calc_len (ucast frame)
      in [hdr_byte0 csrc,
          hdr_byte1 flen (if key > 7 then 1 else 0) (if key > 7 then ksz - 1 else unat key)]
         @ be_bytes ksz key @ be_bytes flen frame
         @ (if csrc \<noteq> 0 then 0x31 # be_bytes 4 (ucast csrc) else []))"

declare calc_len_loop.simps [simp del] read_exts.simps [simp del]

section \<open>Lengths\<close>

lemma calc_len_loop_add: "calc_len_loop val l = l + calc_len_loop val 0"
proof (induction "unat val" arbitrary: val l rule: less_induct)
  case less
  show ?case
  proof (cases "val = 0")
    case True
    then show ?thesis by (simp add: calc_len_loop.simps [of 0])
  next
    case False
    then have "unat (drop_bit 8 val) < unat val" by (simp add: drop_bit_less_word)
    from less [OF this] have "\<And>k. calc_len_loop (drop_bit 8 val) k = k + calc_len_loop (drop_bit 8 val) 0" .
    from this [of "l + 1"] this [of 1] show ?thesis
      using False by (simp add: calc_len_loop.simps [of val])
  qed
qed

lemma calc_len_loop_unfold:
  "calc_len_loop val 0 = (if val = 0 then 0 else Suc (calc_len_loop (drop_bit 8 val) 0))"
  by (subst calc_len_loop.simps) (simp add: calc_len_loop_add [of _ "Suc 0"])

lemma calc_len_loop_fits: "drop_bit (8 * calc_len_loop val 0) val = 0"
proof (induction "unat val" arbitrary: val rule: less_induct)
  case less
  show ?case
  proof (cases "val = 0")
    case False
    then have "unat (drop_bit 8 val) < unat val" by (simp add: drop_bit_less_word)
    from less [OF this]
    have "drop_bit (8 * calc_len_loop (drop_bit 8 val) 0 + 8) val = 0" by (simp add: drop_bit_drop_bit)
    then show ?thesis using False by (simp add: calc_len_loop_unfold [of val] add.commute)
  qed simp
qed

lemma calc_len_loop_le: "drop_bit (8 * n) val = 0 \<Longrightarrow> calc_len_loop val 0 \<le> n"
proof (induction n arbitrary: val)
  case 0
  then show ?case by (simp add: calc_len_loop_unfold)
next
  case (Suc n)
  then have "drop_bit (8 * n) (drop_bit 8 val) = 0" by (simp add: drop_bit_drop_bit add.commute)
  then have "calc_len_loop (drop_bit 8 val) 0 \<le> n" by (rule Suc.IH)
  then show ?case by (simp add: calc_len_loop_unfold [of val])
qed

lemma drop_bit_32: "drop_bit 32 (val :: u32) = 0"
  by (rule bit_word_eqI) (simp add: bit_simps)

lemma calc_len_bounds: "1 \<le> calc_len val \<and> calc_len val \<le> 4"
proof -
  have "drop_bit (8 * 4) val = 0" by (simp add: drop_bit_32)
  then have "calc_len_loop val 0 \<le> 4" by (rule calc_len_loop_le)
  then show ?thesis by (auto simp: calc_len_def calc_len_loop_unfold [of val])
qed

lemma calc_len_fits: "drop_bit (8 * calc_len val) val = 0"
  using calc_len_loop_fits by (simp add: calc_len_def)

section \<open>Bytes of a value\<close>

lemma length_be_bytes [simp]: "length (be_bytes l v) = l"
  by (induction l) auto

lemma write_bytes_from_eq:
  "p + l \<le> length buf \<Longrightarrow>
   write_bytes_from l v buf p = Some (take p buf @ be_bytes l v @ drop (p + l) buf)"
proof (induction l arbitrary: buf p)
  case (Suc l)
  let ?b = "ucast (drop_bit (8 * l) v AND 0xff) :: u8"
  have "write_bytes_from (Suc l) v buf p = write_bytes_from l v (buf[p := ?b]) (Suc p)"
    using Suc.prems by (simp add: buf_simps)
  also have "\<dots> = Some (take (Suc p) (buf[p := ?b]) @ be_bytes l v @ drop (Suc p + l) (buf[p := ?b]))"
    using Suc.prems by (intro Suc.IH) simp
  finally show ?case
    using Suc.prems by (simp add: take_Suc_conv_app_nth)
qed simp

lemma write_bytes_eq:
  "1 \<le> l \<Longrightarrow> l \<le> 8 \<Longrightarrow> p + l \<le> length buf \<Longrightarrow>
   write_bytes buf p l v = Some (l, take p buf @ be_bytes l v @ drop (p + l) buf)"
  by (simp add: write_bytes_def write_bytes_from_eq)

lemma byte_mask: "(255 :: u64) = mask 8"
  by (simp add: mask_eq_exp_minus_1)

lemma shift_in_byte:
  "push_bit 8 (drop_bit (8 * Suc l) v) OR ucast (ucast (drop_bit (8 * l) v AND 0xff) :: u8)
     = drop_bit (8 * l) (v :: u64)"
proof (rule bit_word_eqI)
  fix n
  assume "n < LENGTH(64)"
  show "bit (push_bit 8 (drop_bit (8 * Suc l) v) OR ucast (ucast (drop_bit (8 * l) v AND 0xff) :: u8)) n
     = bit (drop_bit (8 * l) v) n"
  proof (cases "8 \<le> n")
    case True
    then obtain k where "n = 8 + k" using le_Suc_ex by blast
    then show ?thesis using \<open>n < LENGTH(64)\<close>
      by (auto simp: byte_mask bit_simps ac_simps)
  qed (use \<open>n < LENGTH(64)\<close> in \<open>auto simp: byte_mask bit_simps\<close>)
qed

lemma read_bytes_loop_be_bytes:
  "read_bytes_loop (xs @ be_bytes l v @ ys) (length xs) l (drop_bit (8 * l) v) = Some v"
proof (induction l arbitrary: xs)
  case (Suc l)
  let ?b = "ucast (drop_bit (8 * l) v AND 0xff) :: u8"
  have "read_bytes_loop (xs @ be_bytes (Suc l) v @ ys) (length xs) (Suc l) (drop_bit (8 * Suc l) v)
      = read_bytes_loop ((xs @ [?b]) @ be_bytes l v @ ys) (length (xs @ [?b])) l (drop_bit (8 * l) v)"
    using shift_in_byte [of l v] by simp
  then show ?case using Suc.IH [of "xs @ [?b]"] by simp
qed simp

lemma read_bytes_be_bytes:
  assumes "drop_bit (8 * l) v = 0" and "p = length xs"
  shows "read_bytes (xs @ be_bytes l v @ ys) p l = Some (l, v)"
  using read_bytes_loop_be_bytes [of xs l v ys] assms by (simp add: read_bytes_def)

lemma read_bytes_loop_safe: "p + l \<le> length buf \<Longrightarrow> \<exists>w. read_bytes_loop buf p l v = Some w"
  by (induction l arbitrary: p v) (auto simp: buf_simps)

lemma read_bytes_safe: "p + l \<le> length buf \<Longrightarrow> \<exists>w. read_bytes buf p l = Some (l, w)"
  using read_bytes_loop_safe [of p l buf 0] by (auto simp: read_bytes_def)

lemma ucast_u32_id:
  assumes "v < 2 ^ 32" shows "ucast (ucast v :: u32) = (v :: u64)"
proof (rule word_unat_eq_iff [THEN iffD2])
  have "unat v < 2 ^ 32" using assms by (simp add: word_less_nat_alt)
  then show "unat (ucast (ucast v :: u32) :: u64) = unat v"
    by (simp add: unsigned_ucast_eq take_bit_eq_mod unat_mod_distrib)
qed

lemma drop_bit_ucast_u32: "drop_bit n (ucast (u :: u32) :: u64) = ucast (drop_bit n u)"
  by (rule bit_word_eqI) (auto simp: bit_simps dest: bit_imp_le_length)

lemma calc_len_fits_u64:
  assumes "v < 2 ^ 32" shows "drop_bit (8 * calc_len (ucast v)) (v :: u64) = 0"
proof -
  have "drop_bit (8 * calc_len (ucast v)) v = drop_bit (8 * calc_len (ucast v)) (ucast (ucast v :: u32) :: u64)"
    using ucast_u32_id [OF assms] by simp
  also have "\<dots> = 0" by (simp only: drop_bit_ucast_u32 calc_len_fits) simp
  finally show ?thesis .
qed

section \<open>Writing\<close>

text \<open>\<open>over xs buf\<close>: the bytes \<open>xs\<close> written over the front of \<open>buf\<close>.\<close>

definition over :: "bytes \<Rightarrow> bytes \<Rightarrow> bytes" where
  "over xs buf = xs @ drop (length xs) buf"

lemma over_store:
  assumes "p = length xs" and "length xs < length buf"
  shows "store (over xs buf) p v = Some (over (xs @ [v]) buf)"
  using assms by (cases "drop (length xs) buf") (auto simp: over_def store_def drop_Suc tl_drop [symmetric])

lemma over_write_bytes:
  assumes "p = length xs" and "length xs + l \<le> length buf" and "1 \<le> l" and "l \<le> 8"
  shows "write_bytes (over xs buf) p l v = Some (l, over (xs @ be_bytes l v) buf)"
  using assms by (simp add: over_def write_bytes_eq add.commute)

lemma length_hdr_bytes:
  "length (hdr_bytes frame key csrc) =
     2 + (if key > 7 then calc_len (ucast key) else 0) + calc_len (ucast frame)
       + (if csrc \<noteq> 0 then 5 else 0)"
  by (simp add: hdr_bytes_def Let_def)

lemma frame_hdr_write_eq:
  assumes "bsz \<le> length buf"
  shows "frame_hdr_write buf bsz frame key csrc =
    Some (let h = hdr_bytes frame key csrc
          in if bsz < length h then (0, buf) else (length h, h @ drop (length h) buf))"
proof (cases "bsz < length (hdr_bytes frame key csrc)")
  case True
  then show ?thesis by (simp add: frame_hdr_write_def length_hdr_bytes Let_def)
next
  case False
  let ?k = "calc_len (ucast key)" and ?f = "calc_len (ucast frame)"
  have k: "1 \<le> ?k" "?k \<le> 4" and f: "1 \<le> ?f" "?f \<le> 4" using calc_len_bounds by blast+
  have len: "length (hdr_bytes frame key csrc) \<le> length buf" using False assms by simp
  have buf: "over [] buf = buf" by (simp add: over_def)
  have ne: "buf \<noteq> []" using len by (auto simp: length_hdr_bytes)
  have "frame_hdr_write (over [] buf) bsz frame key csrc
      = Some (length (hdr_bytes frame key csrc), over (hdr_bytes frame key csrc) buf)"
    using False len k f ne
    by (cases "key > 7"; cases "csrc = 0")
       (simp_all add: frame_hdr_write_def hdr_bytes_def Let_def over_store over_write_bytes)
  then show ?thesis using False by (simp add: buf over_def Let_def)
qed

section \<open>Reading\<close>

lemma read_exts_safe:
  "bsz \<le> length buf \<Longrightarrow> p \<le> bsz \<Longrightarrow>
   \<exists>p' c. read_exts buf bsz ext p i csrc = Some (OK, p', c) \<and> p \<le> p' \<and> p' \<le> bsz"
proof (induction buf bsz ext p i csrc rule: read_exts.induct)
  case (1 buf bsz ext p i csrc)
  show ?case
  proof (cases "ext \<noteq> 0 \<and> p < bsz \<and> i < MAX_EXTS")
    case False
    then show ?thesis using "1.prems" by (subst read_exts.simps) auto
  next
    case True
    let ?b = "buf ! p" and ?e = "unat (drop_bit 4 (buf ! p) AND 7) + 1"
    have ld: "load buf p = Some ?b" using True "1.prems" by (simp add: load_def)
    show ?thesis
    proof (cases "bsz \<le> p + ?e + 1")
      case stop: True
      then show ?thesis using True "1.prems" ld by (subst read_exts.simps) (auto simp: Let_def)
    next
      case go: False
      show ?thesis
      proof (cases "?b AND 0x0f = 1 \<and> ?e = 4")
        case csrc: True
        then obtain w where w: "read_bytes buf (p + 1) 4 = Some (4, w)"
          using go "1.prems" read_bytes_safe [of "p + 1" 4 buf] by auto
        have "\<exists>p' c. read_exts buf bsz (?b AND 0x80) (p + ?e + 1) (i + 1) (ucast w) = Some (OK, p', c)
            \<and> p + ?e + 1 \<le> p' \<and> p' \<le> bsz"
          using csrc go "1.prems" by (intro "1.IH"(1) [OF True ld refl refl go refl csrc _ w refl]) auto
        then show ?thesis using True go csrc w ld
          by (subst read_exts.simps) (auto simp: Let_def)
      next
        case other: False
        have "\<exists>p' c. read_exts buf bsz (?b AND 0x80) (p + ?e + 1) (i + 1) csrc = Some (OK, p', c)
            \<and> p + ?e + 1 \<le> p' \<and> p' \<le> bsz"
          using go "1.prems" by (intro "1.IH"(2) [OF True ld refl refl go refl other]) auto
        then show ?thesis using True go other ld
          by (subst read_exts.simps) (auto simp: Let_def)
      qed
    qed
  qed
qed

lemma hdr_byte1_fields_all:
  "\<forall>f \<in> set [1, 2, 3, 4]. \<forall>x \<in> set [0, 1]. \<forall>k \<in> set [0, 1, 2, 3, 4, 5, 6, 7].
     unat (drop_bit 4 (hdr_byte1 f x k) AND 7) = f - 1
     \<and> drop_bit 3 (hdr_byte1 f x k) AND 1 = word_of_nat x \<and> unat (hdr_byte1 f x k AND 7) = k"
  by (simp add: hdr_byte1_def)

lemma hdr_byte1_fields:
  assumes "1 \<le> f" "f \<le> 4" "x \<le> 1" "k \<le> 7"
  shows "unat (drop_bit 4 (hdr_byte1 f x k) AND 7) = f - 1"
    and "drop_bit 3 (hdr_byte1 f x k) AND 1 = word_of_nat x"
    and "unat (hdr_byte1 f x k AND 7) = k"
proof -
  have "f \<in> set [1, 2, 3, 4]" "x \<in> set [0, 1]" "k \<in> set [0, 1, 2, 3, 4, 5, 6, 7]"
    using assms by auto
  then show "unat (drop_bit 4 (hdr_byte1 f x k) AND 7) = f - 1"
    and "drop_bit 3 (hdr_byte1 f x k) AND 1 = word_of_nat x"
    and "unat (hdr_byte1 f x k AND 7) = k"
    using hdr_byte1_fields_all by blast+
qed

lemma hdr_byte0_ext: "hdr_byte0 csrc AND 0x10 = 0 \<longleftrightarrow> csrc = 0"
  by (simp add: hdr_byte0_def)

lemma ucast_ucast_u32 [simp]: "ucast (ucast (c :: u32) :: u64) = c"
  by (rule bit_word_eqI) (simp add: bit_simps)

lemma read_exts_none: "read_exts buf bsz 0 p i csrc = Some (OK, p, csrc)"
  by (subst read_exts.simps) simp

lemma read_exts_csrc:
  assumes "buf = xs @ 0x31 # be_bytes 4 (ucast csrc) @ ys" and "ys \<noteq> []" and "ext \<noteq> 0"
  shows "read_exts buf (length buf) ext (length xs) 0 c0 = Some (OK, length xs + 5, csrc)"
proof -
  have d: "drop_bit (8 * 4) (ucast csrc :: u64) = 0"
    by (simp only: drop_bit_ucast_u32) (simp add: drop_bit_32)
  have "read_bytes buf (length xs + 1) 4 = Some (4, ucast csrc)"
    using read_bytes_be_bytes [OF d, of _ "xs @ [0x31]" ys] assms(1) by simp
  moreover have "load buf (length xs) = Some 0x31" using assms(1) by simp
  moreover have "length xs + 5 < length buf" using assms(1,2) by (cases ys) simp_all
  ultimately show ?thesis
    using assms(3) by (subst read_exts.simps) (simp add: Let_def MAX_EXTS_def read_exts_none)
qed

lemma frame_hdr_read_hdr_bytes:
  assumes f: "frame < 2 ^ 32" and k: "key < 2 ^ 32" and pl: "csrc \<noteq> 0 \<Longrightarrow> payload \<noteq> []"
  defines "h \<equiv> hdr_bytes frame key csrc"
  shows "frame_hdr_read (h @ payload) (length (h @ payload)) out =
    Some (OK, out\<lparr>ho_frameid := frame, ho_key := key,
                   ho_csrc := if csrc \<noteq> 0 then csrc else ho_csrc out, ho_rlen := length h\<rparr>)"
proof -
  let ?kl = "calc_len (ucast key)" and ?fl = "calc_len (ucast frame)"
  let ?K = "if key > 7 then be_bytes ?kl key else []" and ?F = "be_bytes ?fl frame"
  let ?X = "if csrc \<noteq> 0 then 0x31 # be_bytes 4 (ucast csrc) else []"
  let ?b0 = "hdr_byte0 csrc"
  let ?b1 = "hdr_byte1 ?fl (if key > 7 then 1 else 0) (if key > 7 then ?kl - 1 else unat key)"
  let ?buf = "h @ payload"
  have kl: "1 \<le> ?kl" "?kl \<le> 4" and fl: "1 \<le> ?fl" "?fl \<le> 4" using calc_len_bounds by blast+
  have small: "\<not> key > 7 \<Longrightarrow> unat key \<le> 7" by (simp add: not_less word_le_nat_alt)
  have h: "?buf = [?b0, ?b1] @ ?K @ ?F @ ?X @ payload" by (simp add: h_def hdr_bytes_def Let_def)
  have lenh: "length h = 2 + length ?K + ?fl + length ?X" by (simp add: h_def length_hdr_bytes)
  have ld: "load ?buf 0 = Some ?b0" "load ?buf 1 = Some ?b1" unfolding h by (simp_all add: load_def)
  have b1: "unat (drop_bit 4 ?b1 AND 7) + 1 = ?fl"
    "drop_bit 3 ?b1 AND 1 = (if key > 7 then 1 else 0)"
    "unat (?b1 AND 7) = (if key > 7 then ?kl - 1 else unat key)"
    using hdr_byte1_fields [of ?fl "if key > 7 then 1 else 0" "if key > 7 then ?kl - 1 else unat key"]
      kl fl small by auto
  have rk: "read_bytes ?buf 2 ?kl = Some (?kl, key)" if "key > 7"
    using read_bytes_be_bytes [OF calc_len_fits_u64 [OF k], of 2 "[?b0, ?b1]"] that unfolding h by simp
  have rf: "read_bytes ?buf (2 + length ?K) ?fl = Some (?fl, frame)"
    using read_bytes_be_bytes [OF calc_len_fits_u64 [OF f], of "2 + length ?K" "[?b0, ?b1] @ ?K"]
    unfolding h by simp
  have rx: "read_exts ?buf (length ?buf) (?b0 AND 0x10) (2 + length ?K + ?fl) 0 c
      = Some (OK, length h, if csrc \<noteq> 0 then csrc else c)" for c
  proof (cases "csrc = 0")
    case True
    then show ?thesis by (simp add: lenh hdr_byte0_ext [THEN iffD2] read_exts_none)
  next
    case False
    have lx: "length ([?b0, ?b1] @ ?K @ ?F) = 2 + length ?K + ?fl" by simp
    have "read_exts ?buf (length ?buf) (?b0 AND 0x10) (length ([?b0, ?b1] @ ?K @ ?F)) 0 c
        = Some (OK, length ([?b0, ?b1] @ ?K @ ?F) + 5, csrc)"
      using False pl h by (intro read_exts_csrc [where ys = payload]) (auto simp: hdr_byte0_ext)
    then show ?thesis unfolding lx using False by (simp add: lenh)
  qed
  have ge: "2 + length ?K + ?fl \<le> length ?buf" using lenh by simp
  show ?thesis
  proof (cases "key > 7")
    case True
    then show ?thesis using ge rk rf rx kl b1 ld
      unfolding frame_hdr_read_def FRAME_HDR_MINSZ_def by (simp add: Let_def)
  next
    case False
    then show ?thesis using ge rf rx b1 ld
      unfolding frame_hdr_read_def FRAME_HDR_MINSZ_def by (simp add: Let_def)
  qed
qed

section \<open>Properties\<close>

text \<open>
  C22: A header written for a frame counter and a key index below \<open>2 ^ 32\<close>, followed by a payload
  (at least one byte when the header carries a CSRC), is read back exactly: the counter, the
  key index, the CSRC and the header length; without CSRC the caller's CSRC is untouched.
\<close>

theorem frame_hdr_roundtrip:
  assumes "frame < 2 ^ 32" and "key < 2 ^ 32" and "bsz \<le> length buf"
    and "frame_hdr_write buf bsz frame key csrc = Some (n, buf')" and "0 < n"
    and "csrc = 0 \<or> 0 < length payload"
  shows "frame_hdr_read (take n buf' @ payload) (n + length payload) out =
    Some (OK, out\<lparr>ho_frameid := frame, ho_key := key,
                   ho_csrc := if csrc \<noteq> 0 then csrc else ho_csrc out, ho_rlen := n\<rparr>)"
proof -
  have "n = length (hdr_bytes frame key csrc)" "take n buf' = hdr_bytes frame key csrc"
    using frame_hdr_write_eq [OF assms(3), of frame key csrc] assms(4,5)
    by (auto simp: Let_def split: if_splits)
  then show ?thesis
    using frame_hdr_read_hdr_bytes [OF assms(1,2), of csrc payload out] assms(6) by auto
qed

theorem frame_hdr_roundtrip_witness:
  "\<exists>n buf'. frame_hdr_write (replicate 16 0) 16 0x224466 0x11335577 0x1020304 = Some (n, buf') \<and>
     frame_hdr_read (take n buf' @ [7]) (n + length [7 :: u8])
       \<lparr>ho_frameid = 0, ho_key = 0, ho_csrc = 0, ho_rlen = 0\<rparr> =
     Some (OK, \<lparr>ho_frameid = 0x224466, ho_key = 0x11335577, ho_csrc = 0x1020304, ho_rlen = n\<rparr>)"
proof -
  have "frame_hdr_write (replicate 16 0) 16 0x224466 0x11335577 0x1020304
    = Some (14, [0x10, 0x2b, 0x11, 0x33, 0x55, 0x77, 0x22, 0x44, 0x66, 0x31, 1, 2, 3, 4, 0, 0])"
    by code_simp
  from frame_hdr_roundtrip [OF _ _ _ this, of "[7]" "\<lparr>ho_frameid = 0, ho_key = 0, ho_csrc = 0, ho_rlen = 0\<rparr>"]
  show ?thesis using \<open>frame_hdr_write _ _ _ _ _ = _\<close> by simp
qed

lemma frame_hdr_read_bounds:
  assumes "FRAME_HDR_MINSZ \<le> bsz" and "bsz \<le> length buf"
  shows "\<exists>e out'. frame_hdr_read buf bsz out = Some (e, out') \<and>
     (e = OK \<and> FRAME_HDR_MINSZ < ho_rlen out' \<and> ho_rlen out' \<le> bsz \<or> e = ERANGE)"
proof -
  let ?b1 = "buf ! 1"
  let ?fl = "unat (drop_bit 4 ?b1 AND 7) + 1" and ?kl = "unat (?b1 AND 7) + 1"
  have ld: "load buf 0 = Some (buf ! 0)" "load buf (Suc 0) = Some ?b1"
    using assms by (auto simp: FRAME_HDR_MINSZ_def load_def)
  have rest: "\<exists>e out'. do { (n, f) \<leftarrow> read_bytes buf p ?fl;
        let out = out\<lparr>ho_frameid := f\<rparr>;
        (e, p, c) \<leftarrow> read_exts buf bsz (buf ! 0 AND 0x10) (p + n) 0 (ho_csrc out);
        let out = out\<lparr>ho_csrc := c\<rparr>;
        if e \<noteq> OK then Some (e, out) else Some (OK, out\<lparr>ho_rlen := p\<rparr>) } = Some (e, out') \<and>
      (e = OK \<and> p < ho_rlen out' \<and> ho_rlen out' \<le> bsz \<or> e = ERANGE)"
    if le: "p + ?fl \<le> bsz" for p and out :: hdr_out
  proof -
    obtain f where "read_bytes buf p ?fl = Some (?fl, f)"
      using read_bytes_safe [of p ?fl buf] le assms by auto
    moreover obtain q c where "read_exts buf bsz (buf ! 0 AND 0x10) (p + ?fl) 0 (ho_csrc out) = Some (OK, q, c)"
        "p + ?fl \<le> q" "q \<le> bsz"
      using read_exts_safe [OF assms(2) le] by blast
    ultimately show ?thesis by (auto simp: Let_def)
  qed
  note read = frame_hdr_read_def FRAME_HDR_MINSZ_def ld Let_def
  show ?thesis
  proof (cases "drop_bit 3 ?b1 AND 1 = 0")
    case True
    then show ?thesis
      using rest [of 2 "out\<lparr>ho_key := word_of_nat (unat (?b1 AND 7))\<rparr>"]
      by (cases "bsz < 2 + ?fl") (auto simp: read)
  next
    case False
    show ?thesis
    proof (cases "bsz < 2 + ?kl")
      case True
      then show ?thesis using False by (auto simp: read)
    next
      case fits: False
      then obtain k where "read_bytes buf 2 ?kl = Some (?kl, k)"
        using read_bytes_safe [of 2 ?kl buf] assms by auto
      then show ?thesis
        using rest [of "2 + ?kl" "out\<lparr>ho_key := k\<rparr>"] False fits
        by (cases "bsz < 2 + ?kl + ?fl") (fastforce simp: read)+
    qed
  qed
qed

text \<open>
  C34: Whatever bytes a buffer of at least two bytes holds, reading a header performs no access
  outside it, ends with OK or ERANGE, and on OK reports a header length within the buffer.
\<close>

theorem frame_hdr_read_safe:
  assumes "FRAME_HDR_MINSZ \<le> bsz" and "bsz \<le> length buf"
  shows "\<exists>e out'. frame_hdr_read buf bsz out = Some (e, out') \<and>
     (e = OK \<and> FRAME_HDR_MINSZ < ho_rlen out' \<and> ho_rlen out' \<le> bsz \<or> e = ERANGE)"
  using assms by (rule frame_hdr_read_bounds)

theorem frame_hdr_read_safe_witness:
  "\<exists>e out'. frame_hdr_read [0x10, 0xff, 1] 3 \<lparr>ho_frameid = 0, ho_key = 0, ho_csrc = 0, ho_rlen = 0\<rparr>
      = Some (e, out') \<and> (e = OK \<and> FRAME_HDR_MINSZ < ho_rlen out' \<and> ho_rlen out' \<le> 3 \<or> e = ERANGE)"
  by (rule frame_hdr_read_safe) (simp_all add: FRAME_HDR_MINSZ_def)

text \<open>
  Writing a header into a buffer of \<open>bsz\<close> bytes stores nothing outside it and nothing after
  the header, returns a length that fits, and succeeds whenever the caller provides
  \<^verbatim>\<open>frame_hdr_max_size()\<close> bytes.
\<close>

lemma frame_hdr_write_safe:
  assumes "bsz \<le> length buf"
  shows "\<exists>n buf'. frame_hdr_write buf bsz frame key csrc = Some (n, buf') \<and>
     n \<le> bsz \<and> length buf' = length buf \<and> drop n buf' = drop n buf \<and>
     (n = 0 \<longrightarrow> bsz < frame_hdr_max_size)"
proof -
  have "length (hdr_bytes frame key csrc) < frame_hdr_max_size"
    using calc_len_bounds [of "ucast key"] calc_len_bounds [of "ucast frame"]
    by (auto simp: length_hdr_bytes frame_hdr_max_size_def)
  moreover have "hdr_bytes frame key csrc \<noteq> []" by (simp add: hdr_bytes_def Let_def)
  ultimately show ?thesis
    using assms by (auto simp: frame_hdr_write_eq Let_def)
qed

lemma frame_hdr_write_safe_witness:
  "\<exists>n buf'. frame_hdr_write (replicate 90 0) 90 5 9 1 = Some (n, buf') \<and>
     n \<le> 90 \<and> length buf' = length (replicate 90 (0 :: u8)) \<and> drop n buf' = drop n (replicate 90 0) \<and>
     (n = 0 \<longrightarrow> 90 < frame_hdr_max_size)"
  by (rule frame_hdr_write_safe) simp

text \<open>Up to four bytes of a value come from its low 32 bits.\<close>

lemma write_bytes_from_low:
  fixes v w :: u64
  assumes "(ucast v :: u32) = ucast w"
  shows "l \<le> 4 \<Longrightarrow> write_bytes_from l v buf p = write_bytes_from l w buf p"
proof (induction l arbitrary: buf p)
  case (Suc l)
  have "(ucast (drop_bit (8 * l) v AND 0xff) :: u8) = ucast (drop_bit (8 * l) w AND 0xff)"
  proof (rule bit_word_eqI)
    fix n assume "n < LENGTH(8)"
    then have "8 * l + n < 32" using Suc.prems by simp
    moreover have "bit (ucast v :: u32) (8 * l + n) = bit (ucast w :: u32) (8 * l + n)" using assms by simp
    ultimately have "bit v (8 * l + n) = bit w (8 * l + n)" by (simp add: bit_simps)
    moreover have "(0xff :: u64) = mask 8" by (simp add: mask_eq_exp_minus_1)
    ultimately show "bit (ucast (drop_bit (8 * l) v AND 0xff) :: u8) n = bit (ucast (drop_bit (8 * l) w AND 0xff) :: u8) n"
      by (simp add: bit_simps)
  qed
  then show ?case using Suc by simp
qed simp

lemma write_bytes_low:
  "(ucast v :: u32) = ucast w \<Longrightarrow> l \<le> 4 \<Longrightarrow> write_bytes buf p l v = write_bytes buf p l w"
  using write_bytes_from_low [of v w l buf p] by (simp add: write_bytes_def)

text \<open>
  C36: a header says nothing of the bits above the low 32. The frame counter and the key index are 64 bit
  arguments, but their lengths are computed from their low 32 bits. So the headers of two frames are the
  same if the low 32 bits of their counters agree and their key indices are the same, or agree in the low 32
  bits and are both above 7.
\<close>

theorem frame_hdr_write_truncates:
  assumes "(ucast frame :: u32) = ucast frame'" and "(ucast key :: u32) = ucast key'"
    and "key = key' \<or> key > 7 \<and> key' > 7"
  shows "frame_hdr_write buf bsz frame key csrc = frame_hdr_write buf bsz frame' key' csrc"
proof -
  have k: "key > 7 \<longleftrightarrow> key' > 7" "\<not> key > 7 \<Longrightarrow> unat key = unat key'" using assms(3) by auto
  have "calc_len (ucast key') - 1 + 1 \<le> 4" "calc_len (ucast frame') \<le> 4"
    using calc_len_bounds [of "ucast key'"] calc_len_bounds [of "ucast frame'"] by simp_all
  then have "write_bytes b p (calc_len (ucast key') - 1 + 1) key = write_bytes b p (calc_len (ucast key') - 1 + 1) key'"
      "write_bytes b p (calc_len (ucast frame')) frame = write_bytes b p (calc_len (ucast frame')) frame'" for b p
    using write_bytes_low [OF assms(2)] write_bytes_low [OF assms(1)] by blast+
  then show ?thesis
    using k(2) by (simp only: frame_hdr_write_def Let_def k(1) assms(1,2) split: if_split) (simp split: bind_splits)
qed

theorem frame_hdr_write_truncates_witness:
  "frame_hdr_write (replicate 20 0) 20 0x200000005 0x100000008 3 = frame_hdr_write (replicate 20 0) 20 5 8 3"
  by (rule frame_hdr_write_truncates) (simp_all)

end
