(* ===== verification/Keystore.thy ===== *)
theory Keystore
  imports AVS_Prelude
begin

text \<open>
  The key store of an encrypted call, \<^verbatim>\<open>src/src/keystore/keystore.c\<close>: the session keys of a call in
  order of their index, the current key, the derivation of media keys from session keys and of the
  next session key from the last (hashing forward), key rotation and the listeners.

  A \<^verbatim>\<open>struct keyinfo\<close> is a record with its address; \<^verbatim>\<open>ks->current\<close> is the address of a list
  element or NULL, and reading through it looks the address up, so a dangling or NULL pointer is
  the value \<open>None\<close>. The functions of OpenSSL and libre that the code calls are the fields of
  \<open>ks_env\<close>: HKDF, \<^verbatim>\<open>list_sort\<close>, whether the allocation of the record for a key index succeeds, and
  the clock. Operations do not interleave: each is one step, under the lock that the code takes, with the one
  exception that \<^verbatim>\<open>keystore_get_current\<close> reads without it.
\<close>

section \<open>State\<close>

record keyinfo =
  ki_addr :: nat
  ki_skey :: bytes
  ki_mkey :: bytes
  ki_index :: u32
  ki_update_ts :: u64

record keystore =
  ks_keyl :: "keyinfo list"
  ks_current :: "nat option"
  ks_init :: bool
  ks_salt :: bytes
  ks_hash_forward :: bool
  ks_has_keys :: bool
  ks_decrypt_successful :: bool
  ks_decrypt_attempted :: bool
  ks_err_reported :: bool
  ks_listeners :: "nat list"
  ks_update_ts :: u64
  ks_next_addr :: nat
  ks_notified :: "nat list"

text \<open>
  \<open>ks_next_addr\<close> is the allocator's next fresh address and \<open>ks_notified\<close> the trace of the listener
  calls made so far (a listener is named by its argument pointer, which is how it is removed).
\<close>

record ks_env =
  env_hkdf :: "nat \<Rightarrow> bytes \<Rightarrow> bytes \<Rightarrow> bytes \<Rightarrow> bytes option"
  env_sort :: "(keyinfo \<Rightarrow> keyinfo \<Rightarrow> bool) \<Rightarrow> keyinfo list \<Rightarrow> keyinfo list"
  env_alloc :: "u32 \<Rightarrow> bool"
  env_now :: u64

definition E2EE_SESSIONKEY_SIZE :: nat where
  "E2EE_SESSIONKEY_SIZE = 32"

definition NUM_KEYS :: u32 where
  "NUM_KEYS = 16"

definition bytes_of :: "string \<Rightarrow> bytes" where
  "bytes_of s = map (\<lambda>c. of_char c) s"

definition SKEY_INFO :: bytes where
  "SKEY_INFO = bytes_of ''session_key''"

definition MKEY_INFO :: bytes where
  "MKEY_INFO = bytes_of ''media_key''"

definition CS_INFO :: bytes where
  "CS_INFO = bytes_of ''cs''"

section \<open>Operations\<close>

text \<open>memcpy of at most 32 bytes into a zeroed key, and out of a key into a zeroed buffer.\<close>

definition key_in :: "bytes \<Rightarrow> bytes" where
  "key_in key = (let sz = min (length key) E2EE_SESSIONKEY_SIZE
                 in take sz key @ replicate (E2EE_SESSIONKEY_SIZE - sz) 0)"

definition key_out :: "nat \<Rightarrow> bytes \<Rightarrow> bytes" where
  "key_out ksz key = (let sz = min ksz E2EE_SESSIONKEY_SIZE
                      in take sz key @ replicate (ksz - sz) 0)"

definition is_empty :: "bytes \<Rightarrow> bool" where
  "is_empty buf = (if length buf < 1 then True
                   else hd buf = 0 \<and> take (length buf - 1) buf = tl buf)"

definition deref :: "keystore \<Rightarrow> nat \<Rightarrow> keyinfo option" where
  "deref ks a = find (\<lambda>k. ki_addr k = a) (ks_keyl ks)"

text \<open>\<^verbatim>\<open>le.next\<close> of the element at an address.\<close>

fun le_next :: "nat \<Rightarrow> keyinfo list \<Rightarrow> keyinfo option" where
  "le_next a [] = None"
| "le_next a [k] = None"
| "le_next a (k # k' # ks) = (if ki_addr k = a then Some k' else le_next a (k' # ks))"

fun get_latest :: "keyinfo list \<Rightarrow> keyinfo option" where
  "get_latest [] = None"
| "get_latest [k] = Some k"
| "get_latest (k # k' # ks) = get_latest (k' # ks)"

definition keystore_get_latest :: "keystore \<Rightarrow> keyinfo option" where
  "keystore_get_latest ks = get_latest (ks_keyl ks)"

text \<open>\<open>mem\<close>: the allocation succeeds; \<open>lock_err\<close>: what \<^verbatim>\<open>lock_alloc\<close> returns.\<close>

definition keystore_alloc :: "bool \<Rightarrow> err \<Rightarrow> u64 \<Rightarrow> bool \<Rightarrow> err \<times> keystore option" where
  "keystore_alloc mem lock_err now hash_forward =
     (if \<not> mem then (ENOMEM, None)
      else if lock_err \<noteq> OK then (lock_err, None)
      else (OK, Some \<lparr>ks_keyl = [], ks_current = None, ks_init = False, ks_salt = [],
                      ks_hash_forward = hash_forward, ks_has_keys = False,
                      ks_decrypt_successful = False, ks_decrypt_attempted = False,
                      ks_err_reported = False, ks_listeners = [], ks_update_ts = now,
                      ks_next_addr = 0, ks_notified = []\<rparr>))"

definition keystore_reset_keys :: "keystore \<Rightarrow> err \<times> keystore" where
  "keystore_reset_keys ks =
     (OK, ks\<lparr>ks_keyl := [], ks_current := None, ks_init := False, ks_has_keys := False,
             ks_decrypt_attempted := False, ks_decrypt_successful := False,
             ks_err_reported := False\<rparr>)"

definition keystore_reset :: "keystore \<Rightarrow> err \<times> keystore" where
  "keystore_reset ks =
     (OK, ks\<lparr>ks_keyl := [], ks_current := None, ks_init := False, ks_salt := [],
             ks_has_keys := False, ks_decrypt_attempted := False,
             ks_decrypt_successful := False\<rparr>)"

definition keystore_set_salt :: "bool \<Rightarrow> u64 \<Rightarrow> keystore \<Rightarrow> bytes option \<Rightarrow> err \<times> keystore" where
  "keystore_set_salt mem now ks salt =
     (case salt of
        None \<Rightarrow> (EINVAL, ks)
      | Some s \<Rightarrow> if \<not> mem then (ENOMEM, ks)
                  else (OK, ks\<lparr>ks_salt := s, ks_update_ts := now\<rparr>))"

definition sort_handler :: "keyinfo \<Rightarrow> keyinfo \<Rightarrow> bool" where
  "sort_handler ki1 ki2 \<longleftrightarrow> ki_index ki1 \<le> ki_index ki2"

text \<open>The loop of \<^verbatim>\<open>keystore_organise\<close>: free the head while it is neither current nor next to it.\<close>

fun organise_drop :: "nat \<Rightarrow> keyinfo list \<Rightarrow> keyinfo list" where
  "organise_drop c [] = []"
| "organise_drop c [k] = [k]"
| "organise_drop c (k # k' # ks) =
     (if ki_addr k \<noteq> c \<and> ki_addr k' \<noteq> c then organise_drop c (k' # ks) else k # k' # ks)"

definition keystore_organise :: "ks_env \<Rightarrow> keystore \<Rightarrow> keystore" where
  "keystore_organise env ks =
     (let xs = env_sort env sort_handler (ks_keyl ks)
      in case ks_current ks of
           None \<Rightarrow> ks\<lparr>ks_keyl := xs\<rparr>
         | Some c \<Rightarrow> ks\<lparr>ks_keyl := organise_drop c xs\<rparr>)"

definition keystore_append_key :: "ks_env \<Rightarrow> keystore \<Rightarrow> keyinfo \<Rightarrow> keystore" where
  "keystore_append_key env ks kinfo =
     keystore_organise env (ks\<lparr>ks_keyl := ks_keyl ks @ [kinfo]\<rparr>)"

definition keystore_derive_media_key :: "ks_env \<Rightarrow> keystore \<Rightarrow> keyinfo \<Rightarrow> err \<times> keyinfo" where
  "keystore_derive_media_key env ks kinfo =
     (case env_hkdf env E2EE_SESSIONKEY_SIZE (ki_skey kinfo) (ks_salt ks) MKEY_INFO of
        Some m \<Rightarrow> (OK, kinfo\<lparr>ki_mkey := m\<rparr>)
      | None \<Rightarrow> (EINVAL, kinfo))"

definition keystore_derive_session_key ::
  "ks_env \<Rightarrow> keystore \<Rightarrow> keyinfo \<Rightarrow> err \<times> keystore \<times> keyinfo option" where
  "keystore_derive_session_key env ks prev =
     (if \<not> env_alloc env (ki_index prev + 1) then (ENOMEM, ks, None)
      else let a = ks_next_addr ks;
               kinfo = \<lparr>ki_addr = a, ki_skey = replicate E2EE_SESSIONKEY_SIZE 0,
                        ki_mkey = replicate E2EE_SESSIONKEY_SIZE 0,
                        ki_index = ki_index prev + 1, ki_update_ts = env_now env\<rparr>;
               ks = ks\<lparr>ks_next_addr := a + 1, ks_update_ts := env_now env\<rparr>
           in case env_hkdf env E2EE_SESSIONKEY_SIZE (ki_skey prev) (ks_salt ks) SKEY_INFO of
                Some s \<Rightarrow> (OK, ks, Some (kinfo\<lparr>ki_skey := s\<rparr>))
              | None \<Rightarrow> (EINVAL, ks, Some kinfo))"

function hash_loop :: "ks_env \<Rightarrow> keystore \<Rightarrow> keyinfo \<Rightarrow> u32 \<Rightarrow> err \<times> keystore" where
  "hash_loop env ks kinfo index =
     (if ki_index kinfo < index
      then case keystore_derive_session_key env ks kinfo of
             (e, ks', None) \<Rightarrow> (if e \<noteq> OK then (e, ks') else (ENOMEM, ks'))
           | (e, ks', Some knext) \<Rightarrow>
               if e \<noteq> OK then (e, ks')
               else case keystore_derive_media_key env ks' knext of
                      (e, knext') \<Rightarrow>
                        if e \<noteq> OK then (e, ks')
                        else hash_loop env (keystore_append_key env ks' knext') knext' index
      else (OK, ks))"
  by pat_completeness auto
termination
proof (relation "measure (\<lambda>(env, ks, kinfo, index). unat index - unat (ki_index kinfo))", goal_cases)
  case 2
  then show ?case
    by (auto simp: keystore_derive_session_key_def keystore_derive_media_key_def Let_def
                   unat_plus_one word_less_nat_alt
             split: if_splits option.splits)
qed simp

definition keystore_hash_to_key :: "ks_env \<Rightarrow> keystore \<Rightarrow> u32 \<Rightarrow> err \<times> keystore" where
  "keystore_hash_to_key env ks index =
     (case keystore_get_latest ks of
        None \<Rightarrow> (ENOENT, ks)
      | Some kinfo \<Rightarrow> hash_loop env ks kinfo index)"

text \<open>The calls of the registered handlers, in list order.\<close>

definition notify_listeners :: "keystore \<Rightarrow> keystore" where
  "notify_listeners ks = ks\<lparr>ks_notified := ks_notified ks @ ks_listeners ks\<rparr>"

text \<open>Assignment through the pointer to a list element.\<close>

definition upd_key :: "keyinfo \<Rightarrow> keyinfo list \<Rightarrow> keyinfo list" where
  "upd_key k xs = map (\<lambda>x. if ki_addr x = ki_addr k then k else x) xs"

definition keystore_set_session_key ::
  "ks_env \<Rightarrow> keystore \<Rightarrow> u32 \<Rightarrow> bytes \<Rightarrow> (err \<times> keystore) option" where
  "keystore_set_session_key env ks index key =
     (if length key = 0 then Some (EINVAL, ks)
      else do {
        let sz = min (length key) E2EE_SESSIONKEY_SIZE;
        old \<leftarrow> (case ks_current ks of
                   None \<Rightarrow> Some False
                 | Some c \<Rightarrow> map_option (\<lambda>k. index < ki_index k) (deref ks c));
        if old then Some (EALREADY, ks)
        else case find (\<lambda>k. index = ki_index k) (ks_keyl ks) of
          Some kinfo \<Rightarrow>
            if take sz (ki_skey kinfo) = take sz key then Some (EALREADY, ks)
            else do {
              let kinfo = kinfo\<lparr>ki_skey := key_in key\<rparr>;
              let ks = ks\<lparr>ks_update_ts := env_now env\<rparr>;
              let (e, kinfo) = keystore_derive_media_key env ks kinfo;
              Some (e, ks\<lparr>ks_keyl := upd_key kinfo (ks_keyl ks)\<rparr>) }
        | None \<Rightarrow>
            if \<not> env_alloc env index then Some (ENOMEM, ks)
            else do {
              let a = ks_next_addr ks;
              let kinfo = \<lparr>ki_addr = a, ki_skey = key_in key,
                           ki_mkey = replicate E2EE_SESSIONKEY_SIZE 0,
                           ki_index = index, ki_update_ts = env_now env\<rparr>;
              let ks = ks\<lparr>ks_next_addr := a + 1, ks_update_ts := env_now env\<rparr>;
              let (e, kinfo) = keystore_derive_media_key env ks kinfo;
              if e \<noteq> OK then Some (e, ks)
              else do {
                let ks = (keystore_append_key env ks kinfo)\<lparr>ks_has_keys := True\<rparr>;
                if \<not> ks_init ks
                then do {
                  let ks = keystore_organise env (ks\<lparr>ks_current := Some a\<rparr>);
                  Some (OK, notify_listeners (ks\<lparr>ks_init := True\<rparr>)) }
                else Some (OK, ks) } } })"

definition keystore_set_fresh_session_key ::
  "ks_env \<Rightarrow> keystore \<Rightarrow> u32 \<Rightarrow> bytes option \<Rightarrow> bytes option \<Rightarrow> (err \<times> keystore) option" where
  "keystore_set_fresh_session_key env ks index key salt =
     (case (key, salt) of
        (Some k, Some s) \<Rightarrow>
          (case env_hkdf env E2EE_SESSIONKEY_SIZE k s CS_INFO of
             Some hashed_key \<Rightarrow> keystore_set_session_key env ks index hashed_key
           | None \<Rightarrow> Some (EINVAL, ks))
      | _ \<Rightarrow> Some (EINVAL, ks))"

text \<open>The getters return the code, the index parameter and the key buffer after the call.\<close>

definition keystore_get_current_session_key ::
  "keystore \<Rightarrow> u32 \<Rightarrow> nat \<Rightarrow> (err \<times> u32 \<times> bytes) option" where
  "keystore_get_current_session_key ks pindex ksz =
     (case ks_current ks of
        None \<Rightarrow> Some (ENOENT, pindex, replicate ksz 0)
      | Some c \<Rightarrow> map_option (\<lambda>k. (OK, ki_index k, key_out ksz (ki_skey k))) (deref ks c))"

definition keystore_get_next_session_key ::
  "keystore \<Rightarrow> u32 \<Rightarrow> nat \<Rightarrow> (err \<times> u32 \<times> bytes) option" where
  "keystore_get_next_session_key ks pindex ksz =
     (case ks_current ks of
        None \<Rightarrow> Some (ENOENT, pindex, replicate ksz 0)
      | Some c \<Rightarrow>
          do { _ \<leftarrow> deref ks c;
               case le_next c (ks_keyl ks) of
                 None \<Rightarrow> Some (ENOENT, pindex, replicate ksz 0)
               | Some k \<Rightarrow> Some (OK, ki_index k, key_out ksz (ki_skey k)) })"

definition keystore_rotate :: "ks_env \<Rightarrow> keystore \<Rightarrow> (err \<times> keystore) option" where
  "keystore_rotate env ks =
     (case ks_current ks of
        None \<Rightarrow> Some (ENOENT, ks)
      | Some c \<Rightarrow>
          do { cur \<leftarrow> deref ks c;
               let (e, ks) = (case le_next c (ks_keyl ks) of
                   Some _ \<Rightarrow> (OK, ks)
                 | None \<Rightarrow> if ks_hash_forward ks
                           then keystore_hash_to_key env ks (ki_index cur + 1)
                           else (ENOENT, ks));
               if e \<noteq> OK then Some (e, ks)
               else do {
                 nxt \<leftarrow> le_next c (ks_keyl ks);
                 let ks = keystore_organise env (ks\<lparr>ks_current := Some (ki_addr nxt)\<rparr>);
                 Some (OK, notify_listeners ks) } })"

definition keystore_get_current ::
  "keystore \<Rightarrow> u32 \<Rightarrow> u64 \<Rightarrow> (err \<times> u32 \<times> u64) option" where
  "keystore_get_current ks pindex updated_ts =
     (case ks_current ks of
        None \<Rightarrow> Some (ENOENT, pindex, updated_ts)
      | Some c \<Rightarrow> map_option (\<lambda>k. (OK, ki_index k, ks_update_ts ks)) (deref ks c))"

definition keystore_set_current :: "ks_env \<Rightarrow> keystore \<Rightarrow> u32 \<Rightarrow> err \<times> keystore" where
  "keystore_set_current env ks index =
     (case find (\<lambda>k. ki_index k = index) (ks_keyl ks) of
        None \<Rightarrow> (ENOENT, ks)
      | Some kinfo \<Rightarrow>
          (OK, notify_listeners (keystore_organise env (ks\<lparr>ks_current := Some (ki_addr kinfo)\<rparr>))))"

text \<open>
  The search leaves \<^verbatim>\<open>kinfo\<close> at the key with the index or, without one, at the last key. The
  result is the code, the key buffer and the store.
\<close>

definition keystore_get_media_key ::
  "ks_env \<Rightarrow> keystore \<Rightarrow> u32 \<Rightarrow> nat \<Rightarrow> (err \<times> bytes \<times> keystore) option" where
  "keystore_get_media_key env ks index ksz =
     (case find (\<lambda>k. ki_index k = index) (ks_keyl ks) of
        Some kinfo \<Rightarrow>
          do { newer \<leftarrow> (case ks_current ks of
                   None \<Rightarrow> Some True
                 | Some c \<Rightarrow> map_option (\<lambda>k. index > ki_index k) (deref ks c));
               Some (OK, key_out ksz (ki_mkey kinfo),
                     if newer then keystore_organise env (ks\<lparr>ks_current := Some (ki_addr kinfo)\<rparr>)
                     else ks) }
      | None \<Rightarrow>
          if \<not> ks_hash_forward ks then Some (ENOENT, replicate ksz 0, ks)
          else case keystore_get_latest ks of
            None \<Rightarrow> Some (ENOENT, replicate ksz 0, ks\<lparr>ks_err_reported := True\<rparr>)
          | Some kinfo \<Rightarrow>
              do { let ks = ks\<lparr>ks_err_reported := False\<rparr>;
                   if index > ki_index kinfo \<and> index < ki_index kinfo + NUM_KEYS
                   then do {
                     let (e, ks) = keystore_hash_to_key env ks index;
                     if e \<noteq> OK then Some (ENOENT, replicate ksz 0, ks)
                     else case keystore_get_latest ks of
                       None \<Rightarrow> Some (ENOENT, replicate ksz 0, ks)
                     | Some kinfo \<Rightarrow>
                         do { c \<leftarrow> ks_current ks;
                              cur \<leftarrow> deref ks c;
                              Some (OK, key_out ksz (ki_mkey kinfo),
                                    if ki_index kinfo > ki_index cur
                                    then keystore_organise env
                                           (ks\<lparr>ks_current := Some (ki_addr kinfo)\<rparr>)
                                    else ks) } }
                   else Some (ENOENT, replicate ksz 0, ks) })"

definition keystore_get_max_key :: "keystore \<Rightarrow> u32" where
  "keystore_get_max_key ks =
     (case keystore_get_latest ks of None \<Rightarrow> 0 | Some kinfo \<Rightarrow> ki_index kinfo)"

text \<open>The result is the code and the buffer, which is zeroed first.\<close>

definition keystore_generate_iv ::
  "ks_env \<Rightarrow> string option \<Rightarrow> string option \<Rightarrow> bytes \<Rightarrow> err \<times> bytes" where
  "keystore_generate_iv env clientid stream_name iv =
     (case (clientid, stream_name) of
        (Some c, Some n) \<Rightarrow>
          (case env_hkdf env (length iv) (bytes_of c) (bytes_of n) [] of
             Some v \<Rightarrow> (OK, v)
           | None \<Rightarrow> (EINVAL, replicate (length iv) 0))
      | _ \<Rightarrow> (EINVAL, iv))"

definition keystore_set_decrypt_attempted :: "keystore \<Rightarrow> err \<times> keystore" where
  "keystore_set_decrypt_attempted ks = (OK, ks\<lparr>ks_decrypt_attempted := True\<rparr>)"

definition keystore_set_decrypt_successful :: "keystore \<Rightarrow> err \<times> keystore" where
  "keystore_set_decrypt_successful ks = (OK, ks\<lparr>ks_decrypt_successful := True\<rparr>)"

definition keystore_has_keys :: "keystore \<Rightarrow> bool" where
  "keystore_has_keys ks = ks_has_keys ks"

definition keystore_get_decrypt_states :: "keystore \<Rightarrow> bool \<times> bool" where
  "keystore_get_decrypt_states ks = (ks_decrypt_attempted ks, ks_decrypt_successful ks)"

definition keystore_add_listener :: "bool \<Rightarrow> keystore \<Rightarrow> nat \<Rightarrow> err \<times> keystore" where
  "keystore_add_listener mem ks arg =
     (if \<not> mem then (ENOMEM, ks) else (OK, ks\<lparr>ks_listeners := ks_listeners ks @ [arg]\<rparr>))"

definition keystore_remove_listener :: "keystore \<Rightarrow> nat \<Rightarrow> err \<times> keystore" where
  "keystore_remove_listener ks arg = (OK, ks\<lparr>ks_listeners := remove1 arg (ks_listeners ks)\<rparr>)"

text \<open>The walk from the current key (or the head) to the end of the list.\<close>

definition rotate_scan :: "u64 \<Rightarrow> keyinfo list \<Rightarrow> keyinfo option" where
  "rotate_scan min_ts xs =
     fold (\<lambda>kinfo latest. if ki_update_ts kinfo \<le> min_ts then Some kinfo else latest) xs None"

definition keystore_rotate_by_time ::
  "ks_env \<Rightarrow> keystore \<Rightarrow> u64 \<Rightarrow> (bool \<times> keystore) option" where
  "keystore_rotate_by_time env ks min_ts =
     do { xs \<leftarrow> (case ks_current ks of
                   None \<Rightarrow> Some (ks_keyl ks)
                 | Some c \<Rightarrow> map_option (\<lambda>_. dropWhile (\<lambda>k. ki_addr k \<noteq> c) (ks_keyl ks)) (deref ks c));
          let latest = rotate_scan min_ts xs;
          let ks = (case latest of
              None \<Rightarrow> ks
            | Some l \<Rightarrow>
                if ks_current ks \<noteq> Some (ki_addr l)
                then notify_listeners (keystore_organise env (ks\<lparr>ks_current := Some (ki_addr l)\<rparr>))
                else ks);
          Some (case latest of
                  None \<Rightarrow> True
                | Some l \<Rightarrow> le_next (ki_addr l) (ks_keyl ks) \<noteq> None, ks) }"

text \<open>The operations that change the store, as the steps of one machine.\<close>

datatype ks_op =
    OpResetKeys | OpReset
  | OpSetSalt bool "bytes option"
  | OpSetSessionKey u32 bytes
  | OpSetFreshSessionKey u32 "bytes option" "bytes option"
  | OpRotate
  | OpSetCurrent u32
  | OpGetMediaKey u32 nat
  | OpDecryptAttempted | OpDecryptSuccessful
  | OpAddListener bool nat
  | OpRemoveListener nat
  | OpRotateByTime u64

fun ks_step :: "keystore \<Rightarrow> ks_env \<times> ks_op \<Rightarrow> keystore option" where
  "ks_step ks (env, OpResetKeys) = Some (snd (keystore_reset_keys ks))"
| "ks_step ks (env, OpReset) = Some (snd (keystore_reset ks))"
| "ks_step ks (env, OpSetSalt mem salt) = Some (snd (keystore_set_salt mem (env_now env) ks salt))"
| "ks_step ks (env, OpSetSessionKey index key) =
     map_option snd (keystore_set_session_key env ks index key)"
| "ks_step ks (env, OpSetFreshSessionKey index key salt) =
     map_option snd (keystore_set_fresh_session_key env ks index key salt)"
| "ks_step ks (env, OpRotate) = map_option snd (keystore_rotate env ks)"
| "ks_step ks (env, OpSetCurrent index) = Some (snd (keystore_set_current env ks index))"
| "ks_step ks (env, OpGetMediaKey index ksz) =
     map_option (\<lambda>r. snd (snd r)) (keystore_get_media_key env ks index ksz)"
| "ks_step ks (env, OpDecryptAttempted) = Some (snd (keystore_set_decrypt_attempted ks))"
| "ks_step ks (env, OpDecryptSuccessful) = Some (snd (keystore_set_decrypt_successful ks))"
| "ks_step ks (env, OpAddListener mem arg) = Some (snd (keystore_add_listener mem ks arg))"
| "ks_step ks (env, OpRemoveListener arg) = Some (snd (keystore_remove_listener ks arg))"
| "ks_step ks (env, OpRotateByTime min_ts) = map_option snd (keystore_rotate_by_time env ks min_ts)"

text \<open>
  The guard of a step: \<^verbatim>\<open>list_sort\<close> sorts, and a rotation is not asked for when the key index has
  reached its largest value.
\<close>

definition ks_guard :: "keystore \<Rightarrow> ks_env \<times> ks_op \<Rightarrow> bool" where
  "ks_guard ks ev \<longleftrightarrow> list_sort_ok (env_sort (fst ev)) \<and>
     (snd ev = OpRotate \<longrightarrow> (\<forall>k \<in> set (ks_keyl ks). ki_index k \<noteq> 0xffffffff))"

declare hash_loop.simps [simp del]

section \<open>The invariant\<close>

text \<open>
  The list is in strictly increasing order of the index with no two elements at one address, the
  current key is the first or the second element (older keys are erased), and there is a current
  key exactly when there is a key.
\<close>

definition keys_wf :: "nat \<Rightarrow> keyinfo list \<Rightarrow> bool" where
  "keys_wf n xs \<longleftrightarrow> distinct (map ki_addr xs) \<and> (\<forall>k \<in> set xs. ki_addr k < n) \<and>
     sorted_wrt (\<lambda>a b. ki_index a < ki_index b) xs"

definition cur_ok :: "nat option \<Rightarrow> keyinfo list \<Rightarrow> bool" where
  "cur_ok current xs \<longleftrightarrow>
     (case current of None \<Rightarrow> xs = [] | Some c \<Rightarrow> c \<in> ki_addr ` set (take 2 xs))"

definition ks_inv :: "keystore \<Rightarrow> bool" where
  "ks_inv ks \<longleftrightarrow> keys_wf (ks_next_addr ks) (ks_keyl ks) \<and> cur_ok (ks_current ks) (ks_keyl ks) \<and>
     (ks_init ks \<longleftrightarrow> ks_keyl ks \<noteq> []) \<and> (ks_has_keys ks \<longleftrightarrow> ks_keyl ks \<noteq> [])"

text \<open>The keys that hashing forward derives from a key: the session key chain and its media keys.\<close>

fun ratchet :: "ks_env \<Rightarrow> bytes \<Rightarrow> nat \<Rightarrow> bytes \<Rightarrow> bytes option" where
  "ratchet env salt 0 s = Some s"
| "ratchet env salt (Suc n) s =
     (case env_hkdf env E2EE_SESSIONKEY_SIZE s salt SKEY_INFO of
        None \<Rightarrow> None | Some s' \<Rightarrow> ratchet env salt n s')"

definition media_key :: "ks_env \<Rightarrow> bytes \<Rightarrow> bytes \<Rightarrow> bytes option" where
  "media_key env salt s = env_hkdf env E2EE_SESSIONKEY_SIZE s salt MKEY_INFO"

fun chain :: "ks_env \<Rightarrow> bytes \<Rightarrow> keyinfo \<Rightarrow> keyinfo list \<Rightarrow> bool" where
  "chain env salt prev [] = True"
| "chain env salt prev (k # ks) =
     (ki_index k = ki_index prev + 1 \<and>
      env_hkdf env E2EE_SESSIONKEY_SIZE (ki_skey prev) salt SKEY_INFO = Some (ki_skey k) \<and>
      media_key env salt (ki_skey k) = Some (ki_mkey k) \<and> chain env salt k ks)"

lemma sort_handler_order: "sort_handler x y \<or> sort_handler y x" "transp sort_handler"
  by (auto simp: sort_handler_def transp_def)

lemma strict_sort:
  assumes "list_sort_ok srt" and "distinct (map ki_index xs)"
  shows "sorted_wrt (\<lambda>a b. ki_index a < ki_index b) (srt sort_handler xs)"
proof -
  note s = list_sort_okD [OF assms(1) sort_handler_order, of xs]
  have "mset (map ki_index (srt sort_handler xs)) = mset (map ki_index xs)"
    using s(1) by (simp add: mset_map)
  then have "distinct (map ki_index (srt sort_handler xs))"
    using assms(2) by (metis mset_eq_imp_distinct_iff)
  moreover have "sorted (map ki_index (srt sort_handler xs))"
    using s(2) by (simp add: sorted_map sort_handler_def [abs_def])
  ultimately have "sorted_wrt (<) (map ki_index (srt sort_handler xs))"
    by (simp add: strict_sorted_iff)
  then show ?thesis by (simp add: sorted_wrt_map)
qed

lemma strict_unique:
  assumes "sorted_wrt (\<lambda>a b. ki_index a < ki_index b) xs"
    and "sorted_wrt (\<lambda>a b. ki_index a < ki_index b) ys" and "set xs = set ys"
  shows "xs = ys"
proof -
  have "map ki_index xs = map ki_index ys"
    using assms by (intro strict_sorted_equal) (simp_all add: sorted_wrt_map)
  moreover have "inj_on ki_index (set xs)"
    using assms(1) strict_sorted_iff [of "map ki_index xs"] by (simp add: sorted_wrt_map distinct_map)
  ultimately show ?thesis using assms(3) by (metis map_inj_on sup.idem)
qed

lemma sort_sorted:
  assumes "list_sort_ok srt" and "sorted_wrt (\<lambda>a b. ki_index a < ki_index b) xs"
  shows "srt sort_handler xs = xs"
proof (rule strict_unique)
  have "distinct (map ki_index xs)"
    using assms(2) strict_sorted_iff [of "map ki_index xs"] by (simp add: sorted_wrt_map)
  then show "sorted_wrt (\<lambda>a b. ki_index a < ki_index b) (srt sort_handler xs)"
    by (rule strict_sort [OF assms(1)])
  show "set (srt sort_handler xs) = set xs"
    by (rule list_sort_okD(3) [OF assms(1) sort_handler_order])
qed (rule assms(2))

lemma organise_drop_suffix: "\<exists>pre. xs = pre @ organise_drop c xs"
proof (induction c xs rule: organise_drop.induct)
  case (3 c k k' ks)
  show ?case
  proof (cases "ki_addr k \<noteq> c \<and> ki_addr k' \<noteq> c")
    case True
    with 3 obtain pre where "k' # ks = pre @ organise_drop c (k' # ks)" by blast
    with True have "k # k' # ks = (k # pre) @ organise_drop c (k # k' # ks)" by simp
    then show ?thesis by blast
  qed auto
qed auto

lemma organise_drop_current:
  "c \<in> ki_addr ` set xs \<Longrightarrow> c \<in> ki_addr ` set (take 2 (organise_drop c xs))"
  by (induction c xs rule: organise_drop.induct) auto

lemma keys_wf_suffix: "keys_wf n (pre @ xs) \<Longrightarrow> keys_wf n xs"
  by (auto simp: keys_wf_def sorted_wrt_append)

lemma organise_drop_id: "c \<in> ki_addr ` set (take 2 xs) \<Longrightarrow> organise_drop c xs = xs"
  by (induction c xs rule: organise_drop.induct) auto

lemma keys_wf_distinct_index: "keys_wf n xs \<Longrightarrow> distinct (map ki_index xs)"
  using strict_sorted_iff [of "map ki_index xs"] by (simp add: keys_wf_def sorted_wrt_map)

lemma keys_wf_sort:
  assumes "list_sort_ok srt" and "distinct (map ki_addr xs)" and "\<forall>k \<in> set xs. ki_addr k < n"
    and "distinct (map ki_index xs)"
  shows "keys_wf n (srt sort_handler xs)" and "set (srt sort_handler xs) = set xs"
proof -
  note s = list_sort_okD [OF assms(1) sort_handler_order, of xs]
  have "mset (map ki_addr (srt sort_handler xs)) = mset (map ki_addr xs)"
    using s(1) by (simp add: mset_map)
  then have "distinct (map ki_addr (srt sort_handler xs))"
    using assms(2) by (metis mset_eq_imp_distinct_iff)
  then show "keys_wf n (srt sort_handler xs)"
    using assms(3) s(3) strict_sort [OF assms(1,4)] by (simp add: keys_wf_def)
  show "set (srt sort_handler xs) = set xs" by (rule s(3))
qed

lemma organise_fields [simp]:
  "ks_current (keystore_organise env ks) = ks_current ks"
  "ks_init (keystore_organise env ks) = ks_init ks"
  "ks_salt (keystore_organise env ks) = ks_salt ks"
  "ks_hash_forward (keystore_organise env ks) = ks_hash_forward ks"
  "ks_has_keys (keystore_organise env ks) = ks_has_keys ks"
  "ks_next_addr (keystore_organise env ks) = ks_next_addr ks"
  "ks_listeners (keystore_organise env ks) = ks_listeners ks"
  "ks_notified (keystore_organise env ks) = ks_notified ks"
  "ks_update_ts (keystore_organise env ks) = ks_update_ts ks"
  by (simp_all add: keystore_organise_def Let_def split: option.split)

lemma organise_keys:
  assumes "list_sort_ok (env_sort env)" and "distinct (map ki_addr (ks_keyl ks))"
    and "\<forall>k \<in> set (ks_keyl ks). ki_addr k < n" and "distinct (map ki_index (ks_keyl ks))"
    and "ks_current ks = Some c" and "c \<in> ki_addr ` set (ks_keyl ks)"
  defines "ys \<equiv> ks_keyl (keystore_organise env ks)"
  shows "keys_wf n ys" and "c \<in> ki_addr ` set (take 2 ys)"
    and "set ys \<subseteq> set (ks_keyl ks)"
    and "k \<in> set (ks_keyl ks) \<Longrightarrow> ki_addr k = c \<Longrightarrow> x \<in> set (ks_keyl ks) \<Longrightarrow>
         ki_index k \<le> ki_index x \<Longrightarrow> x \<in> set ys"
proof -
  let ?xs = "env_sort env sort_handler (ks_keyl ks)"
  note so = keys_wf_sort [OF assms(1-4)]
  have ys: "ys = organise_drop c ?xs"
    using assms(5) by (simp add: ys_def keystore_organise_def Let_def)
  obtain pre where pre: "?xs = pre @ ys" using organise_drop_suffix ys by metis
  show wf: "keys_wf n ys" using so(1) pre by (metis keys_wf_suffix)
  show c: "c \<in> ki_addr ` set (take 2 ys)"
    using organise_drop_current so(2) assms(6) ys by metis
  show "set ys \<subseteq> set (ks_keyl ks)" using so(2) pre by (metis set_append Un_upper2)
  assume k: "k \<in> set (ks_keyl ks)" "ki_addr k = c" and x: "x \<in> set (ks_keyl ks)"
    and le: "ki_index k \<le> ki_index x"
  from c obtain k' where "k' \<in> set ys" "ki_addr k' = c" by (auto dest: in_set_takeD)
  moreover have "k' = k"
    using calculation k pre so(2) assms(2)
    by (metis (no_types, lifting) Un_iff distinct_map inj_onD set_append)
  ultimately have ky: "k \<in> set ys" by simp
  have "x \<notin> set pre"
  proof
    assume "x \<in> set pre"
    then have "ki_index x < ki_index k"
      using so(1) pre ky by (auto simp: keys_wf_def sorted_wrt_append)
    with le show False by simp
  qed
  then show "x \<in> set ys" using x so(2) pre by (metis Un_iff set_append)
qed

section \<open>Every operation keeps the invariant\<close>

lemma ks_inv_wf: "ks_inv ks \<Longrightarrow> keys_wf (ks_next_addr ks) (ks_keyl ks)"
  by (simp add: ks_inv_def)

lemmas keys_wfD = keys_wf_def [THEN iffD1, THEN conjunct1]
  keys_wf_def [THEN iffD1, THEN conjunct2, THEN conjunct1]
  keys_wf_def [THEN iffD1, THEN conjunct2, THEN conjunct2]

text \<open>Making an element of the list the current key.\<close>

lemma select_inv:
  assumes "list_sort_ok (env_sort env)" and "ks_inv ks" and "k \<in> set (ks_keyl ks)"
  defines "ks' \<equiv> keystore_organise env (ks\<lparr>ks_current := Some (ki_addr k)\<rparr>)"
  shows "ks_inv ks'" and "k \<in> set (ks_keyl ks')" and "ks_current ks' = Some (ki_addr k)"
    and "set (ks_keyl ks') \<subseteq> set (ks_keyl ks)"
proof -
  let ?ks = "ks\<lparr>ks_current := Some (ki_addr k)\<rparr>"
  have wf: "keys_wf (ks_next_addr ks) (ks_keyl ks)" by (rule ks_inv_wf [OF assms(2)])
  note o = organise_keys [OF assms(1), of ?ks "ks_next_addr ks" "ki_addr k"]
  have pre: "distinct (map ki_addr (ks_keyl ?ks))" "\<forall>k \<in> set (ks_keyl ?ks). ki_addr k < ks_next_addr ks"
    "distinct (map ki_index (ks_keyl ?ks))" "ks_current ?ks = Some (ki_addr k)"
    "ki_addr k \<in> ki_addr ` set (ks_keyl ?ks)"
    using wf keys_wf_distinct_index [OF wf] assms(3) by (auto simp: keys_wf_def)
  have ne: "ks_keyl ks \<noteq> []" using assms(3) by auto
  have ne': "ks_keyl ks' \<noteq> []" using o(2) [OF pre] by (auto simp: ks'_def)
  show "ks_inv ks'"
    using o(1) [OF pre] o(2) [OF pre] assms(2) ne ne' by (simp add: ks_inv_def cur_ok_def ks'_def)
  show "k \<in> set (ks_keyl ks')"
    using o(4) [OF pre, of k k] assms(3) by (simp add: ks'_def)
  show "ks_current ks' = Some (ki_addr k)" by (simp add: ks'_def)
  show "set (ks_keyl ks') \<subseteq> set (ks_keyl ks)" using o(3) [OF pre] by (simp add: ks'_def)
qed

lemma ks_inv_current:
  assumes "ks_inv ks" and "ks_keyl ks \<noteq> []"
  obtains c cur where "ks_current ks = Some c" "deref ks c = Some cur" "cur \<in> set (ks_keyl ks)"
    "ki_addr cur = c" "cur \<in> set (take 2 (ks_keyl ks))"
proof -
  from assms obtain c where c: "ks_current ks = Some c" "c \<in> ki_addr ` set (take 2 (ks_keyl ks))"
    by (auto simp: ks_inv_def cur_ok_def split: option.splits)
  then obtain k where k: "k \<in> set (take 2 (ks_keyl ks))" "ki_addr k = c" by blast
  then have "k \<in> set (ks_keyl ks)" by (blast dest: in_set_takeD)
  then obtain cur where cur: "deref ks c = Some cur"
    using k(2) unfolding deref_def by (metis (mono_tags, lifting) find_None_iff not_None_eq)
  then have "cur \<in> set (ks_keyl ks)" "ki_addr cur = c"
    by (auto simp: deref_def find_Some_iff)
  moreover have "cur = k"
    using calculation k \<open>k \<in> set (ks_keyl ks)\<close> assms(1)
    by (metis distinct_map inj_onD keys_wf_def ks_inv_wf)
  ultimately show thesis using that c(1) cur k by blast
qed

text \<open>Appending a key with a fresh address and an index above the current one.\<close>

lemma append_inv:
  fixes t :: u64
  assumes "list_sort_ok (env_sort env)" and "ks_inv ks" and "ks_keyl ks \<noteq> []"
    and "ki_addr k = ks_next_addr ks" and "ki_index k \<notin> ki_index ` set (ks_keyl ks)"
    and "ks_current ks = Some c" "deref ks c = Some cur" and "ki_index cur \<le> ki_index k"
  defines "ks' \<equiv> keystore_append_key env (ks\<lparr>ks_next_addr := ks_next_addr ks + 1, ks_update_ts := t\<rparr>) k"
  shows "ks_inv ks'" and "k \<in> set (ks_keyl ks')" and "ks_current ks' = Some c"
    and "set (ks_keyl ks') \<subseteq> insert k (set (ks_keyl ks))"
proof -
  let ?ks = "ks\<lparr>ks_next_addr := ks_next_addr ks + 1, ks_update_ts := t, ks_keyl := ks_keyl ks @ [k]\<rparr>"
  have ks': "ks' = keystore_organise env ?ks"
    by (simp add: ks'_def keystore_append_key_def)
  have wf: "keys_wf (ks_next_addr ks) (ks_keyl ks)" by (rule ks_inv_wf [OF assms(2)])
  have cur: "cur \<in> set (ks_keyl ks)" "ki_addr cur = c"
    using assms(7) by (auto simp: deref_def find_Some_iff)
  note o = organise_keys [OF assms(1), of ?ks "ks_next_addr ks + 1" c]
  have pre: "distinct (map ki_addr (ks_keyl ?ks))" "\<forall>k \<in> set (ks_keyl ?ks). ki_addr k < ks_next_addr ks + 1"
    "distinct (map ki_index (ks_keyl ?ks))" "ks_current ?ks = Some c" "c \<in> ki_addr ` set (ks_keyl ?ks)"
    using wf keys_wf_distinct_index [OF wf] assms(4-6) cur by (auto simp: keys_wf_def less_Suc_eq)
  have ne': "ks_keyl ks' \<noteq> []" using o(2) [OF pre] by (auto simp: ks')
  show "ks_inv ks'"
    using o(1) [OF pre] o(2) [OF pre] assms(2,3,6) ne' by (simp add: ks_inv_def cur_ok_def ks')
  show "k \<in> set (ks_keyl ks')"
    using o(4) [OF pre, of cur k] cur assms(8) by (simp add: ks')
  show "ks_current ks' = Some c" using assms(6) by (simp add: ks')
  show "set (ks_keyl ks') \<subseteq> insert k (set (ks_keyl ks))" using o(3) [OF pre] by (auto simp: ks')
qed

lemma get_latest_last: "get_latest xs = (if xs = [] then None else Some (last xs))"
  by (induction xs rule: get_latest.induct) auto

text \<open>Hashing forward from the last key appends the chain of derived keys to the list.\<close>

lemma append_latest:
  fixes t :: u64
  assumes "list_sort_ok (env_sort env)" and "ks_inv ks" and "ks_keyl ks \<noteq> []"
    and "ki_addr k = ks_next_addr ks" and "\<forall>x \<in> set (ks_keyl ks). ki_index x < ki_index k"
  defines "ks' \<equiv> keystore_append_key env (ks\<lparr>ks_next_addr := ks_next_addr ks + 1, ks_update_ts := t\<rparr>) k"
  shows "ks_inv ks'" and "ks' = ks\<lparr>ks_next_addr := ks_next_addr ks + 1, ks_update_ts := t,
                                    ks_keyl := ks_keyl ks @ [k]\<rparr>"
proof -
  obtain c cur where c: "ks_current ks = Some c" "deref ks c = Some cur" "cur \<in> set (ks_keyl ks)"
    "ki_addr cur = c" "cur \<in> set (take 2 (ks_keyl ks))"
    using ks_inv_current [OF assms(2,3)] by blast
  have less: "ki_index cur < ki_index k" using c(3) assms(5) by blast
  have notin: "ki_index k \<notin> ki_index ` set (ks_keyl ks)" using assms(5) by fastforce
  show "ks_inv ks'"
    unfolding ks'_def using append_inv(1) [OF assms(1-4) notin c(1,2)] less by simp
  have wf: "keys_wf (ks_next_addr ks) (ks_keyl ks)" by (rule ks_inv_wf [OF assms(2)])
  then have "sorted_wrt (\<lambda>a b. ki_index a < ki_index b) (ks_keyl ks @ [k])"
    using assms(5) by (simp add: keys_wf_def sorted_wrt_append)
  then have so: "env_sort env sort_handler (ks_keyl ks @ [k]) = ks_keyl ks @ [k]"
    by (rule sort_sorted [OF assms(1)])
  have "take 2 (ks_keyl ks) = take 2 (ks_keyl ks @ [k]) \<or> length (ks_keyl ks) < 2" by auto
  then have "c \<in> ki_addr ` set (take 2 (ks_keyl ks @ [k]))"
    using c(4,5) by auto
  then have "organise_drop c (ks_keyl ks @ [k]) = ks_keyl ks @ [k]" by (rule organise_drop_id)
  then show "ks' = ks\<lparr>ks_next_addr := ks_next_addr ks + 1, ks_update_ts := t,
                        ks_keyl := ks_keyl ks @ [k]\<rparr>"
    using so c(1) by (simp add: ks'_def keystore_append_key_def keystore_organise_def)
qed

lemma index_above_all:
  assumes "keys_wf n xs" and "xs \<noteq> []" and "ki_index (last xs) < w" and "x \<in> set xs"
  shows "ki_index x < ki_index (last xs) + 1"
proof -
  have "ki_index x \<le> ki_index (last xs)"
  proof (cases "x = last xs")
    case False
    obtain ys where ys: "xs = ys @ [last xs]" using assms(2) by (metis append_butlast_last_id)
    then have "x \<in> set ys" using False assms(4) by (metis Un_iff empty_iff empty_set insertE list.set(2) set_append)
    then have "ki_index x < ki_index (last xs)"
      using assms(1) by (subst (asm) ys) (auto simp: keys_wf_def sorted_wrt_append)
    then show ?thesis by simp
  qed simp
  then show ?thesis
    using assms(3) unat_plus_one [OF assms(3)] by (simp add: word_le_nat_alt word_less_nat_alt)
qed

text \<open>One iteration of the loop, with the derivations written out.\<close>

definition derived_key :: "ks_env \<Rightarrow> keystore \<Rightarrow> keyinfo \<Rightarrow> bytes \<Rightarrow> bytes \<Rightarrow> keyinfo" where
  "derived_key env ks kinfo s m =
     \<lparr>ki_addr = ks_next_addr ks, ki_skey = s, ki_mkey = m, ki_index = ki_index kinfo + 1,
      ki_update_ts = env_now env\<rparr>"

lemma hash_loop_unfold:
  "hash_loop env ks kinfo index =
     (let ks1 = ks\<lparr>ks_next_addr := ks_next_addr ks + 1, ks_update_ts := env_now env\<rparr>
      in if \<not> ki_index kinfo < index then (OK, ks)
         else if \<not> env_alloc env (ki_index kinfo + 1) then (ENOMEM, ks)
         else case env_hkdf env E2EE_SESSIONKEY_SIZE (ki_skey kinfo) (ks_salt ks) SKEY_INFO of
                None \<Rightarrow> (EINVAL, ks1)
              | Some s \<Rightarrow>
                  (case media_key env (ks_salt ks) s of
                     None \<Rightarrow> (EINVAL, ks1)
                   | Some m \<Rightarrow> hash_loop env (keystore_append_key env ks1 (derived_key env ks kinfo s m))
                                 (derived_key env ks kinfo s m) index))"
  by (subst hash_loop.simps)
     (auto simp: keystore_derive_session_key_def keystore_derive_media_key_def media_key_def
                 derived_key_def Let_def split: option.splits)

lemma ks_inv_next_addr:
  "ks_inv ks \<Longrightarrow> ks_inv (ks\<lparr>ks_next_addr := ks_next_addr ks + 1, ks_update_ts := t\<rparr>)"
  by (auto simp: ks_inv_def keys_wf_def)

lemma hash_loop_spec:
  assumes "list_sort_ok (env_sort env)" and "ks_inv ks" and "ks_keyl ks \<noteq> []"
    and "kinfo = last (ks_keyl ks)" and "hash_loop env ks kinfo index = (e, ks')"
  shows "ks_inv ks' \<and> ks_current ks' = ks_current ks \<and> ks_salt ks' = ks_salt ks \<and>
    ks_hash_forward ks' = ks_hash_forward ks \<and> ks_notified ks' = ks_notified ks \<and>
    ks_listeners ks' = ks_listeners ks \<and>
    (\<exists>new. ks_keyl ks' = ks_keyl ks @ new \<and> chain env (ks_salt ks) kinfo new \<and>
           length new \<le> unat index - unat (ki_index kinfo)) \<and>
    (e = OK \<longrightarrow> (if ki_index kinfo < index then ki_index (last (ks_keyl ks')) = index else ks' = ks))"
  using assms(2-5)
proof (induction "unat index - unat (ki_index kinfo)" arbitrary: ks kinfo rule: less_induct)
  case less
  let ?ks1 = "ks\<lparr>ks_next_addr := ks_next_addr ks + 1, ks_update_ts := env_now env\<rparr>"
  note res = less.prems(4) [unfolded hash_loop_unfold [of env ks kinfo index] Let_def]
  have stop: ?case if "(e, ks') = (x, ?ks1)" and "x \<noteq> OK" for x
    using that less.prems ks_inv_next_addr [OF less.prems(1)] by (auto intro!: exI [of _ "[]"])
  show ?case
  proof (cases "ki_index kinfo < index \<and> env_alloc env (ki_index kinfo + 1)")
    case False
    then show ?thesis using res less.prems by (auto split: if_splits intro!: exI [of _ "[]"])
  next
    case True
    show ?thesis
    proof (cases "env_hkdf env E2EE_SESSIONKEY_SIZE (ki_skey kinfo) (ks_salt ks) SKEY_INFO")
      case None
      then show ?thesis using res True by (intro stop [of EINVAL]) simp_all
    next
      case s: (Some s)
      show ?thesis
      proof (cases "media_key env (ks_salt ks) s")
        case None
        then show ?thesis using res True s by (intro stop [of EINVAL]) simp_all
      next
        case m: (Some m)
        let ?k = "derived_key env ks kinfo s m"
        let ?ks2 = "keystore_append_key env ?ks1 ?k"
        have k: "ki_addr ?k = ks_next_addr ks" "ki_index ?k = ki_index kinfo + 1"
          by (simp_all add: derived_key_def)
        have above: "\<forall>x \<in> set (ks_keyl ks). ki_index x < ki_index ?k"
          using index_above_all [OF ks_inv_wf [OF less.prems(1)] less.prems(2)] True less.prems(3) k(2)
          by auto
        note ks2 = append_latest [OF assms(1) less.prems(1,2) k(1) above, of "env_now env"]
        have run: "hash_loop env ?ks2 ?k index = (e, ks')" using res True s m by simp
        have "unat index - unat (ki_index ?k) < unat index - unat (ki_index kinfo)"
          using True unat_plus_one [of "ki_index kinfo" index] k(2) by (auto simp: word_less_nat_alt)
        from less.hyps [OF this ks2(1) _ _ run] ks2(2)
        have IH: "ks_inv ks' \<and> ks_current ks' = ks_current ks \<and> ks_salt ks' = ks_salt ks \<and>
          ks_hash_forward ks' = ks_hash_forward ks \<and> ks_notified ks' = ks_notified ks \<and>
          ks_listeners ks' = ks_listeners ks"
          and new: "\<exists>new. ks_keyl ks' = (ks_keyl ks @ [?k]) @ new \<and> chain env (ks_salt ks) ?k new \<and>
                  length new \<le> unat index - unat (ki_index ?k)"
          and fin: "e = OK \<longrightarrow> (if ki_index ?k < index then ki_index (last (ks_keyl ks')) = index
                               else ks' = ?ks2)"
          by simp_all
        from new obtain new where "ks_keyl ks' = ks_keyl ks @ (?k # new)" "chain env (ks_salt ks) ?k new"
            "length (?k # new) \<le> unat index - unat (ki_index kinfo)"
          using \<open>unat index - unat (ki_index ?k) < unat index - unat (ki_index kinfo)\<close> by auto
        moreover have "chain env (ks_salt ks) kinfo (?k # new)"
          using calculation(2) s m by (simp add: derived_key_def)
        moreover have "ki_index ?k \<le> index"
          using True unat_plus_one [of "ki_index kinfo" index] k(2)
          by (auto simp: word_less_nat_alt word_le_nat_alt)
        ultimately show ?thesis using IH fin True ks2(2)
          by (cases "ki_index ?k < index") (auto simp: antisym_conv1)
      qed
    qed
  qed
qed

lemma find_index:
  "find (\<lambda>k. ki_index k = i) xs = Some k \<Longrightarrow> k \<in> set xs \<and> ki_index k = i"
  "find (\<lambda>k. i = ki_index k) xs = Some k \<Longrightarrow> k \<in> set xs \<and> ki_index k = i"
  "find (\<lambda>k. i = ki_index k) xs = None \<Longrightarrow> i \<notin> ki_index ` set xs"
  by (auto simp: find_Some_iff find_None_iff)

lemma derive_media_key_same:
  "keystore_derive_media_key env ks k = (e, k') \<Longrightarrow> ki_addr k' = ki_addr k \<and> ki_index k' = ki_index k"
  by (auto simp: keystore_derive_media_key_def split: option.splits)

lemma upd_key_inv:
  assumes "ks_inv ks" and "k \<in> set (ks_keyl ks)" and "ki_addr k' = ki_addr k" and "ki_index k' = ki_index k"
  shows "ks_inv (ks\<lparr>ks_update_ts := t, ks_keyl := upd_key k' (ks_keyl ks)\<rparr>)"
proof -
  let ?f = "\<lambda>x. if ki_addr x = ki_addr k' then k' else x"
  have wf: "keys_wf (ks_next_addr ks) (ks_keyl ks)" by (rule ks_inv_wf [OF assms(1)])
  have same: "x = k" if "x \<in> set (ks_keyl ks)" "ki_addr x = ki_addr k" for x
    using that assms(2) wf by (metis distinct_map inj_onD keys_wf_def)
  have a: "ki_addr (?f x) = ki_addr x" for x by simp
  have i: "ki_index (?f x) = ki_index x" if "x \<in> set (ks_keyl ks)" for x
    using same that assms(3,4) by auto
  let ?xs = "upd_key k' (ks_keyl ks)"
  have ma: "map ki_addr ?xs = map ki_addr (ks_keyl ks)" by (simp add: upd_key_def)
  have mi: "map ki_index ?xs = map ki_index (ks_keyl ks)" using i by (simp add: upd_key_def)
  have "sorted_wrt (<) (map ki_index (ks_keyl ks))" using wf by (simp add: keys_wf_def sorted_wrt_map)
  then have so: "sorted_wrt (\<lambda>a b. ki_index a < ki_index b) ?xs"
    unfolding mi [symmetric] by (simp only: sorted_wrt_map)
  have "\<forall>x \<in> set ?xs. ki_addr x < ks_next_addr ks"
    using wf a by (auto simp: upd_key_def keys_wf_def)
  then have wf': "keys_wf (ks_next_addr ks) ?xs" using wf so unfolding keys_wf_def ma by simp
  have "set (map ki_addr (take 2 ?xs)) = set (map ki_addr (take 2 (ks_keyl ks)))"
    by (simp only: take_map [symmetric] ma)
  then have "cur_ok (ks_current ks) ?xs"
    using assms(1) by (auto simp: ks_inv_def cur_ok_def upd_key_def split: option.splits)
  moreover have "?xs = [] \<longleftrightarrow> ks_keyl ks = []" by (simp add: upd_key_def)
  ultimately show ?thesis
    using assms(1) wf' by (simp add: ks_inv_def)
qed

lemma ks_inv_has_keys: "ks_inv ks \<Longrightarrow> ks_has_keys ks \<Longrightarrow> ks_inv (ks\<lparr>ks_has_keys := True\<rparr>)"
  by (simp add: ks_inv_def)

lemma set_session_key_inv:
  assumes "list_sort_ok (env_sort env)" and "ks_inv ks"
  shows "\<exists>e ks'. keystore_set_session_key env ks index key = Some (e, ks') \<and> ks_inv ks'"
proof (cases "ks_keyl ks = []")
  case True
  then have st: "ks_current ks = None" "\<not> ks_init ks"
    using assms(2) by (auto simp: ks_inv_def cur_ok_def split: option.splits)
  have sort1: "env_sort env sort_handler [k] = [k]" for k
    by (rule sort_sorted [OF assms(1)]) simp
  note inv = ks_inv_next_addr [OF assms(2), of "env_now env"]
  show ?thesis
    using True st inv assms(2)
    by (auto simp: keystore_set_session_key_def keystore_derive_media_key_def
          keystore_append_key_def keystore_organise_def notify_listeners_def Let_def sort1
          ks_inv_def keys_wf_def cur_ok_def split: option.splits)
next
  case False
  obtain c cur where c: "ks_current ks = Some c" "deref ks c = Some cur"
    using ks_inv_current [OF assms(2) False] by metis
  have init: "ks_init ks" "ks_has_keys ks" using assms(2) False by (auto simp: ks_inv_def)
  show ?thesis
  proof (cases "key = [] \<or> index < ki_index cur")
    case True
    then show ?thesis using c assms(2) by (auto simp: keystore_set_session_key_def Let_def)
  next
    case new: False
    show ?thesis
    proof (cases "find (\<lambda>k. index = ki_index k) (ks_keyl ks)")
      case (Some k)
      obtain e k' where d: "keystore_derive_media_key env (ks\<lparr>ks_update_ts := env_now env\<rparr>)
          (k\<lparr>ki_skey := key_in key\<rparr>) = (e, k')" by fastforce
      have "ks_inv (ks\<lparr>ks_update_ts := env_now env, ks_keyl := upd_key k' (ks_keyl ks)\<rparr>)"
        using derive_media_key_same [OF d] find_index(2) [OF Some]
        by (intro upd_key_inv [OF assms(2), of k]) auto
      then show ?thesis
        using c new Some d assms(2) by (auto simp: keystore_set_session_key_def Let_def)
    next
      case None
      let ?k0 = "\<lparr>ki_addr = ks_next_addr ks, ki_skey = key_in key,
        ki_mkey = replicate E2EE_SESSIONKEY_SIZE 0, ki_index = index, ki_update_ts = env_now env\<rparr>"
      let ?ks1 = "ks\<lparr>ks_next_addr := ks_next_addr ks + 1, ks_update_ts := env_now env\<rparr>"
      obtain e k' where d: "keystore_derive_media_key env ?ks1 ?k0 = (e, k')" by fastforce
      have inv: "ks_inv (keystore_append_key env ?ks1 k')"
        using derive_media_key_same [OF d] find_index(3) [OF None] new c
        by (intro append_inv(1) [OF assms False, of k' c cur]) auto
      have "ks_init (keystore_append_key env ?ks1 k')" "ks_has_keys (keystore_append_key env ?ks1 k')"
        using init by (simp_all add: keystore_append_key_def)
      moreover have "ks_inv ((keystore_append_key env ?ks1 k')\<lparr>ks_has_keys := True\<rparr>)"
        using inv calculation(2) by (rule ks_inv_has_keys)
      moreover have "ks_inv ?ks1" by (rule ks_inv_next_addr [OF assms(2)])
      ultimately show ?thesis
        using c new None d assms(2)
        by (cases "env_alloc env index"; cases "e = OK") (simp_all add: keystore_set_session_key_def Let_def)
    qed
  qed
qed

lemma le_next_split:
  "distinct (map ki_addr (pre @ k # post)) \<Longrightarrow>
   le_next (ki_addr k) (pre @ k # post) = (case post of [] \<Rightarrow> None | y # _ \<Rightarrow> Some y)"
proof (induction pre)
  case Nil
  then show ?case by (cases post) auto
next
  case (Cons x pre)
  then have "ki_addr x \<noteq> ki_addr k" by auto
  with Cons show ?case by (cases pre) auto
qed

lemma le_next_in: "le_next a xs = Some k \<Longrightarrow> k \<in> set xs"
  by (induction a xs rule: le_next.induct) (auto split: if_splits)

lemma hash_to_key_spec:
  assumes "list_sort_ok (env_sort env)" and "ks_inv ks" and "ks_keyl ks \<noteq> []"
    and "keystore_hash_to_key env ks index = (e, ks')"
  defines "kinfo \<equiv> last (ks_keyl ks)"
  shows "ks_inv ks'" and "ks_current ks' = ks_current ks"
    and "ks_notified ks' = ks_notified ks \<and> ks_listeners ks' = ks_listeners ks"
    and "\<exists>new. ks_keyl ks' = ks_keyl ks @ new \<and> chain env (ks_salt ks) kinfo new \<and>
               length new \<le> unat index - unat (ki_index kinfo)"
    and "e = OK \<Longrightarrow> ki_index kinfo < index \<Longrightarrow> ki_index (last (ks_keyl ks')) = index"
proof -
  have "hash_loop env ks (last (ks_keyl ks)) index = (e, ks')"
    using assms(3,4) by (simp add: keystore_hash_to_key_def keystore_get_latest_def get_latest_last)
  note h = hash_loop_spec [OF assms(1-3) refl this]
  show "ks_inv ks'" "ks_current ks' = ks_current ks"
    "ks_notified ks' = ks_notified ks \<and> ks_listeners ks' = ks_listeners ks"
    "\<exists>new. ks_keyl ks' = ks_keyl ks @ new \<and> chain env (ks_salt ks) kinfo new \<and>
           length new \<le> unat index - unat (ki_index kinfo)"
    "e = OK \<Longrightarrow> ki_index kinfo < index \<Longrightarrow> ki_index (last (ks_keyl ks')) = index"
    using h by (simp_all add: kinfo_def)
qed

lemma notify_inv: "ks_inv ks \<Longrightarrow> ks_inv (notify_listeners ks)"
  by (simp add: ks_inv_def notify_listeners_def)

lemma select_notify_inv:
  assumes "list_sort_ok (env_sort env)" and "ks_inv ks" and "k \<in> set (ks_keyl ks)"
  shows "ks_inv (notify_listeners (keystore_organise env (ks\<lparr>ks_current := Some (ki_addr k)\<rparr>)))"
  using select_inv(1) [OF assms] by (rule notify_inv)

lemma rotate_inv:
  assumes "list_sort_ok (env_sort env)" and "ks_inv ks" and "\<forall>k \<in> set (ks_keyl ks). ki_index k \<noteq> 0xffffffff"
  shows "\<exists>e ks'. keystore_rotate env ks = Some (e, ks') \<and> ks_inv ks'"
proof (cases "ks_keyl ks = []")
  case True
  then have "ks_current ks = None" using assms(2) by (auto simp: ks_inv_def cur_ok_def split: option.splits)
  then show ?thesis using assms(2) by (simp add: keystore_rotate_def)
next
  case False
  obtain c cur where c: "ks_current ks = Some c" "deref ks c = Some cur" "cur \<in> set (ks_keyl ks)" "ki_addr cur = c"
    using ks_inv_current [OF assms(2) False] by metis
  note sel = select_notify_inv [OF assms(1) _ le_next_in]
  show ?thesis
  proof (cases "le_next c (ks_keyl ks)")
    case (Some k)
    then show ?thesis using c sel [OF assms(2) Some] by (simp add: keystore_rotate_def Let_def)
  next
    case None
    obtain pre post where split: "ks_keyl ks = pre @ cur # post" using c(3) by (meson split_list)
    have dist: "distinct (map ki_addr (ks_keyl ks))" using ks_inv_wf [OF assms(2)] by (simp add: keys_wf_def)
    have "post = []" using le_next_split [of pre cur post] None dist split c(4) by (auto split: list.splits)
    then have last: "last (ks_keyl ks) = cur" using split by simp
    obtain e ks' where h: "keystore_hash_to_key env ks (ki_index cur + 1) = (e, ks')" by fastforce
    note spec = hash_to_key_spec [OF assms(1,2) False h]
    have less: "ki_index cur < ki_index cur + 1" using assms(3) c(3) by (simp add: u32_less_plus_one)
    have "\<exists>k. le_next c (ks_keyl ks') = Some k" if "e = OK"
    proof -
      obtain new where new: "ks_keyl ks' = ks_keyl ks @ new" using spec(4) by blast
      have "ki_index (last (ks_keyl ks')) = ki_index cur + 1" using spec(5) that less last by simp
      then have "new \<noteq> []" using new last less by auto
      then obtain y ys where y: "new = y # ys" by (cases new) auto
      have "distinct (map ki_addr (ks_keyl ks'))" using ks_inv_wf [OF spec(1)] by (simp add: keys_wf_def)
      then show ?thesis
        using le_next_split [of pre cur "y # ys"] new y split \<open>post = []\<close> c(4) by simp
    qed
    then obtain k where "e = OK \<longrightarrow> le_next c (ks_keyl ks') = Some k" by blast
    then show ?thesis
      using c None h sel [OF spec(1), where k = k] spec(1) assms(2)
      by (cases "ks_hash_forward ks"; cases "e = OK") (simp_all add: keystore_rotate_def Let_def)
  qed
qed

lemma set_current_inv:
  assumes "list_sort_ok (env_sort env)" and "ks_inv ks"
  shows "ks_inv (snd (keystore_set_current env ks index))"
  using assms
  by (auto simp: keystore_set_current_def split: option.split dest!: find_index(1) intro!: select_notify_inv)

lemma rotate_scan_in: "rotate_scan t xs = Some k \<Longrightarrow> k \<in> set xs \<and> ki_update_ts k \<le> t"
  unfolding rotate_scan_def by (induction xs rule: rev_induct) (auto split: if_splits)

lemma rotate_by_time_inv:
  assumes "list_sort_ok (env_sort env)" and "ks_inv ks"
  shows "\<exists>b ks'. keystore_rotate_by_time env ks min_ts = Some (b, ks') \<and> ks_inv ks'"
proof -
  note sel = select_notify_inv [OF assms]
  have scan: "ks_inv (case rotate_scan min_ts xs of None \<Rightarrow> ks
      | Some l \<Rightarrow> if ks_current ks \<noteq> Some (ki_addr l)
                 then notify_listeners (keystore_organise env (ks\<lparr>ks_current := Some (ki_addr l)\<rparr>))
                 else ks)" if "set xs \<subseteq> set (ks_keyl ks)" for xs
    using sel rotate_scan_in [of min_ts xs] that assms(2) by (auto split: option.split)
  show ?thesis
  proof (cases "ks_current ks")
    case None
    then show ?thesis using scan [of "ks_keyl ks"] by (simp add: keystore_rotate_by_time_def Let_def)
  next
    case (Some c)
    then have "ks_keyl ks \<noteq> []" using assms(2) by (auto simp: ks_inv_def cur_ok_def)
    then obtain cur where "deref ks c = Some cur" using ks_inv_current [OF assms(2)] Some by auto
    then show ?thesis
      using Some scan [of "dropWhile (\<lambda>k. ki_addr k \<noteq> c) (ks_keyl ks)"]
      by (simp add: keystore_rotate_by_time_def Let_def set_dropWhileD subset_iff)
  qed
qed

lemma err_reported_inv: "ks_inv ks \<Longrightarrow> ks_inv (ks\<lparr>ks_err_reported := b\<rparr>)"
  by (simp add: ks_inv_def)

text \<open>Hashing forward inside \<^verbatim>\<open>keystore_get_media_key\<close>.\<close>

lemma get_media_key_forward:
  assumes "list_sort_ok (env_sort env)" and "ks_inv ks" and "ks_keyl ks \<noteq> []"
    and "find (\<lambda>k. ki_index k = index) (ks_keyl ks) = None" and "ks_hash_forward ks"
    and "index > ki_index (last (ks_keyl ks))" and "index < ki_index (last (ks_keyl ks)) + NUM_KEYS"
    and "keystore_hash_to_key env (ks\<lparr>ks_err_reported := False\<rparr>) index = (e, ks1)"
  shows "keystore_get_media_key env ks index ksz =
    Some (if e = OK
          then (OK, key_out ksz (ki_mkey (last (ks_keyl ks1))),
                keystore_organise env (ks1\<lparr>ks_current := Some (ki_addr (last (ks_keyl ks1)))\<rparr>))
          else (ENOENT, replicate ksz 0, ks1))"
proof -
  let ?ks0 = "ks\<lparr>ks_err_reported := False\<rparr>"
  have inv0: "ks_inv ?ks0" "ks_keyl ?ks0 \<noteq> []" using err_reported_inv [OF assms(2)] assms(3) by simp_all
  note spec = hash_to_key_spec [OF assms(1) inv0 assms(8)]
  have ne1: "ks_keyl ks1 \<noteq> []" using spec(4) assms(3) by auto
  obtain c cur where c: "ks_current ks1 = Some c" "deref ks1 c = Some cur" "cur \<in> set (ks_keyl ks1)"
      "cur \<in> set (take 2 (ks_keyl ks1))"
    using ks_inv_current [OF spec(1) ne1] by metis
  show ?thesis
  proof (cases "e = OK")
    case True
    obtain new where new: "ks_keyl ks1 = ks_keyl ks @ new" using spec(4) by auto
    have idx: "ki_index (last (ks_keyl ks1)) = index" using spec(5) True assms(6) by simp
    have "cur \<in> set (ks_keyl ks)"
    proof -
      obtain d where d: "ks_current ks = Some d" "d \<in> ki_addr ` set (ks_keyl ks)"
        using ks_inv_current [OF assms(2,3)] by (metis image_eqI)
      then have "d = c" using c(1) spec(2) by simp
      then obtain k where "k \<in> set (ks_keyl ks)" "ki_addr k = c" using d(2) by auto
      moreover have "ki_addr cur = c" using c(2) by (auto simp: deref_def find_Some_iff)
      ultimately show ?thesis
        using c(3) new ks_inv_wf [OF spec(1)]
        by (metis UnI1 distinct_map inj_onD keys_wf_def set_append)
    qed
    then have "ki_index cur < ki_index (last (ks_keyl ks)) + 1"
      by (rule index_above_all [OF ks_inv_wf [OF assms(2)] assms(3) assms(6)])
    then have "ki_index cur \<le> ki_index (last (ks_keyl ks))"
      using unat_plus_one [OF assms(6)] by (simp add: word_less_nat_alt word_le_nat_alt)
    then have "ki_index cur < ki_index (last (ks_keyl ks1))" using assms(6) idx by simp
    then show ?thesis
      using assms(3-8) c ne1 True
      by (simp add: keystore_get_media_key_def keystore_get_latest_def get_latest_last Let_def)
  next
    case False
    then show ?thesis
      using assms(3-8)
      by (simp add: keystore_get_media_key_def keystore_get_latest_def get_latest_last Let_def)
  qed
qed

lemma get_media_key_inv:
  assumes "list_sort_ok (env_sort env)" and "ks_inv ks"
  shows "\<exists>e key ks'. keystore_get_media_key env ks index ksz = Some (e, key, ks') \<and> ks_inv ks'"
proof (cases "find (\<lambda>k. ki_index k = index) (ks_keyl ks)")
  case (Some k)
  then have k: "k \<in> set (ks_keyl ks)" using find_index(1) by blast
  then have "ks_keyl ks \<noteq> []" by auto
  then obtain c cur where "ks_current ks = Some c" "deref ks c = Some cur"
    using ks_inv_current [OF assms(2)] by metis
  then show ?thesis
    using Some select_inv(1) [OF assms k] assms(2) by (simp add: keystore_get_media_key_def)
next
  case None
  show ?thesis
  proof (cases "ks_hash_forward ks \<and> ks_keyl ks \<noteq> [] \<and> index > ki_index (last (ks_keyl ks))
      \<and> index < ki_index (last (ks_keyl ks)) + NUM_KEYS")
    case False
    then show ?thesis
      using None assms(2) err_reported_inv [OF assms(2)]
      by (auto simp: keystore_get_media_key_def keystore_get_latest_def get_latest_last Let_def)
  next
    case True
    obtain e ks1 where h: "keystore_hash_to_key env (ks\<lparr>ks_err_reported := False\<rparr>) index = (e, ks1)"
      by fastforce
    have inv0: "ks_inv (ks\<lparr>ks_err_reported := False\<rparr>)" "ks_keyl (ks\<lparr>ks_err_reported := False\<rparr>) \<noteq> []"
      using err_reported_inv [OF assms(2)] True by simp_all
    note spec = hash_to_key_spec [OF assms(1) inv0 h]
    have "ks_keyl ks1 \<noteq> []" using spec(4) True by auto
    then have "last (ks_keyl ks1) \<in> set (ks_keyl ks1)" by simp
    from select_inv(1) [OF assms(1) spec(1) this] show ?thesis
      using get_media_key_forward [OF assms _ None _ _ _ h] True spec(1) by (cases "e = OK") auto
  qed
qed

lemma ks_step_inv:
  assumes "ks_inv ks" and "ks_guard ks ev"
  shows "\<exists>ks'. ks_step ks ev = Some ks' \<and> ks_inv ks'"
proof -
  obtain env op where ev: "ev = (env, op)" by (cases ev)
  have so: "list_sort_ok (env_sort env)" using assms(2) ev by (simp add: ks_guard_def)
  note frame = ks_inv_def keys_wf_def cur_ok_def
  show ?thesis
  proof (cases op)
    case (OpSetSessionKey index key)
    then show ?thesis using set_session_key_inv [OF so assms(1), of index key] ev by auto
  next
    case (OpSetFreshSessionKey index key salt)
    then show ?thesis
      using set_session_key_inv [OF so assms(1)] assms(1) ev
      by (fastforce simp: keystore_set_fresh_session_key_def split: option.splits)
  next
    case OpRotate
    then show ?thesis using rotate_inv [OF so assms(1)] assms(2) ev by (auto simp: ks_guard_def)
  next
    case (OpSetCurrent index)
    then show ?thesis using set_current_inv [OF so assms(1)] ev by simp
  next
    case (OpGetMediaKey index ksz)
    then show ?thesis using get_media_key_inv [OF so assms(1), of index ksz] ev by auto
  next
    case (OpRotateByTime t)
    then show ?thesis using rotate_by_time_inv [OF so assms(1), of t] ev by auto
  next
    case (OpSetSalt mem salt)
    then show ?thesis using assms(1) ev by (auto simp: keystore_set_salt_def ks_inv_def split: option.split)
  qed (use assms(1) ev in \<open>auto simp: keystore_reset_keys_def keystore_reset_def frame
       keystore_set_decrypt_attempted_def keystore_set_decrypt_successful_def
       keystore_add_listener_def keystore_remove_listener_def split: option.splits\<close>)
qed

interpretation ksm: inv_machine ks_step ks_guard ks_inv
  by unfold_locales (rule ks_step_inv)

lemma keystore_alloc_inv: "keystore_alloc mem le now hf = (OK, Some ks) \<Longrightarrow> ks_inv ks"
  by (auto simp: keystore_alloc_def ks_inv_def keys_wf_def cur_ok_def split: if_splits)

lemma find_unique:
  assumes "keys_wf n xs" and "k \<in> set xs"
  shows "find (\<lambda>x. ki_index x = ki_index k) xs = Some k"
proof -
  obtain k' where k': "find (\<lambda>x. ki_index x = ki_index k) xs = Some k'"
    using assms(2) by (metis (mono_tags, lifting) find_None_iff not_None_eq)
  then have "k' \<in> set xs" "ki_index k' = ki_index k" using find_index(1) by blast+
  then have "k' = k"
    using assms keys_wf_distinct_index by (metis distinct_map inj_onD)
  with k' show ?thesis by simp
qed

lemma find_addr:
  assumes "keys_wf n xs" and "k \<in> set xs"
  shows "find (\<lambda>x. ki_addr x = ki_addr k) xs = Some k"
proof -
  obtain k' where k': "find (\<lambda>x. ki_addr x = ki_addr k) xs = Some k'"
    using assms(2) by (metis (mono_tags, lifting) find_None_iff not_None_eq)
  then have "k' \<in> set xs" "ki_addr k' = ki_addr k" by (auto simp: find_Some_iff)
  then have "k' = k" using assms by (metis distinct_map inj_onD keys_wf_def)
  with k' show ?thesis by simp
qed

lemma few_before_current:
  assumes "keys_wf n xs" and "cur \<in> set (take 2 xs)"
  shows "length (filter (\<lambda>k. ki_index k < ki_index cur) xs) \<le> 1"
proof -
  obtain pre post where xs: "xs = pre @ cur # post" "length pre \<le> 1"
    using assms(2) by (cases xs; cases "tl xs") (fastforce intro: that [of "[]"] that [of "[_]"])+
  have "filter (\<lambda>k. ki_index k < ki_index cur) post = []"
    using assms(1) xs(1) by (auto simp: keys_wf_def sorted_wrt_append filter_empty_conv)
  then show ?thesis using xs(2) le_trans [OF length_filter_le] by (simp add: xs(1))
qed

lemma chain_last:
  "chain env salt prev xs \<Longrightarrow> xs \<noteq> [] \<Longrightarrow>
   ratchet env salt (length xs) (ki_skey prev) = Some (ki_skey (last xs)) \<and>
   media_key env salt (ki_skey (last xs)) = Some (ki_mkey (last xs)) \<and>
   ki_index (last xs) = ki_index prev + word_of_nat (length xs)"
proof (induction xs arbitrary: prev)
  case (Cons k ks)
  then show ?case by (cases "ks = []") (auto simp: algebra_simps)
qed simp

lemma window_bound:
  fixes i j :: u32
  assumes "i < j" and "j < i + NUM_KEYS"
  shows "0 < unat j - unat i" and "unat j - unat i < 16"
proof -
  have "unat (i + 16) = (unat i + 16) mod 2 ^ 32" by (simp add: unat_word_ariths)
  moreover have "(unat i + 16) mod 2 ^ 32 \<le> unat i + 16" by (rule mod_less_eq_dividend)
  ultimately show "0 < unat j - unat i" "unat j - unat i < 16"
    using assms by (simp_all add: NUM_KEYS_def word_less_nat_alt)
qed

lemma upd_key_mem: "k \<in> set xs \<Longrightarrow> ki_addr k' = ki_addr k \<Longrightarrow> k' \<in> set (upd_key k' xs)"
  by (auto simp: upd_key_def image_iff)

text \<open>What a successful \<^verbatim>\<open>keystore_set_session_key\<close> leaves in the list.\<close>

lemma set_session_key_stored:
  assumes "list_sort_ok (env_sort env)" and "ks_inv ks"
    and "keystore_set_session_key env ks index key = Some (OK, ks')"
  shows "\<exists>k \<in> set (ks_keyl ks'). ki_index k = index \<and>
    media_key env (ks_salt ks) (key_in key) = Some (ki_mkey k)"
proof (cases "find (\<lambda>k. index = ki_index k) (ks_keyl ks)")
  case (Some k)
  then have k: "k \<in> set (ks_keyl ks)" "ki_index k = index" using find_index(2) by blast+
  obtain m where m: "media_key env (ks_salt ks) (key_in key) = Some m"
      "ks_keyl ks' = upd_key (k\<lparr>ki_skey := key_in key, ki_mkey := m\<rparr>) (ks_keyl ks)"
    using assms(3) Some
    by (auto simp: keystore_set_session_key_def keystore_derive_media_key_def media_key_def Let_def
          split: if_splits option.splits bind_splits)
  then show ?thesis using upd_key_mem [OF k(1), of "k\<lparr>ki_skey := key_in key, ki_mkey := m\<rparr>"] k(2)
    by (intro bexI [of _ "k\<lparr>ki_skey := key_in key, ki_mkey := m\<rparr>"]) simp_all
next
  case None
  let ?ks1 = "ks\<lparr>ks_next_addr := ks_next_addr ks + 1, ks_update_ts := env_now env\<rparr>"
  let ?k = "\<lambda>m. \<lparr>ki_addr = ks_next_addr ks, ki_skey = key_in key, ki_mkey = m, ki_index = index,
                 ki_update_ts = env_now env\<rparr>"
  obtain m where m: "media_key env (ks_salt ks) (key_in key) = Some m"
    using assms(3) None
    by (auto simp: keystore_set_session_key_def keystore_derive_media_key_def media_key_def Let_def
          split: if_splits option.splits bind_splits)
  have "?k m \<in> set (ks_keyl ks')"
  proof (cases "ks_keyl ks = []")
    case True
    then have st: "ks_current ks = None" "\<not> ks_init ks"
      using assms(2) by (auto simp: ks_inv_def cur_ok_def split: option.splits)
    have sort1: "env_sort env sort_handler [k] = [k]" for k
      by (rule sort_sorted [OF assms(1)]) simp
    show ?thesis
      using assms(3) m True st
      by (auto simp: keystore_set_session_key_def keystore_derive_media_key_def media_key_def Let_def
            keystore_append_key_def keystore_organise_def notify_listeners_def sort1 split: if_splits)
  next
    case False
    obtain c cur where c: "ks_current ks = Some c" "deref ks c = Some cur"
      using ks_inv_current [OF assms(2) False] by metis
    have init: "ks_init ks" using assms(2) False by (simp add: ks_inv_def)
    have ge: "ki_index cur \<le> index"
      using assms(3) c by (auto simp: keystore_set_session_key_def Let_def split: if_splits)
    have "ki_addr (?k m) = ks_next_addr ks" "ki_index (?k m) \<notin> ki_index ` set (ks_keyl ks)"
      "ki_index cur \<le> ki_index (?k m)"
      using find_index(3) [OF None] ge by simp_all
    from append_inv(2) [OF assms(1,2) False this(1,2) c this(3), of "env_now env"]
    have mem: "?k m \<in> set (ks_keyl (keystore_append_key env ?ks1 (?k m)))" .
    have "ks_keyl ks' = ks_keyl (keystore_append_key env ?ks1 (?k m))"
      using assms(3) m None c ge init
      by (auto simp: keystore_set_session_key_def keystore_derive_media_key_def media_key_def Let_def
            keystore_append_key_def split: if_splits)
    then show ?thesis using mem by simp
  qed
  then show ?thesis using m by force
qed

lemma get_media_key_present:
  assumes "list_sort_ok (env_sort env)" and "ks_inv ks" and "k \<in> set (ks_keyl ks)"
  shows "\<exists>ks'. keystore_get_media_key env ks (ki_index k) ksz = Some (OK, key_out ksz (ki_mkey k), ks')"
proof -
  have "ks_keyl ks \<noteq> []" using assms(3) by auto
  then obtain c cur where "ks_current ks = Some c" "deref ks c = Some cur"
    using ks_inv_current [OF assms(2)] by metis
  then show ?thesis
    using find_unique [OF ks_inv_wf [OF assms(2)] assms(3)] by (simp add: keystore_get_media_key_def)
qed

lemma guarded_no_rotate:
  "\<forall>ev \<in> set evs. list_sort_ok (env_sort (fst ev)) \<and> snd ev \<noteq> OpRotate \<Longrightarrow>
   guarded ks_step ks_guard ks evs"
  by (induction evs arbitrary: ks) (auto simp: ks_guard_def split: option.split)

text \<open>The keys \<^verbatim>\<open>keystore_get_media_key\<close> derives when it hashes forward.\<close>

lemma get_media_key_derives:
  assumes "list_sort_ok (env_sort env)" and "ks_inv ks" and "index \<notin> ki_index ` set (ks_keyl ks)"
    and "keystore_get_media_key env ks index ksz = Some (OK, key, ks')"
  obtains new where "ks_hash_forward ks" "ks_keyl ks \<noteq> []" "ki_index (last (ks_keyl ks)) < index"
    "index < ki_index (last (ks_keyl ks)) + NUM_KEYS"
    "chain env (ks_salt ks) (last (ks_keyl ks)) new" "new \<noteq> []" "ki_index (last new) = index"
    "length new \<le> unat index - unat (ki_index (last (ks_keyl ks)))" "key = key_out ksz (ki_mkey (last new))"
proof -
  have none: "find (\<lambda>k. ki_index k = index) (ks_keyl ks) = None"
    using assms(3) by (auto simp: find_None_iff image_iff)
  then have g: "ks_hash_forward ks" "ks_keyl ks \<noteq> []" "ki_index (last (ks_keyl ks)) < index"
      "index < ki_index (last (ks_keyl ks)) + NUM_KEYS"
    using assms(4)
    by (auto simp: keystore_get_media_key_def keystore_get_latest_def get_latest_last Let_def split: if_splits)
  let ?ks0 = "ks\<lparr>ks_err_reported := False\<rparr>"
  obtain e ks1 where h: "keystore_hash_to_key env ?ks0 index = (e, ks1)" by fastforce
  have inv0: "ks_inv ?ks0" "ks_keyl ?ks0 \<noteq> []" using err_reported_inv [OF assms(2)] g(2) by simp_all
  note spec = hash_to_key_spec [OF assms(1) inv0 h]
  have res: "e = OK" "key = key_out ksz (ki_mkey (last (ks_keyl ks1)))"
    using get_media_key_forward [OF assms(1,2) g(2) none g(1,3,4) h, of ksz] assms(4)
    by (auto split: if_splits)
  obtain new where new: "ks_keyl ks1 = ks_keyl ks @ new" "chain env (ks_salt ks) (last (ks_keyl ks)) new"
      "length new \<le> unat index - unat (ki_index (last (ks_keyl ks)))"
    using spec(4) by auto
  have idx: "ki_index (last (ks_keyl ks1)) = index" using spec(5) res(1) g(3) by simp
  then have "new \<noteq> []" using new(1) g(3) by auto
  then show thesis using that g new idx res(2) by simp
qed

lemma chain_length:
  assumes "chain env salt prev xs" and "xs \<noteq> []" and "ki_index prev < ki_index (last xs)"
    and "length xs \<le> unat (ki_index (last xs)) - unat (ki_index prev)"
  shows "unat (ki_index (last xs)) = unat (ki_index prev) + length xs"
proof -
  let ?i = "unat (ki_index prev)" and ?j = "unat (ki_index (last xs))"
  have lt: "?i < ?j" using assms(3) by (simp add: word_less_nat_alt)
  have "?j < 2 ^ LENGTH(32)" by (rule unsigned_less)
  then have small: "?i + length xs < 2 ^ LENGTH(32)" using assms(4) lt by linarith
  have "?j = unat (ki_index prev + word_of_nat (length xs))" using chain_last [OF assms(1,2)] by simp
  also have "\<dots> = (?i + length xs) mod 2 ^ LENGTH(32)"
    by (simp add: unat_word_ariths unat_of_nat mod_simps)
  finally show ?thesis using small by simp
qed

lemma le_next_greater:
  assumes "keys_wf n xs" and "k \<in> set xs" and "le_next (ki_addr k) xs = Some k'"
  shows "ki_index k < ki_index k'"
proof -
  obtain pre post where "xs = pre @ k # post" using assms(2) by (meson split_list)
  then show ?thesis
    using assms(1,3) le_next_split [of pre k post]
    by (auto simp: keys_wf_def sorted_wrt_append split: list.splits)
qed

text \<open>The store a successful rotation selects the next key of.\<close>

lemma rotate_OK:
  assumes "list_sort_ok (env_sort env)" and "ks_inv ks" and "ks_current ks = Some c" and "deref ks c = Some cur"
    and "keystore_rotate env ks = Some (OK, ks')"
  obtains ks1 nxt where "ks_inv ks1" "cur \<in> set (ks_keyl ks1)" "le_next c (ks_keyl ks1) = Some nxt"
    "ks_notified ks1 = ks_notified ks" "ks_listeners ks1 = ks_listeners ks"
    "ks' = notify_listeners (keystore_organise env (ks1\<lparr>ks_current := Some (ki_addr nxt)\<rparr>))"
proof -
  have cur: "cur \<in> set (ks_keyl ks)" using assms(4) by (auto simp: deref_def find_Some_iff)
  then have ne: "ks_keyl ks \<noteq> []" by auto
  show thesis
  proof (cases "le_next c (ks_keyl ks)")
    case (Some nxt)
    then show ?thesis
      using assms(2-5) cur by (intro that [of ks nxt]) (simp_all add: keystore_rotate_def Let_def)
  next
    case None
    obtain e ks1 where h: "keystore_hash_to_key env ks (ki_index cur + 1) = (e, ks1)" by fastforce
    note spec = hash_to_key_spec [OF assms(1,2) ne h]
    have "e = OK \<and> (\<exists>nxt. le_next c (ks_keyl ks1) = Some nxt \<and>
        ks' = notify_listeners (keystore_organise env (ks1\<lparr>ks_current := Some (ki_addr nxt)\<rparr>)))"
      using assms(3-5) None h
      by (auto simp: keystore_rotate_def Let_def split: if_splits bind_splits)
    moreover have "cur \<in> set (ks_keyl ks1)" using cur spec(4) by auto
    ultimately show ?thesis using that spec(1,3) by blast
  qed
qed

section \<open>The store as a source of keys\<close>

text \<open>
  What the encryptor relies on: asking for the current key and for a media key is always defined,
  and the media key of the current key is there and fetching it leaves the source as it is.
\<close>

locale key_source =
  fixes current :: "'s \<Rightarrow> (err \<times> u32 \<times> u64) option"
    and media :: "'s \<Rightarrow> u32 \<Rightarrow> nat \<Rightarrow> (err \<times> bytes \<times> 's) option"
    and inv :: "'s \<Rightarrow> bool"
  assumes current_defined: "inv s \<Longrightarrow> current s \<noteq> None"
    and media_inv: "inv s \<Longrightarrow> \<exists>e k s'. media s i n = Some (e, k, s') \<and> inv s'"
    and current_media: "inv s \<Longrightarrow> current s = Some (OK, i, t) \<Longrightarrow> \<exists>k. media s i n = Some (OK, k, s)"
begin

lemma ready:
  assumes "inv s"
  shows "\<exists>e i t. current s = Some (e, i, t) \<and> (e = OK \<longrightarrow> (\<exists>k. media s i n = Some (OK, k, s)))"
proof -
  obtain e i t where c: "current s = Some (e, i, t)" using current_defined [OF assms] by auto
  then show ?thesis using current_media [OF assms, of i t n] by auto
qed

text \<open>Fetching the current key again gives the same key.\<close>

lemma current_media_stable:
  assumes "inv s" "current s = Some (OK, i, t)" "media s i n = Some (e, k, s')"
  shows "e = OK \<and> s' = s"
  using current_media [OF assms(1,2), of n] assms(3) by auto

end

definition src_current :: "ks_env \<times> keystore \<Rightarrow> (err \<times> u32 \<times> u64) option" where
  "src_current s = keystore_get_current (snd s) 0 0"

definition src_media :: "ks_env \<times> keystore \<Rightarrow> u32 \<Rightarrow> nat \<Rightarrow> (err \<times> bytes \<times> (ks_env \<times> keystore)) option" where
  "src_media s i n = map_option (\<lambda>(e, k, ks). (e, k, (fst s, ks))) (keystore_get_media_key (fst s) (snd s) i n)"

definition src_inv :: "ks_env \<times> keystore \<Rightarrow> bool" where
  "src_inv s \<longleftrightarrow> list_sort_ok (env_sort (fst s)) \<and> ks_inv (snd s)"

interpretation ksrc: key_source src_current src_media src_inv
proof
  fix s :: "ks_env \<times> keystore" and i n t
  assume inv: "src_inv s"
  obtain env ks where s: "s = (env, ks)" by (cases s)
  have so: "list_sort_ok (env_sort env)" and ki: "ks_inv ks" using inv s by (simp_all add: src_inv_def)
  show "src_current s \<noteq> None"
  proof (cases "ks_keyl ks = []")
    case True
    then have "ks_current ks = None" using ki by (auto simp: ks_inv_def cur_ok_def split: option.splits)
    then show ?thesis using s by (simp add: src_current_def keystore_get_current_def)
  next
    case False
    then obtain c cur where "ks_current ks = Some c" "deref ks c = Some cur"
      using ks_inv_current [OF ki] by metis
    then show ?thesis using s by (simp add: src_current_def keystore_get_current_def)
  qed
  show "\<exists>e k s'. src_media s i n = Some (e, k, s') \<and> src_inv s'"
    using get_media_key_inv [OF so ki, of i n] so s by (force simp: src_media_def src_inv_def)
  assume cur: "src_current s = Some (OK, i, t)"
  then obtain c k where c: "ks_current ks = Some c" "deref ks c = Some k" "ki_index k = i"
    using s by (auto simp: src_current_def keystore_get_current_def split: option.splits)
  have "k \<in> set (ks_keyl ks)" using c(2) by (auto simp: deref_def find_Some_iff)
  from find_unique [OF ks_inv_wf [OF ki] this] c
  show "\<exists>k. src_media s i n = Some (OK, k, s)"
    using s by (simp add: src_media_def keystore_get_media_key_def)
qed

section \<open>Properties\<close>

text \<open>An environment for the concrete runs: the first byte, stepped on, in place of HKDF.\<close>

definition demo_env :: ks_env where
  "demo_env = \<lparr>env_hkdf = (\<lambda>n s salt info. Some (replicate n (case s of [] \<Rightarrow> 0 | b # _ \<Rightarrow> b + 1))),
               env_sort = isort_by, env_alloc = (\<lambda>_. True), env_now = 5\<rparr>"

definition demo_store :: keystore where
  "demo_store = the (snd (keystore_alloc True OK 1 True))"

definition demo_keys :: "(ks_env \<times> ks_op) list" where
  "demo_keys = [(demo_env, OpSetSalt True (Some [7])), (demo_env, OpSetSessionKey 3 (replicate 32 1)),
                (demo_env, OpAddListener True 42), (demo_env, OpGetMediaKey 6 32)]"

lemma demo_env_ok: "list_sort_ok (env_sort demo_env)"
  by (simp add: demo_env_def isort_by_ok)

lemma demo_alloc: "keystore_alloc True OK 1 True = (OK, Some demo_store)"
  by (simp add: demo_store_def keystore_alloc_def)

lemma demo_guarded: "guarded ks_step ks_guard demo_store demo_keys"
  by (rule guarded_no_rotate) (simp add: demo_keys_def demo_env_ok)

text \<open>
  C23: a key store that starts at \<^verbatim>\<open>keystore_alloc\<close> and is used through any sequence of its
  operations never reads through a NULL or dangling pointer, and its list stays in strictly
  increasing index order with the current key first or second. (\<open>ks_guard\<close> asks for a sorting
  \<^verbatim>\<open>list_sort\<close> and that no rotation is requested at the largest index.)
\<close>

theorem keystore_run_safe:
  assumes "keystore_alloc mem lock_err now hf = (OK, Some ks)" and "guarded ks_step ks_guard ks evs"
  shows "\<exists>ks'. run ks_step ks evs = Some ks' \<and> ks_inv ks'"
  using ksm.run_inv [OF keystore_alloc_inv [OF assms(1)] assms(2)] .

theorem keystore_run_safe_witness:
  "(\<exists>ks'. run ks_step demo_store demo_keys = Some ks' \<and> ks_inv ks') \<and>
   map_option (\<lambda>ks. map ki_index (ks_keyl ks)) (run ks_step demo_store demo_keys) = Some [5, 6]"
proof (rule conjI)
  show "\<exists>ks'. run ks_step demo_store demo_keys = Some ks' \<and> ks_inv ks'"
    by (rule keystore_run_safe [OF demo_alloc demo_guarded])
  show "map_option (\<lambda>ks. map ki_index (ks_keyl ks)) (run ks_step demo_store demo_keys) = Some [5, 6]"
    by code_simp
qed

text \<open>
  C14: forward secrecy of the store. In every reachable store at most one key older than the
  current key is kept, whatever keys were set, hashed to or rotated away.
\<close>

theorem keystore_old_keys_erased:
  assumes "keystore_alloc mem lock_err now hf = (OK, Some ks)" and "guarded ks_step ks_guard ks evs"
    and "run ks_step ks evs = Some ks'" and "ks_current ks' = Some c" and "deref ks' c = Some cur"
  shows "length (filter (\<lambda>k. ki_index k < ki_index cur) (ks_keyl ks')) \<le> 1"
proof -
  have inv: "ks_inv ks'"
    using ksm.run_inv [OF keystore_alloc_inv [OF assms(1)] assms(2)] assms(3) by auto
  have "ks_keyl ks' \<noteq> []" using assms(5) by (auto simp: deref_def)
  then have "cur \<in> set (take 2 (ks_keyl ks'))"
    using ks_inv_current [OF inv] assms(4,5) by (metis option.inject)
  then show ?thesis by (rule few_before_current [OF ks_inv_wf [OF inv]])
qed

theorem keystore_old_keys_erased_witness:
  "\<exists>ks' c cur. run ks_step demo_store demo_keys = Some ks' \<and> ks_current ks' = Some c \<and>
     deref ks' c = Some cur \<and> ki_index cur = 6 \<and>
     length (filter (\<lambda>k. ki_index k < ki_index cur) (ks_keyl ks')) \<le> 1"
proof -
  have "map_option (\<lambda>ks. map_option ki_index (Option.bind (ks_current ks) (deref ks)))
          (run ks_step demo_store demo_keys) = Some (Some 6)"
    by code_simp
  then obtain ks' c cur where "run ks_step demo_store demo_keys = Some ks'"
      "ks_current ks' = Some c" "deref ks' c = Some cur" "ki_index cur = 6"
    by (auto simp: bind_eq_Some_conv)
  then show ?thesis using keystore_old_keys_erased [OF demo_alloc demo_guarded] by blast
qed

text \<open>
  C33: a session key that was set can be used. After a successful \<^verbatim>\<open>keystore_set_session_key\<close>,
  \<^verbatim>\<open>keystore_get_media_key\<close> for its index succeeds and returns the HKDF of the session key under
  the store's salt and the media label.
\<close>

theorem keystore_set_get:
  assumes "list_sort_ok (env_sort env)" and "ks_inv ks"
    and "keystore_set_session_key env ks index key = Some (OK, ks')"
  shows "\<exists>m ks''. keystore_get_media_key env ks' index ksz = Some (OK, key_out ksz m, ks'') \<and>
    env_hkdf env E2EE_SESSIONKEY_SIZE (key_in key) (ks_salt ks) MKEY_INFO = Some m"
proof -
  have inv: "ks_inv ks'" using set_session_key_inv [OF assms(1,2), of index key] assms(3) by auto
  obtain k where k: "k \<in> set (ks_keyl ks')" "ki_index k = index"
      "media_key env (ks_salt ks) (key_in key) = Some (ki_mkey k)"
    using set_session_key_stored [OF assms] by blast
  then show ?thesis
    using get_media_key_present [OF assms(1) inv k(1), of ksz] by (auto simp: media_key_def)
qed

theorem keystore_set_get_witness:
  "\<exists>ks' m ks''. keystore_set_session_key demo_env demo_store 3 [1, 2] = Some (OK, ks') \<and>
     keystore_get_media_key demo_env ks' 3 32 = Some (OK, key_out 32 m, ks'') \<and>
     env_hkdf demo_env E2EE_SESSIONKEY_SIZE (key_in [1, 2]) (ks_salt demo_store) MKEY_INFO = Some m"
proof -
  have "map_option fst (keystore_set_session_key demo_env demo_store 3 [1, 2]) = Some OK" by code_simp
  then obtain ks' where ks': "keystore_set_session_key demo_env demo_store 3 [1, 2] = Some (OK, ks')"
    by auto
  from keystore_set_get [OF demo_env_ok keystore_alloc_inv [OF demo_alloc] this, of 32] ks'
  show ?thesis by blast
qed

text \<open>
  Hashing forward. When a key is asked for whose index is ahead of every key of the store and the
  call succeeds, the distance \<open>d\<close> is between 1 and 15 and the returned key is the media key of the
  session key reached from the last one by \<open>d\<close> steps of the HKDF ratchet.
\<close>

lemma keystore_hash_forward:
  assumes "list_sort_ok (env_sort env)" and "ks_inv ks" and "index \<notin> ki_index ` set (ks_keyl ks)"
    and "keystore_get_media_key env ks index ksz = Some (OK, key, ks')"
  shows "\<exists>d s m. 0 < d \<and> d < 16 \<and> unat index = unat (ki_index (last (ks_keyl ks))) + d \<and>
    ratchet env (ks_salt ks) d (ki_skey (last (ks_keyl ks))) = Some s \<and>
    media_key env (ks_salt ks) s = Some m \<and> key = key_out ksz m"
proof -
  obtain new where new: "ki_index (last (ks_keyl ks)) < index"
    "index < ki_index (last (ks_keyl ks)) + NUM_KEYS"
    "chain env (ks_salt ks) (last (ks_keyl ks)) new" "new \<noteq> []" "ki_index (last new) = index"
    "length new \<le> unat index - unat (ki_index (last (ks_keyl ks)))" "key = key_out ksz (ki_mkey (last new))"
    by (rule get_media_key_derives [OF assms])
  have "unat index = unat (ki_index (last (ks_keyl ks))) + length new"
    using chain_length [OF new(3,4)] new(1,5,6) by simp
  then show ?thesis
    using window_bound [OF new(1,2)] chain_last [OF new(3,4)] new(4,7) by auto
qed

lemma keystore_hash_forward_witness:
  "\<exists>ks key ks'. run ks_step demo_store (take 2 demo_keys) = Some ks \<and>
     keystore_get_media_key demo_env ks 6 32 = Some (OK, key, ks') \<and>
     (\<exists>d s m. 0 < d \<and> d < 16 \<and> unat (6 :: u32) = unat (ki_index (last (ks_keyl ks))) + d \<and>
        ratchet demo_env (ks_salt ks) d (ki_skey (last (ks_keyl ks))) = Some s \<and>
        media_key demo_env (ks_salt ks) s = Some m \<and> key = key_out 32 m)"
proof -
  have "map_option (\<lambda>ks. (map ki_index (ks_keyl ks), map_option fst (keystore_get_media_key demo_env ks 6 32)))
          (run ks_step demo_store (take 2 demo_keys)) = Some ([3], Some OK)"
    by code_simp
  then obtain ks key ks' where ks: "run ks_step demo_store (take 2 demo_keys) = Some ks"
      "map ki_index (ks_keyl ks) = [3]" "keystore_get_media_key demo_env ks 6 32 = Some (OK, key, ks')"
    by auto
  have "guarded ks_step ks_guard demo_store (take 2 demo_keys)"
    by (rule guarded_no_rotate) (simp add: demo_keys_def demo_env_ok)
  then have "ks_inv ks" using ksm.run_inv [OF keystore_alloc_inv [OF demo_alloc]] ks(1) by fastforce
  moreover have "6 \<notin> ki_index ` set (ks_keyl ks)" using ks(2) by auto
  ultimately show ?thesis using keystore_hash_forward [OF demo_env_ok _ _ ks(3)] ks(1,3) by blast
qed

text \<open>
  The rotation at the largest key index. With a single key of index \<open>0xffffffff\<close> that hashes
  forward, the next index wraps to 0, no key is derived, and \<^verbatim>\<open>keystore_rotate\<close> reads through the
  NULL \<^verbatim>\<open>le.next\<close> of the current key.
\<close>

lemma keystore_rotate_wraps:
  "Option.bind (run ks_step demo_store [(demo_env, OpSetSessionKey 0xffffffff [1, 2, 3])])
     (keystore_rotate demo_env) = None \<and>
   run ks_step demo_store [(demo_env, OpSetSessionKey 0xffffffff [1, 2, 3])] \<noteq> None"
  by (rule conjI) code_simp+

end
