(* ===== verification/Frame_Crypt.thy ===== *)
theory Frame_Crypt
  imports Frame_Hdr Keystore
begin

text \<open>
  The encryption and decryption of media frames, \<^verbatim>\<open>src/src/frame_enc/frame_encryptor.c\<close> and
  \<^verbatim>\<open>src/src/frame_enc/frame_decryptor.c\<close>. AES-256-GCM of OpenSSL is the parameter \<open>gcm_env\<close>: what
  sealing and opening compute and which call succeeds. A cipher context is the key it was set up
  with; the calls that seal a frame are recorded in \<open>fe_sealed\<close>. The key store an object holds is an argument that is returned updated; \<open>fe_keystore\<close> and
  \<open>fd_keystore\<close> say whether one was set. The peer flow's lookup functions are the parameter \<open>pf_env\<close>.
\<close>

section \<open>Definitions\<close>

datatype frame_media_type = FRAME_MEDIA_AUDIO | FRAME_MEDIA_VIDEO

datatype evp_call = InitIV | Tag | AddHeader | Update | Final

record gcm_env =
  gcm_seal :: "bytes \<Rightarrow> bytes \<Rightarrow> bytes \<Rightarrow> bytes \<Rightarrow> bytes \<times> bytes"
  gcm_plain :: "bytes \<Rightarrow> bytes \<Rightarrow> bytes \<Rightarrow> bytes"
  gcm_auth :: "bytes \<Rightarrow> bytes \<Rightarrow> bytes \<Rightarrow> bytes \<Rightarrow> bytes \<Rightarrow> bool"
  evp_ok :: "evp_call \<Rightarrow> bool"
  evp_negative :: "bytes \<Rightarrow> bytes \<Rightarrow> bytes \<Rightarrow> bytes \<Rightarrow> int \<Rightarrow> (bool \<times> bytes) option"

text \<open>
  \<open>gcm_seal key iv aad plain\<close> is the ciphertext and the tag, \<open>gcm_plain key iv cipher\<close> the output of
  the decryption update, which is written before the tag is checked, and
  \<open>gcm_auth key iv aad cipher tag\<close> the check made by the final call.
  \<open>evp_negative key iv aad tag n\<close> is what the update and the final call do together if they are given the
  negative length \<open>n\<close>: whether they succeed and what they write, or \<open>None\<close> for undefined behaviour.
\<close>

record pf_env =
  pf_inc_frame_count :: "u32 \<Rightarrow> bool \<Rightarrow> u32 \<Rightarrow> err"
  pf_userid_for_ssrc :: "u32 \<Rightarrow> bool \<Rightarrow> err \<times> string option"

definition BLOCK_SIZE :: nat where
  "BLOCK_SIZE = 32"

definition TAG_SIZE :: nat where
  "TAG_SIZE = 16"

definition IV_SIZE :: nat where
  "IV_SIZE = 12"

text \<open>Block access to memory, as the library calls make it.\<close>

definition put :: "bytes \<Rightarrow> nat \<Rightarrow> bytes \<Rightarrow> bytes option" where
  "put buf off xs = (if off + length xs \<le> length buf
                     then Some (take off buf @ xs @ drop (off + length xs) buf) else None)"

definition sub :: "bytes \<Rightarrow> int \<Rightarrow> int \<Rightarrow> bytes option" where
  "sub buf off n = (if 0 \<le> off \<and> 0 \<le> n \<and> off + n \<le> int (length buf)
                    then Some (take (nat n) (drop (nat off) buf)) else None)"

subsection \<open>The encryptor\<close>

record frame_encryptor =
  fe_userid_hash :: string
  fe_kidx :: u64
  fe_frameid :: u64
  fe_ctx :: "bytes option"
  fe_keystore :: bool
  fe_iv :: bytes
  fe_mtype :: frame_media_type
  fe_frame_recv :: bool
  fe_frame_enc :: bool
  fe_updated_ts :: u64
  fe_sealed :: "(bytes \<times> bytes \<times> bytes \<times> bytes) list"

text \<open>
  A sealing call of the cipher: the key, the vector given to \<^verbatim>\<open>EVP_EncryptInit_ex\<close>, the header
  and the plaintext given to \<^verbatim>\<open>EVP_EncryptUpdate\<close>.
\<close>

fun seal_call :: "gcm_env \<Rightarrow> bytes \<times> bytes \<times> bytes \<times> bytes \<Rightarrow> bytes \<times> bytes" where
  "seal_call g (key, iv, aad, plain) = gcm_seal g key iv aad plain"

fun frame_type_name :: "frame_media_type \<Rightarrow> string" where
  "frame_type_name FRAME_MEDIA_AUDIO = ''audio''"
| "frame_type_name FRAME_MEDIA_VIDEO = ''video''"

definition fbytes :: "u32 \<Rightarrow> u32 \<Rightarrow> bytes" where
  "fbytes frameid keyid =
     [ucast (drop_bit 24 frameid AND 0xff), ucast (drop_bit 16 frameid AND 0xff),
      ucast (drop_bit 8 frameid AND 0xff), ucast (frameid AND 0xff),
      ucast (drop_bit 24 keyid AND 0xff), ucast (drop_bit 16 keyid AND 0xff),
      ucast (drop_bit 8 keyid AND 0xff), ucast (keyid AND 0xff)]"

definition frame_encryptor_xor_iv :: "bytes \<Rightarrow> u32 \<Rightarrow> u32 \<Rightarrow> bytes option" where
  "frame_encryptor_xor_iv srciv frameid keyid =
     (if 7 < length srciv
      then Some (map2 (XOR) (take 8 srciv) (fbytes frameid keyid) @ drop 8 srciv) else None)"

text \<open>\<open>fstart\<close> is the random start of the frame counter.\<close>

definition frame_encryptor_alloc ::
  "bool \<Rightarrow> err \<Rightarrow> u32 \<Rightarrow> string option \<Rightarrow> frame_media_type \<Rightarrow> err \<times> frame_encryptor option" where
  "frame_encryptor_alloc mem dup_err fstart userid_hash mtype =
     (case userid_hash of
        None \<Rightarrow> (EINVAL, None)
      | Some uid \<Rightarrow>
          if \<not> mem then (ENOMEM, None)
          else if dup_err \<noteq> OK then (dup_err, None)
          else (OK, Some \<lparr>fe_userid_hash = uid, fe_kidx = 0, fe_frameid = ucast fstart, fe_ctx = None,
                          fe_keystore = False, fe_iv = replicate IV_SIZE 0, fe_mtype = mtype,
                          fe_frame_recv = False, fe_frame_enc = False, fe_updated_ts = 0, fe_sealed = []\<rparr>))"

definition iv_name :: "frame_media_type \<Rightarrow> string" where
  "iv_name mtype = (if mtype = FRAME_MEDIA_VIDEO then ''video_iv'' else ''audio_iv'')"

definition frame_encryptor_set_keystore :: "ks_env \<Rightarrow> frame_encryptor \<Rightarrow> err \<times> frame_encryptor" where
  "frame_encryptor_set_keystore env enc =
     (let (e, iv) = keystore_generate_iv env (Some (fe_userid_hash enc))
                      (Some (iv_name (fe_mtype enc))) (fe_iv enc)
      in (e, enc\<lparr>fe_keystore := True, fe_iv := iv\<rparr>))"

definition frame_encryptor_max_size :: "nat \<Rightarrow> nat" where
  "frame_encryptor_max_size srcsz = srcsz + BLOCK_SIZE + TAG_SIZE + frame_hdr_max_size"

text \<open>
  The part of \<^verbatim>\<open>frame_encryptor_encrypt\<close> that has the cipher context follow the current key, and
  the part that writes the frame.
\<close>

definition encrypt_ctx ::
  "ks_env \<Rightarrow> frame_encryptor \<Rightarrow> keystore \<Rightarrow> u64 \<Rightarrow> u64 \<Rightarrow> (err \<times> frame_encryptor \<times> keystore) option" where
  "encrypt_ctx env enc ks kid updated_ts =
     (let enc = (if fe_ctx enc \<noteq> None \<and> (kid \<noteq> fe_kidx enc \<or> updated_ts \<noteq> fe_updated_ts enc)
                 then enc\<lparr>fe_ctx := None\<rparr> else enc)
      in if fe_ctx enc \<noteq> None then Some (OK, enc, ks)
         else do {
           (e, key, ks) \<leftarrow> keystore_get_media_key env ks (ucast kid) E2EE_SESSIONKEY_SIZE;
           if e \<noteq> OK then Some (EAGAIN, enc, ks)
           else Some (OK, enc\<lparr>fe_ctx := Some key, fe_kidx := kid, fe_updated_ts := updated_ts\<rparr>, ks) })"

definition encrypt_seal ::
  "gcm_env \<Rightarrow> frame_encryptor \<Rightarrow> u64 \<Rightarrow> u32 \<Rightarrow> bytes \<Rightarrow> bytes \<Rightarrow> nat
   \<Rightarrow> (err \<times> bytes \<times> nat \<times> frame_encryptor) option" where
  "encrypt_seal g enc kid ssrc src dst dstsz =
     do {
       key \<leftarrow> fe_ctx enc;
       (hlen, dst) \<leftarrow> frame_hdr_write dst (frame_encryptor_max_size (length src)) (fe_frameid enc) kid ssrc;
       iv \<leftarrow> frame_encryptor_xor_iv (fe_iv enc) (ucast (fe_frameid enc)) (ucast kid);
       if \<not> evp_ok g InitIV then Some (ENOSYS, dst, dstsz, enc)
       else if \<not> evp_ok g AddHeader then Some (EBADF, dst, dstsz, enc)
       else if \<not> evp_ok g Update then Some (EBADF, dst, dstsz, enc)
       else do {
         aad \<leftarrow> sub dst 0 (int hlen);
         let call = (key, iv, aad, src);
         let enc = enc\<lparr>fe_sealed := fe_sealed enc @ [call]\<rparr>;
         let (cipher, tag) = seal_call g call;
         dst \<leftarrow> put dst hlen cipher;
         if \<not> evp_ok g Final then Some (EBADF, dst, dstsz, enc)
         else if \<not> evp_ok g Tag then Some (EBADF, dst, dstsz, enc)
         else do {
           dst \<leftarrow> put dst (hlen + length cipher) tag;
           Some (OK, dst, hlen + length cipher + TAG_SIZE, enc\<lparr>fe_frame_enc := True\<rparr>) } } }"

text \<open>The result: the code, the output buffer, \<^verbatim>\<open>*dstsz\<close>, the encryptor and its key store.\<close>

definition frame_encryptor_encrypt ::
  "gcm_env \<Rightarrow> ks_env \<Rightarrow> frame_encryptor \<Rightarrow> keystore \<Rightarrow> u32 \<Rightarrow> bytes \<Rightarrow> bytes \<Rightarrow> nat
   \<Rightarrow> (err \<times> bytes \<times> nat \<times> frame_encryptor \<times> keystore) option" where
  "frame_encryptor_encrypt g env enc ks ssrc src dst dstsz =
     (let enc = enc\<lparr>fe_frameid := (fe_frameid enc + 1) AND 0xFFFFFFFF\<rparr>
      in if \<not> fe_keystore enc then Some (EINVAL, dst, dstsz, enc, ks)
         else do {
           let enc = enc\<lparr>fe_frame_recv := True\<rparr>;
           (e, kid32, updated_ts) \<leftarrow> keystore_get_current ks 0 0;
           if e \<noteq> OK then Some (EAGAIN, dst, dstsz, enc, ks)
           else do {
             let kid = ucast kid32;
             (e, enc, ks) \<leftarrow> encrypt_ctx env enc ks kid updated_ts;
             if e \<noteq> OK then Some (e, dst, dstsz, enc, ks)
             else do {
               (e, dst, dstsz, enc) \<leftarrow> encrypt_seal g enc kid ssrc src dst dstsz;
               Some (e, dst, dstsz, enc, ks) } } })"

subsection \<open>The decryptor\<close>

record frame_decryptor =
  fd_pf :: bool
  fd_kidx :: u32
  fd_ctx :: "bytes option"
  fd_keystore :: bool
  fd_iv :: bytes
  fd_mtype :: frame_media_type
  fd_userid_hash :: "string option"
  fd_csrc :: u32
  fd_frame_count :: u32
  fd_frame_recv :: bool
  fd_frame_dec :: bool

definition frame_decryptor_alloc :: "bool \<Rightarrow> frame_media_type \<Rightarrow> err \<times> frame_decryptor option" where
  "frame_decryptor_alloc mem mtype =
     (if \<not> mem then (ENOMEM, None)
      else (OK, Some \<lparr>fd_pf = False, fd_kidx = 0, fd_ctx = None, fd_keystore = False,
                      fd_iv = replicate IV_SIZE 0, fd_mtype = mtype, fd_userid_hash = None, fd_csrc = 0,
                      fd_frame_count = 0, fd_frame_recv = False, fd_frame_dec = False\<rparr>))"

definition frame_decryptor_set_uid :: "err \<Rightarrow> frame_decryptor \<Rightarrow> string option \<Rightarrow> err \<times> frame_decryptor" where
  "frame_decryptor_set_uid dup_err dec uid =
     (case uid of
        None \<Rightarrow> (EINVAL, dec)
      | Some u \<Rightarrow> if dup_err \<noteq> OK then (dup_err, dec\<lparr>fd_userid_hash := None\<rparr>)
                  else (OK, dec\<lparr>fd_userid_hash := Some u\<rparr>))"

definition frame_decryptor_set_peerflow :: "frame_decryptor \<Rightarrow> bool \<Rightarrow> err \<times> frame_decryptor" where
  "frame_decryptor_set_peerflow dec pf = (if \<not> pf then (EINVAL, dec) else (OK, dec\<lparr>fd_pf := True\<rparr>))"

definition frame_decryptor_set_keystore :: "frame_decryptor \<Rightarrow> bool \<Rightarrow> err \<times> frame_decryptor" where
  "frame_decryptor_set_keystore dec ks = (if \<not> ks then (EINVAL, dec) else (OK, dec\<lparr>fd_keystore := True\<rparr>))"

definition is_video :: "frame_decryptor \<Rightarrow> bool" where
  "is_video dec \<longleftrightarrow> fd_mtype dec = FRAME_MEDIA_VIDEO"

text \<open>
  The parts of \<^verbatim>\<open>frame_decryptor_decrypt\<close> in order: following the sender of the frame (with whether
  it is a new user), the initialisation vector of a new user, the cipher context, the decryption,
  the frame count, and the code at the label \<^verbatim>\<open>out\<close>.
\<close>

definition decrypt_user :: "pf_env \<Rightarrow> frame_decryptor \<Rightarrow> u32 \<Rightarrow> err \<times> bool \<times> frame_decryptor" where
  "decrypt_user pf dec csrc =
     (if csrc \<noteq> 0 \<and> csrc \<noteq> fd_csrc dec \<and> fd_pf dec
      then let dec = dec\<lparr>fd_userid_hash := None\<rparr>;
               e = (if fd_frame_count dec \<noteq> 0
                    then pf_inc_frame_count pf csrc (is_video dec) (fd_frame_count dec) else OK)
           in if e \<noteq> OK then (e, False, dec)
              else let (e, uid) = pf_userid_for_ssrc pf csrc (is_video dec);
                       dec = dec\<lparr>fd_userid_hash := uid\<rparr>
                   in if e \<noteq> OK then (e, False, dec)
                      else (OK, True, dec\<lparr>fd_csrc := csrc, fd_frame_recv := True, fd_frame_count := 0\<rparr>)
      else if \<not> fd_frame_recv dec then (OK, True, dec\<lparr>fd_frame_recv := True, fd_frame_dec := False\<rparr>)
      else (OK, False, dec))"

definition decrypt_new_iv ::
  "ks_env \<Rightarrow> frame_decryptor \<Rightarrow> keystore \<Rightarrow> bool \<Rightarrow> err \<times> frame_decryptor \<times> keystore" where
  "decrypt_new_iv env dec ks new_user =
     (if \<not> new_user then (OK, dec, ks)
      else if fd_userid_hash dec = None then (EAGAIN, dec, ks)
      else if \<not> fd_keystore dec then (EINVAL, dec, ks)
      else let (e, iv) = keystore_generate_iv env (fd_userid_hash dec) (Some (iv_name (fd_mtype dec)))
                           (fd_iv dec);
               dec = dec\<lparr>fd_iv := iv\<rparr>
           in if e \<noteq> OK then (e, dec, ks)
              else (OK, dec\<lparr>fd_frame_dec := False\<rparr>, snd (keystore_set_decrypt_attempted ks)))"

definition decrypt_ctx ::
  "ks_env \<Rightarrow> frame_decryptor \<Rightarrow> keystore \<Rightarrow> u64 \<Rightarrow> (err \<times> frame_decryptor \<times> keystore) option" where
  "decrypt_ctx env dec ks kid =
     (let dec = (if kid \<noteq> ucast (fd_kidx dec) \<and> fd_ctx dec \<noteq> None then dec\<lparr>fd_ctx := None\<rparr> else dec)
      in if fd_ctx dec \<noteq> None then Some (OK, dec, ks)
         else if \<not> fd_keystore dec then Some (EAGAIN, dec, ks)
         else do {
           (e, key, ks) \<leftarrow> keystore_get_media_key env ks (ucast kid) E2EE_SESSIONKEY_SIZE;
           if e \<noteq> OK then Some (EAGAIN, dec, ks)
           else Some (OK, dec\<lparr>fd_ctx := Some key, fd_kidx := ucast kid\<rparr>, ks) })"

definition decrypt_open ::
  "gcm_env \<Rightarrow> frame_decryptor \<Rightarrow> bytes \<Rightarrow> bytes \<Rightarrow> nat \<Rightarrow> bytes \<Rightarrow> nat
   \<Rightarrow> (err \<times> bytes \<times> nat) option" where
  "decrypt_open g dec iv src hsize dst dstsz =
     do {
       let enc_size = int (length src) - int hsize - int TAG_SIZE;
       key \<leftarrow> fd_ctx dec;
       if \<not> evp_ok g InitIV then Some (EIO, dst, dstsz)
       else do {
         tag \<leftarrow> sub src (int hsize + enc_size) (int TAG_SIZE);
         if \<not> evp_ok g Tag then Some (EIO, dst, dstsz)
         else do {
           aad \<leftarrow> sub src 0 (int hsize);
           if \<not> evp_ok g AddHeader then Some (EIO, dst, dstsz)
           else if enc_size < 0
           then do {
             (ok, out) \<leftarrow> evp_negative g key iv aad tag enc_size;
             dst \<leftarrow> put dst 0 out;
             if \<not> ok then Some (EIO, dst, dstsz) else Some (OK, dst, length out) }
           else do {
             enc \<leftarrow> sub src (int hsize) enc_size;
             if \<not> evp_ok g Update then Some (EIO, dst, dstsz)
             else do {
               let plain = gcm_plain g key iv enc;
               dst \<leftarrow> put dst 0 plain;
               if \<not> (evp_ok g Final \<and> gcm_auth g key iv aad enc tag) then Some (EIO, dst, dstsz)
               else Some (OK, dst, length plain) } } } } }"

definition decrypt_count :: "pf_env \<Rightarrow> frame_decryptor \<Rightarrow> u32 \<Rightarrow> err \<times> frame_decryptor" where
  "decrypt_count pf dec csrc =
     (let frm_res = (if is_video dec then 15 else 50);
          dec = dec\<lparr>fd_frame_count := fd_frame_count dec + 1\<rparr>
      in if fd_pf dec \<and> frm_res \<le> fd_frame_count dec
         then (pf_inc_frame_count pf csrc (is_video dec) (fd_frame_count dec), dec\<lparr>fd_frame_count := 0\<rparr>)
         else (OK, dec))"

definition decrypt_frame ::
  "gcm_env \<Rightarrow> ks_env \<Rightarrow> pf_env \<Rightarrow> frame_decryptor \<Rightarrow> keystore \<Rightarrow> u32 \<Rightarrow> bytes \<Rightarrow> bytes \<Rightarrow> nat
   \<Rightarrow> (err \<times> bytes \<times> nat \<times> frame_decryptor \<times> keystore) option" where
  "decrypt_frame g env pf dec ks csrc src dst dstsz =
     (if length src < FRAME_HDR_MINSZ then Some (EAGAIN, dst, dstsz, dec, ks)
      else do {
        (e, hdr) \<leftarrow> frame_hdr_read src (length src) \<lparr>ho_frameid = 0, ho_key = 0, ho_csrc = 0, ho_rlen = 0\<rparr>;
        if e \<noteq> OK then Some (e, dst, dstsz, dec, ks)
        else do {
          let fid32 = ucast (ho_frameid hdr);
          let csrc = (if ho_csrc hdr \<noteq> 0 then ho_csrc hdr else csrc);
          let (e, new_user, dec) = decrypt_user pf dec csrc;
          if e \<noteq> OK then Some (e, dst, dstsz, dec, ks)
          else do {
            let (e, dec, ks) = decrypt_new_iv env dec ks new_user;
            if e \<noteq> OK then Some (e, dst, dstsz, dec, ks)
            else do {
              iv \<leftarrow> frame_encryptor_xor_iv (fd_iv dec) fid32 (ucast (ho_key hdr));
              (e, dec, ks) \<leftarrow> decrypt_ctx env dec ks (ho_key hdr);
              if e \<noteq> OK then Some (e, dst, dstsz, dec, ks)
              else do {
                (e, dst, dstsz) \<leftarrow> decrypt_open g dec iv src (ho_rlen hdr) dst dstsz;
                if e \<noteq> OK then Some (e, dst, dstsz, dec, ks)
                else do {
                  let (e, dec) = decrypt_count pf dec csrc;
                  Some (e, dst, dstsz, dec, ks) } } } } } })"

definition frame_decryptor_decrypt ::
  "gcm_env \<Rightarrow> ks_env \<Rightarrow> pf_env \<Rightarrow> frame_decryptor \<Rightarrow> keystore \<Rightarrow> u32 \<Rightarrow> bytes \<Rightarrow> bytes \<Rightarrow> nat
   \<Rightarrow> (err \<times> bytes \<times> nat \<times> frame_decryptor \<times> keystore) option" where
  "frame_decryptor_decrypt g env pf dec ks csrc src dst dstsz =
     do {
       (e, dst, dstsz, dec, ks) \<leftarrow> decrypt_frame g env pf dec ks csrc src dst dstsz;
       let dec = (if e \<noteq> OK then dec\<lparr>fd_ctx := None\<rparr> else dec);
       if e = OK \<and> \<not> fd_frame_dec dec
       then Some (e, dst, dstsz, dec\<lparr>fd_frame_dec := True\<rparr>,
                  if fd_keystore dec then snd (keystore_set_decrypt_successful ks) else ks)
       else Some (e, dst, dstsz, dec, ks) }"

definition frame_decryptor_max_size :: "nat \<Rightarrow> nat" where
  "frame_decryptor_max_size srcsz = srcsz"

section \<open>The contract of AES-GCM\<close>

text \<open>
  What the code relies on: opening undoes sealing under the same key, vector and header, the
  ciphertext has the length of the plaintext, and a tag has 16 bytes.
\<close>

definition gcm_ok :: "gcm_env \<Rightarrow> bool" where
  "gcm_ok g \<longleftrightarrow>
     (\<forall>key iv aad plain.
        length (fst (gcm_seal g key iv aad plain)) = length plain \<and>
        length (snd (gcm_seal g key iv aad plain)) = TAG_SIZE \<and>
        gcm_plain g key iv (fst (gcm_seal g key iv aad plain)) = plain \<and>
        gcm_auth g key iv aad (fst (gcm_seal g key iv aad plain)) (snd (gcm_seal g key iv aad plain))) \<and>
     (\<forall>key iv cipher. length (gcm_plain g key iv cipher) = length cipher)"

lemma gcm_okD:
  assumes "gcm_ok g" and "gcm_seal g key iv aad plain = (c, t)"
  shows "length c = length plain" "length t = TAG_SIZE" "gcm_plain g key iv c = plain" "gcm_auth g key iv aad c t"
  using assms unfolding gcm_ok_def by (metis fst_conv snd_conv)+

lemma gcm_plain_length: "gcm_ok g \<Longrightarrow> length (gcm_plain g key iv c) = length c"
  by (simp add: gcm_ok_def)

section \<open>Nonces\<close>

lemma u32_eq_bytes:
  fixes x y :: u32
  assumes "(ucast (drop_bit 24 x AND 0xff) :: u8) = ucast (drop_bit 24 y AND 0xff)"
    and "(ucast (drop_bit 16 x AND 0xff) :: u8) = ucast (drop_bit 16 y AND 0xff)"
    and "(ucast (drop_bit 8 x AND 0xff) :: u8) = ucast (drop_bit 8 y AND 0xff)"
    and "(ucast (x AND 0xff) :: u8) = ucast (y AND 0xff)"
  shows "x = y"
proof -
  have mask: "(0xff :: u32) = mask 8" by (simp add: mask_eq_exp_minus_1)
  have byte: "bit x (k + m) = bit y (k + m)"
    if "(ucast (drop_bit k x AND 0xff) :: u8) = ucast (drop_bit k y AND 0xff)" "m < 8" for k m
  proof -
    have "bit (ucast (drop_bit k x AND 0xff) :: u8) m = bit (ucast (drop_bit k y AND 0xff) :: u8) m"
      using that(1) by simp
    then show ?thesis using that(2) by (simp add: mask bit_simps)
  qed
  show ?thesis
  proof (rule bit_word_eqI)
    fix n assume "n < LENGTH(32)"
    then consider "n < 8" | "8 \<le> n" "n < 16" | "16 \<le> n" "n < 24" | "24 \<le> n" "n < 32" by fastforce
    then show "bit x n = bit y n"
      using byte [of 0 n] byte [of 8 "n - 8"] byte [of 16 "n - 16"] byte [of 24 "n - 24"] assms
      by cases simp_all
  qed
qed

lemma fbytes_inj: "fbytes f k = fbytes f' k' \<Longrightarrow> f = f' \<and> k = k'"
  by (auto simp: fbytes_def intro!: u32_eq_bytes)

lemma length_fbytes [simp]: "length (fbytes f k) = 8"
  by (simp add: fbytes_def)

lemma xor_cancel: "length a = length b \<Longrightarrow> length a = length c \<Longrightarrow>
  map2 (XOR) a b = map2 (XOR) a (c :: u8 list) \<Longrightarrow> b = c"
proof (induction a b arbitrary: c rule: list_induct2)
  case (Cons x xs y ys)
  then obtain z zs where c: "c = z # zs" by (cases c) auto
  with Cons.prems have "x XOR y = x XOR z" by simp
  then have "x XOR (x XOR y) = x XOR (x XOR z)" by simp
  then have "y = z" by (simp add: xor.assoc [symmetric])
  with Cons c show ?case by simp
qed simp

lemma xor_iv_inj:
  assumes "frame_encryptor_xor_iv iv f k = Some n" and "frame_encryptor_xor_iv iv f' k' = Some n"
  shows "f = f' \<and> k = k'"
proof -
  have len: "7 < length iv" using assms(1) by (auto simp: frame_encryptor_xor_iv_def split: if_splits)
  have "map2 (XOR) (take 8 iv) (fbytes f k) @ drop 8 iv = map2 (XOR) (take 8 iv) (fbytes f' k') @ drop 8 iv"
    using assms len by (simp add: frame_encryptor_xor_iv_def)
  then have "map2 (XOR) (take 8 iv) (fbytes f k) = map2 (XOR) (take 8 iv) (fbytes f' k')" by simp
  from xor_cancel [OF _ _ this] len have "fbytes f k = fbytes f' k'" by simp
  then show ?thesis by (rule fbytes_inj)
qed

lemma xor_iv_defined: "7 < length iv \<Longrightarrow> \<exists>n. frame_encryptor_xor_iv iv f k = Some n"
  by (simp add: frame_encryptor_xor_iv_def)

section \<open>Encryption\<close>

lemma ucast_u32_u64 [simp]: "(ucast (ucast (x :: u32) :: u64) :: u32) = x"
  by (rule bit_word_eqI) (simp add: bit_simps)

text \<open>With a current key the cipher context is set up for it and the store stays as it is.\<close>

lemma encrypt_ctx_spec:
  assumes "list_sort_ok (env_sort env)" and "ks_inv ks" and "keystore_get_current ks 0 0 = Some (OK, kid32, ts)"
  shows "\<exists>key. encrypt_ctx env enc ks (ucast kid32) ts =
      Some (OK, enc\<lparr>fe_ctx := Some key, fe_kidx := ucast kid32, fe_updated_ts := ts\<rparr>, ks) \<and>
    (keystore_get_media_key env ks kid32 E2EE_SESSIONKEY_SIZE = Some (OK, key, ks) \<or>
     fe_ctx enc = Some key \<and> fe_kidx enc = ucast kid32)"
proof -
  have "src_inv (env, ks)" "src_current (env, ks) = Some (OK, kid32, ts)"
    using assms by (simp_all add: src_inv_def src_current_def)
  then obtain key where "src_media (env, ks) kid32 E2EE_SESSIONKEY_SIZE = Some (OK, key, (env, ks))"
    using ksrc.current_media by blast
  then have get: "keystore_get_media_key env ks kid32 E2EE_SESSIONKEY_SIZE = Some (OK, key, ks)"
    by (auto simp: src_media_def)
  show ?thesis
  proof (cases "fe_ctx enc \<noteq> None \<and> fe_kidx enc = ucast kid32 \<and> fe_updated_ts enc = ts")
    case True
    then obtain k where "fe_ctx enc = Some k" by auto
    moreover from this True have "enc = enc\<lparr>fe_ctx := Some k, fe_kidx := ucast kid32, fe_updated_ts := ts\<rparr>"
      by simp
    ultimately show ?thesis using True by (intro exI [of _ k]) (simp add: encrypt_ctx_def Let_def)
  next
    case False
    then show ?thesis using get by (auto simp: encrypt_ctx_def Let_def)
  qed
qed

lemma put_defined:
  assumes "off + length xs \<le> length buf"
  shows "put buf off xs = Some (take off buf @ xs @ drop (off + length xs) buf)"
  using assms by (simp add: put_def)

lemma sub_prefix: "sub (h @ xs) 0 (int (length h)) = Some h"
  by (simp add: sub_def)

text \<open>Every outcome of the writing part, with room for the largest frame.\<close>

definition sealed :: "gcm_env \<Rightarrow> bytes \<Rightarrow> bytes \<Rightarrow> bytes \<Rightarrow> bytes \<Rightarrow> bytes" where
  "sealed g key iv h src = h @ fst (gcm_seal g key iv h src) @ snd (gcm_seal g key iv h src)"

lemma hdr_bytes_max: "length (hdr_bytes frame kid ssrc) < frame_hdr_max_size"
  using calc_len_bounds [of "ucast kid"] calc_len_bounds [of "ucast frame"]
  by (simp add: length_hdr_bytes frame_hdr_max_size_def)

lemma encrypt_seal_spec:
  fixes ssrc :: u32
  assumes g: "gcm_ok g" and ctx: "fe_ctx enc = Some key"
    and iv: "frame_encryptor_xor_iv (fe_iv enc) (ucast (fe_frameid enc)) (ucast kid) = Some iv"
    and room: "frame_encryptor_max_size (length src) \<le> length dst"
  defines "h \<equiv> hdr_bytes (fe_frameid enc) kid ssrc"
  shows "\<exists>e dst' n enc'. encrypt_seal g enc kid ssrc src dst dstsz = Some (e, dst', n, enc') \<and>
    length dst' = length dst \<and> fe_frameid enc' = fe_frameid enc \<and> fe_iv enc' = fe_iv enc \<and>
    fe_ctx enc' = Some key \<and> fe_kidx enc' = fe_kidx enc \<and> fe_keystore enc' = fe_keystore enc \<and>
    (e = OK \<longrightarrow> n = length (sealed g key iv h src) \<and> take n dst' = sealed g key iv h src \<and>
                n \<le> frame_encryptor_max_size (length src)) \<and>
    ((\<forall>c. evp_ok g c) \<longrightarrow> e = OK)"
proof -
  obtain c t where ct: "gcm_seal g key iv h src = (c, t)" by fastforce
  note len = gcm_okD(1,2) [OF g ct]
  have hl: "length h < frame_hdr_max_size" unfolding h_def by (rule hdr_bytes_max)
  have fits: "length h + length c + length t \<le> length dst"
    using room hl len by (simp add: frame_encryptor_max_size_def)
  let ?d1 = "h @ drop (length h) dst"
  let ?d2 = "h @ c @ drop (length h + length c) dst"
  let ?d3 = "h @ c @ t @ drop (length h + length c + length t) dst"
  have w: "frame_hdr_write dst (frame_encryptor_max_size (length src)) (fe_frameid enc) kid ssrc
      = Some (length h, ?d1)"
    using frame_hdr_write_eq [OF room] hl by (simp add: h_def Let_def frame_encryptor_max_size_def)
  have p1: "put ?d1 (length h) c = Some ?d2" using fits by (simp add: put_def ac_simps)
  have p2: "put ?d2 (length h + length c) t = Some ?d3" using fits by (simp add: put_def ac_simps)
  have l1: "length ?d1 = length dst" and l2: "length ?d2 = length dst" and l3: "length ?d3 = length dst"
    using fits by simp_all
  have "length h + length c + TAG_SIZE = length (h @ c @ t)" using len(2) by simp
  moreover have "length (h @ c @ t) \<le> frame_encryptor_max_size (length src)"
    using hl len by (simp add: frame_encryptor_max_size_def)
  ultimately show ?thesis
    using l1 l2 l3 by (auto simp: encrypt_seal_def ctx iv w sub_prefix ct p1 p2 sealed_def Let_def)
qed

text \<open>One call of the encryptor.\<close>

lemma encrypt_spec:
  assumes "gcm_ok g" and "list_sort_ok (env_sort env)" and "ks_inv ks" and "7 < length (fe_iv enc)"
    and room: "frame_encryptor_max_size (length src) \<le> length dst"
  defines "fid \<equiv> (fe_frameid enc + 1) AND 0xFFFFFFFF"
  shows "\<exists>e dst' n enc'. frame_encryptor_encrypt g env enc ks ssrc src dst dstsz = Some (e, dst', n, enc', ks) \<and>
    length dst' = length dst \<and> fe_frameid enc' = fid \<and> fe_iv enc' = fe_iv enc \<and>
    (e = OK \<longrightarrow> (\<exists>kid ts key iv. keystore_get_current ks 0 0 = Some (OK, kid, ts) \<and>
       frame_encryptor_xor_iv (fe_iv enc) (ucast fid) kid = Some iv \<and> fe_ctx enc' = Some key \<and>
       n \<le> frame_encryptor_max_size (length src) \<and>
       n = length (sealed g key iv (hdr_bytes fid (ucast kid) ssrc) src) \<and>
       take n dst' = sealed g key iv (hdr_bytes fid (ucast kid) ssrc) src \<and>
       fe_kidx enc' = ucast kid \<and> fe_keystore enc' \<and>
       (keystore_get_media_key env ks kid E2EE_SESSIONKEY_SIZE = Some (OK, key, ks) \<or>
        fe_ctx enc = Some key \<and> fe_kidx enc = ucast kid))) \<and>
    (fe_keystore enc \<and> ks_current ks \<noteq> None \<and> (\<forall>c. evp_ok g c) \<longrightarrow> e = OK)"
proof -
  let ?enc = "enc\<lparr>fe_frameid := fid, fe_frame_recv := True\<rparr>"
  obtain e i t where cur: "keystore_get_current ks 0 0 = Some (e, i, t)"
    using ksrc.ready [of "(env, ks)" 0] assms(2,3) by (auto simp: src_inv_def src_current_def)
  show ?thesis
  proof (cases "fe_keystore enc \<and> e = OK")
    case False
    then show ?thesis
      using cur by (auto simp: frame_encryptor_encrypt_def keystore_get_current_def Let_def fid_def)
  next
    case True
    obtain key where ctx: "encrypt_ctx env ?enc ks (ucast i) t =
        Some (OK, ?enc\<lparr>fe_ctx := Some key, fe_kidx := ucast i, fe_updated_ts := t\<rparr>, ks)"
        "keystore_get_media_key env ks i E2EE_SESSIONKEY_SIZE = Some (OK, key, ks) \<or>
         fe_ctx enc = Some key \<and> fe_kidx enc = ucast i"
      using encrypt_ctx_spec [OF assms(2,3), of i t ?enc] cur True by auto
    let ?enc1 = "?enc\<lparr>fe_ctx := Some key, fe_kidx := ucast i, fe_updated_ts := t\<rparr>"
    obtain iv where iv: "frame_encryptor_xor_iv (fe_iv enc) (ucast fid) i = Some iv"
      using xor_iv_defined [OF assms(4)] by blast
    obtain e' dst' n enc' where r: "encrypt_seal g ?enc1 (ucast i) ssrc src dst dstsz = Some (e', dst', n, enc')"
      "length dst' = length dst" "fe_frameid enc' = fid" "fe_iv enc' = fe_iv enc" "fe_ctx enc' = Some key"
      "fe_kidx enc' = ucast i" "fe_keystore enc' = fe_keystore enc"
      "e' = OK \<longrightarrow> n = length (sealed g key iv (hdr_bytes fid (ucast i) ssrc) src) \<and>
         take n dst' = sealed g key iv (hdr_bytes fid (ucast i) ssrc) src \<and>
         n \<le> frame_encryptor_max_size (length src)"
      "(\<forall>c. evp_ok g c) \<longrightarrow> e' = OK"
      using encrypt_seal_spec [OF assms(1) _ _ room, of ?enc1 key "ucast i" iv ssrc dstsz] iv
      by (simp del: not_all) blast
    have "frame_encryptor_encrypt g env enc ks ssrc src dst dstsz = Some (e', dst', n, enc', ks)"
      using True cur ctx(1) r(1) by (simp add: frame_encryptor_encrypt_def Let_def fid_def)
    then show ?thesis using r(2-9) cur True iv ctx(2) by auto
  qed
qed

section \<open>Decryption\<close>

text \<open>The three parts of a frame whose header has \<open>hsize\<close> bytes: header, ciphertext, tag.\<close>

definition f_aad :: "bytes \<Rightarrow> nat \<Rightarrow> bytes" where
  "f_aad src hsize = take hsize src"

definition f_cipher :: "bytes \<Rightarrow> nat \<Rightarrow> bytes" where
  "f_cipher src hsize = take (length src - hsize - TAG_SIZE) (drop hsize src)"

definition f_tag :: "bytes \<Rightarrow> bytes" where
  "f_tag src = drop (length src - TAG_SIZE) src"

lemma sealed_parts:
  assumes "gcm_ok g"
  shows "f_aad (sealed g key iv h plain) (length h) = h"
    and "f_cipher (sealed g key iv h plain) (length h) = fst (gcm_seal g key iv h plain)"
    and "f_tag (sealed g key iv h plain) = snd (gcm_seal g key iv h plain)"
    and "length (sealed g key iv h plain) = length h + length plain + TAG_SIZE"
proof -
  obtain c t where ct: "gcm_seal g key iv h plain = (c, t)" by fastforce
  note len = gcm_okD(1,2) [OF assms ct]
  show "f_aad (sealed g key iv h plain) (length h) = h"
    "f_cipher (sealed g key iv h plain) (length h) = fst (gcm_seal g key iv h plain)"
    "f_tag (sealed g key iv h plain) = snd (gcm_seal g key iv h plain)"
    "length (sealed g key iv h plain) = length h + length plain + TAG_SIZE"
    using len by (simp_all add: sealed_def ct f_aad_def f_cipher_def f_tag_def)
qed

lemma sub_parts:
  assumes "hsize + TAG_SIZE \<le> length src"
  shows "sub src (int (length src) - int TAG_SIZE) (int TAG_SIZE) = Some (f_tag src)"
    and "sub src 0 (int hsize) = Some (f_aad src hsize)"
    and "sub src (int hsize) (int (length src) - int hsize - int TAG_SIZE) = Some (f_cipher src hsize)"
proof -
  have n: "nat (int (length src) - int TAG_SIZE) = length src - TAG_SIZE"
    "nat (int (length src) - int hsize - int TAG_SIZE) = length src - hsize - TAG_SIZE"
    using assms by linarith+
  show "sub src (int (length src) - int TAG_SIZE) (int TAG_SIZE) = Some (f_tag src)"
    "sub src 0 (int hsize) = Some (f_aad src hsize)"
    "sub src (int hsize) (int (length src) - int hsize - int TAG_SIZE) = Some (f_cipher src hsize)"
    using assms n by (simp_all add: sub_def f_tag_def f_aad_def f_cipher_def)
qed

lemma decrypt_open_spec:
  assumes g: "gcm_ok g" and ctx: "fd_ctx dec = Some key" and size: "hsize + TAG_SIZE \<le> length src"
    and room: "length src \<le> length dst"
  shows "\<exists>e dst' n. decrypt_open g dec iv src hsize dst dstsz = Some (e, dst', n) \<and>
    length dst' = length dst \<and>
    (e = OK \<longrightarrow> gcm_auth g key iv (f_aad src hsize) (f_cipher src hsize) (f_tag src) \<and>
       n = length (f_cipher src hsize) \<and> take n dst' = gcm_plain g key iv (f_cipher src hsize)) \<and>
    ((\<forall>c. evp_ok g c) \<and> gcm_auth g key iv (f_aad src hsize) (f_cipher src hsize) (f_tag src) \<longrightarrow> e = OK)"
proof -
  let ?p = "gcm_plain g key iv (f_cipher src hsize)"
  have len: "length ?p = length (f_cipher src hsize)" by (rule gcm_plain_length [OF g])
  have "length ?p \<le> length dst" using len room size by (simp add: f_cipher_def)
  then have "put dst 0 ?p = Some (?p @ drop (length ?p) dst)" "length (?p @ drop (length ?p) dst) = length dst"
    by (simp_all add: put_def)
  then show ?thesis
    using len size by (auto simp: decrypt_open_def ctx sub_parts [OF size] Let_def)
qed

definition hkdf_len :: "ks_env \<Rightarrow> bool" where
  "hkdf_len env \<longleftrightarrow> (\<forall>n s salt info out. env_hkdf env n s salt info = Some out \<longrightarrow> length out = n)"

lemma generate_iv_length:
  "hkdf_len env \<Longrightarrow> keystore_generate_iv env c n iv = (e, iv') \<Longrightarrow> length iv' = length iv"
  by (auto simp: keystore_generate_iv_def hkdf_len_def split: option.splits)

lemma decrypt_user_frame:
  "decrypt_user pf dec csrc = (e, b, dec') \<Longrightarrow>
   fd_iv dec' = fd_iv dec \<and> fd_keystore dec' = fd_keystore dec \<and> fd_ctx dec' = fd_ctx dec"
  by (auto simp: decrypt_user_def Let_def split: if_splits prod.splits)

lemma decrypt_new_iv_frame:
  assumes "hkdf_len env" and "ks_inv ks" and "decrypt_new_iv env dec ks b = (e, dec', ks')"
  shows "length (fd_iv dec') = length (fd_iv dec)" and "ks_inv ks'" and "fd_keystore dec' = fd_keystore dec"
    and "fd_ctx dec' = fd_ctx dec"
  using assms generate_iv_length [OF assms(1)]
  by (auto simp: decrypt_new_iv_def Let_def keystore_set_decrypt_attempted_def ks_inv_def
           split: if_splits prod.splits)

lemma decrypt_ctx_spec:
  assumes "list_sort_ok (env_sort env)" and "ks_inv ks"
  shows "\<exists>e dec' ks'. decrypt_ctx env dec ks kid = Some (e, dec', ks') \<and> ks_inv ks' \<and>
    fd_iv dec' = fd_iv dec \<and> (e = OK \<longrightarrow> fd_ctx dec' \<noteq> None)"
  using get_media_key_inv [OF assms, of "ucast kid" E2EE_SESSIONKEY_SIZE] assms(2)
  by (fastforce simp: decrypt_ctx_def Let_def)

text \<open>A call of the decryptor on a frame that has room for header and tag.\<close>

definition hdr0 :: hdr_out where
  "hdr0 = \<lparr>ho_frameid = 0, ho_key = 0, ho_csrc = 0, ho_rlen = 0\<rparr>"

definition opened :: "gcm_env \<Rightarrow> frame_decryptor \<Rightarrow> hdr_out \<Rightarrow> bytes \<Rightarrow> bytes \<Rightarrow> nat \<Rightarrow> bool" where
  "opened g dec hdr src dst n \<longleftrightarrow>
     (case (fd_ctx dec, frame_encryptor_xor_iv (fd_iv dec) (ucast (ho_frameid hdr)) (ucast (ho_key hdr))) of
        (Some key, Some iv) \<Rightarrow>
          gcm_auth g key iv (f_aad src (ho_rlen hdr)) (f_cipher src (ho_rlen hdr)) (f_tag src) \<and>
          n = length (f_cipher src (ho_rlen hdr)) \<and>
          take n dst = gcm_plain g key iv (f_cipher src (ho_rlen hdr))
      | _ \<Rightarrow> False)"

lemma opened_frame_dec [simp]: "opened g (dec\<lparr>fd_frame_dec := b\<rparr>) hdr src dst n = opened g dec hdr src dst n"
  by (cases "fd_ctx dec") (simp_all add: opened_def)

lemma decrypt_count_frame:
  "decrypt_count pf dec csrc = (e, dec') \<Longrightarrow> fd_ctx dec' = fd_ctx dec \<and> fd_iv dec' = fd_iv dec"
  by (auto simp: decrypt_count_def Let_def split: if_splits)

lemma decrypt_frame_spec:
  assumes "gcm_ok g" and "list_sort_ok (env_sort env)" and "hkdf_len env" and "ks_inv ks"
    and "7 < length (fd_iv dec)" and "length src \<le> length dst"
    and size: "\<And>hdr. frame_hdr_read src (length src) hdr0 = Some (OK, hdr) \<Longrightarrow> ho_rlen hdr + TAG_SIZE \<le> length src"
  shows "\<exists>e dst' n dec' ks'. decrypt_frame g env pf dec ks csrc src dst dstsz = Some (e, dst', n, dec', ks') \<and>
    ks_inv ks' \<and> length dst' = length dst \<and> length (fd_iv dec') = length (fd_iv dec) \<and>
    (e = OK \<longrightarrow> (\<exists>hdr. frame_hdr_read src (length src) hdr0 = Some (OK, hdr) \<and> opened g dec' hdr src dst' n))"
proof (cases "length src < FRAME_HDR_MINSZ")
  case True
  then show ?thesis using assms(4) by (simp add: decrypt_frame_def)
next
  case False
  then obtain e hdr where hdr: "frame_hdr_read src (length src) hdr0 = Some (e, hdr)"
    using frame_hdr_read_bounds [of "length src" src hdr0] by auto
  note hdr' = hdr [unfolded hdr0_def]
  let ?csrc = "if ho_csrc hdr \<noteq> 0 then ho_csrc hdr else csrc"
  obtain e1 b dec1 where u: "decrypt_user pf dec ?csrc = (e1, b, dec1)" by (metis prod_cases3)
  obtain e2 dec2 ks2 where v: "decrypt_new_iv env dec1 ks b = (e2, dec2, ks2)" by (metis prod_cases3)
  note uf = decrypt_user_frame [OF u] and vf = decrypt_new_iv_frame [OF assms(3,4) v]
  obtain iv where iv: "frame_encryptor_xor_iv (fd_iv dec2) (ucast (ho_frameid hdr)) (ucast (ho_key hdr)) = Some iv"
    using xor_iv_defined [of "fd_iv dec2"] uf vf assms(5) by auto
  obtain e3 dec3 ks3 where c: "decrypt_ctx env dec2 ks2 (ho_key hdr) = Some (e3, dec3, ks3)" "ks_inv ks3"
      "fd_iv dec3 = fd_iv dec2" "e3 = OK \<longrightarrow> fd_ctx dec3 \<noteq> None"
    using decrypt_ctx_spec [OF assms(2) vf(2)] by blast
  show ?thesis
  proof (cases "e = OK \<and> e1 = OK \<and> e2 = OK \<and> e3 = OK")
    case False
    then show ?thesis
      using \<open>\<not> length src < FRAME_HDR_MINSZ\<close> hdr' u v iv c assms(4) uf vf
      by (cases "e = OK"; cases "e1 = OK"; cases "e2 = OK") (simp_all add: decrypt_frame_def Let_def)
  next
    case ok: True
    then obtain key where key: "fd_ctx dec3 = Some key" using c(4) by auto
    have sz: "ho_rlen hdr + TAG_SIZE \<le> length src" using size hdr ok by simp
    obtain e4 dst' n where o: "decrypt_open g dec3 iv src (ho_rlen hdr) dst dstsz = Some (e4, dst', n)"
        "length dst' = length dst"
        "e4 = OK \<longrightarrow> gcm_auth g key iv (f_aad src (ho_rlen hdr)) (f_cipher src (ho_rlen hdr)) (f_tag src) \<and>
          n = length (f_cipher src (ho_rlen hdr)) \<and> take n dst' = gcm_plain g key iv (f_cipher src (ho_rlen hdr))"
      using decrypt_open_spec [OF assms(1) key sz assms(6)] by metis
    obtain e5 dec5 where d: "decrypt_count pf dec3 ?csrc = (e5, dec5)" by fastforce
    note df = decrypt_count_frame [OF d]
    show ?thesis
      using False hdr hdr' u v iv c o d df ok uf vf key
      by (cases "e4 = OK") (auto simp: decrypt_frame_def Let_def opened_def)
  qed
qed

lemma frameid_bound: "(x :: u64) AND 0xFFFFFFFF < 2 ^ 32"
proof -
  have m: "x AND 0xFFFFFFFF = take_bit 32 x" by (simp add: take_bit_eq_mask mask_eq_exp_minus_1)
  have "unat (take_bit 32 x) < 2 ^ 32" by (simp only: unsigned_take_bit_eq take_bit_nat_less_exp)
  then show ?thesis unfolding m by (simp add: word_less_nat_alt)
qed

lemma u32_in_u64: "(ucast (x :: u32) :: u64) < 2 ^ 32"
proof -
  have "unat x < 2 ^ LENGTH(32)" by (rule unsigned_less)
  then have "take_bit 64 (unat x) < 2 ^ LENGTH(32)" by (rule le_less_trans [OF take_bit_nat_less_eq_self])
  then show ?thesis by (simp add: word_less_nat_alt unsigned_ucast_eq)
qed

text \<open>
  A receiver that can follow a sender with user id \<open>uid\<close> and vector \<open>iv\<close>: its key store is set, and the
  vector it has used is that of the sender. It is ready for a frame of the source \<open>csrc\<close> when it had a frame
  of that sender, was told the user id, or has a peer flow that will tell it.
\<close>

definition follows :: "bytes \<Rightarrow> frame_decryptor \<Rightarrow> bool" where
  "follows iv dec \<longleftrightarrow> fd_keystore dec \<and> length iv = IV_SIZE \<and> length (fd_iv dec) = IV_SIZE \<and>
     (fd_frame_recv dec \<longrightarrow> fd_iv dec = iv)"

definition ready :: "string \<Rightarrow> frame_decryptor \<Rightarrow> u32 \<Rightarrow> bool" where
  "ready uid dec csrc \<longleftrightarrow> fd_frame_recv dec \<or> fd_userid_hash dec = Some uid \<or> fd_pf dec \<and> csrc \<noteq> 0 \<and> csrc \<noteq> fd_csrc dec"

text \<open>The peer flow knows the sender and its frame counts do not fail.\<close>

definition pf_knows :: "pf_env \<Rightarrow> string \<Rightarrow> bool" where
  "pf_knows pf uid \<longleftrightarrow> (\<forall>csrc video n. pf_inc_frame_count pf csrc video n = OK) \<and>
     (\<forall>csrc video. pf_userid_for_ssrc pf csrc video = (OK, Some uid))"

lemma decrypt_follow:
  assumes "follows iv dec" and "ready uid dec csrc" and "fd_pf dec \<Longrightarrow> pf_knows pf uid"
    and iv: "env_hkdf env IV_SIZE (bytes_of uid) (bytes_of (iv_name (fd_mtype dec))) [] = Some iv"
  shows "\<exists>b dec1 dec2 att. decrypt_user pf dec csrc = (OK, b, dec1) \<and>
    decrypt_new_iv env dec1 ks b = (OK, dec2, ks\<lparr>ks_decrypt_attempted := att\<rparr>) \<and>
    fd_keystore dec2 \<and> fd_frame_recv dec2 \<and> fd_iv dec2 = iv \<and> fd_pf dec2 = fd_pf dec \<and>
    fd_mtype dec2 = fd_mtype dec \<and> fd_ctx dec2 = fd_ctx dec \<and> fd_kidx dec2 = fd_kidx dec"
proof -
  have gen: "decrypt_new_iv env d ks True = (OK, d\<lparr>fd_iv := iv, fd_frame_dec := False\<rparr>, ks\<lparr>ks_decrypt_attempted := True\<rparr>)"
    if "fd_userid_hash d = Some uid" "fd_keystore d" "fd_mtype d = fd_mtype dec" "fd_iv d = fd_iv dec" for d
    using that assms(1) iv
    by (simp add: decrypt_new_iv_def keystore_generate_iv_def follows_def keystore_set_decrypt_attempted_def Let_def)
  have ex: ?thesis
    if "decrypt_user pf dec csrc = (OK, b, d1)" "decrypt_new_iv env d1 ks b = (OK, d2, ks\<lparr>ks_decrypt_attempted := att\<rparr>)"
      "fd_keystore d2" "fd_frame_recv d2" "fd_iv d2 = iv" "fd_pf d2 = fd_pf dec"
      "fd_mtype d2 = fd_mtype dec" "fd_ctx d2 = fd_ctx dec" "fd_kidx d2 = fd_kidx dec" for b d1 d2 att
    using that by blast
  have ks: "ks\<lparr>ks_decrypt_attempted := ks_decrypt_attempted ks\<rparr> = ks" by simp
  consider (new) "csrc \<noteq> 0" "csrc \<noteq> fd_csrc dec" "fd_pf dec"
    | (first) "\<not> (csrc \<noteq> 0 \<and> csrc \<noteq> fd_csrc dec \<and> fd_pf dec)" "\<not> fd_frame_recv dec"
    | (known) "\<not> (csrc \<noteq> 0 \<and> csrc \<noteq> fd_csrc dec \<and> fd_pf dec)" "fd_frame_recv dec" by blast
  then show ?thesis
  proof cases
    case new
    let ?d = "dec\<lparr>fd_userid_hash := Some uid, fd_csrc := csrc, fd_frame_recv := True, fd_frame_count := 0\<rparr>"
    have "decrypt_user pf dec csrc = (OK, True, ?d)"
      using new assms(3) by (simp add: decrypt_user_def pf_knows_def Let_def)
    then show ?thesis using gen [of ?d] assms(1)
      by (intro ex [of True ?d "?d\<lparr>fd_iv := iv, fd_frame_dec := False\<rparr>" True]) (simp_all add: follows_def)
  next
    case first
    let ?d = "dec\<lparr>fd_frame_recv := True, fd_frame_dec := False\<rparr>"
    have "decrypt_user pf dec csrc = (OK, True, ?d)" using first by (auto simp: decrypt_user_def)
    then show ?thesis using gen [of ?d] assms(1,2) first
      by (intro ex [of True ?d "?d\<lparr>fd_iv := iv, fd_frame_dec := False\<rparr>" True]) (auto simp: follows_def ready_def)
  next
    case known
    then have "decrypt_user pf dec csrc = (OK, False, dec)" by (auto simp: decrypt_user_def)
    then show ?thesis using known assms(1) ks
      by (intro ex [of False dec dec "ks_decrypt_attempted ks"]) (simp_all add: follows_def decrypt_new_iv_def)
  qed
qed

text \<open>The header of a sealed frame is read back.\<close>

lemma sealed_hdr:
  assumes "gcm_ok g" and "fid < 2 ^ 32" and "src = sealed g key iv (hdr_bytes fid (ucast (kid :: u32)) ssrc) plain"
  shows "frame_hdr_read src (length src) hdr0 =
      Some (OK, \<lparr>ho_frameid = fid, ho_key = ucast kid, ho_csrc = ssrc, ho_rlen = length (hdr_bytes fid (ucast kid) ssrc)\<rparr>)"
    and "\<not> length src < FRAME_HDR_MINSZ"
proof -
  let ?h = "hdr_bytes fid (ucast kid) ssrc"
  let ?rest = "fst (gcm_seal g key iv ?h plain) @ snd (gcm_seal g key iv ?h plain)"
  have srch: "src = ?h @ ?rest" by (simp add: assms(3) sealed_def)
  obtain c t where ct: "gcm_seal g key iv ?h plain = (c, t)" by fastforce
  have "?rest \<noteq> []" using gcm_okD(2) [OF assms(1) ct] by (auto simp: ct TAG_SIZE_def)
  moreover have "(ucast kid :: u64) < 2 ^ 32" by (rule u32_in_u64)
  ultimately have "frame_hdr_read src (length src) hdr0 =
      Some (OK, hdr0\<lparr>ho_frameid := fid, ho_key := ucast kid,
                     ho_csrc := if ssrc \<noteq> 0 then ssrc else ho_csrc hdr0, ho_rlen := length ?h\<rparr>)"
    unfolding srch by (intro frame_hdr_read_hdr_bytes [OF assms(2)]) simp_all
  then show "frame_hdr_read src (length src) hdr0 =
      Some (OK, \<lparr>ho_frameid = fid, ho_key = ucast kid, ho_csrc = ssrc, ho_rlen = length ?h\<rparr>)"
    by (simp add: hdr0_def)
  show "\<not> length src < FRAME_HDR_MINSZ"
    using sealed_parts(4) [OF assms(1), of key iv ?h plain, folded assms(3)] by (simp add: FRAME_HDR_MINSZ_def TAG_SIZE_def)
qed

text \<open>The context for a frame, whether it is cached or not.\<close>

lemma decrypt_ctx_key:
  assumes "fd_keystore dec" and "fd_kidx dec = kid \<Longrightarrow> pred_option ((=) key) (fd_ctx dec)"
    and "keystore_get_media_key env ks kid E2EE_SESSIONKEY_SIZE = Some (OK, key, ks')"
  shows "\<exists>ks''. decrypt_ctx env dec ks (ucast kid) = Some (OK, dec\<lparr>fd_ctx := Some key, fd_kidx := kid\<rparr>, ks'')"
proof -
  have inj: "(ucast kid :: u64) = ucast i \<longleftrightarrow> kid = i" for i by (metis ucast_u32_u64)
  show ?thesis
  proof (cases "fd_kidx dec = kid \<and> fd_ctx dec \<noteq> None")
    case True
    then have "fd_ctx dec = Some key" using assms(2) by auto
    then have "dec\<lparr>fd_ctx := Some key, fd_kidx := kid\<rparr> = dec" using True by simp
    then show ?thesis using True by (simp add: decrypt_ctx_def)
  next
    case False
    then show ?thesis using assms(1,3) by (auto simp: decrypt_ctx_def inj)
  qed
qed

lemma decrypt_count_ok:
  "(fd_pf dec \<Longrightarrow> pf_knows pf uid) \<Longrightarrow> \<exists>n. decrypt_count pf dec csrc = (OK, dec\<lparr>fd_frame_count := n\<rparr>)"
  by (auto simp: decrypt_count_def pf_knows_def Let_def)

text \<open>The decryptor on a sealed frame of a sender it can follow.\<close>

lemma decrypt_sealed:
  assumes g: "gcm_ok g" "\<forall>c. evp_ok g c" and f: "fid < 2 ^ 32"
    and iv: "frame_encryptor_xor_iv siv (ucast fid) kid = Some iv"
    and key: "list_sort_ok (env_sort env)" "ks_inv ks" "kr \<in> set (ks_keyl ks)" "ki_index kr = kid"
      "key_out E2EE_SESSIONKEY_SIZE (ki_mkey kr) = key"
    and dec: "follows siv dec" "ready uid dec (if ssrc \<noteq> 0 then ssrc else csrc)" "fd_pf dec \<Longrightarrow> pf_knows pf uid"
      "env_hkdf env IV_SIZE (bytes_of uid) (bytes_of (iv_name (fd_mtype dec))) [] = Some siv"
      "fd_kidx dec = kid \<Longrightarrow> pred_option ((=) key) (fd_ctx dec)"
    and src: "src = sealed g key iv (hdr_bytes fid (ucast kid) ssrc) plain" and room: "length src \<le> length dst"
  shows "\<exists>dst' dec' ks'. frame_decryptor_decrypt g env pf dec ks csrc src dst dstsz =
    Some (OK, dst', length plain, dec', ks') \<and> take (length plain) dst' = plain \<and>
    fd_ctx dec' = Some key \<and> fd_kidx dec' = kid \<and> follows siv dec' \<and> fd_frame_recv dec' \<and>
    fd_pf dec' = fd_pf dec \<and> fd_mtype dec' = fd_mtype dec"
proof -
  let ?h = "hdr_bytes fid (ucast kid) ssrc" and ?csrc = "if ssrc \<noteq> 0 then ssrc else csrc"
  note parts = sealed_parts [OF g(1), of key iv ?h plain, folded src] and hdr = sealed_hdr [OF g(1) f src]
  obtain c t where ct: "gcm_seal g key iv ?h plain = (c, t)" by fastforce
  obtain b dec1 dec2 att where u: "decrypt_user pf dec ?csrc = (OK, b, dec1)"
      "decrypt_new_iv env dec1 ks b = (OK, dec2, ks\<lparr>ks_decrypt_attempted := att\<rparr>)"
      "fd_keystore dec2" "fd_frame_recv dec2" "fd_iv dec2 = siv" "fd_pf dec2 = fd_pf dec"
      "fd_mtype dec2 = fd_mtype dec" "fd_ctx dec2 = fd_ctx dec" "fd_kidx dec2 = fd_kidx dec"
    using decrypt_follow [OF dec(1-4)] by metis
  let ?ks = "ks\<lparr>ks_decrypt_attempted := att\<rparr>"
  have "ks_inv ?ks" "kr \<in> set (ks_keyl ?ks)" using key(2,3) by (simp_all add: ks_inv_def)
  from get_media_key_present [OF key(1) this] key(4,5) obtain ks2 where
    "keystore_get_media_key env ?ks kid E2EE_SESSIONKEY_SIZE = Some (OK, key, ks2)" by metis
  from decrypt_ctx_key [OF u(3) _ this] dec(5) u(8,9) obtain ks3 where
    ctx: "decrypt_ctx env dec2 ?ks (ucast kid) = Some (OK, dec2\<lparr>fd_ctx := Some key, fd_kidx := kid\<rparr>, ks3)" by auto
  let ?dec = "dec2\<lparr>fd_ctx := Some key, fd_kidx := kid\<rparr>"
  have "length ?h + TAG_SIZE \<le> length src" using parts(4) by simp
  from decrypt_open_spec [OF g(1) _ this room, of ?dec key iv dstsz] parts g(2) gcm_okD [OF g(1) ct] ct
  obtain dst' where o: "decrypt_open g ?dec iv src (length ?h) dst dstsz = Some (OK, dst', length plain)"
      "take (length plain) dst' = plain"
    by auto
  obtain n where n: "decrypt_count pf ?dec ?csrc = (OK, ?dec\<lparr>fd_frame_count := n\<rparr>)"
    using decrypt_count_ok [of ?dec pf uid] dec(3) u(6) by auto
  have "decrypt_frame g env pf dec ks csrc src dst dstsz = Some (OK, dst', length plain, ?dec\<lparr>fd_frame_count := n\<rparr>, ks3)"
    using hdr(2) hdr(1) [unfolded hdr0_def] u(1,2,5) iv ctx o(1) n
    by (cases "ssrc = 0") (simp_all add: decrypt_frame_def Let_def)
  then show ?thesis
    using o(2) u(3-7) dec(1) by (auto simp: frame_decryptor_decrypt_def follows_def Let_def)
qed

section \<open>Sequences of encryptions\<close>

text \<open>
  The frames that a sequence of calls produced, and the encryptor after it. Each call comes with the key
  store as it is then, so keys may be set or rotated between the calls.
\<close>

fun encrypt_run ::
  "gcm_env \<Rightarrow> frame_encryptor \<Rightarrow> (ks_env \<times> keystore \<times> u32 \<times> bytes \<times> bytes) list \<Rightarrow> bytes list \<times> frame_encryptor" where
  "encrypt_run g enc [] = ([], enc)"
| "encrypt_run g enc ((env, ks, ssrc, src, dst) # calls) =
     (case frame_encryptor_encrypt g env enc ks ssrc src dst 0 of
        None \<Rightarrow> ([], enc)
      | Some (e, dst', n, enc', ks') \<Rightarrow> apfst (\<lambda>fs. if e = OK then take n dst' # fs else fs) (encrypt_run g enc' calls))"

text \<open>The vector of a sealing call, and the frame it gives.\<close>

fun call_iv :: "bytes \<times> bytes \<times> bytes \<times> bytes \<Rightarrow> bytes" where
  "call_iv (key, iv, aad, plain) = iv"

fun call_frame :: "gcm_env \<Rightarrow> bytes \<times> bytes \<times> bytes \<times> bytes \<Rightarrow> bytes" where
  "call_frame g (key, iv, aad, plain) = sealed g key iv aad plain"

lemma sub_take: "sub buf 0 (int n) = Some xs \<Longrightarrow> xs = take n buf \<and> n \<le> length buf"
  by (auto simp: sub_def split: if_splits)

lemma put_take: "put buf off xs = Some buf' \<Longrightarrow> take (off + length xs) buf' = take off buf @ xs"
  by (auto simp: put_def split: if_splits)

lemma encrypt_ctx_frame:
  "encrypt_ctx env enc ks kid ts = Some (e, enc', ks') \<Longrightarrow>
   fe_frameid enc' = fe_frameid enc \<and> fe_iv enc' = fe_iv enc \<and> fe_sealed enc' = fe_sealed enc"
  by (auto simp: encrypt_ctx_def Let_def split: if_splits bind_splits)

text \<open>What one call has the cipher seal: nothing, or one plaintext under the nonce of the counter.\<close>

definition seals :: "gcm_env \<Rightarrow> frame_encryptor \<Rightarrow> frame_encryptor \<Rightarrow> err \<Rightarrow> bytes \<Rightarrow> bool" where
  "seals g enc enc' e frame \<longleftrightarrow>
     (e \<noteq> OK \<and> fe_sealed enc' = fe_sealed enc) \<or>
     (\<exists>call k. fe_sealed enc' = fe_sealed enc @ [call] \<and> (e = OK \<longrightarrow> frame = call_frame g call) \<and>
        frame_encryptor_xor_iv (fe_iv enc) (ucast (fe_frameid enc')) k = Some (call_iv call))"

lemma encrypt_seal_frame:
  assumes "gcm_ok g" and "encrypt_seal g enc kid ssrc src dst n = Some (e, dst', n', enc')"
  shows "fe_frameid enc' = fe_frameid enc" and "fe_iv enc' = fe_iv enc" and "seals g enc enc' e (take n' dst')"
proof -
  show "fe_frameid enc' = fe_frameid enc" "fe_iv enc' = fe_iv enc"
    using assms(2) by (auto simp: encrypt_seal_def Let_def split: if_splits bind_splits prod.splits)
  obtain key hlen d0 iv where k: "fe_ctx enc = Some key"
      "frame_hdr_write dst (frame_encryptor_max_size (length src)) (fe_frameid enc) kid ssrc = Some (hlen, d0)"
      "frame_encryptor_xor_iv (fe_iv enc) (ucast (fe_frameid enc)) (ucast kid) = Some iv"
    using assms(2) by (auto simp: encrypt_seal_def split: bind_splits)
  show "seals g enc enc' e (take n' dst')"
  proof (cases "evp_ok g InitIV \<and> evp_ok g AddHeader \<and> evp_ok g Update")
    case False
    then show ?thesis using assms(2) k by (auto simp: encrypt_seal_def seals_def split: if_splits)
  next
    case True
    obtain c t where ct: "gcm_seal g key iv (take hlen d0) src = (c, t)" by fastforce
    obtain aad d1 where a: "sub d0 0 (int hlen) = Some aad" "aad = take hlen d0" "put d0 hlen c = Some d1"
      using assms(2) k True ct by (auto simp: encrypt_seal_def Let_def dest!: sub_take split: bind_splits)
    have p: "take (hlen + length c) d1 = take hlen d0 @ c" by (rule put_take [OF a(3)])
    have "take (hlen + length c + TAG_SIZE) d2 = sealed g key iv (take hlen d0) src"
      if "put d1 (hlen + length c) t = Some d2" for d2
      using put_take [OF that] p gcm_okD(2) [OF assms(1) ct] by (simp add: sealed_def ct)
    then show ?thesis
      using assms(2) k True ct a
      by (auto simp: encrypt_seal_def seals_def Let_def split: if_splits bind_splits)
  qed
qed

lemma encrypt_frame:
  assumes "gcm_ok g" and "frame_encryptor_encrypt g env enc ks ssrc src dst n = Some (e, dst', n', enc', ks')"
  shows "fe_frameid enc' = (fe_frameid enc + 1) AND 0xFFFFFFFF" and "fe_iv enc' = fe_iv enc"
    and "seals g enc enc' e (take n' dst')"
proof -
  let ?enc = "enc\<lparr>fe_frameid := (fe_frameid enc + 1) AND 0xFFFFFFFF\<rparr>"
  have "fe_frameid enc' = fe_frameid ?enc \<and> fe_iv enc' = fe_iv enc \<and> seals g enc enc' e (take n' dst')"
  proof (cases "fe_keystore enc")
    case True
    let ?enc1 = "?enc\<lparr>fe_frame_recv := True\<rparr>"
    obtain e1 kid ts where c: "keystore_get_current ks 0 0 = Some (e1, kid, ts)"
      using assms(2) True by (auto simp: frame_encryptor_encrypt_def Let_def split: bind_splits)
    show ?thesis
    proof (cases "e1 = OK")
      case ok: True
      obtain e2 enc2 ks2 where x: "encrypt_ctx env ?enc1 ks (ucast kid) ts = Some (e2, enc2, ks2)"
        using assms(2) True c ok by (auto simp: frame_encryptor_encrypt_def Let_def split: bind_splits)
      note xf = encrypt_ctx_frame [OF x]
      show ?thesis
      proof (cases "e2 = OK")
        case ok2: True
        then have "encrypt_seal g enc2 (ucast kid) ssrc src dst n = Some (e, dst', n', enc')"
          using assms(2) True c ok x by (auto simp: frame_encryptor_encrypt_def Let_def split: bind_splits)
        from encrypt_seal_frame [OF assms(1) this] xf show ?thesis by (simp add: seals_def)
      qed (use assms(2) True c ok x xf in \<open>auto simp: frame_encryptor_encrypt_def Let_def seals_def\<close>)
    qed (use assms(2) True c in \<open>auto simp: frame_encryptor_encrypt_def Let_def seals_def\<close>)
  qed (use assms(2) in \<open>auto simp: frame_encryptor_encrypt_def Let_def seals_def\<close>)
  then show "fe_frameid enc' = (fe_frameid enc + 1) AND 0xFFFFFFFF" "fe_iv enc' = fe_iv enc"
    "seals g enc enc' e (take n' dst')" by simp_all
qed

lemma frameid_step: "(ucast ((x + 1) AND 0xFFFFFFFF :: u64) :: u32) = ucast x + 1"
proof -
  have m: "(x + 1) AND 0xFFFFFFFF = take_bit 32 (x + 1)" by (simp add: take_bit_eq_mask mask_eq_exp_minus_1)
  have "(ucast (take_bit 32 (x + 1)) :: u32) = ucast (x + 1)" by (rule bit_word_eqI) (auto simp: bit_simps)
  also have "\<dots> = ucast x + 1"
  proof -
    have "((unat x + 1) mod 2 ^ 64) mod 2 ^ 32 = (unat x + 1) mod 2 ^ 32"
      by (rule mod_mod_cancel) (simp add: le_imp_power_dvd)
    also have "\<dots> = (unat x mod 2 ^ 32 + 1) mod 2 ^ 32" by (simp only: mod_simps)
    finally show ?thesis
      by (simp add: word_unat_eq_iff unat_word_ariths unsigned_ucast_eq take_bit_eq_mod)
  qed
  finally show ?thesis unfolding m .
qed

text \<open>The calls of a run: each frame comes from one of them, and their vectors are those of later counters.\<close>

definition sealed_in :: "gcm_env \<Rightarrow> frame_encryptor \<Rightarrow> nat \<Rightarrow> bytes list \<Rightarrow> frame_encryptor \<Rightarrow> bool" where
  "sealed_in g enc m fs enc' \<longleftrightarrow>
     (\<exists>cs. fe_sealed enc' = fe_sealed enc @ cs \<and> distinct (map call_iv cs) \<and> set fs \<subseteq> call_frame g ` set cs \<and>
        (\<forall>c \<in> set cs. \<exists>i k. 1 \<le> i \<and> i \<le> m \<and>
           frame_encryptor_xor_iv (fe_iv enc) (ucast (fe_frameid enc) + word_of_nat i) k = Some (call_iv c)))"

lemma counter_fresh:
  assumes "frame_encryptor_xor_iv iv f k = Some u" and "frame_encryptor_xor_iv iv (f + word_of_nat i) k' = Some u"
    and "1 \<le> i" and "i < 2 ^ 32"
  shows False
proof -
  from xor_iv_inj [OF assms(1,2)] have "(word_of_nat i :: u32) = 0" by simp
  then have "2 ^ LENGTH(32) dvd i" by (simp add: word_of_nat_eq_0_iff)
  then show False using assms(3,4) by (auto dest: dvd_imp_le)
qed

lemma sealed_in_step:
  assumes "fe_frameid enc1 = (fe_frameid enc + 1) AND 0xFFFFFFFF" and "fe_iv enc1 = fe_iv enc"
    and "seals g enc enc1 e frame" and "sealed_in g enc1 m fs enc'" and "m < 2 ^ 32"
  shows "sealed_in g enc (Suc m) (if e = OK then frame # fs else fs) enc'"
proof -
  have fid: "(ucast (fe_frameid enc1) :: u32) = ucast (fe_frameid enc) + 1" using assms(1) by (simp add: frameid_step)
  obtain cs where cs: "fe_sealed enc' = fe_sealed enc1 @ cs" "distinct (map call_iv cs)" "set fs \<subseteq> call_frame g ` set cs"
    and ivs: "\<forall>c \<in> set cs. \<exists>i k. 1 \<le> i \<and> i \<le> m \<and>
        frame_encryptor_xor_iv (fe_iv enc1) (ucast (fe_frameid enc1) + word_of_nat i) k = Some (call_iv c)"
    using assms(4) by (auto simp: sealed_in_def)
  have later: "\<exists>i k. 1 \<le> i \<and> i \<le> Suc m \<and>
      frame_encryptor_xor_iv (fe_iv enc) (ucast (fe_frameid enc) + word_of_nat i) k = Some (call_iv c)" if c: "c \<in> set cs" for c
  proof -
    obtain i k where "1 \<le> i" "i \<le> m"
        "frame_encryptor_xor_iv (fe_iv enc) (ucast (fe_frameid enc) + 1 + word_of_nat i) k = Some (call_iv c)"
      using bspec [OF ivs c] assms(2) fid by auto
    then show ?thesis by (intro exI [of _ "Suc i"] exI [of _ k]) (simp add: ac_simps)
  qed
  consider (none) "e \<noteq> OK" "fe_sealed enc1 = fe_sealed enc"
    | (one) call k where "fe_sealed enc1 = fe_sealed enc @ [call]" "e = OK \<longrightarrow> frame = call_frame g call"
        "frame_encryptor_xor_iv (fe_iv enc) (ucast (fe_frameid enc1)) k = Some (call_iv call)"
    using assms(3) by (auto simp: seals_def)
  then show ?thesis
  proof cases
    case none
    then show ?thesis using cs later unfolding sealed_in_def by (intro exI [of _ cs]) simp
  next
    case one
    have "call_iv call \<notin> set (map call_iv cs)"
      using counter_fresh [OF one(3)] ivs assms(2,5) by fastforce
    moreover have "\<exists>i k. 1 \<le> i \<and> i \<le> Suc m \<and>
        frame_encryptor_xor_iv (fe_iv enc) (ucast (fe_frameid enc) + word_of_nat i) k = Some (call_iv call)"
      using one(3) fid by (intro exI [of _ 1] exI [of _ k]) simp
    ultimately show ?thesis
      using cs later one(1,2) unfolding sealed_in_def by (intro exI [of _ "call # cs"]) auto
  qed
qed

lemma encrypt_run_sealed:
  assumes "gcm_ok g"
  shows "encrypt_run g enc calls = (fs, enc') \<Longrightarrow> length calls \<le> 2 ^ 32 \<Longrightarrow> sealed_in g enc (length calls) fs enc'"
proof (induction calls arbitrary: enc fs)
  case Nil
  then show ?case by (auto simp: sealed_in_def)
next
  case (Cons call calls)
  obtain env ks ssrc src dst where call: "call = (env, ks, ssrc, src, dst)" by (metis prod_cases5)
  show ?case
  proof (cases "frame_encryptor_encrypt g env enc ks ssrc src dst 0")
    case None
    then show ?thesis using Cons.prems(1) call by (auto simp: sealed_in_def)
  next
    case (Some r)
    obtain e dst' n enc1 ks' where r: "r = (e, dst', n, enc1, ks')" by (metis prod_cases5)
    obtain gs where gs: "encrypt_run g enc1 calls = (gs, enc')" "fs = (if e = OK then take n dst' # gs else gs)"
      using Cons.prems(1) call Some r by (cases "encrypt_run g enc1 calls") auto
    have "sealed_in g enc1 (length calls) gs enc'" by (rule Cons.IH [OF gs(1)]) (use Cons.prems(2) in simp)
    from sealed_in_step [OF encrypt_frame [OF assms Some [unfolded r]] this] show ?thesis
      using Cons.prems(2) gs(2) by simp
  qed
qed

section \<open>A stream of frames\<close>

text \<open>
  One frame on its way: the sender's key store, source and plaintext and the receiver's key store, source, peer
  flow and buffer at that time.
\<close>

record link =
  lk_env :: ks_env
  lk_ks :: keystore
  lk_ssrc :: u32
  lk_src :: bytes
  lk_dst :: bytes
  lk_renv :: ks_env
  lk_rks :: keystore
  lk_pf :: pf_env
  lk_csrc :: u32
  lk_rdst :: bytes

text \<open>The frames go through the encryptor and the decryptor in order; the result is what comes out.\<close>

fun relay :: "gcm_env \<Rightarrow> frame_encryptor \<Rightarrow> frame_decryptor \<Rightarrow> link list \<Rightarrow> bytes list option" where
  "relay g enc dec [] = Some []"
| "relay g enc dec (lk # lks) =
     do {
       (e, dst, n, enc, ks) \<leftarrow> frame_encryptor_encrypt g (lk_env lk) enc (lk_ks lk) (lk_ssrc lk) (lk_src lk) (lk_dst lk) 0;
       (e', dst', n', dec, ks') \<leftarrow>
         frame_decryptor_decrypt g (lk_renv lk) (lk_pf lk) dec (lk_rks lk) (lk_csrc lk) (take n dst) (lk_rdst lk) 0;
       if e \<noteq> OK \<or> e' \<noteq> OK then None
       else do { out \<leftarrow> relay g enc dec lks; Some (take n' dst' # out) } }"

text \<open>The source that the receiver takes a frame to be from.\<close>

definition lk_source :: "link \<Rightarrow> u32" where
  "lk_source lk = (if lk_ssrc lk \<noteq> 0 then lk_ssrc lk else lk_csrc lk)"

text \<open>
  What a frame needs: valid key stores, a current key of the sender whose media key the receiver has under
  the same index (\<open>K\<close> gives the media key of an index), and room in both buffers.
\<close>

definition has_key :: "(u32 \<Rightarrow> bytes) \<Rightarrow> keystore \<Rightarrow> keyinfo \<Rightarrow> bool" where
  "has_key K ks k \<longleftrightarrow> k \<in> set (ks_keyl ks) \<and> key_out E2EE_SESSIONKEY_SIZE (ki_mkey k) = K (ki_index k)"

definition link_ok :: "(u32 \<Rightarrow> bytes) \<Rightarrow> link \<Rightarrow> bool" where
  "link_ok K lk \<longleftrightarrow>
     list_sort_ok (env_sort (lk_env lk)) \<and> ks_inv (lk_ks lk) \<and>
     list_sort_ok (env_sort (lk_renv lk)) \<and> ks_inv (lk_rks lk) \<and>
     (\<exists>c k kr. ks_current (lk_ks lk) = Some c \<and> deref (lk_ks lk) c = Some k \<and> has_key K (lk_ks lk) k \<and>
        has_key K (lk_rks lk) kr \<and> ki_index kr = ki_index k) \<and>
     frame_encryptor_max_size (length (lk_src lk)) \<le> length (lk_dst lk) \<and>
     frame_encryptor_max_size (length (lk_src lk)) \<le> length (lk_rdst lk)"

text \<open>Cached contexts hold the media key of their index.\<close>

definition ctxs_ok :: "(u32 \<Rightarrow> bytes) \<Rightarrow> frame_encryptor \<Rightarrow> frame_decryptor \<Rightarrow> bool" where
  "ctxs_ok K enc dec \<longleftrightarrow> pred_option ((=) (K (ucast (fe_kidx enc)))) (fe_ctx enc) \<and>
     pred_option ((=) (K (fd_kidx dec))) (fd_ctx dec)"

lemma encrypt_link:
  assumes "gcm_ok g" and "\<forall>c. evp_ok g c" and "link_ok K lk" and "fe_keystore enc" and "length (fe_iv enc) = IV_SIZE"
    and "pred_option ((=) (K (ucast (fe_kidx enc)))) (fe_ctx enc)"
  shows "\<exists>dst n enc' fid kid iv kr.
    frame_encryptor_encrypt g (lk_env lk) enc (lk_ks lk) (lk_ssrc lk) (lk_src lk) (lk_dst lk) 0 = Some (OK, dst, n, enc', lk_ks lk) \<and>
    fid < 2 ^ 32 \<and> frame_encryptor_xor_iv (fe_iv enc) (ucast fid) kid = Some iv \<and>
    take n dst = sealed g (K kid) iv (hdr_bytes fid (ucast kid) (lk_ssrc lk)) (lk_src lk) \<and>
    length (take n dst) \<le> length (lk_rdst lk) \<and> has_key K (lk_rks lk) kr \<and> ki_index kr = kid \<and>
    fe_keystore enc' \<and> fe_iv enc' = fe_iv enc \<and> pred_option ((=) (K (ucast (fe_kidx enc')))) (fe_ctx enc')"
proof -
  note lk = assms(3) [unfolded link_ok_def]
  obtain c k kr where k: "ks_current (lk_ks lk) = Some c" "deref (lk_ks lk) c = Some k" "has_key K (lk_ks lk) k"
      "has_key K (lk_rks lk) kr" "ki_index kr = ki_index k" using lk by blast
  let ?fid = "(fe_frameid enc + 1) AND 0xFFFFFFFF"
  have "7 < length (fe_iv enc)" using assms(5) by (simp add: IV_SIZE_def)
  from encrypt_spec [OF assms(1) _ _ this, of "lk_env lk" "lk_ks lk" "lk_src lk" "lk_dst lk" "lk_ssrc lk" 0] lk assms(2,4) k(1)
  obtain dst n enc' kid ts key iv where
      e: "frame_encryptor_encrypt g (lk_env lk) enc (lk_ks lk) (lk_ssrc lk) (lk_src lk) (lk_dst lk) 0 = Some (OK, dst, n, enc', lk_ks lk)"
    and cur: "keystore_get_current (lk_ks lk) 0 0 = Some (OK, kid, ts)"
    and iv: "frame_encryptor_xor_iv (fe_iv enc) (ucast ?fid) kid = Some iv" "fe_iv enc' = fe_iv enc"
    and n: "n \<le> frame_encryptor_max_size (length (lk_src lk))"
    and frame: "take n dst = sealed g key iv (hdr_bytes ?fid (ucast kid) (lk_ssrc lk)) (lk_src lk)"
    and ctx: "fe_ctx enc' = Some key" "fe_kidx enc' = ucast kid" "fe_keystore enc'"
    and key: "keystore_get_media_key (lk_env lk) (lk_ks lk) kid E2EE_SESSIONKEY_SIZE = Some (OK, key, lk_ks lk) \<or>
        fe_ctx enc = Some key \<and> fe_kidx enc = ucast kid"
    by auto
  have kid: "kid = ki_index k" using cur k(1,2) by (simp add: keystore_get_current_def)
  have "key = K kid"
    using key get_media_key_present [of "lk_env lk" "lk_ks lk" k E2EE_SESSIONKEY_SIZE] lk k(3) assms(6)
    by (auto simp: kid has_key_def)
  moreover have "length (take n dst) \<le> length (lk_rdst lk)"
  proof -
    have "length (take n dst) \<le> n" by simp
    also note n
    also have "frame_encryptor_max_size (length (lk_src lk)) \<le> length (lk_rdst lk)" using lk by blast
    finally show ?thesis .
  qed
  ultimately show ?thesis
    using e iv frame ctx k(4,5) kid frameid_bound [of "fe_frameid enc + 1"]
    by (intro exI [of _ dst] exI [of _ n] exI [of _ enc'] exI [of _ ?fid] exI [of _ kid] exI [of _ iv] exI [of _ kr]) simp
qed

lemma relay_link:
  assumes "gcm_ok g" and "\<forall>c. evp_ok g c" and "link_ok K lk" and "fe_keystore enc" and "length (fe_iv enc) = IV_SIZE"
    and "ctxs_ok K enc dec" and "follows (fe_iv enc) dec" and "ready uid dec (lk_source lk)"
    and "fd_pf dec \<Longrightarrow> pf_knows (lk_pf lk) uid"
    and "env_hkdf (lk_renv lk) IV_SIZE (bytes_of uid) (bytes_of (iv_name (fd_mtype dec))) [] = Some (fe_iv enc)"
  shows "\<exists>enc' dec'. relay g enc dec (lk # lks) = map_option ((#) (lk_src lk)) (relay g enc' dec' lks) \<and>
    fe_keystore enc' \<and> fe_iv enc' = fe_iv enc \<and> ctxs_ok K enc' dec' \<and> follows (fe_iv enc) dec' \<and>
    fd_frame_recv dec' \<and> fd_pf dec' = fd_pf dec \<and> fd_mtype dec' = fd_mtype dec"
proof -
  have ctx: "pred_option ((=) (K (ucast (fe_kidx enc)))) (fe_ctx enc)" "pred_option ((=) (K (fd_kidx dec))) (fd_ctx dec)"
    using assms(6) by (simp_all add: ctxs_ok_def)
  obtain dst n enc' fid kid iv kr where
      e: "frame_encryptor_encrypt g (lk_env lk) enc (lk_ks lk) (lk_ssrc lk) (lk_src lk) (lk_dst lk) 0 = Some (OK, dst, n, enc', lk_ks lk)"
    and f: "fid < 2 ^ 32" "frame_encryptor_xor_iv (fe_iv enc) (ucast fid) kid = Some iv"
    and s: "take n dst = sealed g (K kid) iv (hdr_bytes fid (ucast kid) (lk_ssrc lk)) (lk_src lk)"
      "length (take n dst) \<le> length (lk_rdst lk)"
    and kr: "has_key K (lk_rks lk) kr" "ki_index kr = kid"
    and enc': "fe_keystore enc'" "fe_iv enc' = fe_iv enc" "pred_option ((=) (K (ucast (fe_kidx enc')))) (fe_ctx enc')"
    using encrypt_link [OF assms(1-5) ctx(1)] by metis
  have r: "list_sort_ok (env_sort (lk_renv lk))" "ks_inv (lk_rks lk)" using assms(3) by (simp_all add: link_ok_def)
  have kk: "kr \<in> set (ks_keyl (lk_rks lk))" "key_out E2EE_SESSIONKEY_SIZE (ki_mkey kr) = K kid"
    using kr by (simp_all add: has_key_def)
  have "fd_kidx dec = kid \<Longrightarrow> pred_option ((=) (K kid)) (fd_ctx dec)" using ctx(2) by simp
  from decrypt_sealed [OF assms(1,2) f r kk(1) kr(2) kk(2) assms(7) _ assms(9,10) this s, of "lk_csrc lk" 0] assms(8)
  obtain dst' dec' ks' where
      d: "frame_decryptor_decrypt g (lk_renv lk) (lk_pf lk) dec (lk_rks lk) (lk_csrc lk) (take n dst) (lk_rdst lk) 0 =
        Some (OK, dst', length (lk_src lk), dec', ks')" "take (length (lk_src lk)) dst' = lk_src lk"
      "fd_ctx dec' = Some (K kid)" "fd_kidx dec' = kid" "follows (fe_iv enc) dec'" "fd_frame_recv dec'"
      "fd_pf dec' = fd_pf dec" "fd_mtype dec' = fd_mtype dec"
    by (auto simp: lk_source_def)
  have "relay g enc dec (lk # lks) = map_option ((#) (lk_src lk)) (relay g enc' dec' lks)"
    by (cases "relay g enc' dec' lks") (simp_all add: e d(1,2))
  then show ?thesis using enc' d(3-8) by (intro exI [of _ enc'] exI [of _ dec']) (simp add: ctxs_ok_def)
qed

lemma relay_all:
  assumes "gcm_ok g" and "\<forall>c. evp_ok g c"
  shows "fe_keystore enc \<Longrightarrow> length (fe_iv enc) = IV_SIZE \<Longrightarrow> ctxs_ok K enc dec \<Longrightarrow> follows (fe_iv enc) dec \<Longrightarrow>
    \<forall>lk \<in> set lks. link_ok K lk \<and> ready uid dec (lk_source lk) \<and> (fd_pf dec \<longrightarrow> pf_knows (lk_pf lk) uid) \<and>
      env_hkdf (lk_renv lk) IV_SIZE (bytes_of uid) (bytes_of (iv_name (fd_mtype dec))) [] = Some (fe_iv enc) \<Longrightarrow>
    relay g enc dec lks = Some (map lk_src lks)"
proof (induction lks arbitrary: enc dec)
  case (Cons lk lks)
  have lk: "link_ok K lk" "ready uid dec (lk_source lk)" "fd_pf dec \<Longrightarrow> pf_knows (lk_pf lk) uid"
    "env_hkdf (lk_renv lk) IV_SIZE (bytes_of uid) (bytes_of (iv_name (fd_mtype dec))) [] = Some (fe_iv enc)"
    using Cons.prems(5) by simp_all
  obtain enc' dec' where r: "relay g enc dec (lk # lks) = map_option ((#) (lk_src lk)) (relay g enc' dec' lks)"
      "fe_keystore enc'" "fe_iv enc' = fe_iv enc" "ctxs_ok K enc' dec'" "follows (fe_iv enc) dec'"
      "fd_frame_recv dec'" "fd_pf dec' = fd_pf dec" "fd_mtype dec' = fd_mtype dec"
    using relay_link [OF assms lk(1) Cons.prems(1-4) lk(2-4)] by metis
  have "relay g enc' dec' lks = Some (map lk_src lks)"
    by (rule Cons.IH) (use r Cons.prems(2,5) in \<open>simp_all add: ready_def\<close>)
  then show ?case using r(1) by simp
qed simp

section \<open>Properties\<close>

text \<open>
  A sealing function for the concrete runs: the plaintext itself with a tag that repeats the first
  byte of the key.
\<close>

definition demo_gcm :: gcm_env where
  "demo_gcm = \<lparr>gcm_seal = (\<lambda>key iv aad plain. (plain, replicate 16 (case key of [] \<Rightarrow> 0 | b # _ \<Rightarrow> b))),
               gcm_plain = (\<lambda>key iv cipher. cipher),
               gcm_auth = (\<lambda>key iv aad cipher tag. tag = replicate 16 (case key of [] \<Rightarrow> 0 | b # _ \<Rightarrow> b)),
               evp_ok = (\<lambda>_. True), evp_negative = (\<lambda>_ _ _ _ _. Some (False, []))\<rparr>"

lemma demo_gcm_ok: "gcm_ok demo_gcm"
  by (simp add: gcm_ok_def demo_gcm_def TAG_SIZE_def)

definition demo_enc :: frame_encryptor where
  "demo_enc = snd (frame_encryptor_set_keystore demo_env
                     (the (snd (frame_encryptor_alloc True OK 7 (Some ''ab'') FRAME_MEDIA_AUDIO))))"

definition demo_ks :: keystore where
  "demo_ks = the (run ks_step demo_store [(demo_env, OpSetSessionKey 3 [1, 2])])"

lemma demo_ks_inv: "ks_inv demo_ks"
proof -
  have "guarded ks_step ks_guard demo_store [(demo_env, OpSetSessionKey 3 [1, 2])]"
    by (rule guarded_no_rotate) (simp add: demo_env_ok)
  from ksm.run_inv [OF keystore_alloc_inv [OF demo_alloc] this] show ?thesis by (auto simp: demo_ks_def)
qed

lemma demo_enc_iv: "length (fe_iv demo_enc) = 12"
  by (simp add: demo_enc_def frame_encryptor_set_keystore_def frame_encryptor_alloc_def keystore_generate_iv_def
                demo_env_def IV_SIZE_def Let_def)

text \<open>
  C8: no nonce is used twice. In any sequence of at most \<open>2 ^ 32\<close> calls on an encryptor, whatever
  happens to its key store between them, the vectors that the cipher got for the plaintexts it sealed
  are pairwise different, also those of calls that failed later; and every frame that was produced is the
  header, ciphertext and tag of one of these sealing calls.
\<close>

theorem frame_encryptor_nonces_distinct:
  assumes "gcm_ok g" and "fe_sealed enc = []" and "length calls \<le> 2 ^ 32" and "encrypt_run g enc calls = (frames, enc')"
  shows "distinct (map call_iv (fe_sealed enc')) \<and> set frames \<subseteq> call_frame g ` set (fe_sealed enc')"
  using encrypt_run_sealed [OF assms(1,4,3)] assms(2) by (auto simp: sealed_in_def)

theorem frame_encryptor_nonces_distinct_witness:
  "\<exists>frames enc'. encrypt_run demo_gcm demo_enc
       [(demo_env, demo_ks, 0, [1], replicate 200 0), (demo_env, demo_ks, 5, [1], replicate 200 0)] = (frames, enc') \<and>
     length frames = 2 \<and> distinct (map call_iv (fe_sealed enc')) \<and> set frames \<subseteq> call_frame demo_gcm ` set (fe_sealed enc')"
proof -
  let ?calls = "[(demo_env, demo_ks, 0, [1], replicate 200 0), (demo_env, demo_ks, 5, [1], replicate 200 0)]"
  obtain frames enc' where r: "encrypt_run demo_gcm demo_enc ?calls = (frames, enc')" by fastforce
  have "length (fst (encrypt_run demo_gcm demo_enc ?calls)) = 2" by code_simp
  moreover have "fe_sealed demo_enc = []"
    by (simp add: demo_enc_def frame_encryptor_set_keystore_def frame_encryptor_alloc_def Let_def split: prod.split)
  ultimately show ?thesis
    using frame_encryptor_nonces_distinct [OF demo_gcm_ok _ _ r] r by simp
qed

text \<open>
  C30: encryption of a frame. With a valid key store, a 12 byte vector and a buffer of
  \<^verbatim>\<open>frame_encryptor_max_size\<close> bytes the call writes inside the buffer and leaves the store as it
  is; on success the frame is the header of the new frame counter and the current key index,
  followed by the ciphertext and the tag sealed under the nonce of that counter and index.
\<close>

theorem frame_encryptor_encrypt_correct:
  assumes "gcm_ok g" and "list_sort_ok (env_sort env)" and "ks_inv ks" and "length (fe_iv enc) = IV_SIZE"
    and "frame_encryptor_max_size (length src) \<le> length dst"
  defines "fid \<equiv> (fe_frameid enc + 1) AND 0xFFFFFFFF"
  shows "\<exists>e dst' n enc'. frame_encryptor_encrypt g env enc ks ssrc src dst dstsz = Some (e, dst', n, enc', ks) \<and>
    length dst' = length dst \<and> fe_frameid enc' = fid \<and> fe_iv enc' = fe_iv enc \<and>
    (e = OK \<longrightarrow> (\<exists>kid ts key iv. keystore_get_current ks 0 0 = Some (OK, kid, ts) \<and>
       frame_encryptor_xor_iv (fe_iv enc) (ucast fid) kid = Some iv \<and> fe_ctx enc' = Some key \<and>
       n \<le> frame_encryptor_max_size (length src) \<and>
       n = length (sealed g key iv (hdr_bytes fid (ucast kid) ssrc) src) \<and>
       take n dst' = sealed g key iv (hdr_bytes fid (ucast kid) ssrc) src))"
proof -
  have "7 < length (fe_iv enc)" using assms(4) by (simp add: IV_SIZE_def)
  from encrypt_spec [OF assms(1-3) this assms(5), of ssrc dstsz] show ?thesis unfolding fid_def by blast
qed

theorem frame_encryptor_encrypt_correct_witness:
  "\<exists>e dst' n enc'. frame_encryptor_encrypt demo_gcm demo_env demo_enc demo_ks 0 [1, 2, 3] (replicate 200 0) 0
       = Some (e, dst', n, enc', demo_ks) \<and> length dst' = 200 \<and> fe_frameid enc' = 8"
proof -
  have fid: "(fe_frameid demo_enc + 1) AND 0xFFFFFFFF = 8" by code_simp
  have "frame_encryptor_max_size (length [1, 2, 3 :: u8]) \<le> length (replicate 200 (0 :: u8))"
    by (simp add: frame_encryptor_max_size_def frame_hdr_max_size_def BLOCK_SIZE_def TAG_SIZE_def)
  from frame_encryptor_encrypt_correct [OF demo_gcm_ok demo_env_ok demo_ks_inv _ this, of demo_enc 0 0]
  show ?thesis unfolding fid by (auto simp: demo_enc_iv IV_SIZE_def)
qed

text \<open>
  C28: decryption authenticates. When the decryptor accepts a frame, the tag at its end verified
  under the key in its context, the nonce of the header's counter and key index, the header as
  additional data and the ciphertext between them, and the output is their plaintext. It never
  leaves the buffers and keeps the key store valid, for every frame that is long enough for its
  own header and a tag.
\<close>

theorem frame_decryptor_decrypt_authentic:
  assumes "gcm_ok g" and "list_sort_ok (env_sort env)" and "hkdf_len env" and "ks_inv ks"
    and "length (fd_iv dec) = IV_SIZE" and "length src \<le> length dst"
    and "\<And>hdr. frame_hdr_read src (length src) hdr0 = Some (OK, hdr) \<Longrightarrow> ho_rlen hdr + TAG_SIZE \<le> length src"
  shows "\<exists>e dst' n dec' ks'. frame_decryptor_decrypt g env pf dec ks csrc src dst dstsz =
      Some (e, dst', n, dec', ks') \<and> ks_inv ks' \<and> length dst' = length dst \<and> length (fd_iv dec') = IV_SIZE \<and>
    (e = OK \<longrightarrow> (\<exists>hdr. frame_hdr_read src (length src) hdr0 = Some (OK, hdr) \<and> opened g dec' hdr src dst' n)) \<and>
    (e \<noteq> OK \<longrightarrow> fd_ctx dec' = None)"
proof -
  have "7 < length (fd_iv dec)" using assms(5) by (simp add: IV_SIZE_def)
  from decrypt_frame_spec [OF assms(1-4) this assms(6,7)]
  obtain e dst' n dec' ks' where d: "decrypt_frame g env pf dec ks csrc src dst dstsz = Some (e, dst', n, dec', ks')"
    "ks_inv ks'" "length dst' = length dst" "length (fd_iv dec') = length (fd_iv dec)"
    "e = OK \<longrightarrow> (\<exists>hdr. frame_hdr_read src (length src) hdr0 = Some (OK, hdr) \<and> opened g dec' hdr src dst' n)"
    by blast
  moreover have "ks_inv (snd (keystore_set_decrypt_successful ks'))"
    using d(2) by (simp add: keystore_set_decrypt_successful_def ks_inv_def)
  ultimately show ?thesis
    using assms(5) by (cases "e = OK") (auto simp: frame_decryptor_decrypt_def Let_def)
qed

definition demo_dec :: frame_decryptor where
  "demo_dec = (the (snd (frame_decryptor_alloc True FRAME_MEDIA_AUDIO)))
                \<lparr>fd_keystore := True, fd_frame_recv := True, fd_iv := fe_iv demo_enc\<rparr>"

definition demo_pf :: pf_env where
  "demo_pf = \<lparr>pf_inc_frame_count = (\<lambda>_ _ _. OK), pf_userid_for_ssrc = (\<lambda>_ _. (OK, Some ''ab''))\<rparr>"

theorem frame_decryptor_decrypt_authentic_witness:
  "\<exists>dst' n dec' ks'. frame_decryptor_decrypt demo_gcm demo_env demo_pf demo_dec demo_ks 0
       ([0, 3, 9, 40, 41] @ replicate 16 2) (replicate 21 0) 0 = Some (OK, dst', n, dec', ks') \<and> ks_inv ks' \<and>
     (\<exists>hdr. frame_hdr_read ([0, 3, 9, 40, 41] @ replicate 16 2) 21 hdr0 = Some (OK, hdr) \<and>
        opened demo_gcm dec' hdr ([0, 3, 9, 40, 41] @ replicate 16 2) dst' n)"
proof -
  let ?src = "[0, 3, 9, 40, 41] @ replicate 16 (2 :: u8)"
  let ?d = "frame_decryptor_decrypt demo_gcm demo_env demo_pf demo_dec demo_ks 0 ?src (replicate 21 0) 0"
  have len: "hkdf_len demo_env" by (simp add: hkdf_len_def demo_env_def)
  have hdr: "frame_hdr_read ?src (length ?src) hdr0 = Some (OK, \<lparr>ho_frameid = 9, ho_key = 3, ho_csrc = 0, ho_rlen = 3\<rparr>)"
    by code_simp
  have iv: "length (fd_iv demo_dec) = IV_SIZE" by (simp add: demo_dec_def demo_enc_iv IV_SIZE_def)
  have acc: "map_option fst ?d = Some OK" by code_simp
  have "\<exists>e dst' n dec' ks'. ?d = Some (e, dst', n, dec', ks') \<and> ks_inv ks' \<and>
      (e = OK \<longrightarrow> (\<exists>hdr. frame_hdr_read ?src (length ?src) hdr0 = Some (OK, hdr) \<and> opened demo_gcm dec' hdr ?src dst' n))"
    using frame_decryptor_decrypt_authentic [OF demo_gcm_ok demo_env_ok len demo_ks_inv iv, of ?src "replicate 21 0" demo_pf 0 0]
      hdr by (auto simp: TAG_SIZE_def)
  then show ?thesis using acc by auto
qed

text \<open>
  C2: end to end. The frames of a stream that are encrypted and then decrypted in order come out as they went
  in, while keys change and the contexts of both ends are cached. Each time a frame is sent, the sender has a
  current key and the receiver a key of the same index, keys of the same index have the same media key, and
  cached contexts hold the media key of their index; the receiver derives the sender's
  vector from the user id, and either had a frame of this sender before, was told the user id, or gets it from the
  peer flow (with frames that name their source); the calls of the cipher and of the peer flow
  do not fail and the buffers have room for the largest frame.
\<close>

theorem frame_crypt_roundtrip:
  assumes "gcm_ok g" and "\<forall>c. evp_ok g c"
    and "fe_keystore enc" and "length (fe_iv enc) = IV_SIZE" and "follows (fe_iv enc) dec" and "ctxs_ok K enc dec"
    and "\<forall>lk \<in> set lks. link_ok K lk"
    and "\<forall>lk \<in> set lks. ready uid dec (lk_source lk)"
    and "fd_pf dec \<longrightarrow> (\<forall>lk \<in> set lks. pf_knows (lk_pf lk) uid)"
    and "\<forall>lk \<in> set lks. env_hkdf (lk_renv lk) IV_SIZE (bytes_of uid) (bytes_of (iv_name (fd_mtype dec))) [] = Some (fe_iv enc)"
  shows "relay g enc dec lks = Some (map lk_src lks)"
  using relay_all [OF assms(1-4,6,5)] assms(7-10) by blast

text \<open>A fresh receiver with a peer flow, and two frames.\<close>

definition demo_dec0 :: frame_decryptor where
  "demo_dec0 = (the (snd (frame_decryptor_alloc True FRAME_MEDIA_AUDIO)))\<lparr>fd_keystore := True, fd_pf := True\<rparr>"

definition demo_link :: "u32 \<Rightarrow> bytes \<Rightarrow> link" where
  "demo_link ssrc src = \<lparr>lk_env = demo_env, lk_ks = demo_ks, lk_ssrc = ssrc, lk_src = src, lk_dst = replicate 200 0,
     lk_renv = demo_env, lk_rks = demo_ks, lk_pf = demo_pf, lk_csrc = 6, lk_rdst = replicate 200 0\<rparr>"

theorem frame_crypt_roundtrip_witness:
  "relay demo_gcm demo_enc demo_dec0 [demo_link 5 [1, 2, 3], demo_link 0 [4]] = Some [[1, 2, 3], [4]]"
proof -
  have "ks_current demo_ks = Some 0 \<and> deref demo_ks 0 \<noteq> None" by (rule conjI) code_simp+
  then obtain k where k: "ks_current demo_ks = Some 0" "deref demo_ks 0 = Some k" by auto
  let ?K = "\<lambda>_. key_out E2EE_SESSIONKEY_SIZE (ki_mkey k)"
  have mem: "has_key ?K demo_ks k" using k(2) by (auto simp: deref_def find_Some_iff has_key_def)
  have enc: "fe_keystore demo_enc" "fe_ctx demo_enc = None" "length (fe_iv demo_enc) = IV_SIZE"
    by (simp_all add: demo_enc_iv IV_SIZE_def)
       (simp_all add: demo_enc_def frame_encryptor_set_keystore_def frame_encryptor_alloc_def Let_def split: prod.split)
  have iv: "env_hkdf demo_env IV_SIZE (bytes_of ''ab'') (bytes_of (iv_name (fd_mtype demo_dec0))) [] = Some (fe_iv demo_enc)"
    by code_simp
  have dec: "follows (fe_iv demo_enc) demo_dec0" "ctxs_ok ?K demo_enc demo_dec0"
    using enc(2,3) by (simp_all add: follows_def ctxs_ok_def demo_dec0_def frame_decryptor_alloc_def)
  have links: "link_ok ?K (demo_link ssrc src)" if "length src \<le> 3" for ssrc src
    using that demo_env_ok demo_ks_inv k mem unfolding link_ok_def
    by (auto simp: demo_link_def frame_encryptor_max_size_def frame_hdr_max_size_def BLOCK_SIZE_def TAG_SIZE_def)
  have ready: "ready ''ab'' demo_dec0 (lk_source (demo_link ssrc src))" if "ssrc \<in> {0, 5}" for ssrc src
    using that by (auto simp: ready_def lk_source_def demo_link_def demo_dec0_def frame_decryptor_alloc_def)
  have pf: "pf_knows demo_pf ''ab''" by (simp add: pf_knows_def demo_pf_def)
  have ok: "\<forall>c. evp_ok demo_gcm c" by (simp add: demo_gcm_def)
  from frame_crypt_roundtrip [OF demo_gcm_ok ok enc(1,3) dec, of "[demo_link 5 [1, 2, 3], demo_link 0 [4]]" "''ab''"]
  show ?thesis using links ready pf iv by (simp add: demo_link_def)
qed

text \<open>
  C37: a frame shorter than a tag is not refused. The size of the ciphertext is computed without a check
  (\<^verbatim>\<open>enc_size = srcsz - hsize - TAG_SIZE\<close>), so that for a frame of fewer than 16 bytes with a valid
  header the tag is read from before the received bytes. (The receiver has a key for the frame, needs
  no new vector, and the cipher takes the vector.)
\<close>

theorem frame_decryptor_short_frame:
  assumes "frame_hdr_read src (length src) hdr0 = Some (OK, hdr)" and "FRAME_HDR_MINSZ \<le> length src"
    and "length src < TAG_SIZE" and "evp_ok g InitIV" and "\<not> fd_pf dec" and "fd_frame_recv dec"
    and "fd_ctx dec = None" and "fd_keystore dec"
    and "keystore_get_media_key env ks (ucast (ho_key hdr)) E2EE_SESSIONKEY_SIZE = Some (OK, key, ks')"
  shows "frame_decryptor_decrypt g env pf dec ks csrc src dst dstsz = None"
proof -
  have "sub src (int (ho_rlen hdr) + (int (length src) - int (ho_rlen hdr) - int TAG_SIZE)) (int TAG_SIZE) = None"
    using assms(3) by (simp add: sub_def)
  then have "decrypt_open g d iv src (ho_rlen hdr) dst dstsz = None" for d iv
    using assms(4) by (simp add: decrypt_open_def Let_def split: bind_splits)
  then show ?thesis
    using assms(1) [unfolded hdr0_def] assms(2,5-9)
    by (simp add: frame_decryptor_decrypt_def decrypt_frame_def Let_def decrypt_user_def decrypt_new_iv_def
                  decrypt_ctx_def not_less split: bind_splits)
qed

theorem frame_decryptor_short_frame_witness:
  "frame_decryptor_decrypt demo_gcm demo_env demo_pf demo_dec demo_ks 0 [0, 3, 9] (replicate 200 0) 0 = None"
proof -
  have hdr: "frame_hdr_read [0, 3, 9] (length [0, 3, 9 :: u8]) hdr0 =
      Some (OK, \<lparr>ho_frameid = 9, ho_key = 3, ho_csrc = 0, ho_rlen = 3\<rparr>)"
    by code_simp
  have "map_option fst (keystore_get_media_key demo_env demo_ks 3 E2EE_SESSIONKEY_SIZE) = Some OK"
    by code_simp
  then obtain key ks' where key: "keystore_get_media_key demo_env demo_ks 3 E2EE_SESSIONKEY_SIZE = Some (OK, key, ks')"
    by auto
  show ?thesis
    by (rule frame_decryptor_short_frame [OF hdr])
       (simp_all add: key FRAME_HDR_MINSZ_def TAG_SIZE_def demo_gcm_def demo_dec_def frame_decryptor_alloc_def)
qed

end
