(* ===== verification/Jzon.thy ===== *)
theory Jzon
  imports AVS_Prelude
begin

text \<open>
  JSON objects, \<^verbatim>\<open>src/src/jzon/jsonc.c\<close> and \<^verbatim>\<open>src/src/jzon/jzon.c\<close>, the ICE server lists of
  \<^verbatim>\<open>src/src/zapi/call.c\<close> and the string lists of \<^verbatim>\<open>src/src/string/stringlist.c\<close>. A
  \<^verbatim>\<open>struct json_object\<close> is a value of \<open>json\<close>; the ordered dictionary of libre that a container holds
  is the list of its entries. The functions of libre that the sources call are the fields of
  \<open>re_env\<close>, and \<open>re_env_ok\<close> is what the theorems on messages use of them. Allocations of \<^verbatim>\<open>mem_zalloc\<close> succeed;
  adding to a dictionary may fail.
\<close>

section \<open>Data\<close>

datatype json =
    ODICT_OBJECT "(string \<times> json) list"
  | ODICT_ARRAY "(string \<times> json) list"
  | ODICT_STRING string
  | ODICT_INT int
  | ODICT_DOUBLE u64
  | ODICT_BOOL bool
  | ODICT_NULL

type_synonym odict = "(string \<times> json) list"

datatype odict_type =
  json_type_object | json_type_array | json_type_string | json_type_int | json_type_double
  | json_type_boolean | json_type_null

text \<open>
  libre: comparison of strings without case (equal or not), the bounded copy into a buffer (the
  text in the buffer before, the source, the size), whether a string is set, the texts that
  \<^verbatim>\<open>%s\<close>, \<^verbatim>\<open>%u\<close> and \<^verbatim>\<open>%llu\<close> print, pointer and length strings (unset is \<open>None\<close>) and the numbers they
  hold, base64, dictionaries and the JSON texts.
\<close>

record re_env =
  re_casecmp :: "string \<Rightarrow> string \<Rightarrow> bool"
  re_ncpy :: "string \<Rightarrow> string option \<Rightarrow> nat \<Rightarrow> string"
  re_isset :: "string option \<Rightarrow> bool"
  re_fmt_s :: "string option \<Rightarrow> string"
  re_fmt_u :: "nat \<Rightarrow> string"
  re_pl_set_str :: "string option \<Rightarrow> string option \<Rightarrow> string option"
  re_pl_u32 :: "string option \<Rightarrow> u32"
  re_pl_u64 :: "string option \<Rightarrow> u64"
  re_b64_encode :: "bytes \<Rightarrow> err \<times> string"
  re_b64_decode :: "string \<Rightarrow> nat \<Rightarrow> err \<times> bytes"
  od_lookup :: "odict \<Rightarrow> string \<Rightarrow> json option"
  od_add :: "odict \<Rightarrow> string \<Rightarrow> json \<Rightarrow> err \<times> odict"
  js_print :: "json \<Rightarrow> err \<times> string"
  js_parse :: "string \<Rightarrow> err \<times> odict"

section \<open>jsonc.c\<close>

definition jzon_is_container :: "json \<Rightarrow> bool" where
  "jzon_is_container j = (case j of ODICT_OBJECT _ \<Rightarrow> True | ODICT_ARRAY _ \<Rightarrow> True | _ \<Rightarrow> False)"

definition jzon_odict :: "json \<Rightarrow> odict option" where
  "jzon_odict j = (case j of ODICT_OBJECT d \<Rightarrow> Some d | ODICT_ARRAY d \<Rightarrow> Some d | _ \<Rightarrow> None)"

definition json_object_new_object :: json where
  "json_object_new_object = ODICT_OBJECT []"

definition json_object_new_array :: json where
  "json_object_new_array = ODICT_ARRAY []"

definition json_object_new_string :: "string option \<Rightarrow> json option" where
  "json_object_new_string str = map_option ODICT_STRING str"

text \<open>The argument is an \<^verbatim>\<open>int32_t\<close>: wider values are converted by the call.\<close>

definition to_int32 :: "int \<Rightarrow> int" where
  "to_int32 i = sint (word_of_int i :: u32)"

definition json_object_new_int :: "int \<Rightarrow> json" where
  "json_object_new_int i = ODICT_INT (to_int32 i)"

definition json_object_new_boolean :: "bool \<Rightarrow> json" where
  "json_object_new_boolean b = ODICT_BOOL b"

text \<open>A container with its dictionary replaced.\<close>

definition with_odict :: "json \<Rightarrow> odict \<Rightarrow> json" where
  "with_odict j d = (case j of ODICT_OBJECT _ \<Rightarrow> ODICT_OBJECT d | ODICT_ARRAY _ \<Rightarrow> ODICT_ARRAY d | _ \<Rightarrow> j)"

definition add_entry :: "re_env \<Rightarrow> json \<Rightarrow> string \<Rightarrow> json \<Rightarrow> err \<times> json" where
  "add_entry re jobj key val =
     (case jzon_odict jobj of
        None \<Rightarrow> (ENOSYS, jobj)
      | Some d \<Rightarrow> (case od_add re d key val of
                     (e, d') \<Rightarrow> if e \<noteq> OK then (e, jobj) else (OK, with_odict jobj d')))"

text \<open>A missing value is added as null; an error is logged and nothing is added.\<close>

definition json_object_object_add :: "re_env \<Rightarrow> json \<Rightarrow> string \<Rightarrow> json option \<Rightarrow> json" where
  "json_object_object_add re jobj key val =
     (if \<not> jzon_is_container jobj then jobj
      else snd (add_entry re jobj key (case val of None \<Rightarrow> ODICT_NULL | Some v \<Rightarrow> v)))"

definition json_object_array_add :: "re_env \<Rightarrow> json \<Rightarrow> json option \<Rightarrow> int \<times> json" where
  "json_object_array_add re jobj val =
     (case jobj of
        ODICT_ARRAY d \<Rightarrow>
          (case add_entry re jobj (re_fmt_u re (length d)) (case val of None \<Rightarrow> ODICT_NULL | Some v \<Rightarrow> v) of
             (e, jobj') \<Rightarrow> if e \<noteq> OK then (-1, jobj) else (0, jobj'))
      | _ \<Rightarrow> (-1, jobj))"

definition json_object_array_length :: "json \<Rightarrow> nat" where
  "json_object_array_length j = (case j of ODICT_ARRAY d \<Rightarrow> length d | _ \<Rightarrow> 0)"

definition json_object_array_get_idx :: "re_env \<Rightarrow> json \<Rightarrow> nat \<Rightarrow> json option" where
  "json_object_array_get_idx re j idx =
     (case j of ODICT_ARRAY d \<Rightarrow> od_lookup re d (re_fmt_u re idx) | _ \<Rightarrow> None)"

definition json_object_object_get_ex :: "re_env \<Rightarrow> json \<Rightarrow> string \<Rightarrow> json option" where
  "json_object_object_get_ex re j key = (case j of ODICT_OBJECT d \<Rightarrow> od_lookup re d key | _ \<Rightarrow> None)"

definition json_object_get_string :: "json \<Rightarrow> string option" where
  "json_object_get_string j = (case j of ODICT_STRING s \<Rightarrow> Some s | _ \<Rightarrow> None)"

fun json_object_get_type :: "json \<Rightarrow> odict_type" where
  "json_object_get_type (ODICT_OBJECT d) = json_type_object"
| "json_object_get_type (ODICT_ARRAY d) = json_type_array"
| "json_object_get_type (ODICT_STRING s) = json_type_string"
| "json_object_get_type (ODICT_INT i) = json_type_int"
| "json_object_get_type (ODICT_DOUBLE x) = json_type_double"
| "json_object_get_type (ODICT_BOOL b) = json_type_boolean"
| "json_object_get_type ODICT_NULL = json_type_null"

definition json_object_get_int :: "json \<Rightarrow> int" where
  "json_object_get_int j = (case j of ODICT_INT i \<Rightarrow> i | _ \<Rightarrow> 0)"

definition json_object_get_boolean :: "json \<Rightarrow> bool" where
  "json_object_get_boolean j = (case j of ODICT_BOOL b \<Rightarrow> b | _ \<Rightarrow> False)"

definition json_object_is_type :: "json \<Rightarrow> odict_type \<Rightarrow> bool" where
  "json_object_is_type j t \<longleftrightarrow> t = json_object_get_type j"

section \<open>jzon.c\<close>

definition jzon_str :: "re_env \<Rightarrow> json \<Rightarrow> string \<Rightarrow> string option" where
  "jzon_str re obj key = Option.bind (json_object_object_get_ex re obj key) json_object_get_string"

text \<open>The readers take the destination before the call and return it with the code.\<close>

definition jzon_strdup :: "re_env \<Rightarrow> string option \<Rightarrow> json \<Rightarrow> string \<Rightarrow> err \<times> string option" where
  "jzon_strdup re dst obj key =
     (case json_object_object_get_ex re obj key of
        None \<Rightarrow> (ENOENT, dst)
      | Some v \<Rightarrow>
          if json_object_get_type v = json_type_string then (OK, json_object_get_string v)
          else if json_object_get_type v = json_type_null then (OK, None)
          else (EPROTO, dst))"

definition jzon_strrepl :: "re_env \<Rightarrow> string option \<Rightarrow> json \<Rightarrow> string \<Rightarrow> err \<times> string option" where
  "jzon_strrepl re dst obj key =
     (case jzon_strdup re None obj key of (e, tmp) \<Rightarrow> if e \<noteq> OK then (e, dst) else (OK, tmp))"

definition jzon_strdup_opt ::
  "re_env \<Rightarrow> string option \<Rightarrow> json \<Rightarrow> string \<Rightarrow> string option \<Rightarrow> err \<times> string option" where
  "jzon_strdup_opt re dst obj key dflt =
     (case jzon_strdup re dst obj key of
        (e, d) \<Rightarrow> if e = ENOENT then (OK, dflt) else (e, d))"

definition jzon_int :: "re_env \<Rightarrow> int \<Rightarrow> json \<Rightarrow> string \<Rightarrow> err \<times> int" where
  "jzon_int re dst obj key =
     (case json_object_object_get_ex re obj key of
        None \<Rightarrow> (ENOENT, dst)
      | Some v \<Rightarrow>
          if json_object_get_type v \<noteq> json_type_int then (EPROTO, dst)
          else (OK, to_int32 (json_object_get_int v)))"

definition jzon_u32 :: "re_env \<Rightarrow> u32 \<Rightarrow> json \<Rightarrow> string \<Rightarrow> err \<times> u32" where
  "jzon_u32 re dst obj key =
     (case json_object_object_get_ex re obj key of
        None \<Rightarrow> (ENOENT, dst)
      | Some v \<Rightarrow>
          if json_object_get_type v \<noteq> json_type_int then (EPROTO, dst)
          else (OK, word_of_int (json_object_get_int v)))"

definition jzon_int_opt :: "re_env \<Rightarrow> int \<Rightarrow> json \<Rightarrow> string \<Rightarrow> int \<Rightarrow> err \<times> int" where
  "jzon_int_opt re dst obj key dflt =
     (case jzon_int re dst obj key of (e, d) \<Rightarrow> if e = ENOENT then (OK, dflt) else (e, d))"

definition jzon_bool :: "re_env \<Rightarrow> bool \<Rightarrow> json \<Rightarrow> string \<Rightarrow> err \<times> bool" where
  "jzon_bool re dst obj key =
     (case json_object_object_get_ex re obj key of
        None \<Rightarrow> (ENOENT, dst)
      | Some v \<Rightarrow>
          if json_object_get_type v \<noteq> json_type_boolean then (EPROTO, dst)
          else (OK, json_object_get_boolean v))"

definition jzon_bool_opt :: "re_env \<Rightarrow> json \<Rightarrow> string \<Rightarrow> bool \<Rightarrow> bool" where
  "jzon_bool_opt re obj key dflt =
     (case jzon_bool re False obj key of (e, r) \<Rightarrow> if e \<noteq> OK then dflt else r)"

definition generic_object :: "re_env \<Rightarrow> json \<Rightarrow> string \<Rightarrow> odict_type \<Rightarrow> err \<times> json option" where
  "generic_object re jobj key t =
     (case json_object_object_get_ex re jobj key of
        None \<Rightarrow> (ENOENT, None)
      | Some d \<Rightarrow> if \<not> json_object_is_type d t then (EPROTO, None) else (OK, Some d))"

definition jzon_object :: "re_env \<Rightarrow> json \<Rightarrow> string \<Rightarrow> err \<times> json option" where
  "jzon_object re jobj key = generic_object re jobj key json_type_object"

definition jzon_array :: "re_env \<Rightarrow> json \<Rightarrow> string \<Rightarrow> err \<times> json option" where
  "jzon_array re jobj key = generic_object re jobj key json_type_array"

definition jzon_is_object :: "json \<Rightarrow> bool" where
  "jzon_is_object j \<longleftrightarrow> json_type_object = json_object_get_type j"

definition jzon_is_array :: "json \<Rightarrow> bool" where
  "jzon_is_array j \<longleftrightarrow> json_type_array = json_object_get_type j"

definition jzon_is_null :: "re_env \<Rightarrow> json \<Rightarrow> string \<Rightarrow> err" where
  "jzon_is_null re jobj key = fst (generic_object re jobj key json_type_null)"

text \<open>
  The variable arguments of \<^verbatim>\<open>jzon_creatf\<close>; reading one at a type it does not have is undefined.
\<close>

datatype va_arg = VaStr "string option" | VaInt int | VaDouble u64

fun jzon_vcreatf :: "re_env \<Rightarrow> json \<Rightarrow> string \<Rightarrow> va_arg list \<Rightarrow> (err \<times> json option) option" where
  "jzon_vcreatf re jobj [] ap = Some (OK, Some jobj)"
| "jzon_vcreatf re jobj (f # fs) (VaStr None # ap) = Some (EINVAL, None)"
| "jzon_vcreatf re jobj (f # fs) (VaStr (Some key) # ap) =
     (if f = CHR ''s'' then
        (case ap of
           VaStr value # ap' \<Rightarrow>
             jzon_vcreatf re (json_object_object_add re jobj key (json_object_new_string value)) fs ap'
         | _ \<Rightarrow> None)
      else if f = CHR ''n'' then jzon_vcreatf re (json_object_object_add re jobj key None) fs ap
      else if f = CHR ''i'' then
        (case ap of
           VaInt i # ap' \<Rightarrow>
             jzon_vcreatf re (json_object_object_add re jobj key (Some (json_object_new_int i))) fs ap'
         | _ \<Rightarrow> None)
      else if f = CHR ''f'' then
        (case ap of
           VaDouble x # ap' \<Rightarrow>
             jzon_vcreatf re (json_object_object_add re jobj key (Some (ODICT_DOUBLE x))) fs ap'
         | _ \<Rightarrow> None)
      else if f = CHR ''b'' then
        (case ap of
           VaInt i # ap' \<Rightarrow>
             jzon_vcreatf re (json_object_object_add re jobj key (Some (json_object_new_boolean (i \<noteq> 0)))) fs ap'
         | _ \<Rightarrow> None)
      else Some (EINVAL, None))"
| "jzon_vcreatf re jobj (f # fs) ap = None"

definition jzon_creatf :: "re_env \<Rightarrow> string \<Rightarrow> va_arg list \<Rightarrow> (err \<times> json option) option" where
  "jzon_creatf re format ap = jzon_vcreatf re json_object_new_object format ap"

definition jzon_print :: "re_env \<Rightarrow> json \<Rightarrow> err \<times> string" where
  "jzon_print re jobj = (if \<not> jzon_is_container jobj then (EINVAL, []) else js_print re jobj)"

definition jzon_encode :: "re_env \<Rightarrow> json \<Rightarrow> err \<times> string" where
  "jzon_encode re jobj = jzon_print re jobj"

text \<open>The first character that is not white space decides between object and array.\<close>

definition jzon_decode :: "re_env \<Rightarrow> string \<Rightarrow> err \<times> json option" where
  "jzon_decode re buf =
     (if buf = [] then (EINVAL, None)
      else case dropWhile (\<lambda>c. c \<in> {CHR '' '', CHR 0x09, CHR 0x0D, CHR 0x0A}) buf of
             [] \<Rightarrow> (EBADMSG, None)
           | c # _ \<Rightarrow>
               if c \<noteq> CHR ''{'' \<and> c \<noteq> CHR ''['' then (EBADMSG, None)
               else (case js_parse re buf of
                       (e, d) \<Rightarrow> if e \<noteq> OK then (e, None)
                                else (OK, Some (if c = CHR ''{'' then ODICT_OBJECT d else ODICT_ARRAY d))))"

text \<open>The handler gets and returns the state behind its argument; it stops the walk with True.\<close>

fun apply_loop :: "(string \<Rightarrow> json \<Rightarrow> 's \<Rightarrow> bool \<times> 's) \<Rightarrow> odict \<Rightarrow> 's \<Rightarrow> json option \<times> 's" where
  "apply_loop ah [] s = (None, s)"
| "apply_loop ah ((k, j) # d) s =
     (case ah k j s of (stop, s') \<Rightarrow> if stop then (Some j, s') else apply_loop ah d s')"

definition jzon_apply :: "json \<Rightarrow> (string \<Rightarrow> json \<Rightarrow> 's \<Rightarrow> bool \<times> 's) \<Rightarrow> 's \<Rightarrow> json option \<times> 's" where
  "jzon_apply jobj ah s = (case jzon_odict jobj of None \<Rightarrow> (None, s) | Some d \<Rightarrow> apply_loop ah d s)"

text \<open>The last argument of \<^verbatim>\<open>jzon_add_str\<close> is the formatted text.\<close>

definition jzon_add_str :: "re_env \<Rightarrow> json \<Rightarrow> string \<Rightarrow> string \<Rightarrow> err \<times> json" where
  "jzon_add_str re jobj key str = (OK, json_object_object_add re jobj key (json_object_new_string (Some str)))"

definition jzon_add_int :: "re_env \<Rightarrow> json \<Rightarrow> string \<Rightarrow> int \<Rightarrow> err \<times> json" where
  "jzon_add_int re jobj key val = (OK, json_object_object_add re jobj key (Some (json_object_new_int val)))"

definition jzon_add_bool :: "re_env \<Rightarrow> json \<Rightarrow> string \<Rightarrow> bool \<Rightarrow> err \<times> json" where
  "jzon_add_bool re jobj key val =
     (OK, json_object_object_add re jobj key (Some (json_object_new_boolean val)))"

definition jzon_add_base64 :: "re_env \<Rightarrow> json \<Rightarrow> string \<Rightarrow> bytes option \<Rightarrow> err \<times> json" where
  "jzon_add_base64 re jobj key buf =
     (case buf of
        None \<Rightarrow> (EINVAL, jobj)
      | Some b \<Rightarrow> (case re_b64_encode re b of
                     (e, b64) \<Rightarrow> if e \<noteq> OK then (e, jobj) else jzon_add_str re jobj key b64))"

text \<open>The code returns the union's dictionary without a look at the type; a value that is no container has none.\<close>

definition jzon_get_odict :: "json \<Rightarrow> odict option" where
  "jzon_get_odict j = jzon_odict j"

section \<open>String lists\<close>

definition stringlist_append :: "string list \<Rightarrow> string \<Rightarrow> err \<times> string list" where
  "stringlist_append xs str = (OK, xs @ [str])"

fun clone_loop :: "string list \<Rightarrow> string list \<Rightarrow> err \<times> string list" where
  "clone_loop [] to_list = (OK, to_list)"
| "clone_loop (s # xs) to_list =
     (case stringlist_append to_list s of
        (e, to') \<Rightarrow> if e \<noteq> OK then (e, []) else clone_loop xs to')"

definition stringlist_clone :: "string list \<Rightarrow> string list \<Rightarrow> err \<times> string list" where
  "stringlist_clone from_list to_list = clone_loop from_list []"

section \<open>ICE servers\<close>

record zapi_ice_server =
  ice_url :: string
  ice_username :: string
  ice_credential :: string

fun iceservers_loop :: "re_env \<Rightarrow> json \<Rightarrow> zapi_ice_server list \<Rightarrow> (err \<times> json) option" where
  "iceservers_loop re jices [] = Some (OK, jices)"
| "iceservers_loop re jices (srv # srvs) =
     do {
       (e, jice) \<leftarrow> jzon_creatf re ''sss''
          [VaStr (Some ''urls''), VaStr (Some (ice_url srv)),
           VaStr (Some ''username''), VaStr (Some (ice_username srv)),
           VaStr (Some ''credential''), VaStr (Some (ice_credential srv))];
       if e \<noteq> OK then Some (e, jices)
       else case json_object_array_add re jices jice of
              (r, jices') \<Rightarrow> if r \<noteq> 0 then Some (ENOMEM, jices') else iceservers_loop re jices' srvs }"

definition zapi_iceservers_encode ::
  "re_env \<Rightarrow> json \<Rightarrow> zapi_ice_server list \<Rightarrow> (err \<times> json) option" where
  "zapi_iceservers_encode re jobj srvs =
     (if srvs = [] then Some (EINVAL, jobj)
      else do {
        (e, jices) \<leftarrow> iceservers_loop re json_object_new_array srvs;
        if e \<noteq> OK then Some (e, jobj)
        else Some (OK, json_object_object_add re jobj ''ice_servers'' (Some jices)) })"

definition iceserver_decode :: "re_env \<Rightarrow> json \<Rightarrow> err \<times> zapi_ice_server option" where
  "iceserver_decode re jice =
     (let url = (case jzon_array re jice ''urls'' of
                   (OK, Some urls_arr) \<Rightarrow> Option.bind (json_object_array_get_idx re urls_arr 0) json_object_get_string
                 | _ \<Rightarrow> (case jzon_str re jice ''urls'' of
                          None \<Rightarrow> jzon_str re jice ''url'' | Some u \<Rightarrow> Some u));
          username = jzon_str re jice ''username'';
          credential = jzon_str re jice ''credential''
      in if url = None then (EPROTO, None)
         else (OK, Some \<lparr>ice_url = re_ncpy re [] url 256, ice_username = re_ncpy re [] username 128,
                         ice_credential = re_ncpy re [] credential 128\<rparr>))"

fun iceservers_decode_loop ::
  "re_env \<Rightarrow> json \<Rightarrow> nat \<Rightarrow> nat \<Rightarrow> err \<times> zapi_ice_server list" where
  "iceservers_decode_loop re jarr i 0 = (OK, [])"
| "iceservers_decode_loop re jarr i (Suc n) =
     (case json_object_array_get_idx re jarr i of
        None \<Rightarrow> (ENOENT, [])
      | Some jice \<Rightarrow>
          (case iceserver_decode re jice of
             (e, Some srv) \<Rightarrow>
               (case iceservers_decode_loop re jarr (i + 1) n of
                  (e', srvs) \<Rightarrow> if e' \<noteq> OK then (e', []) else (OK, srv # srvs))
           | (e, None) \<Rightarrow> (e, [])))"

definition zapi_iceservers_decode :: "re_env \<Rightarrow> json \<Rightarrow> err \<times> zapi_ice_server list" where
  "zapi_iceservers_decode re jarr =
     (if \<not> jzon_is_array jarr then (EINVAL, [])
      else iceservers_decode_loop re jarr 0 (json_object_array_length jarr))"

section \<open>What the code relies on of libre\<close>

text \<open>Decimal numbers as \<^verbatim>\<open>%u\<close> prints them.\<close>

definition digit :: "nat \<Rightarrow> char" where
  "digit n = char_of (48 + n)"

fun dec :: "nat \<Rightarrow> string" where
  "dec n = (if n < 10 then [digit n] else dec (n div 10) @ [digit (n mod 10)])"

declare dec.simps [simp del]

definition undec :: "string \<Rightarrow> nat" where
  "undec s = foldl (\<lambda>n c. 10 * n + (of_char c - 48)) 0 s"

definition tolower :: "char \<Rightarrow> char" where
  "tolower c = (let n = (of_char c :: nat) in if 65 \<le> n \<and> n \<le> 90 then char_of (n + 32) else c)"

text \<open>Strings: comparison, copies into buffers that are long enough, printing and reading.\<close>

definition re_text_ok :: "re_env \<Rightarrow> bool" where
  "re_text_ok re \<longleftrightarrow>
     (\<forall>s t. re_casecmp re s t \<longleftrightarrow> map tolower s = map tolower t) \<and>
     (\<forall>s. re_isset re (Some s) \<longleftrightarrow> s \<noteq> []) \<and>
     (\<forall>d s n. length s < n \<longrightarrow> re_ncpy re d (Some s) n = s) \<and> (\<forall>d n. re_ncpy re d None n = d) \<and>
     (\<forall>s. re_fmt_s re (Some s) = s) \<and> (\<forall>n. re_fmt_u re n = dec n) \<and>
     (\<forall>pl s. re_pl_set_str re pl (Some s) = Some s) \<and>
     (\<forall>w. re_pl_u32 re (Some (dec (unat w))) = w) \<and> (\<forall>w. re_pl_u64 re (Some (dec (unat w))) = w)"

text \<open>Base 64: text of a multiple of four characters, decoded when the buffer has three bytes for each four.\<close>

definition re_b64_ok :: "re_env \<Rightarrow> bool" where
  "re_b64_ok re \<longleftrightarrow>
     (\<forall>b. \<exists>t. re_b64_encode re b = (OK, t) \<and> 4 dvd length t \<and>
        (\<forall>n. 3 * (length t div 4) \<le> n \<longrightarrow> re_b64_decode re t n = (OK, b)))"

text \<open>Dictionaries keep their entries in order and find an entry by its key.\<close>

definition odict_ok :: "re_env \<Rightarrow> bool" where
  "odict_ok re \<longleftrightarrow>
     (\<forall>d k v. k \<notin> fst ` set d \<longrightarrow> od_add re d k v = (OK, d @ [(k, v)])) \<and>
     (\<forall>d k. distinct (map fst d) \<longrightarrow> od_lookup re d k = map_of d k)"

text \<open>
  JSON texts: an object that is printed starts with a brace and is parsed back when it has no
  floating point numbers, no key twice, arrays that are numbered from 0, 64 bit integers and at most
  the eight levels \<^verbatim>\<open>jzon_decode\<close> asks for.
\<close>

primrec json_plain :: "nat \<Rightarrow> json \<Rightarrow> bool" where
  "json_plain 0 j = (case j of
       ODICT_OBJECT d \<Rightarrow> False
     | ODICT_ARRAY d \<Rightarrow> False
     | ODICT_DOUBLE x \<Rightarrow> False
     | ODICT_INT i \<Rightarrow> - (2 ^ 63) \<le> i \<and> i < 2 ^ 63
     | _ \<Rightarrow> True)"
| "json_plain (Suc l) j = (case j of
       ODICT_OBJECT d \<Rightarrow> distinct (map fst d) \<and> list_all (\<lambda>e. json_plain l (snd e)) d
     | ODICT_ARRAY d \<Rightarrow> map fst d = map dec [0..<length d] \<and> list_all (\<lambda>e. json_plain l (snd e)) d
     | ODICT_DOUBLE x \<Rightarrow> False
     | ODICT_INT i \<Rightarrow> - (2 ^ 63) \<le> i \<and> i < 2 ^ 63
     | _ \<Rightarrow> True)"

definition re_json_ok :: "re_env \<Rightarrow> bool" where
  "re_json_ok re \<longleftrightarrow>
     (\<forall>d s. json_plain 8 (ODICT_OBJECT d) \<and> js_print re (ODICT_OBJECT d) = (OK, s) \<longrightarrow>
        (\<exists>r. s = CHR ''{'' # r) \<and> js_parse re s = (OK, d))"

definition re_env_ok :: "re_env \<Rightarrow> bool" where
  "re_env_ok re \<longleftrightarrow> re_text_ok re \<and> re_b64_ok re \<and> odict_ok re \<and> re_json_ok re"

section \<open>Numbers\<close>

lemma of_char_digit: "n < 10 \<Longrightarrow> (of_char (digit n) :: nat) = 48 + n"
  by (simp add: digit_def)

lemma undec_dec [simp]: "undec (dec n) = n"
proof (induction n rule: dec.induct)
  case (1 n)
  show ?case
  proof (cases "n < 10")
    case True
    then show ?thesis by (simp add: dec.simps [of n] undec_def of_char_digit)
  next
    case False
    then show ?thesis using 1 by (simp add: dec.simps [of n] undec_def of_char_digit)
  qed
qed

lemma dec_inj [simp]: "dec m = dec n \<longleftrightarrow> m = n"
  by (metis undec_dec)

lemma inj_dec: "inj_on dec A"
  by (simp add: inj_on_def)

lemma to_int32_word [simp]: "word_of_int (to_int32 (uint w)) = (w :: u32)"
  by (simp add: to_int32_def)

lemma to_int32_id: "- (2 ^ 31) \<le> i \<Longrightarrow> i < 2 ^ 31 \<Longrightarrow> to_int32 i = i"
  by (simp add: to_int32_def sint_word_ariths sint_sbintrunc' signed_take_bit_int_eq_self)

lemma to_int32_bounds: "- (2 ^ 31) \<le> to_int32 i" "to_int32 i < 2 ^ 31"
  using sint_range_size [of "word_of_int i :: u32"] by (auto simp: to_int32_def word_size)

lemma to_int32_idem [simp]: "to_int32 (to_int32 i) = to_int32 i"
  by (rule to_int32_id) (rule to_int32_bounds)+

section \<open>Objects and arrays\<close>

text \<open>An optional entry.\<close>

definition entry :: "string \<Rightarrow> json option \<Rightarrow> odict" where
  "entry k x = (case x of None \<Rightarrow> [] | Some v \<Rightarrow> [(k, v)])"

lemma entry_simps [simp]: "entry k None = []" "entry k (Some v) = [(k, v)]"
  by (simp_all add: entry_def)

lemma fst_entry [simp]: "fst ` set (entry k x) = (if x = None then {} else {k})"
  by (cases x) simp_all

lemma distinct_entry [simp]: "distinct (map fst (entry k x))"
  by (cases x) simp_all

lemma map_of_entry [simp]: "map_of (entry k x) k' = (if k' = k then x else None)"
  by (cases x) simp_all

lemma list_all_entry [simp]: "list_all P (entry k x) \<longleftrightarrow> (\<forall>v. x = Some v \<longrightarrow> P (k, v))"
  by (cases x) simp_all

lemma object_add [simp]:
  assumes "odict_ok re" and "k \<notin> fst ` set d"
  shows "json_object_object_add re (ODICT_OBJECT d) k v =
     ODICT_OBJECT (d @ [(k, case v of None \<Rightarrow> ODICT_NULL | Some x \<Rightarrow> x)])"
  using assms by (simp add: json_object_object_add_def jzon_is_container_def add_entry_def jzon_odict_def
    with_odict_def odict_ok_def)

lemma object_get [simp]:
  "odict_ok re \<Longrightarrow> distinct (map fst d) \<Longrightarrow> json_object_object_get_ex re (ODICT_OBJECT d) k = map_of d k"
  by (simp add: json_object_object_get_ex_def odict_ok_def)

text \<open>The array of some values, as \<^verbatim>\<open>json_object_array_add\<close> builds it.\<close>

definition json_array :: "json list \<Rightarrow> json" where
  "json_array vs = ODICT_ARRAY (zip (map dec [0..<length vs]) vs)"

lemma json_array_Nil: "json_object_new_array = json_array []"
  by (simp add: json_object_new_array_def json_array_def)

lemma array_add:
  assumes "odict_ok re" and "re_text_ok re"
  shows "json_object_array_add re (json_array vs) v =
     (0, json_array (vs @ [case v of None \<Rightarrow> ODICT_NULL | Some x \<Rightarrow> x]))"
proof -
  have "dec (length vs) \<notin> fst ` set (zip (map dec [0..<length vs]) vs)"
    by (auto simp: set_zip)
  then show ?thesis
    using assms by (simp add: json_object_array_add_def json_array_def add_entry_def jzon_odict_def with_odict_def
      odict_ok_def re_text_ok_def)
qed

lemma array_get:
  assumes "odict_ok re" and "re_text_ok re" and "i < length vs"
  shows "json_object_array_get_idx re (json_array vs) i = Some (vs ! i)"
proof -
  let ?d = "zip (map dec [0..<length vs]) vs"
  have "distinct (map fst ?d)" by (simp add: distinct_map inj_dec)
  moreover have "(dec i, vs ! i) \<in> set ?d" using assms(3) by (force simp: set_zip)
  ultimately show ?thesis
    using assms(1,2) by (simp add: json_object_array_get_idx_def json_array_def odict_ok_def re_text_ok_def)
qed

lemma array_length [simp]: "json_object_array_length (json_array vs) = length vs"
  by (simp add: json_object_array_length_def json_array_def)

lemma type_array [simp]: "json_object_get_type (json_array vs) = json_type_array"
  by (simp add: json_array_def)

text \<open>A walk over an array whose handler reads each value back and appends it to a list.\<close>

lemma apply_loop_zip:
  assumes "\<And>k x ys. x \<in> set xs \<Longrightarrow> ah k (f x) (c ys) = (False, c (ys @ [x]))" and "length ks = length xs"
  shows "apply_loop ah (zip ks (map f xs)) (c ys) = (None, c (ys @ xs))"
  using assms(2,1) by (induction ks xs arbitrary: ys rule: list_induct2) simp_all

lemma apply_array:
  assumes "\<And>k x ys. x \<in> set xs \<Longrightarrow> ah k (f x) (c ys) = (False, c (ys @ [x]))"
  shows "jzon_apply (json_array (map f xs)) ah (c ys) = (None, c (ys @ xs))"
  using apply_loop_zip [where ah = ah and f = f and c = c and xs = xs, OF assms] by (simp add: jzon_apply_def json_array_def jzon_odict_def)

lemma json_plain_array [simp]:
  "json_plain (Suc l) (json_array vs) \<longleftrightarrow> list_all (json_plain l) vs"
proof -
  have "list_all (\<lambda>e. json_plain l (snd e)) (zip (map dec [0..<length vs]) vs) \<longleftrightarrow>
        list_all (json_plain l) (map snd (zip (map dec [0..<length vs]) vs))"
    by (simp only: list.pred_map comp_def)
  then show ?thesis by (simp add: json_array_def)
qed

section \<open>ICE servers survive the wire\<close>

definition ice_ok :: "zapi_ice_server \<Rightarrow> bool" where
  "ice_ok srv \<longleftrightarrow> length (ice_url srv) < 256 \<and> length (ice_username srv) < 128 \<and> length (ice_credential srv) < 128"

definition ice_json :: "zapi_ice_server \<Rightarrow> json" where
  "ice_json srv = ODICT_OBJECT [(''urls'', ODICT_STRING (ice_url srv)),
     (''username'', ODICT_STRING (ice_username srv)), (''credential'', ODICT_STRING (ice_credential srv))]"

lemma creatf_strings:
  assumes "odict_ok re" and "distinct [k1, k2, k3]"
  shows "jzon_creatf re ''sss'' [VaStr (Some k1), VaStr (Some v1), VaStr (Some k2), VaStr (Some v2),
           VaStr (Some k3), VaStr (Some v3)] =
     Some (OK, Some (ODICT_OBJECT [(k1, ODICT_STRING v1), (k2, ODICT_STRING v2), (k3, ODICT_STRING v3)]))"
  using assms by (auto simp: jzon_creatf_def json_object_new_object_def json_object_new_string_def)

lemma iceservers_loop_array:
  assumes "odict_ok re" and "re_text_ok re"
  shows "iceservers_loop re (json_array vs) srvs = Some (OK, json_array (vs @ map ice_json srvs))"
  by (induction srvs arbitrary: vs)
     (simp_all add: creatf_strings [OF assms(1)] array_add [OF assms] ice_json_def)

lemma iceservers_encode:
  assumes "odict_ok re" and "re_text_ok re" and "srvs \<noteq> []" and "''ice_servers'' \<notin> fst ` set d"
  shows "zapi_iceservers_encode re (ODICT_OBJECT d) srvs =
     Some (OK, ODICT_OBJECT (d @ [(''ice_servers'', json_array (map ice_json srvs))]))"
  using assms(3,4) iceservers_loop_array [OF assms(1,2), of "[]" srvs] assms(1)
  by (simp add: zapi_iceservers_encode_def json_array_Nil)

lemma iceserver_decode_json:
  assumes "odict_ok re" and "re_text_ok re" and "ice_ok srv"
  shows "iceserver_decode re (ice_json srv) = (OK, Some srv)"
  using assms by (simp add: iceserver_decode_def ice_json_def jzon_array_def generic_object_def jzon_str_def
    json_object_is_type_def json_object_get_string_def re_text_ok_def ice_ok_def)

lemma iceservers_decode_loop_array:
  assumes "odict_ok re" and "re_text_ok re"
  shows "i + n \<le> length srvs \<Longrightarrow> list_all ice_ok srvs \<Longrightarrow>
    iceservers_decode_loop re (json_array (map ice_json srvs)) i n = (OK, take n (drop i srvs))"
proof (induction n arbitrary: i)
  case (Suc n)
  then have i: "i < length srvs" and "ice_ok (srvs ! i)" by (simp_all add: list_all_length)
  then have "iceserver_decode re (ice_json (srvs ! i)) = (OK, Some (srvs ! i))"
    using iceserver_decode_json assms by blast
  then show ?case
    using Suc i array_get [OF assms, of i "map ice_json srvs"] by (simp add: Cons_nth_drop_Suc [symmetric])
qed simp

lemma iceservers_decode:
  assumes "odict_ok re" and "re_text_ok re" and "list_all ice_ok srvs"
  shows "zapi_iceservers_decode re (json_array (map ice_json srvs)) = (OK, srvs)"
  using iceservers_decode_loop_array [OF assms(1,2), of 0 "length srvs" srvs] assms(3)
  by (simp add: zapi_iceservers_decode_def jzon_is_array_def)

lemma json_plain_object [simp]:
  "json_plain (Suc l) (ODICT_OBJECT d) \<longleftrightarrow> distinct (map fst d) \<and> list_all (\<lambda>e. json_plain l (snd e)) d"
  by simp

lemma json_plain_simps [simp]:
  "json_plain l (ODICT_STRING x)" "json_plain l (ODICT_BOOL b)" "json_plain l (ODICT_INT (to_int32 i))"
  using to_int32_bounds [of i] by (cases l; simp)+

declare json_plain.simps [simp del]

lemma json_plain_ice [simp]: "json_plain (Suc l) (ice_json srv)"
  by (simp add: ice_json_def)

end
