(* ===== verification/Econn_Msg.thy ===== *)
theory Econn_Msg
  imports Jzon
begin

text \<open>
  The messages of the call signalling protocol and their helpers: \<^verbatim>\<open>src/include/avs_econn.h\<close>,
  \<^verbatim>\<open>src/src/econn/msg.c\<close>, \<^verbatim>\<open>src/src/econn/econn_help.c\<close>, \<^verbatim>\<open>src/src/econn/props.c\<close> and
  \<^verbatim>\<open>src/src/econn/vector.c\<close>. The union of a message is the datatype \<open>econn_u\<close>, with \<open>U_zero\<close> for the
  zeroed memory; a zeroed message type is \<open>None\<close>. NULL strings and objects are \<open>None\<close>.
\<close>

section \<open>Enumerations\<close>

datatype econn_msg =
    ECONN_SETUP | ECONN_CANCEL | ECONN_HANGUP | ECONN_PROPSYNC
  | ECONN_GROUP_START | ECONN_GROUP_LEAVE | ECONN_GROUP_CHECK | ECONN_GROUP_SETUP
  | ECONN_CONF_CONN | ECONN_CONF_START | ECONN_CONF_END | ECONN_CONF_PART | ECONN_CONF_KEY
  | ECONN_CONF_CHECK | ECONN_CONF_STREAMS
  | ECONN_UPDATE | ECONN_REJECT | ECONN_ALERT | ECONN_PING
  | ECONN_DEVPAIR_PUBLISH | ECONN_DEVPAIR_ACCEPT

datatype econn_state =
    ECONN_IDLE | ECONN_PENDING_OUTGOING | ECONN_PENDING_INCOMING | ECONN_CONFLICT_RESOLUTION
  | ECONN_ANSWERED | ECONN_DATACHAN_ESTABLISHED | ECONN_HANGUP_SENT | ECONN_HANGUP_RECV
  | ECONN_UPDATE_SENT | ECONN_UPDATE_RECV | ECONN_TERMINATING

datatype econn_dir = ECONN_DIR_UNKNOWN | ECONN_DIR_OUTGOING | ECONN_DIR_INCOMING

datatype econn_transport = ECONN_TRANSP_BACKEND | ECONN_TRANSP_DIRECT

definition ECONN_ID_LEN :: nat where
  "ECONN_ID_LEN = 128"

definition ECONN_MESSAGE_TIME_UNKNOWN :: u32 where
  "ECONN_MESSAGE_TIME_UNKNOWN = 0"

section \<open>Messages\<close>

text \<open>Properties are the entries of their dictionary.\<close>

type_synonym econn_props = odict

datatype muted_state = MUTED_STATE_UNKNOWN | MUTED_STATE_MUTED | MUTED_STATE_UNMUTED

record econn_group_part =
  gp_userid :: "string option"
  gp_clientid :: "string option"
  gp_authorized :: bool
  gp_muted_state :: muted_state
  gp_ssrca :: u32
  gp_ssrcv :: u32
  gp_ts :: u64

record econn_key_info =
  key_idx :: u32
  key_data :: bytes

record econn_stream_info =
  st_userid :: string
  st_quality :: u32
  st_clientid :: string
  st_hi :: u32
  st_lo :: u32

record econn_setup =
  su_sdp_msg :: "string option"
  su_props :: "econn_props option"
  su_url :: "string option"
  su_sft_tuple :: "string option"

record econn_confconn =
  cc_turnv :: "zapi_ice_server list"
  cc_update :: bool
  cc_env :: int
  cc_tool :: "string option"
  cc_toolver :: "string option"
  cc_status :: int
  cc_selective_audio :: bool
  cc_selective_video :: bool
  cc_vstreams :: u32
  cc_sft_url :: "string option"
  cc_sft_tuple :: "string option"
  cc_sft_username :: "string option"
  cc_sft_credential :: "string option"

text \<open>\<^verbatim>\<open>struct confstart\<close> and \<^verbatim>\<open>struct confcheck\<close>; the latter has no properties.\<close>

record econn_confstart =
  cs_props :: "econn_props option"
  cs_sft_url :: "string option"
  cs_sft_tuple :: "string option"
  cs_secret :: "bytes option"
  cs_timestamp :: u64
  cs_seqno :: u32
  cs_sftl :: "string list"

record econn_confpart =
  cp_timestamp :: u64
  cp_seqno :: u32
  cp_should_start :: bool
  cp_partl :: "econn_group_part list"
  cp_entropy :: "bytes option"
  cp_sftl :: "string list"

datatype econn_u =
    U_zero
  | U_setup econn_setup
  | U_propsync "econn_props option"
  | U_devpair_accept "string option"
  | U_devpair_publish "zapi_ice_server list" "string option" "string option"
  | U_alert u32 "string option"
  | U_groupstart "econn_props option"
  | U_confconn econn_confconn
  | U_confstart econn_confstart
  | U_confcheck econn_confstart
  | U_confpart econn_confpart
  | U_confkey "econn_key_info list"
  | U_confstreams "econn_stream_info list" "string option"

record econn_message =
  em_msg_type :: "econn_msg option"
  em_sessid_sender :: string
  em_src_userid :: string
  em_src_clientid :: string
  em_dest_userid :: string
  em_dest_clientid :: string
  em_resp :: bool
  em_transient :: bool
  em_time :: u32
  em_age :: u32
  em_u :: econn_u

text \<open>The fields of the union as a SETUP or ALERT reads them.\<close>

definition em_setup :: "econn_message \<Rightarrow> econn_setup" where
  "em_setup msg = (case em_u msg of
       U_setup s \<Rightarrow> s
     | _ \<Rightarrow> \<lparr>su_sdp_msg = None, su_props = None, su_url = None, su_sft_tuple = None\<rparr>)"

definition em_alert :: "econn_message \<Rightarrow> u32 \<times> string option" where
  "em_alert msg = (case em_u msg of U_alert level descr \<Rightarrow> (level, descr) | _ \<Rightarrow> (0, None))"

definition econn_message_zero :: econn_message where
  "econn_message_zero =
     \<lparr>em_msg_type = None, em_sessid_sender = [], em_src_userid = [], em_src_clientid = [],
      em_dest_userid = [], em_dest_clientid = [], em_resp = False, em_transient = False,
      em_time = 0, em_age = 0, em_u = U_zero\<rparr>"

text \<open>\<open>mem\<close>: the allocation succeeds.\<close>

definition econn_message_alloc :: "bool \<Rightarrow> econn_message option" where
  "econn_message_alloc mem = (if mem then Some econn_message_zero else None)"

definition econn_message_init :: "re_env \<Rightarrow> econn_msg \<Rightarrow> string \<Rightarrow> err \<times> econn_message" where
  "econn_message_init re msg_type sessid_sender =
     (OK, econn_message_zero\<lparr>em_msg_type := Some msg_type,
            em_sessid_sender := re_ncpy re [] (Some sessid_sender) ECONN_ID_LEN\<rparr>)"

definition econn_message_reset :: "econn_message \<Rightarrow> econn_message" where
  "econn_message_reset msg = econn_message_zero"

definition econn_message_isrequest :: "econn_message \<Rightarrow> bool" where
  "econn_message_isrequest msg \<longleftrightarrow> \<not> em_resp msg"

section \<open>Names and decisions\<close>

fun econn_msg_name :: "econn_msg \<Rightarrow> string" where
  "econn_msg_name ECONN_SETUP = ''SETUP''"
| "econn_msg_name ECONN_CANCEL = ''CANCEL''"
| "econn_msg_name ECONN_UPDATE = ''UPDATE''"
| "econn_msg_name ECONN_HANGUP = ''HANGUP''"
| "econn_msg_name ECONN_REJECT = ''REJECT''"
| "econn_msg_name ECONN_PROPSYNC = ''PROPSYNC''"
| "econn_msg_name ECONN_GROUP_START = ''GROUPSTART''"
| "econn_msg_name ECONN_GROUP_LEAVE = ''GROUPLEAVE''"
| "econn_msg_name ECONN_GROUP_CHECK = ''GROUPCHECK''"
| "econn_msg_name ECONN_GROUP_SETUP = ''GROUPSETUP''"
| "econn_msg_name ECONN_DEVPAIR_PUBLISH = ''DEVPAIR_PUBLISH''"
| "econn_msg_name ECONN_DEVPAIR_ACCEPT = ''DEVPAIR_ACCEPT''"
| "econn_msg_name ECONN_ALERT = ''ALERT''"
| "econn_msg_name ECONN_CONF_CONN = ''CONFCONN''"
| "econn_msg_name ECONN_CONF_START = ''CONFSTART''"
| "econn_msg_name ECONN_CONF_END = ''CONFEND''"
| "econn_msg_name ECONN_CONF_PART = ''CONFPART''"
| "econn_msg_name ECONN_CONF_KEY = ''CONFKEY''"
| "econn_msg_name ECONN_CONF_CHECK = ''CONFCHECK''"
| "econn_msg_name ECONN_CONF_STREAMS = ''CONFSTREAMS''"
| "econn_msg_name ECONN_PING = ''PING''"

text \<open>The name of a message's type, which may be the zero value.\<close>

definition econn_type_name :: "econn_msg option \<Rightarrow> string" where
  "econn_type_name t = (case t of Some m \<Rightarrow> econn_msg_name m | None \<Rightarrow> ''???'')"

fun econn_state_name :: "econn_state \<Rightarrow> string" where
  "econn_state_name ECONN_IDLE = ''Idle''"
| "econn_state_name ECONN_PENDING_OUTGOING = ''Pending-Outgoing''"
| "econn_state_name ECONN_PENDING_INCOMING = ''Pending-Incoming''"
| "econn_state_name ECONN_CONFLICT_RESOLUTION = ''Conflict-Resolution''"
| "econn_state_name ECONN_ANSWERED = ''Answered''"
| "econn_state_name ECONN_DATACHAN_ESTABLISHED = ''DatachanEstablished''"
| "econn_state_name ECONN_HANGUP_SENT = ''HangupSent''"
| "econn_state_name ECONN_HANGUP_RECV = ''HangupRecv''"
| "econn_state_name ECONN_TERMINATING = ''Terminating''"
| "econn_state_name ECONN_UPDATE_RECV = ''UpdateRecv''"
| "econn_state_name ECONN_UPDATE_SENT = ''UpdateSent''"

fun econn_dir_name :: "econn_dir \<Rightarrow> string" where
  "econn_dir_name ECONN_DIR_UNKNOWN = ''Unknown''"
| "econn_dir_name ECONN_DIR_OUTGOING = ''Outgoing''"
| "econn_dir_name ECONN_DIR_INCOMING = ''Incoming''"

fun econn_transp_name :: "econn_transport \<Rightarrow> string" where
  "econn_transp_name ECONN_TRANSP_BACKEND = ''Backend''"
| "econn_transp_name ECONN_TRANSP_DIRECT = ''Direct''"

definition econn_iswinner :: "string \<Rightarrow> string \<Rightarrow> string \<Rightarrow> string \<Rightarrow> bool" where
  "econn_iswinner userid_self clientid userid_remote clientid_remote =
     (if userid_self = userid_remote then strcmp_gt clientid clientid_remote
      else strcmp_gt userid_self userid_remote)"

definition econn_is_creator :: "re_env \<Rightarrow> string option \<Rightarrow> string option \<Rightarrow> econn_message \<Rightarrow> bool" where
  "econn_is_creator re userid_self userid_remote msg =
     (case (userid_self, userid_remote) of
        (Some s, Some r) \<Rightarrow>
          re_isset re userid_self \<and> re_isset re userid_remote \<and> \<not> re_casecmp re s r \<and>
          econn_message_isrequest msg \<and> em_msg_type msg = Some ECONN_SETUP
      | _ \<Rightarrow> False)"

definition econn_is_creator_full ::
  "re_env \<Rightarrow> string option \<Rightarrow> string \<Rightarrow> string option \<Rightarrow> string \<Rightarrow> econn_message \<Rightarrow> bool" where
  "econn_is_creator_full re userid_self clientid_self userid_remote clientid_remote msg =
     (case (userid_self, userid_remote) of
        (Some s, Some r) \<Rightarrow>
          re_isset re userid_self \<and> re_isset re userid_remote \<and>
          (\<not> re_casecmp re s r \<or> \<not> re_casecmp re clientid_self clientid_remote) \<and>
          econn_message_isrequest msg \<and> em_msg_type msg = Some ECONN_SETUP
      | _ \<Rightarrow> False)"

text \<open>The transport of a message type; \<open>None\<close> is the value -1 for a type without one.\<close>

fun econn_transp_resolve :: "econn_msg \<Rightarrow> econn_transport option" where
  "econn_transp_resolve ECONN_SETUP = Some ECONN_TRANSP_BACKEND"
| "econn_transp_resolve ECONN_CANCEL = Some ECONN_TRANSP_BACKEND"
| "econn_transp_resolve ECONN_UPDATE = Some ECONN_TRANSP_BACKEND"
| "econn_transp_resolve ECONN_HANGUP = Some ECONN_TRANSP_DIRECT"
| "econn_transp_resolve ECONN_REJECT = Some ECONN_TRANSP_BACKEND"
| "econn_transp_resolve ECONN_PROPSYNC = Some ECONN_TRANSP_DIRECT"
| "econn_transp_resolve ECONN_GROUP_START = Some ECONN_TRANSP_BACKEND"
| "econn_transp_resolve ECONN_GROUP_LEAVE = Some ECONN_TRANSP_BACKEND"
| "econn_transp_resolve ECONN_GROUP_CHECK = Some ECONN_TRANSP_BACKEND"
| "econn_transp_resolve ECONN_GROUP_SETUP = Some ECONN_TRANSP_BACKEND"
| "econn_transp_resolve ECONN_DEVPAIR_PUBLISH = Some ECONN_TRANSP_BACKEND"
| "econn_transp_resolve ECONN_DEVPAIR_ACCEPT = Some ECONN_TRANSP_BACKEND"
| "econn_transp_resolve ECONN_ALERT = Some ECONN_TRANSP_BACKEND"
| "econn_transp_resolve ECONN_CONF_CONN = Some ECONN_TRANSP_DIRECT"
| "econn_transp_resolve ECONN_CONF_START = Some ECONN_TRANSP_BACKEND"
| "econn_transp_resolve ECONN_CONF_END = Some ECONN_TRANSP_BACKEND"
| "econn_transp_resolve ECONN_CONF_PART = Some ECONN_TRANSP_DIRECT"
| "econn_transp_resolve ECONN_CONF_CHECK = Some ECONN_TRANSP_BACKEND"
| "econn_transp_resolve ECONN_CONF_STREAMS = Some ECONN_TRANSP_DIRECT"
| "econn_transp_resolve ECONN_PING = Some ECONN_TRANSP_DIRECT"
| "econn_transp_resolve ECONN_CONF_KEY = None"

section \<open>Properties of a call\<close>

definition econn_props_alloc :: "bool \<Rightarrow> odict option \<Rightarrow> err \<times> econn_props option" where
  "econn_props_alloc mem dict =
     (if \<not> mem then (ENOMEM, None) else (OK, Some (case dict of Some d \<Rightarrow> d | None \<Rightarrow> [])))"

definition econn_props_add :: "re_env \<Rightarrow> econn_props \<Rightarrow> string option \<Rightarrow> string option \<Rightarrow> err \<times> econn_props" where
  "econn_props_add re props key val =
     (case (key, val) of
        (Some k, Some v) \<Rightarrow>
          (case od_add re props k (ODICT_STRING v) of (e, d) \<Rightarrow> if e \<noteq> OK then (e, props) else (OK, d))
      | _ \<Rightarrow> (EINVAL, props))"

text \<open>Assignment to the text of the entry that the lookup finds: the first with the key.\<close>

fun odict_set :: "odict \<Rightarrow> string \<Rightarrow> json \<Rightarrow> odict" where
  "odict_set [] k v = []"
| "odict_set ((k', w) # d) k v = (if k' = k then (k', v) # d else (k', w) # odict_set d k v)"

text \<open>
  The last two functions read \<^verbatim>\<open>de->u.str\<close> of the entry without a look at its type; for an entry
  that is not a string this reads another member of the union, and the model has no value.
\<close>

definition econn_props_update :: "re_env \<Rightarrow> econn_props \<Rightarrow> string \<Rightarrow> string \<Rightarrow> (err \<times> econn_props) option" where
  "econn_props_update re props key val =
     (case od_lookup re props key of
        Some (ODICT_STRING _) \<Rightarrow> Some (OK, odict_set props key (ODICT_STRING val))
      | Some _ \<Rightarrow> None
      | None \<Rightarrow> Some (econn_props_add re props (Some key) (Some val)))"

definition econn_props_get :: "re_env \<Rightarrow> econn_props option \<Rightarrow> string option \<Rightarrow> string option option" where
  "econn_props_get re props key =
     (case (props, key) of
        (Some d, Some k) \<Rightarrow>
          if \<not> re_isset re key then Some None
          else (case od_lookup re d k of
                  None \<Rightarrow> Some None
                | Some (ODICT_STRING s) \<Rightarrow> Some (Some s)
                | Some _ \<Rightarrow> None)
      | _ \<Rightarrow> Some None)"

section \<open>Byte vectors\<close>

text \<open>Without initial bytes the content is what the allocator left there (\<open>junk\<close>).\<close>

definition vector_alloc :: "bool \<Rightarrow> bytes \<Rightarrow> bytes option \<Rightarrow> nat \<Rightarrow> err \<times> bytes option" where
  "vector_alloc mem junk bs len =
     (if len = 0 then (EINVAL, None)
      else if \<not> mem then (ENOMEM, None)
      else (OK, Some (take len (case bs of Some b \<Rightarrow> b | None \<Rightarrow> junk))))"

section \<open>The conflict rule\<close>

lemma econn_iswinner_asym:
  "econn_iswinner u c u' c' \<Longrightarrow> \<not> econn_iswinner u' c' u c"
  by (auto simp: econn_iswinner_def dest: strcmp_gt_asym)

lemma econn_iswinner_total:
  "(u, c) \<noteq> (u', c') \<Longrightarrow> econn_iswinner u c u' c' \<or> econn_iswinner u' c' u c"
  using strcmp_gt_total [of u u'] strcmp_gt_total [of c c'] by (auto simp: econn_iswinner_def)

end
