(* ===== verification/Econn_Fmt.thy ===== *)
theory Econn_Fmt
  imports Econn_Msg
begin

text \<open>
  Call messages as JSON texts, \<^verbatim>\<open>src/src/econn_fmt/msg.c\<close>: \<open>econn_message_encode\<close> builds a JSON object from
  a message and prints it, \<open>econn_message_decode\<close> parses a text and reads a message from it. Each case
  of the two large functions is a definition of its own. A result \<open>None\<close> of an encoder says that the
  code reads a member of the message's union that is not the one that was written, of a decoder that
  \<^verbatim>\<open>sscanf\<close> was given a number that does not fit.
\<close>

section \<open>Lists in messages\<close>

definition econn_proto_version :: string where
  "econn_proto_version = ''3.0''"

definition econn_props_encode :: "re_env \<Rightarrow> json \<Rightarrow> econn_props \<Rightarrow> err \<times> json" where
  "econn_props_encode re jobj props =
     (case jzon_get_odict jobj of
        None \<Rightarrow> (EINVAL, jobj)
      | Some d \<Rightarrow> (case od_add re d ''props'' (ODICT_OBJECT props) of
                     (e, d') \<Rightarrow> if e \<noteq> OK then (e, jobj) else (OK, with_odict jobj d')))"

text \<open>The body of the loop of \<^verbatim>\<open>econn_parts_encode\<close>; the codes of the additions are not looked at.\<close>

definition part_encode :: "re_env \<Rightarrow> econn_group_part \<Rightarrow> json" where
  "part_encode re part =
     (let jpart = json_object_new_object;
          jpart = snd (jzon_add_str re jpart ''userid'' (re_fmt_s re (gp_userid part)));
          jpart = snd (jzon_add_str re jpart ''clientid'' (re_fmt_s re (gp_clientid part)));
          jpart = snd (jzon_add_bool re jpart ''authorized'' (gp_authorized part));
          jpart = snd (jzon_add_str re jpart ''ssrc_audio'' (re_fmt_u re (unat (gp_ssrca part))));
          jpart = snd (jzon_add_str re jpart ''ssrc_video'' (re_fmt_u re (unat (gp_ssrcv part))));
          jpart = snd (jzon_add_int re jpart ''timestamp'' (uint (gp_ts part)))
      in case gp_muted_state part of
           MUTED_STATE_UNMUTED \<Rightarrow> snd (jzon_add_bool re jpart ''muted'' False)
         | MUTED_STATE_MUTED \<Rightarrow> snd (jzon_add_bool re jpart ''muted'' True)
         | MUTED_STATE_UNKNOWN \<Rightarrow> jpart)"

text \<open>The loops of the encoders: the values of a list are added to an array one after the other.\<close>

fun array_loop :: "re_env \<Rightarrow> ('a \<Rightarrow> json) \<Rightarrow> json \<Rightarrow> 'a list \<Rightarrow> json" where
  "array_loop re f jarr [] = jarr"
| "array_loop re f jarr (x # xs) = array_loop re f (snd (json_object_array_add re jarr (Some (f x)))) xs"

definition econn_parts_encode :: "re_env \<Rightarrow> json \<Rightarrow> econn_group_part list \<Rightarrow> err \<times> json" where
  "econn_parts_encode re jobj partl =
     (OK, json_object_object_add re jobj ''participants''
            (Some (array_loop re (part_encode re) json_object_new_array partl)))"

definition econn_part_alloc :: "bool \<Rightarrow> string option \<Rightarrow> string option \<Rightarrow> econn_group_part option" where
  "econn_part_alloc mem userid clientid =
     (if \<not> mem then None
      else Some \<lparr>gp_userid = userid, gp_clientid = clientid, gp_authorized = False,
                 gp_muted_state = MUTED_STATE_UNKNOWN, gp_ssrca = 0, gp_ssrcv = 0, gp_ts = 0\<rparr>)"

text \<open>
  The C library's \<^verbatim>\<open>sscanf(s, "%u", &dst)\<close>: white space, a sign, digits. Without digits the
  destination keeps its value; a number that does not fit is undefined.
\<close>

definition isspace :: "char \<Rightarrow> bool" where
  "isspace c \<longleftrightarrow> (of_char c :: nat) = 32 \<or> (9 \<le> (of_char c :: nat) \<and> (of_char c :: nat) \<le> 13)"

definition isdigit :: "char \<Rightarrow> bool" where
  "isdigit c \<longleftrightarrow> 48 \<le> (of_char c :: nat) \<and> (of_char c :: nat) \<le> 57"

definition sscanf_u :: "u32 \<Rightarrow> string \<Rightarrow> u32 option" where
  "sscanf_u dst s =
     (let s = dropWhile isspace s;
          neg = (case s of c # _ \<Rightarrow> c = CHR ''-'' | [] \<Rightarrow> False);
          s = (case s of c # r \<Rightarrow> if c = CHR ''-'' \<or> c = CHR ''+'' then r else s | [] \<Rightarrow> []);
          ds = takeWhile isdigit s
      in if ds = [] then Some dst
         else if 2 ^ 32 \<le> undec ds then None
         else Some (word_of_int (if neg then - int (undec ds) else int (undec ds))))"

definition part_decode :: "re_env \<Rightarrow> json \<Rightarrow> (err \<times> econn_group_part) option" where
  "part_decode re jobj =
     (let (e1, userid) = jzon_strdup re None jobj ''userid'';
          (e2, clientid) = jzon_strdup re None jobj ''clientid'';
          (e3, authorized) = jzon_bool re False jobj ''authorized'';
          part = \<lparr>gp_userid = userid, gp_clientid = clientid, gp_authorized = authorized,
                  gp_muted_state = MUTED_STATE_UNKNOWN, gp_ssrca = 0, gp_ssrcv = 0, gp_ts = 0\<rparr>
      in if err_or (err_or e1 e2) e3 \<noteq> OK then Some (err_or (err_or e1 e2) e3, part)
         else let (e, ts) = jzon_int re 0 jobj ''timestamp'';
                  part = (if e = OK then part\<lparr>gp_ts := word_of_int ts\<rparr> else part);
                  (e, muted) = jzon_bool re False jobj ''muted'';
                  part = part\<lparr>gp_muted_state := if e \<noteq> OK then MUTED_STATE_UNKNOWN
                               else if muted then MUTED_STATE_MUTED else MUTED_STATE_UNMUTED\<rparr>
              in case jzon_str re jobj ''ssrc_audio'' of
                   None \<Rightarrow> Some (EINVAL, part)
                 | Some ssrc \<Rightarrow> do {
                     ssrca \<leftarrow> sscanf_u (gp_ssrca part) ssrc;
                     let part = part\<lparr>gp_ssrca := ssrca\<rparr>;
                     case jzon_str re jobj ''ssrc_video'' of
                       None \<Rightarrow> Some (EINVAL, part)
                     | Some ssrc \<Rightarrow> do {
                         ssrcv \<leftarrow> sscanf_u (gp_ssrcv part) ssrc;
                         Some (OK, part\<lparr>gp_ssrcv := ssrcv\<rparr>) } })"

text \<open>The list is \<open>None\<close> once a number was undefined. An entry that cannot be read is left out.\<close>

definition part_decode_handler ::
  "re_env \<Rightarrow> string \<Rightarrow> json \<Rightarrow> econn_group_part list option \<Rightarrow> bool \<times> econn_group_part list option" where
  "part_decode_handler re key jobj partl =
     (case (partl, part_decode re jobj) of
        (Some ps, Some (e, part)) \<Rightarrow> if e \<noteq> OK then (False, Some ps) else (False, Some (ps @ [part]))
      | _ \<Rightarrow> (True, None))"

definition econn_parts_decode :: "re_env \<Rightarrow> json \<Rightarrow> (err \<times> econn_group_part list) option" where
  "econn_parts_decode re jobj =
     (case jzon_array re jobj ''participants'' of
        (OK, Some jparts) \<Rightarrow> map_option (Pair OK) (snd (jzon_apply jparts (part_decode_handler re) (Some [])))
      | (e, _) \<Rightarrow> Some (e, []))"

definition key_encode :: "re_env \<Rightarrow> econn_key_info \<Rightarrow> json" where
  "key_encode re key =
     (let jkey = snd (jzon_add_int re json_object_new_object ''idx'' (uint (key_idx key)))
      in snd (jzon_add_base64 re jkey ''data'' (Some (key_data key))))"

definition econn_keys_encode :: "re_env \<Rightarrow> json \<Rightarrow> econn_key_info list \<Rightarrow> err \<times> json" where
  "econn_keys_encode re jobj keyl =
     (OK, json_object_object_add re jobj ''keys'' (Some (array_loop re (key_encode re) json_object_new_array keyl)))"

definition econn_key_info_alloc :: "bool \<Rightarrow> nat \<Rightarrow> econn_key_info option" where
  "econn_key_info_alloc mem keysz = (if mem then Some \<lparr>key_idx = 0, key_data = replicate keysz 0\<rparr> else None)"

text \<open>A key that is not base 64 ends the walk: the code is returned as the handler's boolean.\<close>

definition key_decode_handler ::
  "re_env \<Rightarrow> string \<Rightarrow> json \<Rightarrow> econn_key_info list \<Rightarrow> bool \<times> econn_key_info list" where
  "key_decode_handler re keystr jobj keyl =
     (case jzon_int re 0 jobj ''idx'' of
        (e, i) \<Rightarrow>
          if e \<noteq> OK then (False, keyl)
          else (case jzon_str re jobj ''data'' of
                  None \<Rightarrow> (False, keyl)
                | Some dstr \<Rightarrow>
                    (case re_b64_decode re dstr (length dstr) of
                       (e, d) \<Rightarrow> if e \<noteq> OK then (True, keyl)
                                else (False, keyl @ [\<lparr>key_idx = word_of_int i, key_data = d\<rparr>]))))"

definition econn_keys_decode :: "re_env \<Rightarrow> json \<Rightarrow> err \<times> econn_key_info list" where
  "econn_keys_decode re jobj =
     (case jzon_array re jobj ''keys'' of
        (OK, Some jkeys) \<Rightarrow> (OK, snd (jzon_apply jkeys (key_decode_handler re) []))
      | (e, _) \<Rightarrow> (e, []))"

definition stream_encode :: "re_env \<Rightarrow> econn_stream_info \<Rightarrow> json" where
  "stream_encode re stream =
     (let jstream = snd (jzon_add_str re json_object_new_object ''userid'' (re_fmt_s re (Some (st_userid stream))));
          jstream = snd (jzon_add_int re jstream ''quality'' (uint (st_quality stream)));
          jstream = (if st_hi stream \<noteq> 0 then snd (jzon_add_int re jstream ''ssrcv_hi'' (uint (st_hi stream)))
                     else jstream);
          jstream = (if st_lo stream \<noteq> 0 then snd (jzon_add_int re jstream ''ssrcv_lo'' (uint (st_lo stream)))
                     else jstream)
      in if re_isset re (Some (st_clientid stream))
         then snd (jzon_add_str re jstream ''clientid'' (re_fmt_s re (Some (st_clientid stream)))) else jstream)"

definition econn_streams_encode :: "re_env \<Rightarrow> json \<Rightarrow> econn_stream_info list \<Rightarrow> err \<times> json" where
  "econn_streams_encode re jobj streaml =
     (OK, json_object_object_add re jobj ''streams''
            (Some (array_loop re (stream_encode re) json_object_new_array streaml)))"

definition econn_stream_info_alloc :: "re_env \<Rightarrow> bool \<Rightarrow> string option \<Rightarrow> u32 \<Rightarrow> econn_stream_info option" where
  "econn_stream_info_alloc re mem userid quality =
     (if \<not> mem then None
      else Some \<lparr>st_userid = re_ncpy re [] userid ECONN_ID_LEN, st_quality = quality, st_clientid = [],
                 st_hi = 0, st_lo = 0\<rparr>)"

definition stream_decode_handler ::
  "re_env \<Rightarrow> string \<Rightarrow> json \<Rightarrow> econn_stream_info list \<Rightarrow> bool \<times> econn_stream_info list" where
  "stream_decode_handler re keystr jobj streaml =
     (case (jzon_int re 0 jobj ''quality'', jzon_str re jobj ''userid'') of
        ((OK, quality), Some userid) \<Rightarrow>
          (let (e, hi) = jzon_u32 re 0 jobj ''ssrcv_hi'';
               ssrcv_hi = (if e = OK then hi else 0);
               (e, lo) = jzon_u32 re 0 jobj ''ssrcv_lo'';
               ssrcv_lo = (if e = OK then lo else 0)
           in case econn_stream_info_alloc re True (Some userid) (word_of_int quality) of
                None \<Rightarrow> (False, streaml)
              | Some stream \<Rightarrow>
                  let stream = stream\<lparr>st_hi := ssrcv_hi, st_lo := ssrcv_lo\<rparr>;
                      stream = (case jzon_str re jobj ''clientid'' of
                                  None \<Rightarrow> stream
                                | Some c \<Rightarrow> stream\<lparr>st_clientid := re_ncpy re [] (Some c) ECONN_ID_LEN\<rparr>)
                  in (False, streaml @ [stream]))
      | _ \<Rightarrow> (False, streaml))"

definition econn_streams_decode :: "re_env \<Rightarrow> json \<Rightarrow> err \<times> econn_stream_info list" where
  "econn_streams_decode re jobj =
     (case jzon_array re jobj ''streams'' of
        (OK, Some jstreams) \<Rightarrow> (OK, snd (jzon_apply jstreams (stream_decode_handler re) []))
      | (e, _) \<Rightarrow> (e, []))"

definition econn_stringlist_encode :: "re_env \<Rightarrow> json \<Rightarrow> string list \<Rightarrow> string \<Rightarrow> err \<times> json" where
  "econn_stringlist_encode re jobj strl name =
     (if strl = [] then (OK, jobj)
      else (OK, json_object_object_add re jobj name (Some (array_loop re ODICT_STRING json_object_new_array strl))))"

definition string_decode_handler :: "string \<Rightarrow> json \<Rightarrow> string list \<Rightarrow> bool \<times> string list" where
  "string_decode_handler keystr jobj strl =
     (case json_object_get_string jobj of
        None \<Rightarrow> (False, strl) | Some val \<Rightarrow> (False, snd (stringlist_append strl val)))"

definition econn_stringlist_decode :: "re_env \<Rightarrow> json \<Rightarrow> string \<Rightarrow> err \<times> string list" where
  "econn_stringlist_decode re jobj name =
     (case jzon_array re jobj name of
        (OK, Some jarray) \<Rightarrow> (OK, snd (jzon_apply jarray string_decode_handler []))
      | (e, _) \<Rightarrow> (e, []))"

section \<open>Encoding\<close>

text \<open>\<^verbatim>\<open>err = ...; if (err) goto out;\<close>, for steps that may read the wrong member and for those that cannot.\<close>

definition and_then :: "(err \<times> 'a) option \<Rightarrow> ('a \<Rightarrow> (err \<times> 'a) option) \<Rightarrow> (err \<times> 'a) option" where
  "and_then m f = (case m of None \<Rightarrow> None | Some (e, x) \<Rightarrow> if e \<noteq> OK then Some (e, x) else f x)"

definition and_also :: "err \<times> 'a \<Rightarrow> ('a \<Rightarrow> err \<times> 'a) \<Rightarrow> err \<times> 'a" where
  "and_also m f = (case m of (e, x) \<Rightarrow> if e \<noteq> OK then (e, x) else f x)"

definition add_if_set :: "re_env \<Rightarrow> string \<Rightarrow> string \<Rightarrow> json \<Rightarrow> err \<times> json" where
  "add_if_set re key s jobj =
     (if re_isset re (Some s) then jzon_add_str re jobj key (re_fmt_s re (Some s)) else (OK, jobj))"

definition add_opt :: "re_env \<Rightarrow> string \<Rightarrow> string option \<Rightarrow> json \<Rightarrow> err \<times> json" where
  "add_opt re key s jobj =
     (case s of None \<Rightarrow> (OK, jobj) | Some _ \<Rightarrow> jzon_add_str re jobj key (re_fmt_s re s))"

definition props_opt :: "re_env \<Rightarrow> econn_props option \<Rightarrow> json \<Rightarrow> err \<times> json" where
  "props_opt re props jobj =
     (case props of None \<Rightarrow> (OK, jobj) | Some d \<Rightarrow> econn_props_encode re jobj d)"

text \<open>The members of the union; a message that was only cleared reads as zeros.\<close>

definition u_setup :: "econn_u \<Rightarrow> econn_setup option" where
  "u_setup u = (case u of
       U_zero \<Rightarrow> Some \<lparr>su_sdp_msg = None, su_props = None, su_url = None, su_sft_tuple = None\<rparr>
     | U_setup x \<Rightarrow> Some x | _ \<Rightarrow> None)"

definition u_props :: "econn_u \<Rightarrow> econn_props option option" where
  "u_props u = (case u of
       U_zero \<Rightarrow> Some None | U_propsync x \<Rightarrow> Some x | U_groupstart x \<Rightarrow> Some x | _ \<Rightarrow> None)"

definition u_confconn :: "econn_u \<Rightarrow> econn_confconn option" where
  "u_confconn u = (case u of
       U_zero \<Rightarrow> Some \<lparr>cc_turnv = [], cc_update = False, cc_env = 0, cc_tool = None, cc_toolver = None,
                      cc_status = 0, cc_selective_audio = False, cc_selective_video = False, cc_vstreams = 0,
                      cc_sft_url = None, cc_sft_tuple = None, cc_sft_username = None, cc_sft_credential = None\<rparr>
     | U_confconn x \<Rightarrow> Some x | _ \<Rightarrow> None)"

definition confstart_zero :: econn_confstart where
  "confstart_zero = \<lparr>cs_props = None, cs_sft_url = None, cs_sft_tuple = None, cs_secret = None,
     cs_timestamp = 0, cs_seqno = 0, cs_sftl = []\<rparr>"

definition u_confstart :: "econn_u \<Rightarrow> econn_confstart option" where
  "u_confstart u = (case u of U_zero \<Rightarrow> Some confstart_zero | U_confstart x \<Rightarrow> Some x | _ \<Rightarrow> None)"

definition u_confcheck :: "econn_u \<Rightarrow> econn_confstart option" where
  "u_confcheck u = (case u of U_zero \<Rightarrow> Some confstart_zero | U_confcheck x \<Rightarrow> Some x | _ \<Rightarrow> None)"

definition u_confpart :: "econn_u \<Rightarrow> econn_confpart option" where
  "u_confpart u = (case u of
       U_zero \<Rightarrow> Some \<lparr>cp_timestamp = 0, cp_seqno = 0, cp_should_start = False, cp_partl = [],
                      cp_entropy = None, cp_sftl = []\<rparr>
     | U_confpart x \<Rightarrow> Some x | _ \<Rightarrow> None)"

definition u_confkey :: "econn_u \<Rightarrow> econn_key_info list option" where
  "u_confkey u = (case u of U_zero \<Rightarrow> Some [] | U_confkey x \<Rightarrow> Some x | _ \<Rightarrow> None)"

definition u_confstreams :: "econn_u \<Rightarrow> (econn_stream_info list \<times> string option) option" where
  "u_confstreams u = (case u of U_zero \<Rightarrow> Some ([], None) | U_confstreams x m \<Rightarrow> Some (x, m) | _ \<Rightarrow> None)"

definition u_publish :: "econn_u \<Rightarrow> (zapi_ice_server list \<times> string option \<times> string option) option" where
  "u_publish u = (case u of
       U_zero \<Rightarrow> Some ([], None, None) | U_devpair_publish t s n \<Rightarrow> Some (t, s, n) | _ \<Rightarrow> None)"

definition u_accept :: "econn_u \<Rightarrow> string option option" where
  "u_accept u = (case u of U_zero \<Rightarrow> Some None | U_devpair_accept s \<Rightarrow> Some s | _ \<Rightarrow> None)"

definition u_alert :: "econn_u \<Rightarrow> (u32 \<times> string option) option" where
  "u_alert u = (case u of U_zero \<Rightarrow> Some (0, None) | U_alert l s \<Rightarrow> Some (l, s) | _ \<Rightarrow> None)"

text \<open>The cases of \<^verbatim>\<open>econn_message_encode\<close>.\<close>

definition encode_setup :: "re_env \<Rightarrow> econn_setup \<Rightarrow> json \<Rightarrow> err \<times> json" where
  "encode_setup re su jobj =
     and_also (and_also (and_also
       (jzon_add_str re jobj ''sdp'' (re_fmt_s re (su_sdp_msg su)))
       (props_opt re (su_props su)))
       (add_opt re ''url'' (su_url su)))
       (add_opt re ''sft_tuple'' (su_sft_tuple su))"

definition encode_propsync :: "re_env \<Rightarrow> econn_props option \<Rightarrow> json \<Rightarrow> err \<times> json" where
  "encode_propsync re props jobj =
     (case props of None \<Rightarrow> (EINVAL, jobj) | Some d \<Rightarrow> econn_props_encode re jobj d)"

definition encode_confconn :: "re_env \<Rightarrow> econn_confconn \<Rightarrow> json \<Rightarrow> (err \<times> json) option" where
  "encode_confconn re cc jobj =
     and_then (if cc_turnv cc \<noteq> [] then zapi_iceservers_encode re jobj (cc_turnv cc) else Some (OK, jobj))
       (\<lambda>jobj.
          let jobj = snd (jzon_add_bool re jobj ''update'' (cc_update cc));
              jobj = snd (jzon_add_str re jobj ''tool'' (re_fmt_s re (cc_tool cc)));
              jobj = snd (jzon_add_str re jobj ''toolver'' (re_fmt_s re (cc_toolver cc)));
              jobj = snd (jzon_add_int re jobj ''env'' (cc_env cc));
              jobj = snd (jzon_add_int re jobj ''status'' (cc_status cc));
              jobj = snd (jzon_add_bool re jobj ''selective_audio'' (cc_selective_audio cc));
              jobj = snd (jzon_add_bool re jobj ''selective_video'' (cc_selective_video cc));
              jobj = snd (jzon_add_int re jobj ''vstreams'' (uint (cc_vstreams cc)));
              jobj = snd (add_opt re ''sft_url'' (cc_sft_url cc) jobj);
              jobj = snd (add_opt re ''sft_tuple'' (cc_sft_tuple cc) jobj);
              jobj = snd (add_opt re ''username'' (cc_sft_username cc) jobj);
              jobj = snd (add_opt re ''credential'' (cc_sft_credential cc) jobj)
          in Some (OK, jobj))"

text \<open>CONF_START and CONF_CHECK up to the list of servers; only the first has properties.\<close>

definition encode_confstart :: "re_env \<Rightarrow> econn_confstart \<Rightarrow> json \<Rightarrow> err \<times> json" where
  "encode_confstart re cs jobj =
     (let jobj = snd (jzon_add_str re jobj ''sft_url'' (re_fmt_s re (cs_sft_url cs)));
          jobj = snd (add_opt re ''sft_tuple'' (cs_sft_tuple cs) jobj);
          jobj = snd (jzon_add_base64 re jobj ''secret'' (cs_secret cs));
          jobj = snd (jzon_add_str re jobj ''timestamp'' (re_fmt_u re (unat (cs_timestamp cs))));
          jobj = snd (jzon_add_str re jobj ''seqno'' (re_fmt_u re (unat (cs_seqno cs))));
          jobj = snd (econn_stringlist_encode re jobj (cs_sftl cs) ''sfts'')
      in (OK, jobj))"

definition encode_confpart :: "re_env \<Rightarrow> econn_confpart \<Rightarrow> json \<Rightarrow> err \<times> json" where
  "encode_confpart re cp jobj =
     (let jobj = snd (jzon_add_bool re jobj ''should_start'' (cp_should_start cp));
          jobj = snd (jzon_add_str re jobj ''timestamp'' (re_fmt_u re (unat (cp_timestamp cp))));
          jobj = snd (jzon_add_str re jobj ''seqno'' (re_fmt_u re (unat (cp_seqno cp))));
          jobj = snd (jzon_add_base64 re jobj ''entropy'' (cp_entropy cp));
          jobj = snd (econn_parts_encode re jobj (cp_partl cp));
          jobj = snd (econn_stringlist_encode re jobj (cp_sftl cp) ''sfts'')
      in (OK, jobj))"

definition encode_confstreams ::
  "re_env \<Rightarrow> econn_stream_info list \<times> string option \<Rightarrow> json \<Rightarrow> err \<times> json" where
  "encode_confstreams re sm jobj =
     (let jobj = snd (jzon_add_str re jobj ''mode'' (re_fmt_s re (snd sm)));
          jobj = snd (econn_streams_encode re jobj (fst sm))
      in (OK, jobj))"

definition encode_publish ::
  "re_env \<Rightarrow> zapi_ice_server list \<times> string option \<times> string option \<Rightarrow> json \<Rightarrow> (err \<times> json) option" where
  "encode_publish re p jobj =
     (case p of (turnv, sdp, username) \<Rightarrow>
        and_then (zapi_iceservers_encode re jobj turnv)
          (\<lambda>jobj.
             let (e1, jobj) = jzon_add_str re jobj ''sdp'' (re_fmt_s re sdp);
                 (e2, jobj) = jzon_add_str re jobj ''username'' (re_fmt_s re username)
             in Some (err_or e1 e2, jobj)))"

definition encode_alert :: "re_env \<Rightarrow> u32 \<times> string option \<Rightarrow> json \<Rightarrow> err \<times> json" where
  "encode_alert re a jobj =
     (let (e1, jobj) = jzon_add_int re jobj ''level'' (uint (fst a));
          (e2, jobj) = jzon_add_str re jobj ''descr'' (re_fmt_s re (snd a))
      in (err_or e1 e2, jobj))"

definition encode_union :: "re_env \<Rightarrow> econn_message \<Rightarrow> json \<Rightarrow> (err \<times> json) option" where
  "encode_union re msg jobj =
     (let u = em_u msg; none = Some (OK, jobj)
      in case em_msg_type msg of
           None \<Rightarrow> Some (EBADMSG, jobj)
         | Some t \<Rightarrow>
             (case t of
                ECONN_SETUP \<Rightarrow> Option.bind (u_setup u) (\<lambda>su. Some (encode_setup re su jobj))
              | ECONN_GROUP_SETUP \<Rightarrow> Option.bind (u_setup u) (\<lambda>su. Some (encode_setup re su jobj))
              | ECONN_UPDATE \<Rightarrow> Option.bind (u_setup u) (\<lambda>su. Some (encode_setup re su jobj))
              | ECONN_CANCEL \<Rightarrow> none
              | ECONN_HANGUP \<Rightarrow> none
              | ECONN_REJECT \<Rightarrow> none
              | ECONN_PROPSYNC \<Rightarrow> Option.bind (u_props u) (\<lambda>p. Some (encode_propsync re p jobj))
              | ECONN_GROUP_START \<Rightarrow> Option.bind (u_props u) (\<lambda>p. Some (props_opt re p jobj))
              | ECONN_GROUP_LEAVE \<Rightarrow> none
              | ECONN_GROUP_CHECK \<Rightarrow> none
              | ECONN_CONF_CONN \<Rightarrow> Option.bind (u_confconn u) (\<lambda>cc. encode_confconn re cc jobj)
              | ECONN_CONF_START \<Rightarrow>
                  Option.bind (u_confstart u) (\<lambda>cs. Some (and_also (encode_confstart re cs jobj) (props_opt re (cs_props cs))))
              | ECONN_CONF_CHECK \<Rightarrow> Option.bind (u_confcheck u) (\<lambda>cs. Some (encode_confstart re cs jobj))
              | ECONN_CONF_END \<Rightarrow> none
              | ECONN_CONF_PART \<Rightarrow> Option.bind (u_confpart u) (\<lambda>cp. Some (encode_confpart re cp jobj))
              | ECONN_CONF_KEY \<Rightarrow> Option.bind (u_confkey u) (\<lambda>ks. Some (OK, snd (econn_keys_encode re jobj ks)))
              | ECONN_CONF_STREAMS \<Rightarrow> Option.bind (u_confstreams u) (\<lambda>sm. Some (encode_confstreams re sm jobj))
              | ECONN_DEVPAIR_PUBLISH \<Rightarrow> Option.bind (u_publish u) (\<lambda>p. encode_publish re p jobj)
              | ECONN_DEVPAIR_ACCEPT \<Rightarrow>
                  Option.bind (u_accept u) (\<lambda>sdp. Some (jzon_add_str re jobj ''sdp'' (re_fmt_s re sdp)))
              | ECONN_ALERT \<Rightarrow> Option.bind (u_alert u) (\<lambda>a. Some (encode_alert re a jobj))
              | ECONN_PING \<Rightarrow> none))"

definition encode_ids :: "re_env \<Rightarrow> econn_message \<Rightarrow> json \<Rightarrow> err \<times> json" where
  "encode_ids re msg jobj =
     and_also (and_also (and_also (and_also
       (add_if_set re ''src_userid'' (em_src_userid msg) jobj)
       (add_if_set re ''src_clientid'' (em_src_clientid msg)))
       (add_if_set re ''dest_userid'' (em_dest_userid msg)))
       (add_if_set re ''dest_clientid'' (em_dest_clientid msg)))
       (\<lambda>jobj. jzon_add_bool re jobj ''resp'' (em_resp msg))"

definition econn_message_encode :: "re_env \<Rightarrow> econn_message \<Rightarrow> (err \<times> string option) option" where
  "econn_message_encode re msg =
     (case jzon_creatf re ''sss''
             [VaStr (Some ''version''), VaStr (Some econn_proto_version),
              VaStr (Some ''type''), VaStr (Some (econn_type_name (em_msg_type msg))),
              VaStr (Some ''sessid''), VaStr (Some (em_sessid_sender msg))] of
        None \<Rightarrow> None
      | Some (OK, Some jobj) \<Rightarrow>
          (case and_then (Some (encode_ids re msg jobj)) (encode_union re msg) of
             None \<Rightarrow> None
           | Some (OK, jobj) \<Rightarrow> (case jzon_encode re jobj of
                                 (e, str) \<Rightarrow> if e \<noteq> OK then Some (e, None) else Some (OK, Some str))
           | Some (e, jobj) \<Rightarrow> Some (e, None))
      | Some (e, _) \<Rightarrow> Some (e, None))"

section \<open>Decoding\<close>

definition econn_props_decode :: "re_env \<Rightarrow> json \<Rightarrow> err \<times> econn_props option" where
  "econn_props_decode re jobj =
     (case jzon_object re jobj ''props'' of
        (OK, Some jobj_props) \<Rightarrow> econn_props_alloc True (jzon_get_odict jobj_props)
      | (e, _) \<Rightarrow> (e, None))"

text \<open>
  The cases of \<^verbatim>\<open>econn_message_decode\<close>, from the object to the code and the union. After an error the
  union is not used: the message is released.
\<close>

definition decode_setup :: "re_env \<Rightarrow> json \<Rightarrow> err \<times> econn_u" where
  "decode_setup re jobj =
     (case jzon_str re jobj ''sdp'' of
        None \<Rightarrow> (EBADMSG, U_zero)
      | Some sdp \<Rightarrow>
          (case econn_props_decode re jobj of
             (e, props) \<Rightarrow>
               if e \<noteq> OK then (e, U_zero)
               else (OK, U_setup \<lparr>su_sdp_msg = Some sdp, su_props = props, su_url = jzon_str re jobj ''url'',
                                  su_sft_tuple = jzon_str re jobj ''sft_tuple''\<rparr>)))"

definition decode_group_setup :: "re_env \<Rightarrow> json \<Rightarrow> err \<times> econn_u" where
  "decode_group_setup re jobj =
     (case jzon_str re jobj ''sdp'' of
        None \<Rightarrow> (EBADMSG, U_zero)
      | Some sdp \<Rightarrow>
          (case econn_props_decode re jobj of
             (e, props) \<Rightarrow>
               if e \<noteq> OK then (e, U_zero)
               else (OK, U_setup \<lparr>su_sdp_msg = Some sdp, su_props = props, su_url = None, su_sft_tuple = None\<rparr>)))"

text \<open>UPDATE logs that there are no properties and keeps the error.\<close>

definition decode_update :: "re_env \<Rightarrow> json \<Rightarrow> err \<times> econn_u" where
  "decode_update re jobj =
     (case jzon_str re jobj ''sdp'' of
        None \<Rightarrow> (EBADMSG, U_zero)
      | Some sdp \<Rightarrow>
          (case econn_props_decode re jobj of
             (e, props) \<Rightarrow>
               (e, U_setup \<lparr>su_sdp_msg = Some sdp, su_props = props, su_url = None, su_sft_tuple = None\<rparr>)))"

definition decode_propsync :: "re_env \<Rightarrow> json \<Rightarrow> err \<times> econn_u" where
  "decode_propsync re jobj = (case econn_props_decode re jobj of (e, props) \<Rightarrow> (e, U_propsync props))"

definition decode_groupstart :: "re_env \<Rightarrow> json \<Rightarrow> err \<times> econn_u" where
  "decode_groupstart re jobj = (OK, U_groupstart (snd (econn_props_decode re jobj)))"

text \<open>
  CONF_START and CONF_CHECK up to the list of servers. The two numbers share one pointer and length
  string.
\<close>

definition decode_confstart :: "re_env \<Rightarrow> json \<Rightarrow> err \<times> econn_confstart" where
  "decode_confstart re jobj =
     (case jzon_strdup re None jobj ''sft_url'' of
        (e, sft_url) \<Rightarrow>
          if e \<noteq> OK then (e, confstart_zero)
          else let pl1 = re_pl_set_str re None (jzon_str re jobj ''timestamp'');
                   pl2 = re_pl_set_str re pl1 (jzon_str re jobj ''seqno'')
               in case jzon_str re jobj ''secret'' of
                    None \<Rightarrow> (EBADMSG, confstart_zero)
                  | Some secret \<Rightarrow>
                      (case re_b64_decode re secret (length secret * 3 div 4) of
                         (e, sdata) \<Rightarrow>
                           if e \<noteq> OK then (e, confstart_zero)
                           else (OK, \<lparr>cs_props = None, cs_sft_url = sft_url,
                                      cs_sft_tuple = jzon_str re jobj ''sft_tuple'', cs_secret = Some sdata,
                                      cs_timestamp = re_pl_u64 re pl1, cs_seqno = re_pl_u32 re pl2,
                                      cs_sftl = snd (econn_stringlist_decode re jobj ''sfts'')\<rparr>)))"

definition clamp_vstreams :: "int \<Rightarrow> u32" where
  "clamp_vstreams vstreams =
     (let vstreams = (if vstreams < 0 then 0 else vstreams);
          vstreams = (if 32 < vstreams then 32 else vstreams)
      in word_of_int vstreams)"

definition decode_confconn :: "re_env \<Rightarrow> json \<Rightarrow> err \<times> econn_u" where
  "decode_confconn re jobj =
     (let (e, turnv) = (case jzon_array re jobj ''ice_servers'' of
                          (OK, Some jturns) \<Rightarrow> zapi_iceservers_decode re jturns
                        | _ \<Rightarrow> (OK, []));
          (e1, status) = jzon_int re 0 jobj ''status'';
          (e2, sel_audio) = jzon_bool re False jobj ''selective_audio'';
          (e3, sel_video) = jzon_bool re False jobj ''selective_video'';
          (e4, vstreams) = jzon_int re 0 jobj ''vstreams'';
          vstreams = (if e4 \<noteq> OK then 0 else vstreams)
      in if e \<noteq> OK then (e, U_zero)
         else (OK, U_confconn
                 \<lparr>cc_turnv = turnv, cc_update = snd (jzon_bool re False jobj ''update''),
                  cc_env = snd (jzon_int re 0 jobj ''env''), cc_tool = jzon_str re jobj ''tool'',
                  cc_toolver = jzon_str re jobj ''toolver'', cc_status = (if e1 \<noteq> OK then 0 else status),
                  cc_selective_audio = (if e2 \<noteq> OK then False else sel_audio),
                  cc_selective_video = (if e3 \<noteq> OK then False else sel_video),
                  cc_vstreams = clamp_vstreams vstreams, cc_sft_url = jzon_str re jobj ''sft_url'',
                  cc_sft_tuple = jzon_str re jobj ''sft_tuple'',
                  cc_sft_username = jzon_str re jobj ''username'',
                  cc_sft_credential = jzon_str re jobj ''credential''\<rparr>))"

definition decode_confpart :: "re_env \<Rightarrow> json \<Rightarrow> (err \<times> econn_u) option" where
  "decode_confpart re jobj =
     (let should_start = snd (jzon_bool re False jobj ''should_start'');
          pl1 = re_pl_set_str re None (jzon_str re jobj ''timestamp'');
          pl2 = re_pl_set_str re pl1 (jzon_str re jobj ''seqno'');
          (e, edata) = (case jzon_str re jobj ''entropy'' of
                          None \<Rightarrow> (OK, None)
                        | Some entropy \<Rightarrow>
                            (case re_b64_decode re entropy (length entropy * 3 div 4) of
                               (e, d) \<Rightarrow> (e, Some d)))
      in if e \<noteq> OK then Some (e, U_zero)
         else do {
           (e, partl) \<leftarrow> econn_parts_decode re jobj;
           Some (OK, U_confpart
             \<lparr>cp_timestamp = re_pl_u64 re pl1, cp_seqno = re_pl_u32 re pl2, cp_should_start = should_start,
              cp_partl = partl, cp_entropy = edata,
              cp_sftl = snd (econn_stringlist_decode re jobj ''sfts'')\<rparr>) })"

definition decode_confstreams :: "re_env \<Rightarrow> json \<Rightarrow> err \<times> econn_u" where
  "decode_confstreams re jobj =
     (case econn_streams_decode re jobj of
        (e, streaml) \<Rightarrow>
          if e \<noteq> OK then (e, U_zero)
          else (case jzon_strdup re None jobj ''mode'' of (e, mode) \<Rightarrow> (e, U_confstreams streaml mode)))"

definition decode_publish :: "re_env \<Rightarrow> json \<Rightarrow> err \<times> econn_u" where
  "decode_publish re jobj =
     (case jzon_array re jobj ''ice_servers'' of
        (OK, Some jturns) \<Rightarrow>
          (case zapi_iceservers_decode re jturns of
             (e, turnv) \<Rightarrow>
               if e \<noteq> OK then (e, U_zero)
               else (case jzon_strdup re None jobj ''sdp'' of
                       (e, sdp) \<Rightarrow>
                         if e \<noteq> OK then (e, U_zero)
                         else (case jzon_strdup re None jobj ''username'' of
                                 (e, username) \<Rightarrow> (e, U_devpair_publish turnv sdp username))))
      | (e, _) \<Rightarrow> (e, U_zero))"

definition decode_alert :: "re_env \<Rightarrow> json \<Rightarrow> err \<times> econn_u" where
  "decode_alert re jobj =
     (case jzon_u32 re 0 jobj ''level'' of
        (e, level) \<Rightarrow>
          if e \<noteq> OK then (e, U_zero)
          else (case jzon_strdup re None jobj ''descr'' of (e, descr) \<Rightarrow> (e, U_alert level descr)))"

text \<open>What is read for a message type.\<close>

fun decode_union :: "re_env \<Rightarrow> json \<Rightarrow> econn_msg \<Rightarrow> (err \<times> econn_u) option" where
  "decode_union re jobj ECONN_SETUP = Some (decode_setup re jobj)"
| "decode_union re jobj ECONN_GROUP_SETUP = Some (decode_group_setup re jobj)"
| "decode_union re jobj ECONN_UPDATE = Some (decode_update re jobj)"
| "decode_union re jobj ECONN_PROPSYNC = Some (decode_propsync re jobj)"
| "decode_union re jobj ECONN_GROUP_START = Some (decode_groupstart re jobj)"
| "decode_union re jobj ECONN_CONF_START =
     (case decode_confstart re jobj of
        (e, cs) \<Rightarrow> Some (e, U_confstart (cs\<lparr>cs_props := snd (econn_props_decode re jobj)\<rparr>)))"
| "decode_union re jobj ECONN_CONF_CHECK =
     (case decode_confstart re jobj of (e, cs) \<Rightarrow> Some (e, U_confcheck cs))"
| "decode_union re jobj ECONN_CONF_CONN = Some (decode_confconn re jobj)"
| "decode_union re jobj ECONN_CONF_PART = decode_confpart re jobj"
| "decode_union re jobj ECONN_CONF_KEY =
     (case econn_keys_decode re jobj of (e, keyl) \<Rightarrow> Some (e, U_confkey keyl))"
| "decode_union re jobj ECONN_CONF_STREAMS = Some (decode_confstreams re jobj)"
| "decode_union re jobj ECONN_DEVPAIR_PUBLISH = Some (decode_publish re jobj)"
| "decode_union re jobj ECONN_DEVPAIR_ACCEPT =
     (case jzon_strdup re None jobj ''sdp'' of (e, sdp) \<Rightarrow> Some (e, U_devpair_accept sdp))"
| "decode_union re jobj ECONN_ALERT = Some (decode_alert re jobj)"
| "decode_union re jobj t = Some (OK, U_zero)"

text \<open>The order in which the type of a message is compared with the names.\<close>

definition type_order :: "econn_msg list" where
  "type_order = [ECONN_SETUP, ECONN_GROUP_SETUP, ECONN_UPDATE, ECONN_CANCEL, ECONN_HANGUP, ECONN_REJECT,
     ECONN_PROPSYNC, ECONN_GROUP_START, ECONN_GROUP_LEAVE, ECONN_GROUP_CHECK, ECONN_CONF_START,
     ECONN_CONF_CHECK, ECONN_CONF_CONN, ECONN_CONF_END, ECONN_CONF_PART, ECONN_CONF_KEY,
     ECONN_CONF_STREAMS, ECONN_DEVPAIR_PUBLISH, ECONN_DEVPAIR_ACCEPT, ECONN_ALERT, ECONN_PING]"

definition decode_body :: "re_env \<Rightarrow> json \<Rightarrow> string \<Rightarrow> econn_message \<Rightarrow> (err \<times> econn_message) option" where
  "decode_body re jobj type msg =
     (case List.find (\<lambda>t. re_casecmp re type (econn_msg_name t)) type_order of
        None \<Rightarrow> Some (EPROTONOSUPPORT, msg)
      | Some t \<Rightarrow> do {
          (e, u) \<leftarrow> decode_union re jobj t;
          Some (e, msg\<lparr>em_msg_type := Some t, em_u := u\<rparr>) })"

definition decode_ids :: "re_env \<Rightarrow> json \<Rightarrow> string \<Rightarrow> econn_message \<Rightarrow> econn_message" where
  "decode_ids re jobj sessid msg =
     msg\<lparr>em_sessid_sender := re_ncpy re (em_sessid_sender msg) (Some sessid) ECONN_ID_LEN,
         em_src_userid := re_ncpy re (em_src_userid msg) (jzon_str re jobj ''src_userid'') ECONN_ID_LEN,
         em_src_clientid := re_ncpy re (em_src_clientid msg) (jzon_str re jobj ''src_clientid'') ECONN_ID_LEN,
         em_dest_userid := re_ncpy re (em_dest_userid msg) (jzon_str re jobj ''dest_userid'') ECONN_ID_LEN,
         em_dest_clientid := re_ncpy re (em_dest_clientid msg) (jzon_str re jobj ''dest_clientid'') ECONN_ID_LEN\<rparr>"

text \<open>A text without \<^verbatim>\<open>sessid\<close> leaves the code at 0: the caller gets the cleared message.\<close>

definition decode_object ::
  "re_env \<Rightarrow> u64 \<Rightarrow> u64 \<Rightarrow> json \<Rightarrow> econn_message \<Rightarrow> (err \<times> econn_message option) option" where
  "decode_object re curr_time msg_time jobj msg =
     (case jzon_str re jobj ''type'' of
        None \<Rightarrow> Some (EBADMSG, None)
      | Some type \<Rightarrow>
          (case jzon_str re jobj ''version'' of
             None \<Rightarrow> Some (EBADMSG, None)
           | Some ver \<Rightarrow>
               if \<not> re_casecmp re econn_proto_version ver then Some (EPROTO, None)
               else (case jzon_str re jobj ''sessid'' of
                       None \<Rightarrow> Some (OK, Some msg)
                     | Some sessid \<Rightarrow>
                         (let msg = decode_ids re jobj sessid msg;
                              (e, resp) = jzon_bool re False jobj ''resp'';
                              msg = msg\<lparr>em_resp := resp\<rparr>
                          in if e \<noteq> OK then Some (e, None)
                             else do {
                               (e, msg) \<leftarrow> decode_body re jobj type msg;
                               if e \<noteq> OK then Some (e, None)
                               else Some (OK, Some (msg\<lparr>em_time := ucast msg_time,
                                 em_age := if curr_time < msg_time then 0 else ucast (curr_time - msg_time)\<rparr>))
                             }))))"

definition econn_message_decode ::
  "re_env \<Rightarrow> bool \<Rightarrow> u64 \<Rightarrow> u64 \<Rightarrow> string \<Rightarrow> (err \<times> econn_message option) option" where
  "econn_message_decode re mem curr_time msg_time str =
     (case jzon_decode re str of
        (OK, Some jobj) \<Rightarrow>
          (case econn_message_alloc mem of
             None \<Rightarrow> Some (ENOMEM, None)
           | Some msg \<Rightarrow> decode_object re curr_time msg_time jobj msg)
      | (e, _) \<Rightarrow> Some (e, None))"

section \<open>The wire format\<close>

text \<open>The union member that belongs to a message type.\<close>

fun u_typed :: "econn_msg \<Rightarrow> econn_u \<Rightarrow> bool" where
  "u_typed t (U_setup su) = (t \<in> {ECONN_SETUP, ECONN_GROUP_SETUP, ECONN_UPDATE})"
| "u_typed t (U_propsync p) = (t = ECONN_PROPSYNC)"
| "u_typed t (U_groupstart p) = (t = ECONN_GROUP_START)"
| "u_typed t (U_devpair_accept x) = (t = ECONN_DEVPAIR_ACCEPT)"
| "u_typed t (U_devpair_publish v x n) = (t = ECONN_DEVPAIR_PUBLISH)"
| "u_typed t (U_alert l x) = (t = ECONN_ALERT)"
| "u_typed t (U_confconn cc) = (t = ECONN_CONF_CONN)"
| "u_typed t (U_confstart cs) = (t = ECONN_CONF_START)"
| "u_typed t (U_confcheck cs) = (t = ECONN_CONF_CHECK)"
| "u_typed t (U_confpart cp) = (t = ECONN_CONF_PART)"
| "u_typed t (U_confkey ks) = (t = ECONN_CONF_KEY)"
| "u_typed t (U_confstreams x m) = (t = ECONN_CONF_STREAMS)"
| "u_typed t U_zero = (t \<in> {ECONN_CANCEL, ECONN_HANGUP, ECONN_REJECT, ECONN_GROUP_LEAVE, ECONN_GROUP_CHECK,
     ECONN_CONF_END, ECONN_PING})"

text \<open>The entries of a message's object: the specification of the format.\<close>

abbreviation jstr :: "re_env \<Rightarrow> string option \<Rightarrow> json" where
  "jstr re s \<equiv> ODICT_STRING (re_fmt_s re s)"

abbreviation jnum :: "'a :: len word \<Rightarrow> json" where
  "jnum w \<equiv> ODICT_STRING (dec (unat w))"

abbreviation jint :: "int \<Rightarrow> json" where
  "jint i \<equiv> ODICT_INT (to_int32 i)"

abbreviation opt_str :: "string option \<Rightarrow> json option" where
  "opt_str s \<equiv> map_option ODICT_STRING s"

definition set_str :: "string \<Rightarrow> json option" where
  "set_str s = (if s = [] then None else Some (ODICT_STRING s))"

definition opt_props :: "econn_props option \<Rightarrow> json option" where
  "opt_props p = map_option ODICT_OBJECT p"

definition opt_b64 :: "re_env \<Rightarrow> bytes option \<Rightarrow> json option" where
  "opt_b64 re b = map_option (\<lambda>b. ODICT_STRING (snd (re_b64_encode re b))) b"

definition opt_word :: "u32 \<Rightarrow> json option" where
  "opt_word w = (if w = 0 then None else Some (jint (uint w)))"

definition opt_list :: "('a \<Rightarrow> json) \<Rightarrow> 'a list \<Rightarrow> json option" where
  "opt_list f xs = (if xs = [] then None else Some (json_array (map f xs)))"

definition hdr_entries :: "econn_message \<Rightarrow> odict" where
  "hdr_entries msg =
     [(''version'', ODICT_STRING econn_proto_version), (''type'', ODICT_STRING (econn_type_name (em_msg_type msg))),
      (''sessid'', ODICT_STRING (em_sessid_sender msg))] @
     entry ''src_userid'' (set_str (em_src_userid msg)) @ entry ''src_clientid'' (set_str (em_src_clientid msg)) @
     entry ''dest_userid'' (set_str (em_dest_userid msg)) @ entry ''dest_clientid'' (set_str (em_dest_clientid msg)) @
     [(''resp'', ODICT_BOOL (em_resp msg))]"

definition part_json :: "re_env \<Rightarrow> econn_group_part \<Rightarrow> json" where
  "part_json re p = ODICT_OBJECT
     ([(''userid'', jstr re (gp_userid p)), (''clientid'', jstr re (gp_clientid p)),
       (''authorized'', ODICT_BOOL (gp_authorized p)), (''ssrc_audio'', jnum (gp_ssrca p)),
       (''ssrc_video'', jnum (gp_ssrcv p)), (''timestamp'', jint (uint (gp_ts p)))] @
      entry ''muted'' (case gp_muted_state p of MUTED_STATE_UNKNOWN \<Rightarrow> None
        | MUTED_STATE_MUTED \<Rightarrow> Some (ODICT_BOOL True) | MUTED_STATE_UNMUTED \<Rightarrow> Some (ODICT_BOOL False)))"

definition key_json :: "re_env \<Rightarrow> econn_key_info \<Rightarrow> json" where
  "key_json re k = ODICT_OBJECT
     [(''idx'', jint (uint (key_idx k))), (''data'', ODICT_STRING (snd (re_b64_encode re (key_data k))))]"

definition stream_json :: "econn_stream_info \<Rightarrow> json" where
  "stream_json x = ODICT_OBJECT
     ([(''userid'', ODICT_STRING (st_userid x)), (''quality'', jint (uint (st_quality x)))] @
      entry ''ssrcv_hi'' (opt_word (st_hi x)) @ entry ''ssrcv_lo'' (opt_word (st_lo x)) @
      entry ''clientid'' (set_str (st_clientid x)))"

definition confstart_entries :: "re_env \<Rightarrow> econn_confstart \<Rightarrow> odict" where
  "confstart_entries re cs =
     [(''sft_url'', jstr re (cs_sft_url cs))] @ entry ''sft_tuple'' (opt_str (cs_sft_tuple cs)) @
     entry ''secret'' (opt_b64 re (cs_secret cs)) @
     [(''timestamp'', jnum (cs_timestamp cs)), (''seqno'', jnum (cs_seqno cs))] @
     entry ''sfts'' (opt_list ODICT_STRING (cs_sftl cs))"

fun union_entries :: "re_env \<Rightarrow> econn_u \<Rightarrow> odict" where
  "union_entries re U_zero = []"
| "union_entries re (U_setup su) =
     [(''sdp'', jstr re (su_sdp_msg su))] @ entry ''props'' (opt_props (su_props su)) @
     entry ''url'' (opt_str (su_url su)) @ entry ''sft_tuple'' (opt_str (su_sft_tuple su))"
| "union_entries re (U_propsync p) = entry ''props'' (opt_props p)"
| "union_entries re (U_groupstart p) = entry ''props'' (opt_props p)"
| "union_entries re (U_devpair_accept sdp) = [(''sdp'', jstr re sdp)]"
| "union_entries re (U_devpair_publish turnv sdp username) =
     entry ''ice_servers'' (opt_list ice_json turnv) @ [(''sdp'', jstr re sdp), (''username'', jstr re username)]"
| "union_entries re (U_alert level descr) = [(''level'', jint (uint level)), (''descr'', jstr re descr)]"
| "union_entries re (U_confconn cc) =
     entry ''ice_servers'' (opt_list ice_json (cc_turnv cc)) @
     [(''update'', ODICT_BOOL (cc_update cc)), (''tool'', jstr re (cc_tool cc)), (''toolver'', jstr re (cc_toolver cc)),
      (''env'', jint (cc_env cc)), (''status'', jint (cc_status cc)),
      (''selective_audio'', ODICT_BOOL (cc_selective_audio cc)),
      (''selective_video'', ODICT_BOOL (cc_selective_video cc)), (''vstreams'', jint (uint (cc_vstreams cc)))] @
     entry ''sft_url'' (opt_str (cc_sft_url cc)) @ entry ''sft_tuple'' (opt_str (cc_sft_tuple cc)) @
     entry ''username'' (opt_str (cc_sft_username cc)) @ entry ''credential'' (opt_str (cc_sft_credential cc))"
| "union_entries re (U_confstart cs) = confstart_entries re cs @ entry ''props'' (opt_props (cs_props cs))"
| "union_entries re (U_confcheck cs) = confstart_entries re cs"
| "union_entries re (U_confpart cp) =
     [(''should_start'', ODICT_BOOL (cp_should_start cp)), (''timestamp'', jnum (cp_timestamp cp)),
      (''seqno'', jnum (cp_seqno cp))] @ entry ''entropy'' (opt_b64 re (cp_entropy cp)) @
     [(''participants'', json_array (map (part_json re) (cp_partl cp)))] @
     entry ''sfts'' (opt_list ODICT_STRING (cp_sftl cp))"
| "union_entries re (U_confkey keyl) = [(''keys'', json_array (map (key_json re) keyl))]"
| "union_entries re (U_confstreams streaml mode) =
     [(''mode'', jstr re mode), (''streams'', json_array (map stream_json streaml))]"

definition msg_entries :: "re_env \<Rightarrow> econn_message \<Rightarrow> odict" where
  "msg_entries re msg = hdr_entries msg @ union_entries re (em_u msg)"

section \<open>The encoder writes the format\<close>

lemma re_parts [simp]:
  assumes "re_env_ok re"
  shows "odict_ok re" "re_text_ok re" "re_b64_ok re"
  using assms by (simp_all add: re_env_ok_def)

lemma fmt_text [simp]:
  assumes "re_env_ok re"
  shows "re_fmt_u re n = dec n" "re_fmt_s re (Some x) = x" "re_isset re (Some x) \<longleftrightarrow> x \<noteq> []"
  using re_parts(2) [OF assms] by (simp_all add: re_text_ok_def)

lemma ncpy_text [simp]:
  assumes "re_env_ok re"
  shows "length x < n \<Longrightarrow> re_ncpy re d (Some x) n = x" "re_ncpy re d None n = d" "re_casecmp re x x"
  using re_parts(2) [OF assms] by (simp_all add: re_text_ok_def)

lemma b64_encode:
  assumes "re_env_ok re"
  shows "re_b64_encode re b = (OK, snd (re_b64_encode re b))"
  using re_parts(3) [OF assms] unfolding re_b64_ok_def by (metis snd_conv)

lemma add_str [simp]:
  "re_env_ok re \<Longrightarrow> k \<notin> fst ` set d \<Longrightarrow>
    jzon_add_str re (ODICT_OBJECT d) k x = (OK, ODICT_OBJECT (d @ [(k, ODICT_STRING x)]))"
  by (simp add: jzon_add_str_def json_object_new_string_def)

lemma add_int [simp]:
  "re_env_ok re \<Longrightarrow> k \<notin> fst ` set d \<Longrightarrow>
    jzon_add_int re (ODICT_OBJECT d) k i = (OK, ODICT_OBJECT (d @ [(k, jint i)]))"
  by (simp add: jzon_add_int_def json_object_new_int_def)

lemma add_bool [simp]:
  "re_env_ok re \<Longrightarrow> k \<notin> fst ` set d \<Longrightarrow>
    jzon_add_bool re (ODICT_OBJECT d) k b = (OK, ODICT_OBJECT (d @ [(k, ODICT_BOOL b)]))"
  by (simp add: jzon_add_bool_def json_object_new_boolean_def)

lemma add_b64 [simp]:
  assumes "re_env_ok re" and "k \<notin> fst ` set d"
  shows "snd (jzon_add_base64 re (ODICT_OBJECT d) k b) = ODICT_OBJECT (d @ entry k (opt_b64 re b))"
proof (cases b)
  case (Some x)
  then show ?thesis
    using assms by (subst Some, subst jzon_add_base64_def, subst option.case, subst b64_encode) (simp_all add: opt_b64_def)
qed (simp add: jzon_add_base64_def opt_b64_def)

lemma add_opt [simp]:
  "re_env_ok re \<Longrightarrow> k \<notin> fst ` set d \<Longrightarrow>
    add_opt re k x (ODICT_OBJECT d) = (OK, ODICT_OBJECT (d @ entry k (opt_str x)))"
  by (cases x) (simp_all add: add_opt_def)

lemma add_if_set [simp]:
  "re_env_ok re \<Longrightarrow> k \<notin> fst ` set d \<Longrightarrow>
    add_if_set re k x (ODICT_OBJECT d) = (OK, ODICT_OBJECT (d @ entry k (set_str x)))"
  by (simp add: add_if_set_def set_str_def)

lemma props_encode [simp]:
  "re_env_ok re \<Longrightarrow> ''props'' \<notin> fst ` set d \<Longrightarrow>
    econn_props_encode re (ODICT_OBJECT d) p = (OK, ODICT_OBJECT (d @ [(''props'', ODICT_OBJECT p)]))"
  using re_parts(1) [of re]
  by (simp add: econn_props_encode_def jzon_get_odict_def jzon_odict_def with_odict_def odict_ok_def)

lemma props_opt [simp]:
  "re_env_ok re \<Longrightarrow> ''props'' \<notin> fst ` set d \<Longrightarrow>
    props_opt re p (ODICT_OBJECT d) = (OK, ODICT_OBJECT (d @ entry ''props'' (opt_props p)))"
  by (cases p) (simp_all add: props_opt_def opt_props_def)

lemma array_loop:
  "re_env_ok re \<Longrightarrow> array_loop re f (json_array vs) xs = json_array (vs @ map f xs)"
  by (induction xs arbitrary: vs) (simp_all add: array_add)

lemma array_loop_new [simp]:
  "re_env_ok re \<Longrightarrow> array_loop re f json_object_new_array xs = json_array (map f xs)"
  by (simp add: json_array_Nil array_loop)

lemma stringlist_encode [simp]:
  "re_env_ok re \<Longrightarrow> k \<notin> fst ` set d \<Longrightarrow> econn_stringlist_encode re (ODICT_OBJECT d) xs k =
    (OK, ODICT_OBJECT (d @ entry k (opt_list ODICT_STRING xs)))"
  by (simp add: econn_stringlist_encode_def opt_list_def)

lemma part_encode [simp]: "re_env_ok re \<Longrightarrow> part_encode re = part_json re"
  by (simp add: fun_eq_iff part_encode_def part_json_def json_object_new_object_def split: muted_state.split)

lemma key_encode [simp]: "re_env_ok re \<Longrightarrow> key_encode re = key_json re"
  by (simp add: fun_eq_iff key_encode_def key_json_def json_object_new_object_def opt_b64_def)

lemma stream_encode [simp]: "re_env_ok re \<Longrightarrow> stream_encode re = stream_json"
  by (simp add: fun_eq_iff stream_encode_def stream_json_def json_object_new_object_def opt_word_def set_str_def)

lemma and_simps [simp]:
  "and_also (OK, x) f = f x" "and_then (Some (OK, x)) g = g x"
  by (simp_all add: and_also_def and_then_def)

text \<open>The keys of the header are not those of the members.\<close>

definition hdr_keys :: "string set" where
  "hdr_keys = {''version'', ''type'', ''sessid'', ''src_userid'', ''src_clientid'', ''dest_userid'',
     ''dest_clientid'', ''resp''}"

lemma hdr_entries_keys: "fst ` set (hdr_entries msg) \<subseteq> hdr_keys"
  by (simp add: hdr_entries_def hdr_keys_def image_Un)

lemma hdr_fresh [simp]: "k \<notin> hdr_keys \<Longrightarrow> k \<notin> fst ` set (hdr_entries msg)"
  using hdr_entries_keys by blast

text \<open>A member the encoder can write: the two lists and properties it insists on are there.\<close>

fun u_sendable :: "econn_u \<Rightarrow> bool" where
  "u_sendable (U_propsync p) = (p \<noteq> None)"
| "u_sendable (U_devpair_publish turnv sdp username) = (turnv \<noteq> [])"
| "u_sendable u = True"

lemmas encode_defs =
  encode_union_def encode_setup_def encode_propsync_def encode_confconn_def encode_confstart_def
  encode_confpart_def encode_confstreams_def encode_publish_def encode_alert_def econn_keys_encode_def
  econn_parts_encode_def econn_streams_encode_def u_setup_def u_props_def u_confconn_def u_confstart_def
  u_confcheck_def u_confpart_def u_confkey_def u_confstreams_def u_publish_def u_accept_def u_alert_def
  confstart_entries_def

lemma encode_union_entries:
  assumes "re_env_ok re" and "em_msg_type msg = Some t" and "u_typed t (em_u msg)" and "u_sendable (em_u msg)"
  shows "encode_union re msg (ODICT_OBJECT (hdr_entries msg)) = Some (OK, ODICT_OBJECT (msg_entries re msg))"
proof (cases "em_u msg")
  case (U_setup su)
  then show ?thesis
    using assms by (auto simp: encode_defs msg_entries_def hdr_keys_def image_Un)
qed (use assms in \<open>auto simp: encode_defs msg_entries_def hdr_keys_def opt_list_def opt_props_def iceservers_encode image_Un\<close>)

lemma encode_ids_entries:
  assumes "re_env_ok re"
  shows "encode_ids re msg
    (ODICT_OBJECT [(''version'', ODICT_STRING econn_proto_version),
       (''type'', ODICT_STRING (econn_type_name (em_msg_type msg))),
       (''sessid'', ODICT_STRING (em_sessid_sender msg))]) = (OK, ODICT_OBJECT (hdr_entries msg))"
  using assms by (simp add: encode_ids_def hdr_entries_def image_Un)

text \<open>The result of printing a message's object.\<close>

definition wire_text :: "re_env \<Rightarrow> econn_message \<Rightarrow> err \<times> string option" where
  "wire_text re msg = (case js_print re (ODICT_OBJECT (msg_entries re msg)) of
     (e, str) \<Rightarrow> if e \<noteq> OK then (e, None) else (OK, Some str))"

lemma encode_head:
  assumes "re_env_ok re"
  shows "econn_message_encode re msg =
    (case encode_union re msg (ODICT_OBJECT (hdr_entries msg)) of
       None \<Rightarrow> None
     | Some (OK, jobj) \<Rightarrow> (case jzon_encode re jobj of (e, str) \<Rightarrow> if e \<noteq> OK then Some (e, None) else Some (OK, Some str))
     | Some (e, jobj) \<Rightarrow> Some (e, None))"
proof -
  have "jzon_creatf re ''sss''
             [VaStr (Some ''version''), VaStr (Some econn_proto_version),
              VaStr (Some ''type''), VaStr (Some (econn_type_name (em_msg_type msg))),
              VaStr (Some ''sessid''), VaStr (Some (em_sessid_sender msg))] =
        Some (OK, Some (ODICT_OBJECT [(''version'', ODICT_STRING econn_proto_version),
             (''type'', ODICT_STRING (econn_type_name (em_msg_type msg))),
             (''sessid'', ODICT_STRING (em_sessid_sender msg))]))"
    by (rule creatf_strings) (simp_all add: assms)
  then show ?thesis by (simp add: econn_message_encode_def encode_ids_entries [OF assms])
qed

lemma encode_union_refused:
  assumes "re_env_ok re"
  shows "em_msg_type msg = None \<Longrightarrow> \<exists>j. encode_union re msg (ODICT_OBJECT (hdr_entries msg)) = Some (EBADMSG, j)"
    and "em_msg_type msg = Some t \<Longrightarrow> u_typed t (em_u msg) \<Longrightarrow> \<not> u_sendable (em_u msg) \<Longrightarrow>
      \<exists>j. encode_union re msg (ODICT_OBJECT (hdr_entries msg)) = Some (EINVAL, j)"
proof -
  show "\<exists>j. encode_union re msg (ODICT_OBJECT (hdr_entries msg)) = Some (EBADMSG, j)" if "em_msg_type msg = None"
    using that by (simp add: encode_union_def)
  show "\<exists>j. encode_union re msg (ODICT_OBJECT (hdr_entries msg)) = Some (EINVAL, j)"
    if "em_msg_type msg = Some t" "u_typed t (em_u msg)" "\<not> u_sendable (em_u msg)"
    using that assms by (cases "em_u msg") (auto simp: encode_defs zapi_iceservers_encode_def and_then_def)
qed
lemma encode_wire:
  assumes "re_env_ok re" and "em_msg_type msg = Some t" and "u_typed t (em_u msg)" and "u_sendable (em_u msg)"
  shows "econn_message_encode re msg = Some (wire_text re msg)"
  by (simp add: encode_head [OF assms(1)] encode_union_entries [OF assms]
      jzon_encode_def jzon_print_def jzon_is_container_def wire_text_def split: prod.split)

section \<open>The decoder reads the format\<close>

definition orelse :: "'a option \<Rightarrow> 'a option \<Rightarrow> 'a option" where
  "orelse x y = (case x of Some v \<Rightarrow> Some v | None \<Rightarrow> y)"

lemma orelse_simps [simp]: "orelse None y = y" "orelse (Some v) y = Some v" "orelse x None = x"
  by (simp_all add: orelse_def split: option.split)

lemma map_add_app [simp]: "(m ++ n) k = orelse (n k) (m k)"
  by (simp add: map_add_def orelse_def)

text \<open>What the readers find in an object without a key twice.\<close>

lemma read_str:
  "odict_ok re \<Longrightarrow> distinct (map fst d) \<Longrightarrow>
    jzon_str re (ODICT_OBJECT d) k = Option.bind (map_of d k) json_object_get_string"
  by (simp add: jzon_str_def)

lemma get_string [simp]:
  "json_object_get_string (ODICT_STRING x) = Some x" "Option.bind (opt_str y) json_object_get_string = y"
  "Option.bind (set_str x) json_object_get_string = (if x = [] then None else Some x)"
  by (simp_all add: json_object_get_string_def set_str_def split: option.split) (cases y, simp_all add: json_object_get_string_def)

text \<open>Members that survive the way: what the encoder prints is what the decoder asks for.\<close>

definition props_ok :: "econn_props \<Rightarrow> bool" where
  "props_ok d \<longleftrightarrow> distinct (map fst d) \<and> list_all (\<lambda>e. case snd e of ODICT_STRING x \<Rightarrow> True | _ \<Rightarrow> False) d"

definition int32_ok :: "int \<Rightarrow> bool" where
  "int32_ok i \<longleftrightarrow> - (2 ^ 31) \<le> i \<and> i < 2 ^ 31"

definition part_ok :: "econn_group_part \<Rightarrow> bool" where
  "part_ok p \<longleftrightarrow> gp_userid p \<noteq> None \<and> gp_clientid p \<noteq> None \<and> uint (gp_ts p) < 2 ^ 31"

definition stream_ok :: "econn_stream_info \<Rightarrow> bool" where
  "stream_ok x \<longleftrightarrow> length (st_userid x) < ECONN_ID_LEN \<and> length (st_clientid x) < ECONN_ID_LEN"

definition confstart_ok :: "econn_confstart \<Rightarrow> bool" where
  "confstart_ok cs \<longleftrightarrow> cs_sft_url cs \<noteq> None \<and> cs_secret cs \<noteq> None \<and> pred_option props_ok (cs_props cs)"

fun u_wire :: "econn_msg \<Rightarrow> econn_u \<Rightarrow> bool" where
  "u_wire t U_zero = True"
| "u_wire t (U_setup su) =
     (su_sdp_msg su \<noteq> None \<and> su_props su \<noteq> None \<and> pred_option props_ok (su_props su) \<and>
      (t = ECONN_SETUP \<or> su_url su = None \<and> su_sft_tuple su = None))"
| "u_wire t (U_propsync p) = (p \<noteq> None \<and> pred_option props_ok p)"
| "u_wire t (U_groupstart p) = pred_option props_ok p"
| "u_wire t (U_devpair_accept x) = (x \<noteq> None)"
| "u_wire t (U_devpair_publish v x n) = (v \<noteq> [] \<and> list_all ice_ok v \<and> x \<noteq> None \<and> n \<noteq> None)"
| "u_wire t (U_alert l x) = (x \<noteq> None)"
| "u_wire t (U_confconn cc) =
     (list_all ice_ok (cc_turnv cc) \<and> cc_tool cc \<noteq> None \<and> cc_toolver cc \<noteq> None \<and> int32_ok (cc_env cc) \<and>
      int32_ok (cc_status cc) \<and> cc_vstreams cc \<le> 32)"
| "u_wire t (U_confstart cs) = confstart_ok cs"
| "u_wire t (U_confcheck cs) = (confstart_ok cs \<and> cs_props cs = None)"
| "u_wire t (U_confpart cp) = list_all part_ok (cp_partl cp)"
| "u_wire t (U_confkey ks) = True"
| "u_wire t (U_confstreams xs m) = (list_all stream_ok xs \<and> m \<noteq> None)"

definition msg_ok :: "econn_message \<Rightarrow> bool" where
  "msg_ok msg \<longleftrightarrow>
     (case em_msg_type msg of None \<Rightarrow> False | Some t \<Rightarrow> u_typed t (em_u msg) \<and> u_wire t (em_u msg)) \<and>
     length (em_sessid_sender msg) < ECONN_ID_LEN \<and> length (em_src_userid msg) < ECONN_ID_LEN \<and>
     length (em_src_clientid msg) < ECONN_ID_LEN \<and> length (em_dest_userid msg) < ECONN_ID_LEN \<and>
     length (em_dest_clientid msg) < ECONN_ID_LEN \<and> \<not> em_transient msg"

lemma msg_entries_distinct: "distinct (map fst (msg_entries re msg))"
proof -
  have "distinct (map fst (hdr_entries msg))"
    by (simp add: hdr_entries_def image_Un)
  moreover have "distinct (map fst (union_entries re u)) \<and> fst ` set (union_entries re u) \<inter> hdr_keys = {}" for u
    by (cases u) (simp_all add: image_Un confstart_entries_def hdr_keys_def)
  ultimately show ?thesis
    using hdr_entries_keys [of msg] by (simp add: msg_entries_def) blast
qed

lemma b64_decode [simp]:
  assumes "re_env_ok re"
  shows "re_b64_decode re (snd (re_b64_encode re b)) (length (snd (re_b64_encode re b))) = (OK, b)"
    and "re_b64_decode re (snd (re_b64_encode re b)) (length (snd (re_b64_encode re b)) * 3 div 4) = (OK, b)"
proof -
  obtain t where t: "re_b64_encode re b = (OK, t)" "4 dvd length t"
    and dec: "\<And>n. 3 * (length t div 4) \<le> n \<Longrightarrow> re_b64_decode re t n = (OK, b)"
    using re_parts(3) [OF assms] unfolding re_b64_ok_def by metis
  have "3 * (length t div 4) \<le> length t" and "3 * (length t div 4) = length t * 3 div 4"
    using t(2) by (auto elim!: dvdE)
  then show "re_b64_decode re (snd (re_b64_encode re b)) (length (snd (re_b64_encode re b))) = (OK, b)"
    and "re_b64_decode re (snd (re_b64_encode re b)) (length (snd (re_b64_encode re b)) * 3 div 4) = (OK, b)"
    using t(1) dec by simp_all
qed

lemma read_numbers [simp]:
  assumes "re_env_ok re"
  shows "re_pl_set_str re pl (Some x) = Some x" "re_pl_u32 re (Some (dec (unat w))) = w"
    "re_pl_u64 re (Some (dec (unat v))) = v"
  using re_parts(2) [OF assms] by (simp_all add: re_text_ok_def)

lemma isdigit_digit: "n < 10 \<Longrightarrow> isdigit (digit n)"
  by (simp add: isdigit_def of_char_digit)

lemma dec_digits: "dec n \<noteq> [] \<and> (\<forall>c\<in>set (dec n). isdigit c)"
proof (induction n rule: dec.induct)
  case (1 n)
  then show ?case
    by (cases "n < 10") (auto simp: dec.simps [of n] isdigit_digit)
qed

lemma isdigit_other: "isdigit c \<Longrightarrow> \<not> isspace c \<and> c \<noteq> CHR ''-'' \<and> c \<noteq> CHR ''+''"
  by (auto simp: isdigit_def isspace_def)

lemma sscanf_dec [simp]: "sscanf_u dst (dec (unat w)) = Some w"
proof -
  obtain c r where cr: "dec (unat w) = c # r" using dec_digits by (metis list.exhaust)
  then have c: "\<not> isspace c" "c \<noteq> CHR ''-''" "c \<noteq> CHR ''+''"
    using dec_digits [of "unat w"] isdigit_other by auto
  have "takeWhile isdigit (dec (unat w)) = dec (unat w)" using dec_digits by simp
  moreover have "unat w < 2 ^ 32" using unsigned_less [of w] by simp
  ultimately show ?thesis
    using c cr undec_dec [of "unat w"] by (simp add: sscanf_u_def)
qed

lemma ts_roundtrip: "uint (t :: u64) < 2 ^ 31 \<Longrightarrow> word_of_int (to_int32 (uint t)) = t"
  by (subst to_int32_id) (auto intro: order_trans [of _ 0])

lemmas read_defs =
  read_str jzon_strdup_def jzon_int_def jzon_u32_def jzon_bool_def jzon_array_def jzon_object_def generic_object_def
  json_object_is_type_def json_object_get_int_def json_object_get_boolean_def

lemma part_decode_json:
  assumes "re_env_ok re" and "part_ok p"
  shows "part_decode re (part_json re p) = Some (OK, p)"
proof (cases "gp_muted_state p")
  case MUTED_STATE_UNKNOWN
  then show ?thesis
    using assms by (auto simp: part_decode_def part_json_def read_defs part_ok_def ts_roundtrip image_Un)
next
  case MUTED_STATE_MUTED
  then show ?thesis
    using assms by (auto simp: part_decode_def part_json_def read_defs part_ok_def ts_roundtrip image_Un)
next
  case MUTED_STATE_UNMUTED
  then show ?thesis
    using assms by (auto simp: part_decode_def part_json_def read_defs part_ok_def ts_roundtrip image_Un)
qed

lemma key_handler_json:
  "re_env_ok re \<Longrightarrow> key_decode_handler re s (key_json re k) xs = (False, xs @ [k])"
  by (simp add: key_decode_handler_def key_json_def read_defs)

lemma stream_handler_json:
  assumes "re_env_ok re" and "stream_ok x"
  shows "stream_decode_handler re s (stream_json x) xs = (False, xs @ [x])"
  using assms by (simp add: stream_decode_handler_def stream_json_def read_defs econn_stream_info_alloc_def stream_ok_def
    opt_word_def set_str_def image_Un)

lemma part_handler_json:
  "re_env_ok re \<Longrightarrow> part_ok p \<Longrightarrow> part_decode_handler re s (part_json re p) (Some xs) = (False, Some (xs @ [p]))"
  by (simp add: part_decode_handler_def part_decode_json)

text \<open>The lists of a message.\<close>

lemma parts_apply [simp]:
  assumes "re_env_ok re" and "list_all part_ok xs"
  shows "jzon_apply (json_array (map (part_json re) xs)) (part_decode_handler re) (Some []) = (None, Some xs)"
proof -
  have "jzon_apply (json_array (map (part_json re) xs)) (part_decode_handler re) (Some []) = (None, Some ([] @ xs))"
    by (rule apply_array [where c = Some]) (use assms in \<open>simp add: part_handler_json list_all_iff\<close>)
  then show ?thesis by simp
qed

lemma keys_apply [simp]:
  assumes "re_env_ok re"
  shows "jzon_apply (json_array (map (key_json re) xs)) (key_decode_handler re) [] = (None, xs)"
proof -
  have "jzon_apply (json_array (map (key_json re) xs)) (key_decode_handler re) [] = (None, [] @ xs)"
    by (rule apply_array [where c = "\<lambda>xs. xs"]) (use assms in \<open>simp add: key_handler_json\<close>)
  then show ?thesis by simp
qed

lemma streams_apply [simp]:
  assumes "re_env_ok re" and "list_all stream_ok xs"
  shows "jzon_apply (json_array (map stream_json xs)) (stream_decode_handler re) [] = (None, xs)"
proof -
  have "jzon_apply (json_array (map stream_json xs)) (stream_decode_handler re) [] = (None, [] @ xs)"
    by (rule apply_array [where c = "\<lambda>xs. xs"]) (use assms in \<open>simp add: stream_handler_json list_all_iff\<close>)
  then show ?thesis by simp
qed

lemma strings_apply [simp]:
  "jzon_apply (json_array (map ODICT_STRING xs)) string_decode_handler [] = (None, xs)"
proof -
  have "jzon_apply (json_array (map ODICT_STRING xs)) string_decode_handler [] = (None, [] @ xs)"
    by (rule apply_array [where c = "\<lambda>xs. xs"]) (simp add: string_decode_handler_def stringlist_append_def)
  then show ?thesis by simp
qed

text \<open>Looking up a member's key skips the header.\<close>

lemma member_lookup:
  assumes "re_env_ok re" and "k \<notin> hdr_keys"
  shows "json_object_object_get_ex re (ODICT_OBJECT (msg_entries re msg)) k = map_of (union_entries re (em_u msg)) k"
proof -
  have "map_of (hdr_entries msg) k = None" using hdr_fresh [OF assms(2)] by (simp add: map_of_eq_None_iff)
  then show ?thesis using assms(1) by (simp add: msg_entries_distinct) (simp add: msg_entries_def)
qed

lemma props_decode:
  assumes "re_env_ok re" and "map_of (union_entries re (em_u msg)) ''props'' = opt_props p"
  shows "econn_props_decode re (ODICT_OBJECT (msg_entries re msg)) = (if p = None then ENOENT else OK, p)"
  using assms by (cases p)
    (simp_all add: econn_props_decode_def jzon_object_def generic_object_def member_lookup hdr_keys_def opt_props_def
      json_object_is_type_def econn_props_alloc_def jzon_get_odict_def jzon_odict_def)

lemma member_str:
  "re_env_ok re \<Longrightarrow> k \<notin> hdr_keys \<Longrightarrow> jzon_str re (ODICT_OBJECT (msg_entries re msg)) k =
     Option.bind (map_of (union_entries re (em_u msg)) k) json_object_get_string"
  by (simp add: jzon_str_def member_lookup)

lemmas decode_defs =
  decode_setup_def decode_group_setup_def decode_update_def decode_propsync_def decode_groupstart_def
  decode_confstart_def decode_confconn_def decode_confpart_def decode_confstreams_def decode_publish_def
  decode_alert_def econn_parts_decode_def econn_keys_decode_def econn_streams_decode_def
  econn_stringlist_decode_def jzon_strdup_def jzon_int_def jzon_u32_def jzon_bool_def jzon_array_def
  generic_object_def json_object_is_type_def json_object_get_int_def json_object_get_boolean_def

lemma decode_setup_entries:
  assumes "re_env_ok re" and "em_u msg = U_setup su" and "u_typed t (em_u msg)" and "u_wire t (em_u msg)"
  shows "decode_union re (ODICT_OBJECT (msg_entries re msg)) t = Some (OK, em_u msg)"
proof -
  have "econn_props_decode re (ODICT_OBJECT (msg_entries re msg)) = (OK, su_props su)"
    using props_decode [OF assms(1), of msg "su_props su"] assms by simp
  then show ?thesis
    using assms by (auto simp: decode_defs member_str hdr_keys_def)
qed

lemma opt_list_array:
  "opt_list f xs = None \<longleftrightarrow> xs = []" "opt_list f xs = Some j \<longleftrightarrow> xs \<noteq> [] \<and> j = json_array (map f xs)"
  by (auto simp: opt_list_def)

lemma opt_b64_str [simp]:
  "Option.bind (opt_b64 re b) json_object_get_string = map_option (\<lambda>b. snd (re_b64_encode re b)) b"
  by (cases b) (simp_all add: opt_b64_def)

lemma stringlist_decode:
  assumes "re_env_ok re" and "k \<notin> hdr_keys"
    and "map_of (union_entries re (em_u msg)) k = opt_list ODICT_STRING xs"
  shows "snd (econn_stringlist_decode re (ODICT_OBJECT (msg_entries re msg)) k) = xs"
  using assms by (cases "xs = []")
    (simp_all add: econn_stringlist_decode_def jzon_array_def generic_object_def member_lookup opt_list_def
      json_object_is_type_def)

lemma confstart_decode:
  assumes "re_env_ok re" and "confstart_ok cs" and "em_u msg \<in> {U_confstart cs, U_confcheck cs}"
  shows "decode_confstart re (ODICT_OBJECT (msg_entries re msg)) = (OK, cs\<lparr>cs_props := None\<rparr>)"
proof -
  have "snd (econn_stringlist_decode re (ODICT_OBJECT (msg_entries re msg)) ''sfts'') = cs_sftl cs"
    by (rule stringlist_decode) (use assms in \<open>auto simp: hdr_keys_def confstart_entries_def\<close>)
  moreover have "map_of (union_entries re (em_u msg)) k = map_of (confstart_entries re cs) k" if "k \<noteq> ''props''" for k
    using assms(3) that by auto
  ultimately show ?thesis
    using assms(1,2)
    by (auto simp: decode_confstart_def member_str member_lookup hdr_keys_def confstart_entries_def jzon_strdup_def
      confstart_ok_def)
qed

lemma decode_confstart_entries:
  assumes "re_env_ok re" and "em_u msg = U_confstart cs" and "u_wire ECONN_CONF_START (em_u msg)"
  shows "decode_union re (ODICT_OBJECT (msg_entries re msg)) ECONN_CONF_START = Some (OK, em_u msg)"
proof -
  have "snd (econn_props_decode re (ODICT_OBJECT (msg_entries re msg))) = cs_props cs"
    using props_decode [OF assms(1), of msg "cs_props cs"] assms(2) by (simp add: confstart_entries_def)
  then show ?thesis using confstart_decode [OF assms(1), of cs msg] assms(2,3) by simp
qed

lemma decode_confcheck_entries:
  assumes "re_env_ok re" and "em_u msg = U_confcheck cs" and "u_wire ECONN_CONF_CHECK (em_u msg)"
  shows "decode_union re (ODICT_OBJECT (msg_entries re msg)) ECONN_CONF_CHECK = Some (OK, em_u msg)"
  using confstart_decode [OF assms(1), of cs msg] assms(2,3) by (cases cs) simp

lemma decode_confpart_entries:
  assumes "re_env_ok re" and "em_u msg = U_confpart cp" and "u_wire ECONN_CONF_PART (em_u msg)"
  shows "decode_union re (ODICT_OBJECT (msg_entries re msg)) ECONN_CONF_PART = Some (OK, em_u msg)"
proof -
  have "snd (econn_stringlist_decode re (ODICT_OBJECT (msg_entries re msg)) ''sfts'') = cp_sftl cp"
    by (rule stringlist_decode) (use assms in \<open>auto simp: hdr_keys_def\<close>)
  moreover have "econn_parts_decode re (ODICT_OBJECT (msg_entries re msg)) = Some (OK, cp_partl cp)"
    using assms by (simp add: econn_parts_decode_def jzon_array_def generic_object_def member_lookup hdr_keys_def
      json_object_is_type_def)
  ultimately show ?thesis
    using assms by (cases "cp_entropy cp")
      (simp_all add: decode_confpart_def member_str member_lookup hdr_keys_def jzon_bool_def json_object_get_boolean_def)
qed

lemma clamp_vstreams_id: "w \<le> 32 \<Longrightarrow> clamp_vstreams (to_int32 (uint w)) = w"
proof -
  assume "w \<le> 32"
  then have w: "uint w \<le> 32" by (simp add: word_le_def)
  then have "to_int32 (uint w) = uint w" by (subst to_int32_id) (auto intro: order_trans [of _ 0])
  with w show ?thesis by (simp add: clamp_vstreams_def)
qed

lemma clamp_vstreams_bound: "clamp_vstreams v \<le> 32"
proof -
  have "word_of_int v \<le> (32 :: u32)" if "0 \<le> v" "v \<le> 32" for v :: int
    using that by (simp add: word_le_def uint_word_of_int_eq take_bit_int_eq_self)
  then show ?thesis by (simp add: clamp_vstreams_def)
qed

lemma decode_confconn_entries:
  assumes "re_env_ok re" and "em_u msg = U_confconn cc" and "u_wire ECONN_CONF_CONN (em_u msg)"
  shows "decode_union re (ODICT_OBJECT (msg_entries re msg)) ECONN_CONF_CONN = Some (OK, em_u msg)"
proof -
  have "jzon_array re (ODICT_OBJECT (msg_entries re msg)) ''ice_servers'' =
      (if cc_turnv cc = [] then (ENOENT, None) else (OK, Some (json_array (map ice_json (cc_turnv cc)))))"
    using assms by (simp add: jzon_array_def generic_object_def member_lookup hdr_keys_def json_object_is_type_def
      opt_list_def)
  moreover have "list_all ice_ok (cc_turnv cc)" using assms(2,3) by simp
  ultimately show ?thesis
    using assms
    by (auto simp: clamp_vstreams_id decode_confconn_def member_str member_lookup hdr_keys_def jzon_int_def jzon_bool_def
      json_object_get_int_def json_object_get_boolean_def iceservers_decode to_int32_id int32_ok_def)
qed

lemma decode_publish_entries:
  assumes "re_env_ok re" and "em_u msg = U_devpair_publish v x n" and "u_wire t (em_u msg)"
  shows "decode_union re (ODICT_OBJECT (msg_entries re msg)) ECONN_DEVPAIR_PUBLISH = Some (OK, em_u msg)"
  using assms by (auto simp: decode_publish_def member_lookup hdr_keys_def jzon_array_def generic_object_def
    json_object_is_type_def opt_list_def iceservers_decode jzon_strdup_def)

lemma decode_union_entries:
  assumes "re_env_ok re" and "u_typed t (em_u msg)" and "u_wire t (em_u msg)"
  shows "decode_union re (ODICT_OBJECT (msg_entries re msg)) t = Some (OK, em_u msg)"
proof (cases "em_u msg")
  case (U_setup su)
  then show ?thesis using decode_setup_entries assms by blast
next
  case (U_propsync p)
  then show ?thesis
    using assms props_decode [OF assms(1), of msg p] by (auto simp: decode_propsync_def)
next
  case (U_groupstart p)
  then show ?thesis
    using assms props_decode [OF assms(1), of msg p] by (auto simp: decode_groupstart_def)
next
  case (U_confconn cc)
  then show ?thesis using decode_confconn_entries [OF assms(1) U_confconn] assms by simp
next
  case (U_confstart cs)
  then show ?thesis using decode_confstart_entries [OF assms(1) U_confstart] assms by simp
next
  case (U_confcheck cs)
  then show ?thesis using decode_confcheck_entries [OF assms(1) U_confcheck] assms by simp
next
  case (U_confpart cp)
  then show ?thesis using decode_confpart_entries [OF assms(1) U_confpart] assms by simp
next
  case (U_devpair_publish v x n)
  then show ?thesis using decode_publish_entries [OF assms(1) U_devpair_publish] assms by simp
qed (use assms in \<open>auto simp: decode_defs member_lookup hdr_keys_def\<close>)

lemma hdr_lookup:
  assumes "k \<in> hdr_keys"
  shows "map_of (msg_entries re msg) k = map_of (hdr_entries msg) k"
proof (cases "map_of (hdr_entries msg) k")
  case None
  have "k \<notin> fst ` set (union_entries re (em_u msg))"
    using assms by (cases "em_u msg") (auto simp: image_Un confstart_entries_def hdr_keys_def)
  then have "map_of (union_entries re (em_u msg)) k = None" by (simp add: map_of_eq_None_iff)
  with None show ?thesis by (simp add: msg_entries_def)
qed (simp add: msg_entries_def)

lemma type_found:
  assumes "re_env_ok re"
  shows "List.find (\<lambda>t'. re_casecmp re (econn_msg_name t) (econn_msg_name t')) type_order = Some t"
proof -
  have "re_casecmp re = (\<lambda>x y. map tolower x = map tolower y)"
    using re_parts(2) [OF assms] by (auto simp: re_text_ok_def fun_eq_iff)
  then show ?thesis
    by (cases t) (simp_all add: type_order_def tolower_def)
qed

text \<open>A message as the decoder stamps it.\<close>

definition stamped :: "u64 \<Rightarrow> u64 \<Rightarrow> econn_message \<Rightarrow> econn_message" where
  "stamped curr_time msg_time msg =
     msg\<lparr>em_time := ucast msg_time, em_age := if curr_time < msg_time then 0 else ucast (curr_time - msg_time)\<rparr>"

lemma decode_ids_entries:
  assumes "re_env_ok re" and "msg_ok msg"
  shows "decode_ids re (ODICT_OBJECT (msg_entries re msg)) (em_sessid_sender msg) econn_message_zero =
    econn_message_zero\<lparr>em_sessid_sender := em_sessid_sender msg, em_src_userid := em_src_userid msg,
      em_src_clientid := em_src_clientid msg, em_dest_userid := em_dest_userid msg,
      em_dest_clientid := em_dest_clientid msg\<rparr>"
  using assms by (simp add: decode_ids_def jzon_str_def msg_entries_distinct hdr_lookup hdr_keys_def)
     (simp add: hdr_entries_def econn_message_zero_def msg_ok_def)

lemma wire_lookups:
  assumes "re_env_ok re" and "em_msg_type msg = Some t"
  shows "jzon_str re (ODICT_OBJECT (msg_entries re msg)) ''type'' = Some (econn_msg_name t)"
    "jzon_str re (ODICT_OBJECT (msg_entries re msg)) ''version'' = Some econn_proto_version"
    "jzon_str re (ODICT_OBJECT (msg_entries re msg)) ''sessid'' = Some (em_sessid_sender msg)"
    "jzon_bool re False (ODICT_OBJECT (msg_entries re msg)) ''resp'' = (OK, em_resp msg)"
  using assms
  by (simp_all add: jzon_str_def jzon_bool_def msg_entries_distinct hdr_lookup hdr_keys_def)
     (simp_all add: hdr_entries_def econn_type_name_def json_object_get_boolean_def)

lemma decode_object_entries:
  assumes "re_env_ok re" and "msg_ok msg"
  shows "decode_object re curr_time msg_time (ODICT_OBJECT (msg_entries re msg)) econn_message_zero =
    Some (OK, Some (stamped curr_time msg_time msg))"
proof -
  obtain t where t: "em_msg_type msg = Some t" "u_typed t (em_u msg)" "u_wire t (em_u msg)"
    using assms(2) by (auto simp: msg_ok_def split: option.splits)
  let ?j = "ODICT_OBJECT (msg_entries re msg)"
  have ids: "msg = (decode_ids re ?j (em_sessid_sender msg) econn_message_zero)\<lparr>em_resp := em_resp msg,
      em_msg_type := Some t, em_u := em_u msg, em_time := em_time msg, em_age := em_age msg\<rparr>"
    unfolding decode_ids_entries [OF assms]
    using assms(2) t(1) by (intro econn_message.equality) (simp_all add: econn_message_zero_def msg_ok_def)
  show ?thesis
    using assms(1) t by (subst (2) ids) (simp add: decode_object_def wire_lookups decode_body_def
      type_found decode_union_entries stamped_def)
qed

lemma string_plain: "(case j of ODICT_STRING x \<Rightarrow> True | _ \<Rightarrow> False) \<Longrightarrow> json_plain l j"
  by (cases j) simp_all

lemma opt_plain:
  "set_str x = Some v \<Longrightarrow> json_plain l v" "opt_b64 re b = Some v \<Longrightarrow> json_plain l v"
  "opt_word w = Some v \<Longrightarrow> json_plain l v"
  "opt_list ODICT_STRING xs = Some v \<Longrightarrow> json_plain (Suc l) v"
  "opt_list ice_json srvs = Some v \<Longrightarrow> json_plain (Suc (Suc l)) v"
  by (auto simp: set_str_def opt_b64_def opt_word_def opt_list_def list_all_iff split: if_splits)

lemma props_plain: "props_ok d \<Longrightarrow> distinct (map fst d) \<and> list_all (\<lambda>e. json_plain l (snd e)) d"
  by (auto simp: props_ok_def elim!: list.pred_mono_strong intro: string_plain)

lemma element_plain [simp]:
  "json_plain (Suc l) (part_json re p)" "json_plain (Suc l) (key_json re k)" "json_plain (Suc l) (stream_json x)"
  by (auto simp: part_json_def key_json_def stream_json_def image_Un opt_plain split: muted_state.splits)

lemma union_plain:
  "u_wire t u \<Longrightarrow> list_all (\<lambda>e. json_plain (Suc (Suc l)) (snd e)) (union_entries re u)"
  by (cases u) (auto simp: confstart_entries_def confstart_ok_def list.pred_map comp_def list.pred_True
    opt_plain opt_props_def props_plain)

lemma msg_plain:
  assumes "msg_ok msg"
  shows "json_plain (Suc (Suc (Suc l))) (ODICT_OBJECT (msg_entries re msg))"
proof -
  have "list_all (\<lambda>e. json_plain (Suc (Suc l)) (snd e)) (hdr_entries msg)"
    by (auto simp: hdr_entries_def opt_plain)
  moreover have "list_all (\<lambda>e. json_plain (Suc (Suc l)) (snd e)) (union_entries re (em_u msg))"
    using assms by (auto simp: msg_ok_def union_plain split: option.splits)
  ultimately show ?thesis
    using msg_entries_distinct [of re msg] by (simp add: msg_entries_def)
qed

lemma decode_printed:
  assumes "re_env_ok re" and "json_plain 8 (ODICT_OBJECT d)" and "js_print re (ODICT_OBJECT d) = (OK, str)"
  shows "econn_message_decode re True curr_time msg_time str =
    decode_object re curr_time msg_time (ODICT_OBJECT d) econn_message_zero"
proof -
  obtain r where r: "str = CHR ''{'' # r" and parse: "js_parse re str = (OK, d)"
    using assms unfolding re_env_ok_def re_json_ok_def by blast
  then have "jzon_decode re str = (OK, Some (ODICT_OBJECT d))" by (simp add: jzon_decode_def)
  then show ?thesis by (simp add: econn_message_decode_def econn_message_alloc_def)
qed

lemma decode_wire:
  assumes "re_env_ok re" and "msg_ok msg" and "js_print re (ODICT_OBJECT (msg_entries re msg)) = (OK, str)"
  shows "econn_message_decode re True curr_time msg_time str = Some (OK, Some (stamped curr_time msg_time msg))"
proof -
  have "json_plain 8 (ODICT_OBJECT (msg_entries re msg))"
    using msg_plain [OF assms(2), of 5 re] by (simp add: eval_nat_numeral)
  then show ?thesis
    using decode_printed [OF assms(1) _ assms(3)] decode_object_entries [OF assms(1,2)] by simp
qed

lemma encode_printed:
  assumes "re_env_ok re" and "em_msg_type msg = Some t" and "u_typed t (em_u msg)" and "u_sendable (em_u msg)"
    and "econn_message_encode re msg = Some (OK, Some str)"
  shows "js_print re (ODICT_OBJECT (msg_entries re msg)) = (OK, str)"
  using encode_wire [OF assms(1-4)] assms(5) by (auto simp: wire_text_def split: prod.splits if_splits)

lemma msg_ok_sendable: "msg_ok msg \<Longrightarrow> u_sendable (em_u msg)"
  by (cases "em_u msg") (auto simp: msg_ok_def split: option.splits)

section \<open>A concrete libre\<close>

text \<open>
  A printer and parser of values, with lengths before strings instead of escapes, and the other
  functions of libre, to see that the laws hold together.
\<close>

definition lit :: "string \<Rightarrow> string" where
  "lit x = dec (length x) @ CHR '':'' # x"

definition unlit :: "string \<Rightarrow> string \<times> string" where
  "unlit s = (let n = takeWhile isdigit s; r = drop (length n + 1) s
              in (take (undec n) r, drop (undec n) r))"

fun ser :: "json \<Rightarrow> string" and sers :: "odict \<Rightarrow> string" where
  "ser (ODICT_OBJECT d) = CHR ''{'' # sers d"
| "ser (ODICT_ARRAY d) = CHR ''['' # sers d"
| "ser (ODICT_STRING x) = CHR ''s'' # lit x"
| "ser (ODICT_INT i) = (if i < 0 then CHR ''-'' else CHR ''+'') # lit (dec (nat \<bar>i\<bar>))"
| "ser (ODICT_DOUBLE x) = CHR ''d'' # lit (dec (unat x))"
| "ser (ODICT_BOOL b) = (if b then ''t'' else ''f'')"
| "ser ODICT_NULL = ''n''"
| "sers [] = ''}''"
| "sers ((k, v) # d) = CHR '','' # lit k @ ser v @ sers d"

fun par :: "nat \<Rightarrow> string \<Rightarrow> json \<times> string" and pars :: "nat \<Rightarrow> string \<Rightarrow> odict \<times> string" where
  "par 0 s = (ODICT_NULL, s)"
| "par (Suc n) [] = (ODICT_NULL, [])"
| "par (Suc n) (c # s) =
     (if c = CHR ''{'' then (case pars n s of (d, r) \<Rightarrow> (ODICT_OBJECT d, r))
      else if c = CHR ''['' then (case pars n s of (d, r) \<Rightarrow> (ODICT_ARRAY d, r))
      else if c = CHR ''s'' then (case unlit s of (x, r) \<Rightarrow> (ODICT_STRING x, r))
      else if c = CHR ''+'' then (case unlit s of (x, r) \<Rightarrow> (ODICT_INT (int (undec x)), r))
      else if c = CHR ''-'' then (case unlit s of (x, r) \<Rightarrow> (ODICT_INT (- int (undec x)), r))
      else if c = CHR ''d'' then (case unlit s of (x, r) \<Rightarrow> (ODICT_DOUBLE (word_of_nat (undec x)), r))
      else if c = CHR ''t'' then (ODICT_BOOL True, s)
      else if c = CHR ''f'' then (ODICT_BOOL False, s)
      else (ODICT_NULL, s))"
| "pars 0 s = ([], s)"
| "pars (Suc n) [] = ([], [])"
| "pars (Suc n) (c # s) =
     (if c = CHR ''}'' then ([], s)
      else case unlit s of (k, s) \<Rightarrow> (case par n s of (v, s) \<Rightarrow> (case pars n s of (d, s) \<Rightarrow> ((k, v) # d, s))))"

lemma unlit_lit [simp]: "unlit (lit x @ r) = (x, r)"
proof -
  have "takeWhile isdigit (dec n @ CHR '':'' # y) = dec n" for n y
    using dec_digits [of n] by (subst takeWhile_append2) (auto simp: isdigit_def)
  then show ?thesis by (simp add: unlit_def lit_def)
qed

lemma par_ser:
  "length (ser j) \<le> n \<Longrightarrow> par n (ser j @ r) = (j, r)"
  "length (sers d) \<le> n \<Longrightarrow> pars n (sers d @ r) = (d, r)"
proof (induction j and d arbitrary: n r and n r rule: ser_sers.induct)
  case (9 k v d)
  then show ?case by (cases n) simp_all
qed (case_tac [!] n, simp_all split: if_splits)

definition wire_re :: re_env where
  "wire_re = \<lparr>re_casecmp = (\<lambda>x y. map tolower x = map tolower y),
     re_ncpy = (\<lambda>d x n. case x of None \<Rightarrow> d | Some y \<Rightarrow> take (n - 1) y),
     re_isset = (\<lambda>x. x \<noteq> None \<and> x \<noteq> Some []), re_fmt_s = (\<lambda>x. case x of None \<Rightarrow> [] | Some y \<Rightarrow> y),
     re_fmt_u = dec, re_pl_set_str = (\<lambda>pl x. case x of None \<Rightarrow> pl | Some y \<Rightarrow> Some y),
     re_pl_u32 = (\<lambda>x. case x of None \<Rightarrow> 0 | Some y \<Rightarrow> word_of_nat (undec y)),
     re_pl_u64 = (\<lambda>x. case x of None \<Rightarrow> 0 | Some y \<Rightarrow> word_of_nat (undec y)),
     re_b64_encode = (\<lambda>b. (OK, concat (map (\<lambda>w. [char_of (unat w), CHR ''A'', CHR ''A'', CHR ''A'']) b))),
     re_b64_decode = (\<lambda>x n. (OK, map (\<lambda>i. of_char (x ! (4 * i))) [0..<length x div 4])),
     od_lookup = map_of, od_add = (\<lambda>d k v. (OK, d @ [(k, v)])),
     js_print = (\<lambda>j. (OK, ser j)),
     js_parse = (\<lambda>x. (OK, case fst (par (length x) x) of ODICT_OBJECT d \<Rightarrow> d | _ \<Rightarrow> []))\<rparr>"

lemma b64_pieces:
  "length (concat (map (\<lambda>w. [f w, a, a, a]) b)) = 4 * length b"
  "i < length b \<Longrightarrow> concat (map (\<lambda>w. [f w, a, a, a]) b) ! (4 * i) = f (b ! i)"
proof -
  show "length (concat (map (\<lambda>w. [f w, a, a, a]) b)) = 4 * length b"
    by (induction b) simp_all
  show "i < length b \<Longrightarrow> concat (map (\<lambda>w. [f w, a, a, a]) b) ! (4 * i) = f (b ! i)"
  proof (induction b arbitrary: i)
    case (Cons w b)
    then show ?case by (cases i) simp_all
  qed simp
qed

lemma of_char_byte: "of_char (char_of (unat (w :: u8))) = w"
proof -
  have "unat w < 256" using unsigned_less [of w] by simp
  then have "(of_char (char_of (unat w)) :: nat) = unat w" by simp
  then have "word_of_nat (of_char (char_of (unat w))) = w" by simp
  then show ?thesis by (simp add: of_char_def)
qed

lemma wire_re_ok: "re_env_ok wire_re"
proof -
  have "re_text_ok wire_re" by (simp add: re_text_ok_def wire_re_def)
  moreover have "re_b64_ok wire_re"
  proof -
    have "map (\<lambda>i. of_char (concat (map (\<lambda>w. [char_of (unat w), a, a, a]) b) ! (4 * i))) [0..<length b] = b" for b :: bytes and a
      by (rule nth_equalityI) (simp_all add: b64_pieces of_char_byte)
    then show ?thesis by (simp add: re_b64_ok_def wire_re_def b64_pieces)
  qed
  moreover have "odict_ok wire_re" by (simp add: odict_ok_def wire_re_def)
  moreover have "re_json_ok wire_re"
  proof -
    have parse: "js_parse wire_re x = (OK, case fst (par (length x) x) of ODICT_OBJECT d \<Rightarrow> d | _ \<Rightarrow> [])" for x
      by (simp add: wire_re_def)
    have par: "par (length (ser j)) (ser j) = (j, [])" for j
      using par_ser(1) [OF order_refl, of j "[]"] by (simp only: append_Nil2)
    have "js_parse wire_re (ser (ODICT_OBJECT d)) = (OK, d)" for d
      unfolding parse par by (simp only: fst_conv json.case)
    then have brace: "js_parse wire_re (CHR ''{'' # sers d) = (OK, d)" for d
      by (simp only: ser.simps)
    have print: "js_print wire_re (ODICT_OBJECT d) = (OK, CHR ''{'' # sers d)" for d
      by (simp add: wire_re_def)
    show ?thesis unfolding re_json_ok_def
    proof (intro allI impI)
      fix d s
      assume "json_plain 8 (ODICT_OBJECT d) \<and> js_print wire_re (ODICT_OBJECT d) = (OK, s)"
      then have "s = CHR ''{'' # sers d" unfolding print by simp
      then show "(\<exists>r. s = CHR ''{'' # r) \<and> js_parse wire_re s = (OK, d)" using brace [of d] by simp
    qed
  qed
  ultimately show ?thesis unfolding re_env_ok_def by blast
qed

lemma wire_re_prints: "wire_text wire_re msg = (OK, Some (ser (ODICT_OBJECT (msg_entries wire_re msg))))"
proof -
  have "js_print wire_re j = (OK, ser j)" for j by (simp add: wire_re_def)
  then show ?thesis by (simp only: wire_text_def prod.case simp_thms if_False)
qed

lemma jzon_array_value [simp]: "jzon_array re jobj k \<noteq> (OK, None)"
  by (simp add: jzon_array_def generic_object_def split: option.split)

lemma decode_publish_typed:
  "decode_publish re jobj = (OK, u) \<Longrightarrow> u_typed ECONN_DEVPAIR_PUBLISH u"
  unfolding decode_publish_def
  by (cases "jzon_array re jobj ''ice_servers''" rule: prod.exhaust)
     (auto split: option.splits prod.splits if_splits err.splits)

lemma decode_confconn_typed:
  "decode_confconn re jobj = (OK, u) \<Longrightarrow> \<exists>cc. u = U_confconn cc \<and> cc_vstreams cc \<le> 32"
  by (auto simp: decode_confconn_def Let_def clamp_vstreams_bound simp del: split_paired_Ex split: prod.splits)

lemma decode_union_typed:
  assumes "decode_union re jobj t = Some (OK, u)"
  shows "u_typed t u \<and> (\<forall>cc. u = U_confconn cc \<longrightarrow> cc_vstreams cc \<le> 32)"
proof (cases "t = ECONN_DEVPAIR_PUBLISH \<or> t = ECONN_CONF_CONN")
  case True
  then show ?thesis using assms decode_publish_typed decode_confconn_typed by fastforce
next
  case False
  then show ?thesis
    using assms by (cases t)
      (auto simp: decode_setup_def decode_group_setup_def decode_update_def decode_propsync_def decode_groupstart_def
        decode_confpart_def decode_confstreams_def decode_alert_def Let_def
        bind_eq_Some_conv split: option.splits prod.splits if_splits)
qed

lemma decode_object_typed:
  assumes "decode_object re curr_time msg_time jobj msg0 = Some (OK, Some msg)"
  shows "msg = msg0 \<and> jzon_str re jobj ''sessid'' = None \<or>
    (\<exists>type t. jzon_str re jobj ''type'' = Some type \<and> re_casecmp re type (econn_msg_name t) \<and>
       em_msg_type msg = Some t \<and> u_typed t (em_u msg) \<and> (\<forall>cc. em_u msg = U_confconn cc \<longrightarrow> cc_vstreams cc \<le> 32))"
  using assms by (auto simp: decode_object_def decode_body_def Let_def bind_eq_Some_conv decode_union_typed
    dest!: find_P split: option.splits prod.splits if_splits)

lemma decode_no_props:
  assumes "re_env_ok re" and "em_msg_type msg = Some t" and "em_u msg = U_setup su" and "u_typed t (em_u msg)"
    and "su_sdp_msg su = Some sdp" and "su_props su = None"
  shows "decode_object re curr_time msg_time (ODICT_OBJECT (msg_entries re msg)) econn_message_zero =
    Some (ENOENT, None)"
proof -
  let ?j = "ODICT_OBJECT (msg_entries re msg)"
  have "econn_props_decode re ?j = (ENOENT, None)"
    using props_decode [OF assms(1), of msg None] assms(3,6) by (simp add: opt_props_def)
  moreover have "jzon_str re ?j ''sdp'' = Some sdp"
    using assms by (simp add: member_str hdr_keys_def)
  ultimately have "\<exists>u. decode_union re ?j t = Some (ENOENT, u)"
    using assms(3,4) by (auto simp: decode_setup_def decode_group_setup_def decode_update_def)
  then show ?thesis
    using assms(1,2) by (auto simp: decode_object_def wire_lookups decode_body_def type_found)
qed

lemma setup_plain:
  assumes "em_u msg = U_setup su" and "su_props su = None"
  shows "json_plain 8 (ODICT_OBJECT (msg_entries re msg))"
proof -
  have "list_all (\<lambda>e. json_plain (Suc (Suc l)) (snd e)) (msg_entries re msg)" for l
    using assms by (auto simp: msg_entries_def hdr_entries_def opt_plain opt_props_def)
  then show ?thesis using msg_entries_distinct [of re msg] by (simp add: eval_nat_numeral)
qed

text \<open>Messages for the witnesses.\<close>

definition demo_part :: econn_group_part where
  "demo_part = \<lparr>gp_userid = Some ''u1'', gp_clientid = Some ''c1'', gp_authorized = True,
     gp_muted_state = MUTED_STATE_MUTED, gp_ssrca = 4000000000, gp_ssrcv = 7, gp_ts = 1234\<rparr>"

definition demo_confpart :: econn_message where
  "demo_confpart = econn_message_zero\<lparr>em_msg_type := Some ECONN_CONF_PART, em_sessid_sender := ''s1'',
     em_src_userid := ''u1'', em_resp := True,
     em_u := U_confpart \<lparr>cp_timestamp = 1700000000000, cp_seqno = 3, cp_should_start = True,
       cp_partl = [demo_part, demo_part\<lparr>gp_muted_state := MUTED_STATE_UNKNOWN\<rparr>], cp_entropy = Some [1, 255],
       cp_sftl = [''https://sft'']\<rparr>\<rparr>"

definition demo_update :: econn_message where
  "demo_update = econn_message_zero\<lparr>em_msg_type := Some ECONN_UPDATE, em_sessid_sender := ''s1'',
     em_u := U_setup \<lparr>su_sdp_msg = Some ''v=0'', su_props = None, su_url = None, su_sft_tuple = None\<rparr>\<rparr>"

lemma demo_confpart_ok: "msg_ok demo_confpart"
  by (simp add: msg_ok_def demo_confpart_def demo_part_def part_ok_def econn_message_zero_def ECONN_ID_LEN_def)

section \<open>Properties\<close>

text \<open>
  C16: the encoder writes the format. A message whose union holds the member of its type is encoded
  as the JSON object that \<open>msg_entries\<close> lists, header first and every member under its key, and the
  encoder fails only if the object cannot be printed, with two exceptions that are refused with EINVAL: a PROPSYNC without
  properties and a DEVPAIR_PUBLISH without servers. A message without a type is refused with EBADMSG.
\<close>

theorem econn_message_encode_format:
  assumes "re_env_ok re"
  shows "(case em_msg_type msg of
      None \<Rightarrow> econn_message_encode re msg = Some (EBADMSG, None)
    | Some t \<Rightarrow> u_typed t (em_u msg) \<longrightarrow>
        econn_message_encode re msg = Some (if u_sendable (em_u msg) then wire_text re msg else (EINVAL, None)))"
proof (cases "em_msg_type msg")
  case None
  then show ?thesis using encode_union_refused(1) [OF assms None] by (auto simp: encode_head [OF assms])
next
  case (Some t)
  have "econn_message_encode re msg = Some (EINVAL, None)" if "u_typed t (em_u msg)" "\<not> u_sendable (em_u msg)"
    using encode_union_refused(2) [OF assms Some that] by (auto simp: encode_head [OF assms])
  then show ?thesis using encode_wire [OF assms Some] Some by auto
qed

theorem econn_message_encode_format_witness:
  "econn_message_encode wire_re demo_confpart = Some (wire_text wire_re demo_confpart)"
  using econn_message_encode_format [OF wire_re_ok, of demo_confpart] by (simp add: demo_confpart_def econn_message_zero_def)

text \<open>
  C1: messages survive the wire. What the encoder prints for a message of any type is decoded to the
  same message, with the time and age the receiver gives it, if the message is one that the decoder can
  give (\<open>msg_ok\<close>): its union holds the member of its type with the data that the decoder requires (a description and
  properties for SETUP, GROUPSETUP and UPDATE, address and secret of a call, ids of participants, and so on),
  properties are strings under different keys, only a SETUP has an address and a tuple, a CONFCHECK has no
  properties, ids are shorter than their buffers, numbers fit, at most 32 video streams are asked for, and
  the transient flag, which is not sent, is off.
\<close>

theorem econn_message_roundtrip:
  assumes "re_env_ok re" and "msg_ok msg" and "econn_message_encode re msg = Some (OK, Some str)"
  shows "econn_message_decode re True curr_time msg_time str = Some (OK, Some (stamped curr_time msg_time msg))"
proof -
  obtain t where "em_msg_type msg = Some t" "u_typed t (em_u msg)"
    using assms(2) by (auto simp: msg_ok_def split: option.splits)
  then have "js_print re (ODICT_OBJECT (msg_entries re msg)) = (OK, str)"
    using encode_printed [OF assms(1)] msg_ok_sendable [OF assms(2)] assms(3) by blast
  then show ?thesis by (rule decode_wire [OF assms(1,2)])
qed

theorem econn_message_roundtrip_witness:
  "\<exists>str. econn_message_encode wire_re demo_confpart = Some (OK, Some str) \<and>
     econn_message_decode wire_re True 5 3 str = Some (OK, Some (demo_confpart\<lparr>em_time := 3, em_age := 2\<rparr>))"
proof -
  define str where "str = ser (ODICT_OBJECT (msg_entries wire_re demo_confpart))"
  have "econn_message_encode wire_re demo_confpart = Some (wire_text wire_re demo_confpart)"
    by (rule encode_wire [OF wire_re_ok]) (simp_all add: demo_confpart_def econn_message_zero_def)
  then have str: "econn_message_encode wire_re demo_confpart = Some (OK, Some str)"
    by (simp only: wire_re_prints str_def)
  have "stamped 5 3 demo_confpart = demo_confpart\<lparr>em_time := 3, em_age := 2\<rparr>" by (simp add: stamped_def)
  with econn_message_roundtrip [OF wire_re_ok demo_confpart_ok str, of 5 3]
  have "econn_message_decode wire_re True 5 3 str = Some (OK, Some (demo_confpart\<lparr>em_time := 3, em_age := 2\<rparr>))"
    by (simp only:)
  with str show ?thesis by (intro exI [of _ str] conjI)
qed

text \<open>
  C26: a decoded message is well typed, whatever the text and the library do. Its type is the one the
  text names and its union holds the member of that type, with at most 32 video streams asked for; the
  only other message that is handed out is the cleared one.
\<close>

theorem econn_message_decode_typed:
  assumes "econn_message_decode re mem curr_time msg_time str = Some (OK, Some msg)"
  shows "msg = econn_message_zero \<or>
    (\<exists>jobj type t. jzon_decode re str = (OK, Some jobj) \<and> jzon_str re jobj ''type'' = Some type \<and>
       re_casecmp re type (econn_msg_name t) \<and> em_msg_type msg = Some t \<and> u_typed t (em_u msg) \<and>
       (\<forall>cc. em_u msg = U_confconn cc \<longrightarrow> cc_vstreams cc \<le> 32))"
proof -
  obtain e jo where dec: "jzon_decode re str = (e, jo)" by fastforce
  obtain jobj where "jzon_decode re str = (OK, Some jobj)"
      "decode_object re curr_time msg_time jobj econn_message_zero = Some (OK, Some msg)"
    using assms dec by (cases e; cases jo) (auto simp: econn_message_decode_def econn_message_alloc_def split: if_splits)
  then show ?thesis using decode_object_typed by fast
qed

theorem econn_message_decode_typed_witness:
  "\<exists>str msg. econn_message_decode wire_re True 5 3 str = Some (OK, Some msg) \<and> msg \<noteq> econn_message_zero \<and>
     (\<exists>t. em_msg_type msg = Some t \<and> u_typed t (em_u msg))"
proof -
  have "js_print wire_re (ODICT_OBJECT (msg_entries wire_re demo_confpart)) =
      (OK, ser (ODICT_OBJECT (msg_entries wire_re demo_confpart)))"
    unfolding wire_re_def by simp
  from decode_wire [OF wire_re_ok demo_confpart_ok this]
  have dec: "econn_message_decode wire_re True 5 3 (ser (ODICT_OBJECT (msg_entries wire_re demo_confpart))) =
      Some (OK, Some (stamped 5 3 demo_confpart))" .
  have nz: "stamped 5 3 demo_confpart \<noteq> econn_message_zero"
    by (simp add: stamped_def demo_confpart_def econn_message_zero_def)
  show ?thesis using econn_message_decode_typed [OF dec] dec nz by blast
qed

text \<open>
  C38: a SETUP, GROUPSETUP or UPDATE without properties, which the encoder accepts, is refused by every
  decoder.
\<close>

theorem econn_message_setup_needs_props:
  assumes "re_env_ok re" and "em_msg_type msg = Some t" and "t \<in> {ECONN_SETUP, ECONN_GROUP_SETUP, ECONN_UPDATE}"
    and "em_u msg = U_setup \<lparr>su_sdp_msg = Some sdp, su_props = None, su_url = url, su_sft_tuple = tuple\<rparr>"
    and "econn_message_encode re msg = Some (OK, Some str)"
  shows "econn_message_decode re True curr_time msg_time str = Some (ENOENT, None)"
proof -
  have typed: "u_typed t (em_u msg)" "u_sendable (em_u msg)" using assms(3,4) by simp_all
  have plain: "json_plain 8 (ODICT_OBJECT (msg_entries re msg))" by (rule setup_plain [OF assms(4)]) simp
  show ?thesis
    using decode_printed [OF assms(1) plain encode_printed [OF assms(1,2) typed assms(5)]]
      decode_no_props [OF assms(1,2,4) typed(1)] by simp
qed

theorem econn_message_setup_needs_props_witness:
  "\<exists>str. econn_message_encode wire_re demo_update = Some (OK, Some str) \<and>
     econn_message_decode wire_re True 5 3 str = Some (ENOENT, None)"
proof -
  have "econn_message_encode wire_re demo_update = Some (wire_text wire_re demo_update)"
    by (rule encode_wire [OF wire_re_ok, where t = ECONN_UPDATE]) (simp_all add: demo_update_def econn_message_zero_def)
  then obtain str where str: "econn_message_encode wire_re demo_update = Some (OK, Some str)"
    unfolding wire_re_prints by blast
  have "em_msg_type demo_update = Some ECONN_UPDATE"
    "em_u demo_update = U_setup \<lparr>su_sdp_msg = Some ''v=0'', su_props = None, su_url = None, su_sft_tuple = None\<rparr>"
    by (simp_all add: demo_update_def)
  with str show ?thesis
    using econn_message_setup_needs_props [OF wire_re_ok _ _ _ str, of ECONN_UPDATE] by fastforce
qed

text \<open>
  C39: a text with a type and the right version but without a session id is reported as decoded, and the
  caller gets a message of no type.
\<close>

theorem econn_message_decode_no_sessid:
  assumes "jzon_decode re str = (OK, Some jobj)" and "jzon_str re jobj ''type'' = Some type"
    and "jzon_str re jobj ''version'' = Some ver" and "re_casecmp re econn_proto_version ver"
    and "jzon_str re jobj ''sessid'' = None"
  shows "econn_message_decode re True curr_time msg_time str = Some (OK, Some econn_message_zero)"
  using assms by (simp add: econn_message_decode_def econn_message_alloc_def decode_object_def)

theorem econn_message_decode_no_sessid_witness:
  "econn_message_decode wire_re True 5 3 ''{,7:versions3:3.0,4:types6:CANCEL}'' = Some (OK, Some econn_message_zero)"
proof (rule econn_message_decode_no_sessid [where type = "''CANCEL''" and ver = "''3.0''" and
      jobj = "ODICT_OBJECT [(''version'', ODICT_STRING ''3.0''), (''type'', ODICT_STRING ''CANCEL'')]"])
  show "jzon_decode wire_re ''{,7:versions3:3.0,4:types6:CANCEL}'' =
      (OK, Some (ODICT_OBJECT [(''version'', ODICT_STRING ''3.0''), (''type'', ODICT_STRING ''CANCEL'')]))"
    by code_simp
qed (simp_all add: jzon_str_def json_object_object_get_ex_def wire_re_def json_object_get_string_def econn_proto_version_def)

end
