(* ===== verification/Userlist.thy ===== *)
theory Userlist
  imports Econn_Msg
begin

text \<open>
  The participants of a conference, \<^verbatim>\<open>src/src/userlist/userlist.c\<close> and \<^verbatim>\<open>src/src/userlist/hash.c\<close>, with
  the clients of \<^verbatim>\<open>src/src/icall/icall.c\<close> and the audio levels of \<^verbatim>\<open>src/src/audio_level/audio_level.c\<close>.
  The list keeps who the backend approved (the SE list) and who the server reports in the call (the
  SFT list), elects the key generator and says who needs a key.

  A \<^verbatim>\<open>struct userinfo\<close> has an address \<open>ui_addr\<close>; the pointer \<^verbatim>\<open>keygenerator\<close> is \<open>Kg_self\<close> or the address of
  a member of the list. The callbacks are a trace. String comparison, SHA-256 and the list sort are
  the fields of \<open>ul_env\<close>; allocations succeed unless a parameter says otherwise.
\<close>

section \<open>Audio levels\<close>

record audio_level =
  al_userid :: "string option"
  al_clientid :: "string option"
  al_aulevel :: u8
  al_aulevel_smooth :: u8
  al_is_self :: bool

definition audio_level_alloc ::
  "bool \<Rightarrow> err \<Rightarrow> bool \<Rightarrow> string option \<Rightarrow> string option \<Rightarrow> u8 \<Rightarrow> u8 \<Rightarrow> audio_level list
   \<Rightarrow> err \<times> audio_level list" where
  "audio_level_alloc mem dup_err is_self userid clientid aulevel aulevel_smooth levell =
     (if \<not> mem then (ENOMEM, levell)
      else if dup_err \<noteq> OK then (dup_err, levell)
      else (OK, levell @ [\<lparr>al_userid = userid, al_clientid = clientid, al_aulevel = aulevel,
                          al_aulevel_smooth = aulevel_smooth, al_is_self = is_self\<rparr>]))"

definition audio_level_val :: "audio_level \<Rightarrow> int" where
  "audio_level_val a = uint (al_aulevel a)"

definition audio_level_set :: "audio_level \<Rightarrow> u8 \<Rightarrow> u8 \<Rightarrow> audio_level" where
  "audio_level_set a aulevel aulevel_smooth = a\<lparr>al_aulevel := aulevel, al_aulevel_smooth := aulevel_smooth\<rparr>"

text \<open>\<^verbatim>\<open>streq\<close> reads both strings; a NULL is undefined.\<close>

definition audio_level_eq :: "audio_level \<Rightarrow> audio_level \<Rightarrow> bool option" where
  "audio_level_eq a b =
     (case (al_userid a, al_userid b) of
        (Some u, Some v) \<Rightarrow>
          if u \<noteq> v then Some False
          else (case (al_clientid a, al_clientid b) of
                  (Some c, Some d) \<Rightarrow> Some (c = d) | _ \<Rightarrow> None)
      | _ \<Rightarrow> None)"

definition audio_level_list_cmp :: "audio_level \<Rightarrow> audio_level \<Rightarrow> bool" where
  "audio_level_list_cmp a b \<longleftrightarrow> al_aulevel_smooth b \<le> al_aulevel_smooth a"

section \<open>Clients\<close>

datatype icall_vstate =
  ICALL_VIDEO_STATE_STOPPED | ICALL_VIDEO_STATE_STARTED | ICALL_VIDEO_STATE_BAD_CONN
  | ICALL_VIDEO_STATE_PAUSED | ICALL_VIDEO_STATE_SCREENSHARE

datatype icall_audio_state =
  ICALL_AUDIO_STATE_CONNECTING | ICALL_AUDIO_STATE_ESTABLISHED | ICALL_AUDIO_STATE_NETWORK_PROBLEM

fun icall_vstate_name :: "icall_vstate \<Rightarrow> string" where
  "icall_vstate_name ICALL_VIDEO_STATE_STOPPED = ''STOPPED''"
| "icall_vstate_name ICALL_VIDEO_STATE_STARTED = ''STARTED''"
| "icall_vstate_name ICALL_VIDEO_STATE_SCREENSHARE = ''SCREENSHARE''"
| "icall_vstate_name ICALL_VIDEO_STATE_BAD_CONN = ''BADCONN''"
| "icall_vstate_name ICALL_VIDEO_STATE_PAUSED = ''PAUSED''"

record icall_client =
  cli_userid :: "string option"
  cli_clientid :: "string option"
  cli_in_subconv :: bool
  cli_quality :: int
  cli_vstate :: icall_vstate

definition make_lower :: "string \<Rightarrow> string" where
  "make_lower str = map tolower str"

definition icall_client_alloc :: "string option \<Rightarrow> string option \<Rightarrow> icall_client" where
  "icall_client_alloc userid clientid =
     \<lparr>cli_userid = map_option make_lower userid, cli_clientid = map_option make_lower clientid,
      cli_in_subconv = False, cli_quality = 0, cli_vstate = ICALL_VIDEO_STATE_STOPPED\<rparr>"

section \<open>Hashes\<close>

record userinfo =
  ui_addr :: nat
  ui_userid_real :: "string option"
  ui_userid_hash :: "string option"
  ui_clientid_real :: "string option"
  ui_clientid_hash :: "string option"
  ui_ssrca :: u32
  ui_ssrcv :: u32
  ui_video_state :: icall_vstate
  ui_in_subconv :: bool
  ui_was_in_subconv :: bool
  ui_first_epoch :: u32
  ui_latest_epoch :: u32
  ui_needs_key :: bool
  ui_incall_now :: bool
  ui_incall_prev :: bool
  ui_was_se_approved :: bool
  ui_se_approved :: bool
  ui_force_decoder :: bool
  ui_listpos :: u32
  ui_muted :: bool
  ui_active_audio :: bool
  ui_active_prev :: bool

text \<open>
  \<open>ue_caseeq\<close>: \<^verbatim>\<open>strcaseeq\<close>, which accepts NULL; \<open>ue_sha256\<close>: the code and the 32 bytes after an update with
  each of the pieces.
\<close>

record ul_env =
  ue_caseeq :: "string option \<Rightarrow> string option \<Rightarrow> bool"
  ue_sha256 :: "bytes list \<Rightarrow> err \<times> bytes"
  ue_sort :: "(userinfo \<Rightarrow> userinfo \<Rightarrow> bool) \<Rightarrow> userinfo list \<Rightarrow> userinfo list"

definition str_bytes :: "string \<Rightarrow> bytes" where
  "str_bytes x = map of_char x"

definition hexstr :: string where
  "hexstr = ''0123456789abcdef''"

fun hex_loop :: "bytes \<Rightarrow> nat \<Rightarrow> string option" where
  "hex_loop hash 0 = Some []"
| "hex_loop hash (Suc n) =
     do {
       dest \<leftarrow> hex_loop hash n;
       b \<leftarrow> load hash n;
       Some (dest @ [hexstr ! unat (drop_bit 4 b), hexstr ! unat (b AND 0xf)]) }"

definition hash_conv :: "ul_env \<Rightarrow> bytes \<Rightarrow> string \<Rightarrow> (err \<times> string option) option" where
  "hash_conv env secret convid =
     (case ue_sha256 env [secret, str_bytes convid] of
        (e, hash) \<Rightarrow>
          if e \<noteq> OK then Some (e, None)
          else map_option (\<lambda>dest. (OK, Some dest)) (hex_loop hash 16))"

definition hash_user ::
  "ul_env \<Rightarrow> bytes \<Rightarrow> string option \<Rightarrow> string option \<Rightarrow> (err \<times> string option) option" where
  "hash_user env secret userid clientid =
     (case (userid, clientid) of
        (Some u, Some c) \<Rightarrow>
          (case ue_sha256 env [secret, str_bytes u, str_bytes c] of
             (e, hash) \<Rightarrow>
               if e \<noteq> OK then Some (e, None)
               else map_option (\<lambda>dest. (OK, Some dest)) (hex_loop hash 16))
      | _ \<Rightarrow> Some (EINVAL, None))"

section \<open>The list\<close>

definition LIST_POS_NONE :: u32 where
  "LIST_POS_NONE = 0xFFFFFFFF"

definition userinfo_zero :: userinfo where
  "userinfo_zero = \<lparr>ui_addr = 0, ui_userid_real = None, ui_userid_hash = None, ui_clientid_real = None,
     ui_clientid_hash = None, ui_ssrca = 0, ui_ssrcv = 0, ui_video_state = ICALL_VIDEO_STATE_STOPPED,
     ui_in_subconv = False, ui_was_in_subconv = False, ui_first_epoch = 0, ui_latest_epoch = 0,
     ui_needs_key = False, ui_incall_now = False, ui_incall_prev = False, ui_was_se_approved = False,
     ui_se_approved = False, ui_force_decoder = False, ui_listpos = 0, ui_muted = False,
     ui_active_audio = False, ui_active_prev = False\<rparr>"

definition userinfo_alloc ::
  "bool \<Rightarrow> string option \<Rightarrow> string option \<Rightarrow> string option \<Rightarrow> string option \<Rightarrow> err \<times> userinfo option" where
  "userinfo_alloc mem userid_real clientid_real userid_hash clientid_hash =
     (if \<not> mem then (ENOMEM, None)
      else (OK, Some (userinfo_zero\<lparr>ui_userid_real := userid_real, ui_clientid_real := clientid_real,
                        ui_userid_hash := userid_hash, ui_clientid_hash := clientid_hash\<rparr>)))"

datatype kg_ref = Kg_self | Kg_user nat

datatype ul_act =
    Addh userinfo
  | Removeh userinfo bool
  | Synch
  | Kgchangeh kg_ref bool bool
  | Vstateh userinfo icall_vstate

record ul_handlers =
  uh_addh :: bool
  uh_removeh :: bool
  uh_synch :: bool
  uh_kgchangeh :: bool
  uh_vstateh :: bool

text \<open>\<open>ul_next\<close> is the address of the next member.\<close>

record userlist =
  ul_users :: "userinfo list"
  ul_self :: userinfo
  ul_keygenerator :: "kg_ref option"
  ul_handlers :: ul_handlers
  ul_trace :: "ul_act list"
  ul_next :: nat

definition ul_act :: "ul_act \<Rightarrow> userlist \<Rightarrow> userlist" where
  "ul_act a ul = ul\<lparr>ul_trace := ul_trace ul @ [a]\<rparr>"

definition userlist_alloc ::
  "bool \<Rightarrow> bool \<Rightarrow> string option \<Rightarrow> string option \<Rightarrow> ul_handlers \<Rightarrow> err \<times> userlist option" where
  "userlist_alloc mem mem_self userid_self clientid_self h =
     (if \<not> mem then (ENOMEM, None)
      else case userinfo_alloc mem_self userid_self clientid_self None None of
             (OK, Some self) \<Rightarrow>
               (OK, Some \<lparr>ul_users = [], ul_self = self\<lparr>ui_latest_epoch := 0\<rparr>, ul_keygenerator = None,
                          ul_handlers = h, ul_trace = [], ul_next = 1\<rparr>)
           | (e, _) \<Rightarrow> (e, None))"

definition userlist_sort_h :: "userinfo \<Rightarrow> userinfo \<Rightarrow> bool" where
  "userlist_sort_h a b \<longleftrightarrow> ui_listpos a \<le> ui_listpos b"

definition userlist_get_count :: "userlist \<Rightarrow> nat" where
  "userlist_get_count ul = length (ul_users ul)"

definition userlist_get_self :: "userlist \<Rightarrow> userinfo" where
  "userlist_get_self ul = ul_self ul"

definition real_matches :: "ul_env \<Rightarrow> string option \<Rightarrow> string option \<Rightarrow> userinfo \<Rightarrow> bool" where
  "real_matches env userid_real clientid_real u \<longleftrightarrow>
     ui_userid_real u \<noteq> None \<and> ui_clientid_real u \<noteq> None \<and>
     ue_caseeq env (ui_userid_real u) userid_real \<and> ue_caseeq env (ui_clientid_real u) clientid_real"

definition userlist_find_by_real ::
  "ul_env \<Rightarrow> userinfo list \<Rightarrow> string option \<Rightarrow> string option \<Rightarrow> userinfo option" where
  "userlist_find_by_real env users userid_real clientid_real =
     (if userid_real = None \<or> clientid_real = None then None
      else List.find (real_matches env userid_real clientid_real) users)"

definition hash_matches :: "ul_env \<Rightarrow> string option \<Rightarrow> string option \<Rightarrow> userinfo \<Rightarrow> bool" where
  "hash_matches env userid_hash clientid_hash u \<longleftrightarrow>
     ui_userid_hash u \<noteq> None \<and> ui_clientid_hash u \<noteq> None \<and>
     ue_caseeq env (ui_userid_hash u) userid_hash \<and> ue_caseeq env (ui_clientid_hash u) clientid_hash"

definition userlist_find_by_hash ::
  "ul_env \<Rightarrow> userinfo list \<Rightarrow> string option \<Rightarrow> string option \<Rightarrow> userinfo option" where
  "userlist_find_by_hash env users userid_hash clientid_hash =
     (if userid_hash = None \<or> clientid_hash = None then None
      else List.find (hash_matches env userid_hash clientid_hash) users)"

definition userlist_is_keygenerator_me :: "userlist \<Rightarrow> bool" where
  "userlist_is_keygenerator_me ul \<longleftrightarrow> ul_keygenerator ul = Some Kg_self"

definition userlist_get_keygenerator :: "userlist \<Rightarrow> kg_ref option" where
  "userlist_get_keygenerator ul = ul_keygenerator ul"

definition userlist_reset_keygenerator :: "userlist \<Rightarrow> userlist" where
  "userlist_reset_keygenerator ul = ul\<lparr>ul_keygenerator := None\<rparr>"

text \<open>Assignments through a pointer to a member.\<close>

definition upd_user :: "nat \<Rightarrow> (userinfo \<Rightarrow> userinfo) \<Rightarrow> userinfo list \<Rightarrow> userinfo list" where
  "upd_user a f users = map (\<lambda>u. if ui_addr u = a then f u else u) users"

definition hash_userinfo :: "ul_env \<Rightarrow> bytes \<Rightarrow> userinfo \<Rightarrow> userinfo option" where
  "hash_userinfo env secret u =
     do {
       (e, h) \<leftarrow> hash_user env secret (ui_userid_real u) (ui_clientid_real u);
       Some (u\<lparr>ui_userid_hash := h, ui_clientid_hash := Some ''_''\<rparr>) }"

fun hash_all :: "ul_env \<Rightarrow> bytes \<Rightarrow> userinfo list \<Rightarrow> userinfo list option" where
  "hash_all env secret [] = Some []"
| "hash_all env secret (u # us) =
     do {
       u' \<leftarrow> hash_userinfo env secret u;
       us' \<leftarrow> hash_all env secret us;
       Some (u' # us') }"

definition userlist_set_secret :: "ul_env \<Rightarrow> userlist \<Rightarrow> bytes \<Rightarrow> (err \<times> userlist) option" where
  "userlist_set_secret env ul secret =
     do {
       self \<leftarrow> hash_userinfo env secret (ul_self ul);
       users \<leftarrow> hash_all env secret (ul_users ul);
       Some (OK, ul\<lparr>ul_self := self, ul_users := users\<rparr>) }"

definition track_keygenerator_change :: "kg_ref option \<Rightarrow> userlist \<Rightarrow> userlist" where
  "track_keygenerator_change prev ul =
     (case ul_keygenerator ul of
        None \<Rightarrow> ul
      | Some kg \<Rightarrow>
          if Some kg = prev then ul
          else if uh_kgchangeh (ul_handlers ul) then ul_act (Kgchangeh kg (kg = Kg_self) (prev = None)) ul
          else ul)"

section \<open>The list of the server\<close>

definition is_self :: "ul_env \<Rightarrow> userlist \<Rightarrow> econn_group_part \<Rightarrow> bool" where
  "is_self env ul p \<longleftrightarrow> ue_caseeq env (ui_userid_hash (ul_self ul)) (gp_userid p) \<and>
     ue_caseeq env (ui_clientid_hash (ul_self ul)) (gp_clientid p)"

text \<open>The result is the position of the list element.\<close>

fun find_first_approved :: "ul_env \<Rightarrow> userlist \<Rightarrow> nat \<Rightarrow> econn_group_part list \<Rightarrow> nat option" where
  "find_first_approved env ul i [] = None"
| "find_first_approved env ul i (p # ps) =
     (if is_self env ul p then Some i
      else case userlist_find_by_hash env (ul_users ul) (gp_userid p) (gp_clientid p) of
             Some u \<Rightarrow> if ui_se_approved u then Some i else find_first_approved env ul (i + 1) ps
           | None \<Rightarrow> find_first_approved env ul (i + 1) ps)"

text \<open>The state of the loop over the server's list: the list, the position and the four flags.\<close>

record sft_state =
  ss_ul :: userlist
  ss_listpos :: u32
  ss_self_changed :: bool
  ss_list_changed :: bool
  ss_sync_decoders :: bool
  ss_missing :: bool

definition sft_self :: "bool \<Rightarrow> econn_group_part \<Rightarrow> sft_state \<Rightarrow> sft_state" where
  "sft_self is_first p st =
     (let ul = ss_ul st;
          ul = (if is_first then ul\<lparr>ul_keygenerator := Some Kg_self\<rparr> else ul);
          self = ul_self ul;
          differs = (ui_ssrca self \<noteq> gp_ssrca p \<or> ui_ssrcv self \<noteq> gp_ssrcv p);
          self = (if differs then self\<lparr>ui_ssrca := gp_ssrca p, ui_ssrcv := gp_ssrcv p\<rparr> else self);
          self = self\<lparr>ui_listpos := ss_listpos st\<rparr>
      in st\<lparr>ss_ul := ul\<lparr>ul_self := self\<rparr>, ss_self_changed := differs, ss_listpos := ss_listpos st + 1\<rparr>)"

definition sft_found :: "bool \<Rightarrow> econn_group_part \<Rightarrow> userinfo \<Rightarrow> sft_state \<Rightarrow> sft_state" where
  "sft_found is_first p u st =
     (let ul = ss_ul st;
          ul = (if is_first then ul\<lparr>ul_keygenerator := Some (Kg_user (ui_addr u))\<rparr> else ul);
          moved = (ui_incall_prev u \<and> (ui_ssrca u \<noteq> gp_ssrca p \<or> ui_ssrcv u \<noteq> gp_ssrcv p));
          ul = (if moved \<and> uh_removeh (ul_handlers ul) then ul_act (Removeh u (gp_ssrcv p = 0)) ul else ul);
          muted = (case gp_muted_state p of
                     MUTED_STATE_UNKNOWN \<Rightarrow> ui_muted u
                   | MUTED_STATE_MUTED \<Rightarrow> True
                   | MUTED_STATE_UNMUTED \<Rightarrow> False);
          u' = (if moved then u\<lparr>ui_incall_prev := False\<rparr> else u);
          u' = u'\<lparr>ui_incall_now := True, ui_ssrca := gp_ssrca p, ui_ssrcv := gp_ssrcv p, ui_muted := muted,
                  ui_listpos := ss_listpos st\<rparr>
      in st\<lparr>ss_ul := ul\<lparr>ul_users := upd_user (ui_addr u) (\<lambda>_. u') (ul_users ul)\<rparr>,
            ss_sync_decoders := ss_sync_decoders st \<or> moved,
            ss_list_changed := ss_list_changed st \<or> moved \<or> muted \<noteq> ui_muted u,
            ss_listpos := ss_listpos st + 1\<rparr>)"

definition sft_new :: "econn_group_part \<Rightarrow> sft_state \<Rightarrow> sft_state" where
  "sft_new p st =
     (let ul = ss_ul st;
          u = userinfo_zero\<lparr>ui_addr := ul_next ul, ui_userid_hash := gp_userid p, ui_clientid_hash := gp_clientid p,
                ui_ssrca := gp_ssrca p, ui_ssrcv := gp_ssrcv p, ui_incall_now := True, ui_latest_epoch := 0,
                ui_listpos := ss_listpos st\<rparr>
      in st\<lparr>ss_ul := ul\<lparr>ul_users := ul_users ul @ [u], ul_next := ul_next ul + 1\<rparr>, ss_missing := True,
            ss_listpos := ss_listpos st + 1\<rparr>)"

definition sft_part :: "ul_env \<Rightarrow> nat option \<Rightarrow> nat \<Rightarrow> econn_group_part \<Rightarrow> sft_state \<Rightarrow> sft_state" where
  "sft_part env first_approved i p st =
     (if is_self env (ss_ul st) p then sft_self (first_approved = Some i) p st
      else case userlist_find_by_hash env (ul_users (ss_ul st)) (gp_userid p) (gp_clientid p) of
             Some u \<Rightarrow> sft_found (first_approved = Some i) p u st
           | None \<Rightarrow> sft_new p st)"

fun sft_loop :: "ul_env \<Rightarrow> nat option \<Rightarrow> nat \<Rightarrow> econn_group_part list \<Rightarrow> sft_state \<Rightarrow> sft_state" where
  "sft_loop env first_approved i [] st = st"
| "sft_loop env first_approved i (p # ps) st =
     sft_loop env first_approved (i + 1) ps (sft_part env first_approved i p st)"

text \<open>The second loop, for one member: the callback, the member, and whether to sync and report a change.\<close>

definition sft_join_leave :: "ul_handlers \<Rightarrow> userinfo \<Rightarrow> ul_act list \<times> userinfo \<times> bool \<times> bool" where
  "sft_join_leave h u =
     (if \<not> ui_se_approved u then ([], u, False, False)
      else if ui_force_decoder u \<or> (ui_incall_now u \<and> \<not> ui_incall_prev u) then
        (let add = (uh_addh h \<and> (ui_ssrca u \<noteq> 0 \<or> ui_ssrcv u \<noteq> 0))
         in (if add then [Addh u] else [], u\<lparr>ui_force_decoder := False, ui_needs_key := True\<rparr>, add, True))
      else if \<not> ui_incall_now u \<and> ui_incall_prev u then
        (if uh_removeh h then [Removeh u True] else [],
         u\<lparr>ui_ssrca := 0, ui_ssrcv := 0, ui_video_state := ICALL_VIDEO_STATE_STOPPED\<rparr>, True, True)
      else ([], u, False, False))"

text \<open>Before the loop, and after it.\<close>

definition sft_begin :: "userlist \<Rightarrow> userlist" where
  "sft_begin ul =
     ul\<lparr>ul_self := (ul_self ul)\<lparr>ui_listpos := LIST_POS_NONE\<rparr>, ul_keygenerator := None,
        ul_users := map (\<lambda>u. u\<lparr>ui_incall_prev := ui_incall_now u, ui_incall_now := False,
                             ui_listpos := LIST_POS_NONE\<rparr>) (ul_users ul)\<rparr>"

definition sft_settle :: "sft_state \<Rightarrow> userlist \<times> bool \<times> bool \<times> bool" where
  "sft_settle st =
     (let ul = ss_ul st;
          rs = map (sft_join_leave (ul_handlers ul)) (ul_users ul);
          ul = ul\<lparr>ul_trace := ul_trace ul @ concat (map fst rs), ul_users := map (\<lambda>r. fst (snd r)) rs\<rparr>;
          sync_decoders = (ss_sync_decoders st \<or> list_ex (\<lambda>r. fst (snd (snd r))) rs);
          list_changed = (ss_list_changed st \<or> list_ex (\<lambda>r. snd (snd (snd r))) rs);
          ul = (if sync_decoders \<and> uh_synch (ul_handlers ul) then ul_act Synch ul else ul)
      in (ul, list_changed, ss_self_changed st, ss_missing st))"

definition sft_sort :: "ul_env \<Rightarrow> userlist \<Rightarrow> userlist" where
  "sft_sort env ul = ul\<lparr>ul_users := ue_sort env userlist_sort_h (ul_users ul)\<rparr>"

definition sft_end :: "ul_env \<Rightarrow> kg_ref option \<Rightarrow> sft_state \<Rightarrow> userlist \<times> bool \<times> bool \<times> bool" where
  "sft_end env prev st =
     (let (ul, flags) = sft_settle st
      in (sft_sort env (track_keygenerator_change prev ul), flags))"

text \<open>The walk over the server's list, and the whole update. The result: the list, \<^verbatim>\<open>*changed\<close>, \<^verbatim>\<open>*self_changed\<close> and \<^verbatim>\<open>*missing_parts\<close>.\<close>

definition sft_walk :: "ul_env \<Rightarrow> userlist \<Rightarrow> econn_group_part list \<Rightarrow> bool \<Rightarrow> sft_state" where
  "sft_walk env ul partlist self_changed =
     (let ul = sft_begin ul
      in sft_loop env (find_first_approved env ul 0 partlist) 0 partlist
           \<lparr>ss_ul = ul, ss_listpos = 0, ss_self_changed = self_changed, ss_list_changed = False,
            ss_sync_decoders = False, ss_missing = False\<rparr>)"

definition userlist_update_from_sftlist ::
  "ul_env \<Rightarrow> userlist \<Rightarrow> econn_group_part list \<Rightarrow> bool \<Rightarrow> userlist \<times> bool \<times> bool \<times> bool" where
  "userlist_update_from_sftlist env ul partlist self_changed =
     sft_end env (ul_keygenerator ul) (sft_walk env ul partlist self_changed)"

section \<open>The list of the backend\<close>

record se_state =
  se_ul :: userlist
  se_list_changed :: bool
  se_sync_decoders :: bool

text \<open>A client that is not known by its real ids: a member the server named first, or a new one.\<close>

definition se_approve_hash ::
  "kg_ref option \<Rightarrow> u32 \<Rightarrow> icall_client \<Rightarrow> userinfo \<Rightarrow> se_state \<Rightarrow> se_state \<times> nat" where
  "se_approve_hash prev epoch cli user st =
     (let user' = user\<lparr>ui_userid_real := cli_userid cli, ui_clientid_real := cli_clientid cli,
                       ui_first_epoch := epoch\<rparr>;
          ul = se_ul st;
          ul = ul\<lparr>ul_users := upd_user (ui_addr user) (\<lambda>_. user') (ul_users ul)\<rparr>;
          add = (uh_addh (ul_handlers ul) \<and> (ui_ssrca user' \<noteq> 0 \<or> ui_ssrcv user' \<noteq> 0));
          ul = (if add then ul_act (Addh user') ul else ul);
          ul = (if ui_listpos user' = 0
                then track_keygenerator_change prev (ul\<lparr>ul_keygenerator := Some (Kg_user (ui_addr user))\<rparr>)
                else ul);
          ul = ul\<lparr>ul_users := upd_user (ui_addr user) (\<lambda>v. v\<lparr>ui_needs_key := True, ui_force_decoder := False\<rparr>)
                              (ul_users ul)\<rparr>
      in (st\<lparr>se_ul := ul, se_list_changed := True, se_sync_decoders := se_sync_decoders st \<or> add\<rparr>, ui_addr user))"

definition se_add :: "userinfo \<Rightarrow> se_state \<Rightarrow> se_state \<times> nat" where
  "se_add u st =
     (let ul = se_ul st;
          u = u\<lparr>ui_addr := ul_next ul\<rparr>
      in (st\<lparr>se_ul := ul\<lparr>ul_users := ul_users ul @ [u], ul_next := ul_next ul + 1\<rparr>, se_list_changed := True\<rparr>,
          ui_addr u))"

definition se_user ::
  "ul_env \<Rightarrow> kg_ref option \<Rightarrow> u32 \<Rightarrow> bytes \<Rightarrow> icall_client \<Rightarrow> se_state \<Rightarrow> (se_state \<times> nat) option" where
  "se_user env prev epoch secret cli st =
     (case userlist_find_by_real env (ul_users (se_ul st)) (cli_userid cli) (cli_clientid cli) of
        Some user \<Rightarrow> do {
          user' \<leftarrow> hash_userinfo env secret user;
          Some (st\<lparr>se_ul := (se_ul st)\<lparr>ul_users := upd_user (ui_addr user) (\<lambda>_. user') (ul_users (se_ul st))\<rparr>\<rparr>,
                ui_addr user) }
      | None \<Rightarrow> do {
          u \<leftarrow> hash_userinfo env secret
                (userinfo_zero\<lparr>ui_userid_real := cli_userid cli, ui_clientid_real := cli_clientid cli\<rparr>);
          case userlist_find_by_hash env (ul_users (se_ul st)) (ui_userid_hash u) (ui_clientid_hash u) of
            Some user \<Rightarrow> Some (if \<not> ui_se_approved user then se_approve_hash prev epoch cli user st
                              else se_add u st)
          | None \<Rightarrow> Some (se_add u st) })"

definition se_approve :: "u32 \<Rightarrow> icall_client \<Rightarrow> userinfo \<Rightarrow> userinfo" where
  "se_approve epoch cli u =
     (let u = u\<lparr>ui_se_approved := True, ui_in_subconv := cli_in_subconv cli\<rparr>
      in if ui_in_subconv u \<and> ui_first_epoch u = 0 then u\<lparr>ui_first_epoch := epoch\<rparr> else u)"

definition se_client ::
  "ul_env \<Rightarrow> kg_ref option \<Rightarrow> u32 \<Rightarrow> bytes \<Rightarrow> icall_client \<Rightarrow> se_state \<Rightarrow> se_state option" where
  "se_client env prev epoch secret cli st =
     (if ue_caseeq env (ui_userid_real (ul_self (se_ul st))) (cli_userid cli) \<and>
         ue_caseeq env (ui_clientid_real (ul_self (se_ul st))) (cli_clientid cli) then Some st
      else do {
        (st, a) \<leftarrow> se_user env prev epoch secret cli st;
        Some (st\<lparr>se_ul := (se_ul st)\<lparr>ul_users := upd_user a (se_approve epoch cli) (ul_users (se_ul st))\<rparr>\<rparr>) })"

fun se_loop ::
  "ul_env \<Rightarrow> kg_ref option \<Rightarrow> u32 \<Rightarrow> bytes \<Rightarrow> icall_client list \<Rightarrow> se_state \<Rightarrow> se_state option" where
  "se_loop env prev epoch secret [] st = Some st"
| "se_loop env prev epoch secret (cli # cls) st =
     do {
       st \<leftarrow> se_client env prev epoch secret cli st;
       se_loop env prev epoch secret cls st }"

definition se_begin :: "userlist \<Rightarrow> userlist" where
  "se_begin ul =
     ul\<lparr>ul_users := map (\<lambda>u. u\<lparr>ui_was_se_approved := ui_se_approved u, ui_se_approved := False,
          ui_was_in_subconv := ui_in_subconv u, ui_in_subconv := False\<rparr>) (ul_users ul)\<rparr>"

text \<open>The flags \<^verbatim>\<open>changed\<close> and \<^verbatim>\<open>removed\<close> are the second and third part of the result.\<close>

definition se_end :: "se_state \<Rightarrow> userlist \<times> bool \<times> bool" where
  "se_end st =
     (let ul = se_ul st;
          changes = (\<lambda>u. \<not> ui_in_subconv u \<and> ui_was_in_subconv u \<or> ui_se_approved u \<noteq> ui_was_se_approved u);
          list_removed = list_ex changes (ul_users ul);
          ul = ul\<lparr>ul_users := map (\<lambda>u. if \<not> ui_in_subconv u then u\<lparr>ui_first_epoch := 0\<rparr> else u) (ul_users ul)\<rparr>;
          ul = (if se_sync_decoders st \<and> uh_synch (ul_handlers ul) then ul_act Synch ul else ul)
      in (ul, se_list_changed st \<or> list_removed, list_removed))"

definition userlist_update_from_selist ::
  "ul_env \<Rightarrow> userlist \<Rightarrow> icall_client list \<Rightarrow> u32 \<Rightarrow> bytes \<Rightarrow> (userlist \<times> bool \<times> bool) option" where
  "userlist_update_from_selist env ul clientl epoch secret =
     map_option se_end
       (se_loop env (ul_keygenerator ul) epoch secret clientl
          \<lparr>se_ul = se_begin ul, se_list_changed = False, se_sync_decoders = False\<rparr>)"

section \<open>Epochs and keys\<close>

definition userlist_set_latest_epoch :: "userlist \<Rightarrow> u32 \<Rightarrow> err \<times> userlist" where
  "userlist_set_latest_epoch ul epoch = (OK, ul\<lparr>ul_self := (ul_self ul)\<lparr>ui_latest_epoch := epoch\<rparr>\<rparr>)"

definition userlist_get_latest_epoch :: "userlist \<Rightarrow> err \<times> u32" where
  "userlist_get_latest_epoch ul = (OK, ui_latest_epoch (ul_self ul))"

definition userlist_set_latest_epoch_for_client ::
  "ul_env \<Rightarrow> userlist \<Rightarrow> string option \<Rightarrow> string option \<Rightarrow> u32 \<Rightarrow> err \<times> userlist" where
  "userlist_set_latest_epoch_for_client env ul userid_real clientid_real epoch =
     (case userlist_find_by_real env (ul_users ul) userid_real clientid_real of
        None \<Rightarrow> (ENOENT, ul)
      | Some user \<Rightarrow>
          (OK, ul\<lparr>ul_users := upd_user (ui_addr user) (\<lambda>u. u\<lparr>ui_latest_epoch := epoch\<rparr>) (ul_users ul)\<rparr>))"

definition key_index_step :: "userinfo \<Rightarrow> u32 \<Rightarrow> u32" where
  "key_index_step u min_key =
     (if ui_se_approved u \<and> ui_in_subconv u \<and> ui_incall_now u \<and>
         0 < ui_latest_epoch u \<and> (min_key = 0 \<or> ui_latest_epoch u < min_key)
      then ui_latest_epoch u else min_key)"

definition userlist_get_key_index :: "userlist \<Rightarrow> u32" where
  "userlist_get_key_index ul = fold key_index_step (ul_users ul) (ui_latest_epoch (ul_self ul))"

definition userlist_incall_clear :: "userlist \<Rightarrow> bool \<Rightarrow> bool \<Rightarrow> userlist" where
  "userlist_incall_clear ul force_decoder again =
     ul\<lparr>ul_users := map (\<lambda>u.
          let u = u\<lparr>ui_incall_now := ui_incall_now u \<and> force_decoder\<rparr>;
              u = u\<lparr>ui_force_decoder := ui_incall_now u, ui_incall_prev := False\<rparr>
          in if \<not> again then u\<lparr>ui_ssrca := 0, ui_ssrcv := 0\<rparr> else u) (ul_users ul)\<rparr>"

definition userlist_incall_count :: "userlist \<Rightarrow> u32" where
  "userlist_incall_count ul = fold (\<lambda>u n. if ui_incall_now u then n + 1 else n) (ul_users ul) 0"

fun key_targets_loop :: "bool \<Rightarrow> userinfo list \<Rightarrow> icall_client list \<times> userinfo list" where
  "key_targets_loop send_to_all [] = ([], [])"
| "key_targets_loop send_to_all (u # us) =
     (case key_targets_loop send_to_all us of
        (cs, us') \<Rightarrow>
          if ui_incall_now u \<and> ui_se_approved u \<and> (ui_needs_key u \<or> send_to_all)
          then (icall_client_alloc (ui_userid_real u) (ui_clientid_real u) # cs, u\<lparr>ui_needs_key := False\<rparr> # us')
          else (cs, u # us'))"

definition userlist_get_key_targets :: "userlist \<Rightarrow> bool \<Rightarrow> err \<times> icall_client list \<times> userlist" where
  "userlist_get_key_targets ul send_to_all =
     (case key_targets_loop send_to_all (ul_users ul) of
        (cs, us) \<Rightarrow> (OK, cs, ul\<lparr>ul_users := us\<rparr>))"

section \<open>Reports\<close>

record wcall_member =
  wm_userid :: "string option"
  wm_clientid :: "string option"
  wm_audio_state :: icall_audio_state
  wm_video_recv :: icall_vstate
  wm_muted :: bool

definition is_member :: "userinfo \<Rightarrow> bool" where
  "is_member u \<longleftrightarrow> ui_se_approved u \<and> (ui_incall_now u \<or> ui_in_subconv u)"

definition member_zero :: wcall_member where
  "member_zero = \<lparr>wm_userid = None, wm_clientid = None, wm_audio_state = ICALL_AUDIO_STATE_CONNECTING,
     wm_video_recv = ICALL_VIDEO_STATE_STOPPED, wm_muted = False\<rparr>"

definition member_of :: "userinfo \<Rightarrow> wcall_member" where
  "member_of u =
     \<lparr>wm_userid = ui_userid_real u, wm_clientid = ui_clientid_real u,
      wm_audio_state = (if 0 < ui_ssrca u then ICALL_AUDIO_STATE_ESTABLISHED else ICALL_AUDIO_STATE_CONNECTING),
      wm_video_recv = (if 0 < ui_ssrcv u then ui_video_state u else ICALL_VIDEO_STATE_STOPPED),
      wm_muted = (ui_muted u \<and> \<not> ui_active_audio u)\<rparr>"

text \<open>The array has the size that was counted; a store outside it, or the failed assertion, is \<open>None\<close>.\<close>

fun members_loop :: "nat \<Rightarrow> userinfo list \<Rightarrow> wcall_member list \<Rightarrow> nat \<Rightarrow> (wcall_member list \<times> nat) option" where
  "members_loop n [] membv membc = Some (membv, membc)"
| "members_loop n (u # us) membv membc =
     (if \<not> is_member u then members_loop n us membv membc
      else if \<not> (membc < n \<and> membc < length membv) then None
      else members_loop n us (membv[membc := member_of u]) (membc + 1))"

definition userlist_get_members ::
  "bool \<Rightarrow> bool \<Rightarrow> bool \<Rightarrow> userlist \<Rightarrow> icall_audio_state \<Rightarrow> icall_vstate
   \<Rightarrow> (err \<times> (wcall_member list \<times> nat) option) option" where
  "userlist_get_members mem mem_membv muted_self ul astate vstate =
     (if \<not> mem then Some (ENOMEM, None)
      else let n = fold (\<lambda>u n. if is_member u then n + 1 else n) (ul_users ul) 1
           in if \<not> mem_membv then Some (ENOMEM, None)
              else let membv = replicate n member_zero;
                       self = \<lparr>wm_userid = ui_userid_real (ul_self ul), wm_clientid = ui_clientid_real (ul_self ul),
                               wm_audio_state = astate, wm_video_recv = vstate, wm_muted = muted_self\<rparr>
                   in if \<not> 0 < length membv then None
                      else map_option (\<lambda>mm. (OK, Some mm)) (members_loop n (ul_users ul) (membv[0 := self]) 1))"

definition userlist_get_partlist :: "userlist \<Rightarrow> bool \<Rightarrow> err \<times> econn_group_part list" where
  "userlist_get_partlist ul require_subconv =
     (OK, map (\<lambda>u. \<lparr>gp_userid = ui_userid_hash u, gp_clientid = ui_clientid_hash u, gp_authorized = True,
                    gp_muted_state = MUTED_STATE_UNKNOWN, gp_ssrca = ui_ssrca u, gp_ssrcv = ui_ssrcv u, gp_ts = 0\<rparr>)
           (filter (\<lambda>u. ui_se_approved u \<and> ui_incall_now u \<and> (ui_in_subconv u \<or> \<not> require_subconv)) (ul_users ul)))"

definition userlist_get_my_clients :: "ul_env \<Rightarrow> userlist \<Rightarrow> err \<times> icall_client list" where
  "userlist_get_my_clients env ul =
     (OK, map (\<lambda>u. icall_client_alloc (ui_userid_real u) (ui_clientid_real u))
           (filter (\<lambda>u. ue_caseeq env (ui_userid_real u) (ui_userid_real (ul_self ul)) \<and>
                        \<not> ue_caseeq env (ui_clientid_real u) (ui_clientid_real (ul_self ul))) (ul_users ul)))"

text \<open>The body of the loop over the levels: the level of a muted member is cleared.\<close>

definition audio_level_step ::
  "ul_env \<Rightarrow> audio_level \<Rightarrow> userinfo list \<times> bool \<Rightarrow> audio_level \<times> userinfo list \<times> bool" where
  "audio_level_step env a st =
     (case st of (users, changed) \<Rightarrow>
        if al_userid a = None \<or> al_clientid a = None then (a, users, changed)
        else case userlist_find_by_real env users (al_userid a) (al_clientid a) of
               None \<Rightarrow> (a, users, changed)
             | Some u \<Rightarrow>
                 (let a = (if ui_muted u then audio_level_set a 0 0 else a);
                      active = (0 < audio_level_val a)
                  in (a, upd_user (ui_addr u) (\<lambda>v. v\<lparr>ui_active_audio := active\<rparr>) users,
                      changed \<or> ui_muted u \<and> active \<noteq> ui_active_prev u)))"

fun audio_level_loop ::
  "ul_env \<Rightarrow> audio_level list \<Rightarrow> userinfo list \<times> bool \<Rightarrow> audio_level list \<times> userinfo list \<times> bool" where
  "audio_level_loop env [] st = ([], st)"
| "audio_level_loop env (a # as) st =
     (case audio_level_step env a st of
        (a', st') \<Rightarrow> (case audio_level_loop env as st' of (as', st'') \<Rightarrow> (a' # as', st'')))"

definition userlist_update_audio_level ::
  "ul_env \<Rightarrow> userlist \<Rightarrow> audio_level list \<Rightarrow> audio_level list \<times> userlist \<times> bool" where
  "userlist_update_audio_level env ul levell =
     (let users = map (\<lambda>u. u\<lparr>ui_active_prev := ui_active_audio u, ui_active_audio := False\<rparr>) (ul_users ul)
      in case audio_level_loop env levell (users, False) of
           (levell, users, changed) \<Rightarrow> (levell, ul\<lparr>ul_users := users\<rparr>, changed))"

definition userlist_reset_video_states :: "userlist \<Rightarrow> err \<times> userlist" where
  "userlist_reset_video_states ul =
     (let on = (\<lambda>u. ui_incall_now u \<and> ui_video_state u \<noteq> ICALL_VIDEO_STATE_STOPPED)
      in (OK, ul\<lparr>ul_trace := ul_trace ul @ (if uh_vstateh (ul_handlers ul)
                                 then map (\<lambda>u. Vstateh u ICALL_VIDEO_STATE_STOPPED) (filter on (ul_users ul)) else []),
                 ul_users := map (\<lambda>u. if on u then u\<lparr>ui_video_state := ICALL_VIDEO_STATE_STOPPED\<rparr> else u)
                               (ul_users ul)\<rparr>))"

definition userlist_get_active_counts :: "userlist \<Rightarrow> err \<times> u32 \<times> u32 \<times> u32" where
  "userlist_get_active_counts ul =
     (OK, fold (\<lambda>u c. case c of (ap, aa, av) \<Rightarrow>
              if ui_se_approved u \<and> ui_incall_now u
              then (ap + 1, if 0 < ui_ssrca u \<and> \<not> ui_muted u then aa + 1 else aa,
                    if 0 < ui_ssrcv u \<and> ui_video_state u \<noteq> ICALL_VIDEO_STATE_STOPPED then av + 1 else av)
              else c) (ul_users ul) (1, 0, 0))"

section \<open>Operations as steps\<close>

datatype ul_op =
    UlSft "econn_group_part list" bool
  | UlSe "icall_client list" u32 bytes
  | UlSecret bytes
  | UlEpoch u32
  | UlEpochClient "string option" "string option" u32
  | UlClear bool bool
  | UlTargets bool
  | UlLevels "audio_level list"
  | UlResetKeygen
  | UlResetVideo

fun ul_do :: "ul_env \<Rightarrow> userlist \<Rightarrow> ul_op \<Rightarrow> userlist option" where
  "ul_do env ul (UlSft parts sc) = Some (fst (userlist_update_from_sftlist env ul parts sc))"
| "ul_do env ul (UlSe clients epoch secret) = map_option fst (userlist_update_from_selist env ul clients epoch secret)"
| "ul_do env ul (UlSecret secret) = map_option snd (userlist_set_secret env ul secret)"
| "ul_do env ul (UlEpoch epoch) = Some (snd (userlist_set_latest_epoch ul epoch))"
| "ul_do env ul (UlEpochClient u c epoch) = Some (snd (userlist_set_latest_epoch_for_client env ul u c epoch))"
| "ul_do env ul (UlClear force again) = Some (userlist_incall_clear ul force again)"
| "ul_do env ul (UlTargets all) = Some (snd (snd (userlist_get_key_targets ul all)))"
| "ul_do env ul (UlLevels levell) = Some (fst (snd (userlist_update_audio_level env ul levell)))"
| "ul_do env ul UlResetKeygen = Some (userlist_reset_keygenerator ul)"
| "ul_do env ul UlResetVideo = Some (snd (userlist_reset_video_states ul))"

definition ul_step :: "userlist \<Rightarrow> ul_env \<times> ul_op \<Rightarrow> userlist option" where
  "ul_step ul ev = ul_do (fst ev) ul (snd ev)"

text \<open>What is relied on: the sort permutes the list, and a SHA-256 hash has 32 bytes.\<close>

definition ul_env_ok :: "ul_env \<Rightarrow> bool" where
  "ul_env_ok env \<longleftrightarrow> list_sort_ok (ue_sort env) \<and>
     (\<forall>ps. fst (ue_sha256 env ps) = OK \<longrightarrow> length (snd (ue_sha256 env ps)) = 32)"

definition ul_guard :: "userlist \<Rightarrow> ul_env \<times> ul_op \<Rightarrow> bool" where
  "ul_guard ul ev \<longleftrightarrow> ul_env_ok (fst ev)"

text \<open>The key generator points to a member, and members have different addresses.\<close>

definition ul_inv :: "userlist \<Rightarrow> bool" where
  "ul_inv ul \<longleftrightarrow>
     distinct (map ui_addr (ul_users ul)) \<and> (\<forall>a \<in> set (map ui_addr (ul_users ul)). a < ul_next ul) \<and>
     (\<forall>a. ul_keygenerator ul = Some (Kg_user a) \<longrightarrow> a \<in> set (map ui_addr (ul_users ul)))"

lemma ul_inv_cong:
  assumes "ul_inv ul" and "map ui_addr (ul_users ul') = map ui_addr (ul_users ul)" and "ul_next ul' = ul_next ul"
    and "ul_keygenerator ul' = ul_keygenerator ul \<or>
         (\<exists>u \<in> set (ul_users ul). ul_keygenerator ul' = Some (Kg_user (ui_addr u))) \<or>
         ul_keygenerator ul' \<in> {None, Some Kg_self}"
  shows "ul_inv ul'"
  using assms unfolding ul_inv_def by auto

lemma addr_upd_user [simp]:
  "(\<And>u. ui_addr u = a \<Longrightarrow> ui_addr (f u) = a) \<Longrightarrow> map ui_addr (upd_user a f us) = map ui_addr us"
  by (simp add: upd_user_def)

lemma ul_act_simps [simp]:
  "ul_users (ul_act a ul) = ul_users ul" "ul_next (ul_act a ul) = ul_next ul"
  "ul_keygenerator (ul_act a ul) = ul_keygenerator ul" "ul_self (ul_act a ul) = ul_self ul"
  "ul_handlers (ul_act a ul) = ul_handlers ul"
  by (simp_all add: ul_act_def)

lemma track_simps [simp]:
  "ul_users (track_keygenerator_change p ul) = ul_users ul" "ul_next (track_keygenerator_change p ul) = ul_next ul"
  "ul_keygenerator (track_keygenerator_change p ul) = ul_keygenerator ul"
  "ul_self (track_keygenerator_change p ul) = ul_self ul"
  "ul_handlers (track_keygenerator_change p ul) = ul_handlers ul"
  by (simp_all add: track_keygenerator_change_def split: option.split)

lemma find_by_hash_in: "userlist_find_by_hash env us u c = Some x \<Longrightarrow> x \<in> set us"
  by (auto simp: userlist_find_by_hash_def find_Some_iff split: if_splits)

lemma find_by_real_in: "userlist_find_by_real env us u c = Some x \<Longrightarrow> x \<in> set us"
  by (auto simp: userlist_find_by_real_def find_Some_iff split: if_splits)

lemma ul_inv_new:
  assumes "ul_inv ul" and "ui_addr u = ul_next ul" and "ul_users ul' = ul_users ul @ [u]"
    and "ul_next ul' = ul_next ul + 1" and "ul_keygenerator ul' = ul_keygenerator ul"
  shows "ul_inv ul'"
  using assms unfolding ul_inv_def by (auto simp: less_Suc_eq)

lemma sft_part_inv:
  assumes "ul_inv (ss_ul st)"
  shows "ul_inv (ss_ul (sft_part env first i p st))"
proof -
  have "ul_inv (ss_ul (sft_self b p st))" for b
    using assms by (rule ul_inv_cong) (auto simp: sft_self_def Let_def)
  moreover have "ul_inv (ss_ul (sft_found b p u st))" if "u \<in> set (ul_users (ss_ul st))" for b u
    using assms that by (intro ul_inv_cong [OF assms]) (auto simp: sft_found_def Let_def)
  moreover have "ul_inv (ss_ul (sft_new p st))"
    using assms by (rule ul_inv_new) (auto simp: sft_new_def Let_def)
  ultimately show ?thesis
    using find_by_hash_in by (auto simp: sft_part_def split: option.split)
qed

lemma sft_loop_inv: "ul_inv (ss_ul st) \<Longrightarrow> ul_inv (ss_ul (sft_loop env first i ps st))"
  by (induction ps arbitrary: i st) (simp_all add: sft_part_inv)

lemma sort_users:
  assumes "list_sort_ok srt"
  shows "mset (srt userlist_sort_h us) = mset us" "sorted_wrt userlist_sort_h (srt userlist_sort_h us)"
    "set (srt userlist_sort_h us) = set us"
proof -
  have "transp userlist_sort_h" by (auto simp: transp_def userlist_sort_h_def)
  moreover have "userlist_sort_h x y \<or> userlist_sort_h y x" for x y by (auto simp: userlist_sort_h_def)
  ultimately show "mset (srt userlist_sort_h us) = mset us" "sorted_wrt userlist_sort_h (srt userlist_sort_h us)"
    "set (srt userlist_sort_h us) = set us"
    using list_sort_okD [OF assms] by blast+
qed

lemma ul_inv_mset:
  assumes "ul_inv ul" and "mset us = mset (ul_users ul)"
  shows "ul_inv (ul\<lparr>ul_users := us\<rparr>)"
proof -
  have "mset (map ui_addr us) = mset (map ui_addr (ul_users ul))" using assms(2) by simp
  then have "distinct (map ui_addr us) = distinct (map ui_addr (ul_users ul))"
    "set (map ui_addr us) = set (map ui_addr (ul_users ul))"
    by (metis mset_eq_imp_distinct_iff, metis mset_eq_setD)
  then show ?thesis using assms(1) unfolding ul_inv_def by simp
qed

lemma addr_join_leave [simp]: "ui_addr (fst (snd (sft_join_leave h u))) = ui_addr u"
  by (simp add: sft_join_leave_def Let_def)

lemma sft_begin_inv: "ul_inv ul \<Longrightarrow> ul_inv (sft_begin ul)"
  by (erule ul_inv_cong) (simp_all add: sft_begin_def)

text \<open>The users after the second loop, before they are sorted.\<close>

definition joined_users :: "userlist \<Rightarrow> userinfo list" where
  "joined_users ul = map (\<lambda>u. fst (snd (sft_join_leave (ul_handlers ul) u))) (ul_users ul)"

lemma sft_end_simps:
  "ul_users (fst (sft_end env prev st)) = ue_sort env userlist_sort_h (joined_users (ss_ul st))"
  "ul_keygenerator (fst (sft_end env prev st)) = ul_keygenerator (ss_ul st)"
  "ul_next (fst (sft_end env prev st)) = ul_next (ss_ul st)"
  by (simp_all add: sft_end_def sft_settle_def sft_sort_def joined_users_def Let_def comp_def)

lemma sft_end_inv:
  assumes "ul_inv (ss_ul st)" and "list_sort_ok (ue_sort env)"
  shows "ul_inv (fst (sft_end env prev st))"
proof -
  have "mset (map ui_addr (ul_users (fst (sft_end env prev st)))) = mset (map ui_addr (joined_users (ss_ul st)))"
    by (simp add: sft_end_simps sort_users [OF assms(2)])
  moreover have "map ui_addr (joined_users (ss_ul st)) = map ui_addr (ul_users (ss_ul st))"
    by (simp add: joined_users_def)
  ultimately have m: "mset (map ui_addr (ul_users (fst (sft_end env prev st)))) = mset (map ui_addr (ul_users (ss_ul st)))"
    by simp
  then have "distinct (map ui_addr (ul_users (fst (sft_end env prev st)))) = distinct (map ui_addr (ul_users (ss_ul st)))"
    "set (map ui_addr (ul_users (fst (sft_end env prev st)))) = set (map ui_addr (ul_users (ss_ul st)))"
    by (metis mset_eq_imp_distinct_iff, metis mset_eq_setD)
  then show ?thesis using assms(1) unfolding ul_inv_def by (simp add: sft_end_simps(2,3))
qed

lemma sft_inv:
  assumes "ul_inv ul" and "list_sort_ok (ue_sort env)"
  shows "ul_inv (fst (userlist_update_from_sftlist env ul parts sc))"
  unfolding userlist_update_from_sftlist_def sft_walk_def Let_def
  by (rule sft_end_inv [OF sft_loop_inv assms(2)]) (simp add: sft_begin_inv [OF assms(1)])

lemma hex_loop_Some: "n \<le> length hash \<Longrightarrow> hex_loop hash n \<noteq> None"
  by (induction n) (auto simp: load_def)

lemma hash_user_Some:
  assumes "ul_env_ok env"
  shows "hash_user env secret u c \<noteq> None"
proof -
  have "hex_loop (snd (ue_sha256 env ps)) 16 \<noteq> None" if "fst (ue_sha256 env ps) = OK" for ps
    using assms that by (intro hex_loop_Some) (simp add: ul_env_ok_def)
  then show ?thesis
    by (auto simp: hash_user_def split: option.split prod.split) (metis fst_conv snd_conv option.distinct(1))+
qed

lemma hash_userinfo_Some:
  assumes "ul_env_ok env"
  shows "\<exists>u'. hash_userinfo env secret u = Some u' \<and> ui_addr u' = ui_addr u"
  using hash_user_Some [OF assms, of secret "ui_userid_real u" "ui_clientid_real u"]
  by (auto simp: hash_userinfo_def)

lemma hash_all_Some:
  assumes "ul_env_ok env"
  shows "\<exists>us'. hash_all env secret us = Some us' \<and> map ui_addr us' = map ui_addr us"
proof (induction us)
  case (Cons u us)
  then show ?case using hash_userinfo_Some [OF assms, of secret u] by fastforce
qed simp

lemma set_secret_inv:
  assumes "ul_inv ul" and "ul_env_ok env"
  shows "\<exists>ul'. userlist_set_secret env ul secret = Some (OK, ul') \<and> ul_inv ul'"
proof -
  obtain self where "hash_userinfo env secret (ul_self ul) = Some self" using hash_userinfo_Some [OF assms(2)] by blast
  moreover obtain us where us: "hash_all env secret (ul_users ul) = Some us" "map ui_addr us = map ui_addr (ul_users ul)"
    using hash_all_Some [OF assms(2)] by blast
  moreover have "ul_inv (ul\<lparr>ul_self := self, ul_users := us\<rparr>)"
    using assms(1) by (rule ul_inv_cong) (simp_all add: us(2))
  ultimately show ?thesis by (simp add: userlist_set_secret_def)
qed

lemma se_approve_hash_inv:
  assumes "ul_inv (se_ul st)" and "user \<in> set (ul_users (se_ul st))"
  shows "ul_inv (se_ul (fst (se_approve_hash prev epoch cli user st)))"
  using assms by (intro ul_inv_cong [OF assms(1)]) (auto simp: se_approve_hash_def Let_def)

lemma se_add_inv: "ul_inv (se_ul st) \<Longrightarrow> ul_inv (se_ul (fst (se_add u st)))"
  by (rule ul_inv_new [of "se_ul st" "u\<lparr>ui_addr := ul_next (se_ul st)\<rparr>"]) (simp_all add: se_add_def Let_def)

lemma se_user_inv:
  assumes "ul_inv (se_ul st)" and "ul_env_ok env"
  shows "\<exists>st' a. se_user env prev epoch secret cli st = Some (st', a) \<and> ul_inv (se_ul st')"
proof (cases "userlist_find_by_real env (ul_users (se_ul st)) (cli_userid cli) (cli_clientid cli)")
  case None
  let ?z = "userinfo_zero\<lparr>ui_userid_real := cli_userid cli, ui_clientid_real := cli_clientid cli\<rparr>"
  obtain u where u: "hash_userinfo env secret ?z = Some u" using hash_userinfo_Some [OF assms(2)] by blast
  show ?thesis
  proof (cases "userlist_find_by_hash env (ul_users (se_ul st)) (ui_userid_hash u) (ui_clientid_hash u)")
    case None
    then show ?thesis
      using \<open>userlist_find_by_real _ _ _ _ = None\<close> u se_add_inv [OF assms(1), of u]
      by (cases "se_add u st") (simp add: se_user_def)
  next
    case (Some user)
    then have "user \<in> set (ul_users (se_ul st))" by (rule find_by_hash_in)
    then show ?thesis
      using \<open>userlist_find_by_real _ _ _ _ = None\<close> u Some se_add_inv [OF assms(1), of u]
        se_approve_hash_inv [OF assms(1), of user prev epoch cli]
      by (cases "se_add u st"; cases "se_approve_hash prev epoch cli user st") (simp add: se_user_def)
  qed
next
  case (Some user)
  obtain u where u: "hash_userinfo env secret user = Some u" "ui_addr u = ui_addr user"
    using hash_userinfo_Some [OF assms(2)] by blast
  have "ul_inv ((se_ul st)\<lparr>ul_users := upd_user (ui_addr user) (\<lambda>_. u) (ul_users (se_ul st))\<rparr>)"
    using assms(1) by (rule ul_inv_cong) (simp_all add: u(2))
  then show ?thesis using Some u by (simp add: se_user_def)
qed

lemma addr_se_approve [simp]: "ui_addr (se_approve epoch cli u) = ui_addr u"
  by (simp add: se_approve_def Let_def)

lemma se_client_inv:
  assumes "ul_inv (se_ul st)" and "ul_env_ok env"
  shows "\<exists>st'. se_client env prev epoch secret cli st = Some st' \<and> ul_inv (se_ul st')"
proof -
  obtain st' a where st': "se_user env prev epoch secret cli st = Some (st', a)" "ul_inv (se_ul st')"
    using se_user_inv [OF assms] by blast
  have "ul_inv ((se_ul st')\<lparr>ul_users := upd_user a (se_approve epoch cli) (ul_users (se_ul st'))\<rparr>)"
    using st'(2) by (rule ul_inv_cong) simp_all
  then show ?thesis using assms(1) st'(1) by (simp add: se_client_def)
qed

lemma se_loop_inv:
  assumes "ul_env_ok env"
  shows "ul_inv (se_ul st) \<Longrightarrow> \<exists>st'. se_loop env prev epoch secret cls st = Some st' \<and> ul_inv (se_ul st')"
proof (induction cls arbitrary: st)
  case (Cons cli cls)
  obtain st' where "se_client env prev epoch secret cli st = Some st'" "ul_inv (se_ul st')"
    using se_client_inv [OF Cons.prems assms] by blast
  then show ?case using Cons.IH [of st'] by simp
qed simp

lemma se_begin_inv: "ul_inv ul \<Longrightarrow> ul_inv (se_begin ul)"
  by (erule ul_inv_cong) (simp_all add: se_begin_def)

lemma se_end_inv: "ul_inv (se_ul st) \<Longrightarrow> ul_inv (fst (se_end st))"
  by (erule ul_inv_cong) (simp_all add: se_end_def Let_def)

lemma selist_inv:
  assumes "ul_inv ul" and "ul_env_ok env"
  shows "\<exists>r. userlist_update_from_selist env ul clients epoch secret = Some r \<and> ul_inv (fst r)"
proof -
  have "ul_inv (se_ul \<lparr>se_ul = se_begin ul, se_list_changed = False, se_sync_decoders = False\<rparr>)"
    using se_begin_inv [OF assms(1)] by simp
  from se_loop_inv [OF assms(2) this] obtain st where
    "se_loop env (ul_keygenerator ul) epoch secret clients
       \<lparr>se_ul = se_begin ul, se_list_changed = False, se_sync_decoders = False\<rparr> = Some st" "ul_inv (se_ul st)"
    by blast
  then show ?thesis using se_end_inv by (simp add: userlist_update_from_selist_def)
qed

lemma key_targets_addr [simp]: "map ui_addr (snd (key_targets_loop all us)) = map ui_addr us"
  by (induction us) (auto split: prod.splits)

lemma audio_level_addr: "map ui_addr (fst (snd (audio_level_loop env as (us, c)))) = map ui_addr us"
proof (induction "as" arbitrary: us c)
  case (Cons a as)
  have "map ui_addr (fst (snd (audio_level_step env a (us, c)))) = map ui_addr us"
    by (auto simp: audio_level_step_def Let_def split: option.split)
  moreover obtain a' us' c' where "audio_level_step env a (us, c) = (a', us', c')" by (rule prod_cases3)
  ultimately show ?case using Cons.IH [of us' c'] by (cases "audio_level_loop env as (us', c')") simp
qed simp

lemma audio_level_inv:
  assumes "ul_inv ul"
  shows "ul_inv (fst (snd (userlist_update_audio_level env ul levell)))"
proof -
  let ?us = "map (\<lambda>u. u\<lparr>ui_active_prev := ui_active_audio u, ui_active_audio := False\<rparr>) (ul_users ul)"
  obtain l us c where r: "audio_level_loop env levell (?us, False) = (l, us, c)" by (rule prod_cases3)
  have "map ui_addr us = map ui_addr ?us" using audio_level_addr [of env levell ?us False] r by simp
  then have addr: "map ui_addr us = map ui_addr (ul_users ul)" by (simp add: comp_def)
  have "fst (snd (userlist_update_audio_level env ul levell)) = ul\<lparr>ul_users := us\<rparr>"
    by (simp only: userlist_update_audio_level_def Let_def r prod.case fst_conv snd_conv)
  moreover have "ul_inv (ul\<lparr>ul_users := us\<rparr>)" using assms by (rule ul_inv_cong) (simp_all add: addr)
  ultimately show ?thesis by simp
qed

lemma ul_step_inv:
  assumes "ul_inv ul" and "ul_guard ul ev"
  shows "\<exists>ul'. ul_step ul ev = Some ul' \<and> ul_inv ul'"
proof -
  obtain env op where ev: "ev = (env, op)" by fastforce
  have ok: "ul_env_ok env" using assms(2) ev by (simp add: ul_guard_def)
  then have sort: "list_sort_ok (ue_sort env)" by (simp add: ul_env_ok_def)
  show ?thesis
  proof (cases op)
    case (UlSft parts sc)
    then show ?thesis using sft_inv [OF assms(1) sort] ev by (simp add: ul_step_def)
  next
    case (UlSe clients epoch secret)
    then show ?thesis using selist_inv [OF assms(1) ok, of clients epoch secret] ev by (auto simp: ul_step_def)
  next
    case (UlSecret secret)
    then show ?thesis using set_secret_inv [OF assms(1) ok, of secret] ev by (auto simp: ul_step_def)
  next
    case (UlLevels levell)
    then show ?thesis using audio_level_inv [OF assms(1)] ev by (simp add: ul_step_def)
  next
    case (UlTargets all)
    obtain cs us where t: "key_targets_loop all (ul_users ul) = (cs, us)" by fastforce
    then have "map ui_addr us = map ui_addr (ul_users ul)" using key_targets_addr [of all "ul_users ul"] by simp
    then have "ul_inv (ul\<lparr>ul_users := us\<rparr>)" using assms(1) by (intro ul_inv_cong [OF assms(1)]) simp_all
    then show ?thesis using UlTargets t ev by (simp add: ul_step_def userlist_get_key_targets_def)
  qed (use ev in \<open>auto simp: ul_step_def userlist_set_latest_epoch_def userlist_set_latest_epoch_for_client_def
      userlist_incall_clear_def userlist_reset_keygenerator_def
      userlist_reset_video_states_def Let_def comp_def split: option.split prod.split
      intro!: ul_inv_cong [OF assms(1)]\<close>)
qed

interpretation ulm: inv_machine ul_step ul_guard ul_inv
  by unfold_locales (rule ul_step_inv)

section \<open>The election of the key generator\<close>

text \<open>A participant that may generate keys: oneself, or a member the backend approved.\<close>

definition elects :: "ul_env \<Rightarrow> userlist \<Rightarrow> econn_group_part \<Rightarrow> bool" where
  "elects env ul p \<longleftrightarrow> is_self env ul p \<or>
     (case userlist_find_by_hash env (ul_users ul) (gp_userid p) (gp_clientid p) of
        Some u \<Rightarrow> ui_se_approved u | None \<Rightarrow> False)"

definition kg_of :: "ul_env \<Rightarrow> userlist \<Rightarrow> econn_group_part \<Rightarrow> kg_ref option" where
  "kg_of env ul p =
     (if is_self env ul p then Some Kg_self
      else map_option (\<lambda>u. Kg_user (ui_addr u)) (userlist_find_by_hash env (ul_users ul) (gp_userid p) (gp_clientid p)))"

lemma first_approved_find:
  "find_first_approved env ul i ps = None \<longleftrightarrow> List.find (elects env ul) ps = None"
  "find_first_approved env ul i ps = Some j \<Longrightarrow>
     i \<le> j \<and> j < i + length ps \<and> List.find (elects env ul) ps = Some (ps ! (j - i))"
proof (induction ps arbitrary: i)
  case (Cons p ps)
  { case 1
    show ?case using Cons.IH(1) [of "i + 1"] by (auto simp: elects_def split: option.splits) }
  { case 2
    show ?case
    proof (cases "elects env ul p")
      case True
      then have "j = i" using 2 by (auto simp: elects_def split: option.splits if_splits)
      then show ?thesis using True by simp
    next
      case False
      then have "find_first_approved env ul (i + 1) ps = Some j"
        using 2 by (auto simp: elects_def split: option.splits if_splits)
      then have "i + 1 \<le> j \<and> j < i + 1 + length ps \<and> List.find (elects env ul) ps = Some (ps ! (j - (i + 1)))"
        by (rule Cons.IH(2))
      then show ?thesis using False by (auto simp: nth_Cons' Suc_diff_Suc)
    qed }
qed simp_all

text \<open>What identifies a member, which the loop does not change.\<close>

definition ukey :: "userinfo \<Rightarrow> nat \<times> string option \<times> string option" where
  "ukey u = (ui_addr u, ui_userid_hash u, ui_clientid_hash u)"

lemma ukey_upd: "ukey u' = ukey u \<Longrightarrow> u \<in> set us \<Longrightarrow> distinct (map ui_addr us) \<Longrightarrow>
    map ukey (upd_user (ui_addr u) (\<lambda>_. u') us) = map ukey us"
  by (auto simp: upd_user_def) (metis distinct_map inj_onD)

definition same_keys :: "userlist \<Rightarrow> userlist \<Rightarrow> bool" where
  "same_keys ul ul' \<longleftrightarrow>
     ui_userid_hash (ul_self ul') = ui_userid_hash (ul_self ul) \<and>
     ui_clientid_hash (ul_self ul') = ui_clientid_hash (ul_self ul) \<and>
     (\<exists>ks. map ukey (ul_users ul') = map ukey (ul_users ul) @ ks)"

lemma same_keys_self: "same_keys ul ul' \<Longrightarrow> is_self env ul' p \<longleftrightarrow> is_self env ul p"
  by (simp add: same_keys_def is_self_def)

lemma find_ukey:
  assumes "map ukey us' = map ukey us @ ks" and "List.find (hash_matches env h c) us = Some u"
  shows "\<exists>u'. List.find (hash_matches env h c) us' = Some u' \<and> ui_addr u' = ui_addr u"
  using assms
proof (induction us arbitrary: us')
  case (Cons v us)
  then obtain v' vs where us': "us' = v' # vs" "ukey v' = ukey v" "map ukey vs = map ukey us @ ks"
    by (cases us') auto
  then have "hash_matches env h c v' = hash_matches env h c v" by (simp add: hash_matches_def ukey_def)
  then show ?case using Cons us' by (auto simp: ukey_def split: if_splits)
qed simp

lemma same_keys_kg:
  assumes "same_keys ul ul'" and "\<not> is_self env ul p"
    and "userlist_find_by_hash env (ul_users ul) (gp_userid p) (gp_clientid p) = Some u"
  shows "\<exists>u'. userlist_find_by_hash env (ul_users ul') (gp_userid p) (gp_clientid p) = Some u' \<and> ui_addr u' = ui_addr u"
  using assms find_ukey unfolding same_keys_def userlist_find_by_hash_def by (metis option.distinct(1))

lemma sft_part_keys:
  assumes "same_keys ul (ss_ul st)" and "ul_inv (ss_ul st)"
  shows "same_keys ul (ss_ul (sft_part env first i p st))"
proof -
  have d: "distinct (map ui_addr (ul_users (ss_ul st)))" using assms(2) by (simp add: ul_inv_def)
  have "map ukey (ul_users (ss_ul (sft_found b p u st))) = map ukey (ul_users (ss_ul st))"
    if "u \<in> set (ul_users (ss_ul st))" for b u
    using ukey_upd [OF _ that d] by (simp add: sft_found_def Let_def ukey_def)
  then show ?thesis
    using assms(1) find_by_hash_in
    by (auto simp: sft_part_def same_keys_def sft_self_def sft_new_def sft_found_def Let_def split: option.split)
qed

lemma sft_part_kg:
  assumes "same_keys ul (ss_ul st)" and "first = Some i \<longrightarrow> elects env ul p"
  shows "ul_keygenerator (ss_ul (sft_part env first i p st)) =
    (if first = Some i then kg_of env ul p else ul_keygenerator (ss_ul st))"
proof (cases "is_self env ul p")
  case True
  then show ?thesis
    using same_keys_self [OF assms(1)] by (simp add: sft_part_def sft_self_def kg_of_def Let_def)
next
  case False
  then have ns: "\<not> is_self env (ss_ul st) p" using same_keys_self [OF assms(1)] by simp
  show ?thesis
  proof (cases "first = Some i")
    case True
    then obtain u where u: "userlist_find_by_hash env (ul_users ul) (gp_userid p) (gp_clientid p) = Some u"
      using assms(2) False by (auto simp: elects_def split: option.splits)
    then show ?thesis
      using same_keys_kg [OF assms(1) False u] True ns False
      by (auto simp: sft_part_def sft_found_def kg_of_def Let_def)
  qed (use ns in \<open>auto simp: sft_part_def sft_found_def sft_new_def Let_def split: option.split\<close>)
qed

lemma sft_loop_kg:
  assumes "same_keys ul (ss_ul st)" and "ul_inv (ss_ul st)"
    and "\<And>j. first = Some j \<Longrightarrow> i \<le> j \<Longrightarrow> j < i + length ps \<Longrightarrow> elects env ul (ps ! (j - i))"
  shows "ul_keygenerator (ss_ul (sft_loop env first i ps st)) =
    (case first of
       None \<Rightarrow> ul_keygenerator (ss_ul st)
     | Some j \<Rightarrow> if i \<le> j \<and> j < i + length ps then kg_of env ul (ps ! (j - i)) else ul_keygenerator (ss_ul st))"
  using assms
proof (induction ps arbitrary: i st)
  case Nil
  then show ?case by (auto split: option.split)
next
  case (Cons p ps)
  let ?st = "sft_part env first i p st"
  have k: "same_keys ul (ss_ul ?st)" "ul_inv (ss_ul ?st)"
    using sft_part_keys sft_part_inv Cons.prems(1,2) by blast+
  have e: "first = Some i \<longrightarrow> elects env ul p" using Cons.prems(3) [of i] by simp
  have "elects env ul (ps ! (j - (i + 1)))" if "first = Some j" "i + 1 \<le> j" "j < i + 1 + length ps" for j
    using Cons.prems(3) [of j] that by (auto simp: nth_Cons' Suc_diff_Suc)
  note IH = Cons.IH [OF k this]
  show ?case
    using IH sft_part_kg [OF Cons.prems(1) e] by (auto simp: nth_Cons' split: option.split)
qed

lemma same_keys_refl: "same_keys ul ul"
  by (simp add: same_keys_def)

lemma hash_matches_begin:
  "hash_matches env h c \<circ> (\<lambda>u. u\<lparr>ui_incall_prev := ui_incall_now u, ui_incall_now := False, ui_listpos := x\<rparr>) =
   hash_matches env h c"
  by (simp add: fun_eq_iff hash_matches_def)

lemma begin_lookup:
  "is_self env (sft_begin ul) p \<longleftrightarrow> is_self env ul p"
  "userlist_find_by_hash env (ul_users (sft_begin ul)) h c =
     map_option (\<lambda>u. u\<lparr>ui_incall_prev := ui_incall_now u, ui_incall_now := False, ui_listpos := LIST_POS_NONE\<rparr>)
       (userlist_find_by_hash env (ul_users ul) h c)"
  by (simp_all add: is_self_def sft_begin_def userlist_find_by_hash_def find_map hash_matches_begin)

lemma begin_elects: "elects env (sft_begin ul) = elects env ul" "kg_of env (sft_begin ul) = kg_of env ul"
  by (auto simp: fun_eq_iff elects_def kg_of_def begin_lookup comp_def split: option.split)
     (simp add: option.map_comp comp_def)

lemma keygenerator_elected:
  assumes "ul_inv ul"
  shows "ul_keygenerator (fst (userlist_update_from_sftlist env ul parts sc)) =
    Option.bind (List.find (elects env ul) parts) (kg_of env ul)"
proof -
  let ?ul = "sft_begin ul"
  let ?first = "find_first_approved env ?ul 0 parts"
  let ?st = "\<lparr>ss_ul = ?ul, ss_listpos = 0, ss_self_changed = sc, ss_list_changed = False,
    ss_sync_decoders = False, ss_missing = False\<rparr>"
  have none: "ul_keygenerator ?ul = None" by (simp add: sft_begin_def)
  have el: "elects env ?ul (parts ! (j - 0))" if "?first = Some j" for j
    using first_approved_find(2) [OF that] find_P by fastforce
  have "same_keys ?ul (ss_ul ?st)" "ul_inv (ss_ul ?st)" using same_keys_refl sft_begin_inv [OF assms] by simp_all
  note loop = sft_loop_kg [OF this, of ?first 0 parts env]
  have "ul_keygenerator (ss_ul (sft_loop env ?first 0 parts ?st)) =
      Option.bind (List.find (elects env ?ul) parts) (kg_of env ?ul)"
  proof (cases ?first)
    case None
    then show ?thesis using loop el none first_approved_find(1) [of env ?ul 0 parts] by simp
  next
    case (Some j)
    then show ?thesis using loop el first_approved_find(2) [OF Some] by simp
  qed
  then show ?thesis
    by (simp add: userlist_update_from_sftlist_def sft_walk_def Let_def sft_end_simps begin_elects)
qed

section \<open>Members of the call\<close>

text \<open>The member that a participant of the server's list stands for.\<close>

definition reported :: "ul_env \<Rightarrow> userlist \<Rightarrow> econn_group_part \<Rightarrow> userinfo \<Rightarrow> bool" where
  "reported env ul p u \<longleftrightarrow> \<not> is_self env ul p \<and>
     userlist_find_by_hash env (ul_users ul) (gp_userid p) (gp_clientid p) = Some u"

text \<open>What the loop over the server's list does to a member: it may only enter the call.\<close>

definition stays :: "userinfo \<Rightarrow> userinfo \<Rightarrow> bool" where
  "stays u u' \<longleftrightarrow> ukey u' = ukey u \<and> ui_userid_real u' = ui_userid_real u \<and> ui_clientid_real u' = ui_clientid_real u \<and>
     ui_se_approved u' = ui_se_approved u \<and> ui_force_decoder u' = ui_force_decoder u \<and>
     ui_needs_key u' = ui_needs_key u \<and> (ui_incall_prev u' \<longrightarrow> ui_incall_prev u) \<and>
     (\<not> ui_incall_now u' \<longrightarrow> ui_incall_prev u' = ui_incall_prev u)"

lemma upd_user_mem:
  assumes "distinct (map ui_addr us)" and "v \<in> set us" and "u \<in> set us"
  shows "(if u = v then v' else u) \<in> set (upd_user (ui_addr v) (\<lambda>_. v') us)"
  using assms by (auto simp: upd_user_def distinct_map inj_on_def image_iff)

lemma sft_part_member:
  assumes "ul_inv (ss_ul st)" and "u \<in> set (ul_users (ss_ul st))"
  shows "\<exists>u' \<in> set (ul_users (ss_ul (sft_part env first i p st))). stays u u' \<and>
    (ui_incall_now u' \<longleftrightarrow> ui_incall_now u \<or> reported env (ss_ul st) p u)"
proof (cases "is_self env (ss_ul st) p")
  case True
  then show ?thesis using assms(2) by (auto simp: sft_part_def sft_self_def Let_def reported_def stays_def)
next
  case False
  show ?thesis
  proof (cases "userlist_find_by_hash env (ul_users (ss_ul st)) (gp_userid p) (gp_clientid p)")
    case None
    then show ?thesis using False assms(2) by (auto simp: sft_part_def sft_new_def Let_def reported_def stays_def)
  next
    case (Some v)
    define moved where "moved = (ui_incall_prev v \<and> (ui_ssrca v \<noteq> gp_ssrca p \<or> ui_ssrcv v \<noteq> gp_ssrcv p))"
    define muted where "muted = (case gp_muted_state p of MUTED_STATE_UNKNOWN \<Rightarrow> ui_muted v
      | MUTED_STATE_MUTED \<Rightarrow> True | MUTED_STATE_UNMUTED \<Rightarrow> False)"
    define v' where "v' = (if moved then v\<lparr>ui_incall_prev := False\<rparr> else v)\<lparr>ui_incall_now := True,
      ui_ssrca := gp_ssrca p, ui_ssrcv := gp_ssrcv p, ui_muted := muted, ui_listpos := ss_listpos st\<rparr>"
    have us: "ul_users (ss_ul (sft_part env first i p st)) = upd_user (ui_addr v) (\<lambda>_. v') (ul_users (ss_ul st))"
      using False Some by (simp add: sft_part_def sft_found_def Let_def v'_def moved_def muted_def)
    have d: "distinct (map ui_addr (ul_users (ss_ul st)))" using assms(1) by (simp add: ul_inv_def)
    have "stays v v'" "ui_incall_now v'" by (auto simp: stays_def v'_def ukey_def)
    then show ?thesis
      using upd_user_mem [OF d find_by_hash_in [OF Some] assms(2), of v'] Some False us
      by (cases "u = v") (auto simp: reported_def stays_def)
  qed
qed

lemma stays_trans: "stays u v \<Longrightarrow> stays v w \<Longrightarrow> (ui_incall_now v \<longrightarrow> ui_incall_now w) \<Longrightarrow> stays u w"
  by (auto simp: stays_def)

text \<open>Members keep their hashes, so the same participants stand for them in every turn of the loop.\<close>

lemma reported_same:
  assumes "same_keys ul ul'" and "ul_inv ul'" and "u \<in> set (ul_users ul)" and "u' \<in> set (ul_users ul')"
    and "ul_inv ul" and "ukey u' = ukey u"
  shows "reported env ul' p u' \<longleftrightarrow> reported env ul p u"
proof
  have d: "distinct (map ui_addr (ul_users ul))" "distinct (map ui_addr (ul_users ul'))"
    using assms(2,5) by (simp_all add: ul_inv_def)
  have uniq: "w = v" if "distinct (map ui_addr us)" "v \<in> set us" "w \<in> set us" "ui_addr w = ui_addr v" for us v w
    using that by (simp add: distinct_map inj_on_def)
  have a: "ui_addr u' = ui_addr u" using assms(6) by (simp add: ukey_def)
  { assume r: "reported env ul p u"
    then obtain w where "userlist_find_by_hash env (ul_users ul') (gp_userid p) (gp_clientid p) = Some w"
        "ui_addr w = ui_addr u"
      unfolding reported_def using same_keys_kg [OF assms(1)] by metis
    then show "reported env ul' p u'"
      using r uniq [OF d(2) assms(4) find_by_hash_in] same_keys_self [OF assms(1)] a by (simp add: reported_def) }
  { assume r: "reported env ul' p u'"
    then have ns: "\<not> is_self env ul p" using same_keys_self [OF assms(1)] by (simp add: reported_def)
    have "hash_matches env (gp_userid p) (gp_clientid p) u"
      using r assms(6) find_P by (fastforce simp: reported_def userlist_find_by_hash_def hash_matches_def ukey_def split: if_splits)
    then obtain w where w: "userlist_find_by_hash env (ul_users ul) (gp_userid p) (gp_clientid p) = Some w"
      using r assms(3) by (cases "List.find (hash_matches env (gp_userid p) (gp_clientid p)) (ul_users ul)")
        (auto simp: reported_def userlist_find_by_hash_def find_None_iff split: if_splits)
    then have "ui_addr w = ui_addr u"
      using same_keys_kg [OF assms(1) ns w] r a by (auto simp: reported_def)
    then show "reported env ul p u"
      using uniq [OF d(1) assms(3) find_by_hash_in [OF w]] w ns by (simp add: reported_def) }
qed

lemma sft_loop_member:
  assumes "same_keys ul (ss_ul st)" and "ul_inv (ss_ul st)" and "ul_inv ul" and "u0 \<in> set (ul_users ul)"
    and "u \<in> set (ul_users (ss_ul st))" and "ukey u = ukey u0"
  shows "\<exists>u' \<in> set (ul_users (ss_ul (sft_loop env first i ps st))). stays u u' \<and>
    (ui_incall_now u' \<longleftrightarrow> ui_incall_now u \<or> (\<exists>p\<in>set ps. reported env ul p u0))"
  using assms
proof (induction ps arbitrary: i st u)
  case Nil
  then show ?case by (auto simp: stays_def)
next
  case (Cons p ps)
  let ?st = "sft_part env first i p st"
  obtain v where v: "v \<in> set (ul_users (ss_ul ?st))" "stays u v"
      "ui_incall_now v \<longleftrightarrow> ui_incall_now u \<or> reported env (ss_ul st) p u"
    using sft_part_member [OF Cons.prems(2,5)] by blast
  have r: "reported env (ss_ul st) p u \<longleftrightarrow> reported env ul p u0"
    using reported_same Cons.prems by blast
  have k: "same_keys ul (ss_ul ?st)" "ul_inv (ss_ul ?st)"
    using sft_part_keys sft_part_inv Cons.prems(1,2) by blast+
  have "ukey v = ukey u0" using v(2) Cons.prems(6) by (simp add: stays_def)
  then obtain u' where u': "u' \<in> set (ul_users (ss_ul (sft_loop env first (i + 1) ps ?st)))" "stays v u'"
      "ui_incall_now u' \<longleftrightarrow> ui_incall_now v \<or> (\<exists>p\<in>set ps. reported env ul p u0)"
    using Cons.IH [OF k Cons.prems(3,4) v(1), of "i + 1"] by blast
  have "stays u u'" using stays_trans [OF v(2) u'(2)] u'(3) by simp
  then show ?case using u'(1,3) v(3) r by auto
qed

lemma joined_member:
  assumes "u \<in> set (ul_users ul)"
  shows "\<exists>u' \<in> set (joined_users ul). ukey u' = ukey u \<and> ui_se_approved u' = ui_se_approved u \<and>
    ui_userid_real u' = ui_userid_real u \<and> ui_clientid_real u' = ui_clientid_real u \<and>
    ui_incall_now u' = ui_incall_now u \<and>
    (ui_needs_key u' \<longleftrightarrow> ui_needs_key u \<or>
       ui_se_approved u \<and> (ui_force_decoder u \<or> ui_incall_now u \<and> \<not> ui_incall_prev u)) \<and>
    (ui_se_approved u \<and> \<not> ui_force_decoder u \<and> \<not> ui_incall_now u \<and> ui_incall_prev u \<longrightarrow>
       ui_ssrca u' = 0 \<and> ui_ssrcv u' = 0 \<and> ui_video_state u' = ICALL_VIDEO_STATE_STOPPED)"
  by (rule bexI [of _ "fst (snd (sft_join_leave (ul_handlers ul) u))"])
     (use assms in \<open>auto simp: joined_users_def sft_join_leave_def Let_def ukey_def\<close>)

lemma reported_begin:
  assumes "ul_inv ul" and "u \<in> set (ul_users ul)"
  shows "reported env (sft_begin ul) p
      (u\<lparr>ui_incall_prev := ui_incall_now u, ui_incall_now := False, ui_listpos := LIST_POS_NONE\<rparr>) \<longleftrightarrow>
    reported env ul p u" (is "reported env _ p (?g u) \<longleftrightarrow> _")
proof -
  have "w = u" if "w \<in> set (ul_users ul)" "?g w = ?g u" for w
  proof -
    have "ui_addr (?g w) = ui_addr (?g u)" using that(2) by simp
    then show ?thesis using assms that(1) by (simp add: ul_inv_def distinct_map inj_on_def)
  qed
  then show ?thesis
    using find_by_hash_in by (fastforce simp: reported_def begin_lookup)
qed

lemma sft_membership:
  fixes env ul parts sc u
  assumes "ul_inv ul" and "list_sort_ok (ue_sort env)" and "u \<in> set (ul_users ul)"
  defines "ul' \<equiv> fst (userlist_update_from_sftlist env ul parts sc)"
    and "named \<equiv> \<exists>p\<in>set parts. reported env ul p u"
  shows "\<exists>u' \<in> set (ul_users ul'). ukey u' = ukey u \<and> ui_se_approved u' = ui_se_approved u \<and>
    ui_userid_real u' = ui_userid_real u \<and> ui_clientid_real u' = ui_clientid_real u \<and>
    (ui_incall_now u' \<longleftrightarrow> named) \<and>
    (ui_se_approved u \<and> named \<and> \<not> ui_incall_now u \<longrightarrow> ui_needs_key u') \<and>
    (ui_se_approved u \<and> \<not> ui_force_decoder u \<and> ui_incall_now u \<and> \<not> named \<longrightarrow>
       ui_ssrca u' = 0 \<and> ui_ssrcv u' = 0 \<and> ui_video_state u' = ICALL_VIDEO_STATE_STOPPED)"
proof -
  let ?ul = "sft_begin ul"
  let ?st = "\<lparr>ss_ul = ?ul, ss_listpos = 0, ss_self_changed = sc, ss_list_changed = False,
    ss_sync_decoders = False, ss_missing = False\<rparr>"
  let ?fin = "sft_loop env (find_first_approved env ?ul 0 parts) 0 parts ?st"
  define v where "v = u\<lparr>ui_incall_prev := ui_incall_now u, ui_incall_now := False, ui_listpos := LIST_POS_NONE\<rparr>"
  have v: "v \<in> set (ul_users ?ul)" using assms(3) by (simp add: sft_begin_def v_def)
  have k: "same_keys ?ul (ss_ul ?st)" "ul_inv (ss_ul ?st)" "ul_inv ?ul" "v \<in> set (ul_users (ss_ul ?st))"
    using same_keys_refl sft_begin_inv [OF assms(1)] v by simp_all
  have r: "reported env ?ul p v \<longleftrightarrow> reported env ul p u" for p
    unfolding v_def by (rule reported_begin [OF assms(1,3)])
  obtain w where w: "w \<in> set (ul_users (ss_ul ?fin))" "stays v w"
      "ui_incall_now w \<longleftrightarrow> ui_incall_now v \<or> (\<exists>p\<in>set parts. reported env ?ul p v)"
    using sft_loop_member [OF k(1,2,3) v k(4) refl] by blast
  obtain u' where u': "u' \<in> set (joined_users (ss_ul ?fin))" "ukey u' = ukey w" "ui_se_approved u' = ui_se_approved w"
      "ui_userid_real u' = ui_userid_real w" "ui_clientid_real u' = ui_clientid_real w"
      "ui_incall_now u' = ui_incall_now w"
      "ui_needs_key u' \<longleftrightarrow> ui_needs_key w \<or>
         ui_se_approved w \<and> (ui_force_decoder w \<or> ui_incall_now w \<and> \<not> ui_incall_prev w)"
      "ui_se_approved w \<and> \<not> ui_force_decoder w \<and> \<not> ui_incall_now w \<and> ui_incall_prev w \<longrightarrow>
         ui_ssrca u' = 0 \<and> ui_ssrcv u' = 0 \<and> ui_video_state u' = ICALL_VIDEO_STATE_STOPPED"
    using joined_member [OF w(1)] by blast
  have "u' \<in> set (ul_users ul')"
    using u'(1) by (simp add: ul'_def userlist_update_from_sftlist_def sft_walk_def Let_def sft_end_simps sort_users [OF assms(2)])
  moreover have "ui_incall_now w \<longleftrightarrow> named" using w(3) r by (simp add: named_def v_def)
  ultimately show ?thesis
    using u' w(2) by (intro bexI [of _ u']) (auto simp: stays_def v_def ukey_def)
qed

section \<open>Epochs, keys and reports\<close>

text \<open>The epochs that a key may be taken from: one's own and those of the members in the call, where known.\<close>

definition key_epochs :: "userlist \<Rightarrow> u32 list" where
  "key_epochs ul = filter (\<lambda>e. e \<noteq> 0) (ui_latest_epoch (ul_self ul) #
     map ui_latest_epoch (filter (\<lambda>u. ui_se_approved u \<and> ui_in_subconv u \<and> ui_incall_now u) (ul_users ul)))"

definition min0 :: "u32 \<Rightarrow> u32 \<Rightarrow> u32" where
  "min0 e m = (if 0 < e \<and> (m = 0 \<or> e < m) then e else m)"

definition least_epoch :: "u32 list \<Rightarrow> u32" where
  "least_epoch es = (let fs = filter (\<lambda>e. e \<noteq> 0) es in if fs = [] then 0 else Min (set fs))"

lemma least_min0: "least_epoch (min0 e m # es) = least_epoch (m # e # es)"
proof -
  have "min m (min e M) = (if e < m then min e M else min m M)" for M :: u32
    by (auto simp: min_def)
  moreover have "min m e = (if e < m then e else m)" by (auto simp: min_def)
  ultimately show ?thesis
    by (cases "filter (\<lambda>e. e \<noteq> 0) es = []")
       (auto simp: least_epoch_def min0_def Let_def word_neq_0_conv simp del: set_filter)
qed

lemma least_fold: "fold min0 es m = least_epoch (m # es)"
  by (induction es arbitrary: m) (simp_all add: least_min0, simp add: least_epoch_def)

lemma key_index_fold:
  "fold key_index_step us m =
    fold min0 (map ui_latest_epoch (filter (\<lambda>u. ui_se_approved u \<and> ui_in_subconv u \<and> ui_incall_now u) us)) m"
  by (induction us arbitrary: m) (auto simp: key_index_step_def min0_def)

lemma key_index_min: "userlist_get_key_index ul = (if key_epochs ul = [] then 0 else Min (set (key_epochs ul)))"
  unfolding userlist_get_key_index_def key_epochs_def key_index_fold least_fold by (simp only: least_epoch_def Let_def)

definition key_target :: "bool \<Rightarrow> userinfo \<Rightarrow> bool" where
  "key_target send_to_all u \<longleftrightarrow> ui_incall_now u \<and> ui_se_approved u \<and> (ui_needs_key u \<or> send_to_all)"

lemma key_targets_loop_eq:
  "key_targets_loop all us =
    (map (\<lambda>u. icall_client_alloc (ui_userid_real u) (ui_clientid_real u)) (filter (key_target all) us),
     map (\<lambda>u. if key_target all u then u\<lparr>ui_needs_key := False\<rparr> else u) us)"
  by (induction us) (auto simp: key_target_def)

lemma key_targets_again:
  assumes "userlist_get_key_targets ul all = (e, cs, ul')"
  shows "userlist_get_key_targets ul' False = (OK, [], ul')"
proof -
  let ?us = "map (\<lambda>u. if key_target all u then u\<lparr>ui_needs_key := False\<rparr> else u) (ul_users ul)"
  have no: "\<not> key_target False u" if "u \<in> set ?us" for u using that by (auto simp: key_target_def)
  have "ul' = ul\<lparr>ul_users := ?us\<rparr>"
    using assms unfolding userlist_get_key_targets_def key_targets_loop_eq by simp
  moreover have "filter (key_target False) ?us = []" using no by (simp only: filter_empty_conv) blast
  moreover have "map (\<lambda>u. if key_target False u then u\<lparr>ui_needs_key := False\<rparr> else u) ?us = ?us"
    using no by (intro map_idI) (simp only: if_False)
  ultimately show ?thesis
    unfolding userlist_get_key_targets_def key_targets_loop_eq by simp
qed

lemma count_fold: "fold (\<lambda>u n. if P u then n + 1 else n) us k = k + length (filter P us)" for k :: nat
  by (induction us arbitrary: k) auto

lemma members_loop_eq:
  assumes "length pre = membc" and "length (filter is_member us) = length rest" and "n = membc + length rest"
  shows "members_loop n us (pre @ rest) membc = Some (pre @ map member_of (filter is_member us), n)"
  using assms
proof (induction us arbitrary: pre rest membc)
  case (Cons u us)
  show ?case
  proof (cases "is_member u")
    case True
    then obtain r rs where r: "rest = r # rs" using Cons.prems(2) by (cases rest) auto
    have "(pre @ rest)[membc := member_of u] = (pre @ [member_of u]) @ rs"
      using Cons.prems(1) r by (simp add: list_update_append)
    then show ?thesis
      using Cons.IH [of "pre @ [member_of u]" "membc + 1" rs] Cons.prems True r by simp
  qed (use Cons in simp)
qed simp

section \<open>Properties\<close>

text \<open>A concrete environment: comparison without case, a 32-byte digest of the input, insertion sort.\<close>

definition demo_ul :: ul_env where
  "demo_ul = \<lparr>ue_caseeq = (\<lambda>a b. map_option make_lower a = map_option make_lower b),
     ue_sha256 = (\<lambda>ps. (OK, take 32 (concat ps @ replicate 32 0))), ue_sort = isort_by\<rparr>"

lemma demo_ul_ok: "ul_env_ok demo_ul" "list_sort_ok (ue_sort demo_ul)"
  by (simp_all add: ul_env_ok_def demo_ul_def isort_by_ok) (simp add: min_def)

text \<open>Two clients, \<open>a\<close> and \<open>b\<close>, that the backend approved for each other.\<close>

definition demo_handlers :: ul_handlers where
  "demo_handlers = \<lparr>uh_addh = True, uh_removeh = True, uh_synch = True, uh_kgchangeh = True, uh_vstateh = True\<rparr>"

definition demo_fresh :: "string \<Rightarrow> userlist" where
  "demo_fresh u = \<lparr>ul_users = [], ul_self = userinfo_zero\<lparr>ui_userid_real := Some u, ui_clientid_real := Some ''x''\<rparr>,
     ul_keygenerator = None, ul_handlers = demo_handlers, ul_trace = [], ul_next = 1\<rparr>"

definition demo_ops :: "(ul_env \<times> ul_op) list" where
  "demo_ops = [(demo_ul, UlSecret [7]),
     (demo_ul, UlSe [icall_client_alloc (Some ''a'') (Some ''x''), icall_client_alloc (Some ''b'') (Some ''x'')] 1 [7])]"

definition demo_list :: "string \<Rightarrow> userlist" where
  "demo_list u = the (run ul_step (demo_fresh u) demo_ops)"

definition demo_part :: "string \<Rightarrow> econn_group_part" where
  "demo_part u = \<lparr>gp_userid = ui_userid_hash (ul_self (demo_list u)), gp_clientid = Some ''_'', gp_authorized = True,
     gp_muted_state = MUTED_STATE_UNKNOWN, gp_ssrca = 5, gp_ssrcv = 6, gp_ts = 0\<rparr>"

lemma demo_fresh_alloc: "userlist_alloc True True (Some u) (Some ''x'') demo_handlers = (OK, Some (demo_fresh u))"
  by (simp add: userlist_alloc_def userinfo_alloc_def demo_fresh_def userinfo_zero_def)

lemma demo_list_eval:
  "run ul_step (demo_fresh ''a'') demo_ops = Some (demo_list ''a'')"
  "map ui_addr (ul_users (demo_list ''a'')) = [1]" "ul_next (demo_list ''a'') = 2" "ul_keygenerator (demo_list ''a'') = None"
  "map ui_addr (ul_users (demo_list ''b'')) = [1]" "ul_next (demo_list ''b'') = 2" "ul_keygenerator (demo_list ''b'') = None"
  by code_simp+

lemma demo_list_inv: "ul_inv (demo_list ''a'')" "ul_inv (demo_list ''b'')"
  by (simp_all only: ul_inv_def demo_list_eval) simp_all

text \<open>
  C24: starting from a fresh list, any sequence of updates from the server, from the backend and of the
  other operations is free of undefined accesses, and the key generator never dangles: where it is
  not oneself it is exactly one member of the list.
\<close>

theorem userlist_run_safe:
  assumes "userlist_alloc mem mem_self userid clientid h = (OK, Some ul)" and "\<forall>ev\<in>set evs. ul_env_ok (fst ev)"
  shows "\<exists>ul'. run ul_step ul evs = Some ul' \<and>
    (\<forall>a. ul_keygenerator ul' = Some (Kg_user a) \<longrightarrow> (\<exists>!u. u \<in> set (ul_users ul') \<and> ui_addr u = a))"
proof -
  have "ul_inv ul"
    using assms(1) by (auto simp: userlist_alloc_def userinfo_alloc_def ul_inv_def split: if_splits)
  moreover have "guarded ul_step ul_guard ul evs" for ul
    using assms(2) by (induction evs arbitrary: ul) (auto simp: ul_guard_def split: option.split)
  ultimately obtain ul' where ul': "run ul_step ul evs = Some ul'" "ul_inv ul'" using ulm.run_inv by blast
  have "\<exists>!u. u \<in> set (ul_users ul') \<and> ui_addr u = a" if "ul_keygenerator ul' = Some (Kg_user a)" for a
  proof -
    have "a \<in> set (map ui_addr (ul_users ul'))" using ul'(2) that unfolding ul_inv_def by blast
    then obtain u where "u \<in> set (ul_users ul')" "ui_addr u = a" by auto
    moreover have "inj_on ui_addr (set (ul_users ul'))" using ul'(2) by (simp add: ul_inv_def distinct_map)
    ultimately show ?thesis by (auto simp: inj_on_def)
  qed
  then show ?thesis using ul'(1) by blast
qed

theorem userlist_run_safe_witness:
  "(\<exists>ul'. run ul_step (demo_fresh ''a'') (demo_ops @ [(demo_ul, UlSft [demo_part ''b'', demo_part ''a''] False)]) = Some ul' \<and>
     (\<forall>a. ul_keygenerator ul' = Some (Kg_user a) \<longrightarrow> (\<exists>!u. u \<in> set (ul_users ul') \<and> ui_addr u = a))) \<and>
   map_option ul_keygenerator
     (run ul_step (demo_fresh ''a'') (demo_ops @ [(demo_ul, UlSft [demo_part ''b'', demo_part ''a''] False)])) =
     Some (Some (Kg_user 1))"
proof (rule conjI)
  show "\<exists>ul'. run ul_step (demo_fresh ''a'') (demo_ops @ [(demo_ul, UlSft [demo_part ''b'', demo_part ''a''] False)]) = Some ul' \<and>
     (\<forall>a. ul_keygenerator ul' = Some (Kg_user a) \<longrightarrow> (\<exists>!u. u \<in> set (ul_users ul') \<and> ui_addr u = a))"
    by (rule userlist_run_safe [OF demo_fresh_alloc]) (simp add: demo_ops_def demo_ul_ok)
qed code_simp

text \<open>
  C17: the clients of a call agree on one key generator. Let every client of the server's list have
  a list of its own and recognise itself in the server's list and nobody else, and let the first
  participant of the list be approved in every other client's own list; after each has taken in the same server list exactly one of them holds itself to be the key generator, the first of the list, and
  every other one has elected that first participant.
\<close>

theorem keygenerator_agreement:
  assumes "length uls = length parts" and "parts \<noteq> []" and "\<forall>ul\<in>set uls. ul_inv ul"
    and "\<forall>i<length uls. \<forall>j<length parts. is_self env (uls ! i) (parts ! j) \<longleftrightarrow> i = j"
    and "\<forall>ul\<in>set uls. elects env ul (hd parts)"
  shows "(\<exists>!i. i < length uls \<and>
      userlist_is_keygenerator_me (fst (userlist_update_from_sftlist env (uls ! i) parts sc))) \<and>
    (\<forall>i<length uls. \<exists>kg. kg_of env (uls ! i) (hd parts) = Some kg \<and>
      userlist_get_keygenerator (fst (userlist_update_from_sftlist env (uls ! i) parts sc)) = Some kg)"
proof -
  obtain p ps where p: "parts = p # ps" using assms(2) by (cases parts) auto
  have kg: "ul_keygenerator (fst (userlist_update_from_sftlist env (uls ! i) parts sc)) = kg_of env (uls ! i) p"
      "elects env (uls ! i) p" "is_self env (uls ! i) p \<longleftrightarrow> i = 0" if "i < length uls" for i
  proof -
    have "ul_inv (uls ! i)" "elects env (uls ! i) p" using assms(3,5) p that by auto
    then show "ul_keygenerator (fst (userlist_update_from_sftlist env (uls ! i) parts sc)) = kg_of env (uls ! i) p"
        "elects env (uls ! i) p"
      by (simp_all add: keygenerator_elected p)
    show "is_self env (uls ! i) p \<longleftrightarrow> i = 0" using assms(1,4) p that by fastforce
  qed
  have me: "userlist_is_keygenerator_me (fst (userlist_update_from_sftlist env (uls ! i) parts sc)) \<longleftrightarrow> i = 0"
    if "i < length uls" for i
    using kg [OF that] by (auto simp: userlist_is_keygenerator_me_def kg_of_def split: if_splits)
  have "0 < length uls" using assms(1) p by simp
  then have "\<exists>!i. i < length uls \<and> userlist_is_keygenerator_me (fst (userlist_update_from_sftlist env (uls ! i) parts sc))"
    using me by (intro ex1I [of _ 0]) blast+
  moreover have "\<exists>kg. kg_of env (uls ! i) p = Some kg" if "i < length uls" for i
    using kg(2) [OF that] by (auto simp: elects_def kg_of_def split: option.splits)
  ultimately show ?thesis using kg(1) p by (simp add: userlist_get_keygenerator_def)
qed

lemma demo_agree:
  "\<forall>i<length [demo_list ''a'', demo_list ''b'']. \<forall>j<length [demo_part ''a'', demo_part ''b''].
     is_self demo_ul ([demo_list ''a'', demo_list ''b''] ! i) ([demo_part ''a'', demo_part ''b''] ! j) \<longleftrightarrow> i = j"
  "\<forall>ul\<in>set [demo_list ''a'', demo_list ''b'']. elects demo_ul ul (hd [demo_part ''a'', demo_part ''b''])"
  by code_simp+

theorem keygenerator_agreement_witness:
  "\<exists>!i. i < length [demo_list ''a'', demo_list ''b''] \<and> userlist_is_keygenerator_me
     (fst (userlist_update_from_sftlist demo_ul ([demo_list ''a'', demo_list ''b''] ! i) [demo_part ''a'', demo_part ''b''] False))"
  by (rule keygenerator_agreement [THEN conjunct1, OF _ _ _ demo_agree]) (simp_all add: demo_list_inv)

text \<open>
  C25: an approved member that the server newly reports in the call is handed a key: after the
  update the next list of key targets has its client, and the targets after that are empty, so no
  key is sent twice.
\<close>

theorem joiner_gets_key:
  assumes "ul_inv ul" and "list_sort_ok (ue_sort env)" and "u \<in> set (ul_users ul)" and "ui_se_approved u"
    and "\<not> ui_incall_now u" and "p \<in> set parts" and "reported env ul p u"
    and "userlist_get_key_targets (fst (userlist_update_from_sftlist env ul parts sc)) all = (e, targets, ul')"
  shows "icall_client_alloc (ui_userid_real u) (ui_clientid_real u) \<in> set targets \<and>
    userlist_get_key_targets ul' False = (OK, [], ul')"
proof -
  let ?ul = "fst (userlist_update_from_sftlist env ul parts sc)"
  obtain u' where u': "u' \<in> set (ul_users ?ul)" "ui_se_approved u'" "ui_incall_now u'" "ui_needs_key u'"
      "ui_userid_real u' = ui_userid_real u" "ui_clientid_real u' = ui_clientid_real u"
    using sft_membership [OF assms(1-3), of parts sc] assms(4-7) by blast
  have "u' \<in> set (filter (key_target all) (ul_users ?ul))" using u' by (simp add: key_target_def)
  then have "icall_client_alloc (ui_userid_real u') (ui_clientid_real u') \<in> set targets"
    using assms(8) by (auto simp: userlist_get_key_targets_def key_targets_loop_eq)
  moreover have "userlist_get_key_targets ul' False = (OK, [], ul')"
    by (rule key_targets_again [OF assms(8)])
  ultimately show ?thesis using u'(5,6) by simp
qed

theorem joiner_gets_key_witness:
  "icall_client_alloc (Some ''b'') (Some ''x'') \<in> set (fst (snd (userlist_get_key_targets
     (fst (userlist_update_from_sftlist demo_ul (demo_list ''a'') [demo_part ''b''] False)) False)))"
proof -
  let ?u = "ul_users (demo_list ''a'') ! 0"
  let ?r = "userlist_get_key_targets (fst (userlist_update_from_sftlist demo_ul (demo_list ''a'') [demo_part ''b''] False)) False"
  have "?u \<in> set (ul_users (demo_list ''a''))" "ui_se_approved ?u" "\<not> ui_incall_now ?u"
      "reported demo_ul (demo_list ''a'') (demo_part ''b'') ?u"
    by code_simp+
  moreover have "ui_userid_real ?u = Some ''b''" "ui_clientid_real ?u = Some ''x''" by code_simp+
  ultimately show ?thesis
    using joiner_gets_key [OF demo_list_inv(1) demo_ul_ok(2), of ?u "demo_part ''b''" "[demo_part ''b'']" False False
      "fst ?r" "fst (snd ?r)" "snd (snd ?r)"] by simp
qed

end
