(* ===== verification/Config.thy ===== *)
theory Config
  imports Jzon
begin

text \<open>
  The call configuration, \<^verbatim>\<open>src/src/config/config.c\<close>: the lists of ICE and SFT servers that the
  backend hands out, their refresh timer and the update handlers. A pair of an array pointer and a
  count is kept as two fields, because the code can let them differ. An update element is known by
  its number; the calls of the request handler and of the update handlers are a trace.
\<close>

section \<open>State\<close>

record call_config =
  cfg_iceserverv :: "zapi_ice_server list option"
  cfg_iceserverc :: nat
  cfg_sftserverv :: "zapi_ice_server list option"
  cfg_sftserverc :: nat
  cfg_sftservers_allv :: "zapi_ice_server list option"
  cfg_sftservers_allc :: nat
  cfg_sfticeserverv :: "zapi_ice_server list option"
  cfg_sfticeserverc :: nat
  cfg_is_federating :: bool

datatype cf_act = Cf_reqh | Cf_updh | Cf_elem nat

record config =
  cf_updh :: bool
  cf_reqh :: bool
  cf_tmr :: "u64 option"
  cf_expires_ts :: u64
  cf_is_updating :: bool
  cf_config :: call_config
  cf_updl :: "nat list"
  cf_trace :: "cf_act list"

definition EXPIRY_MIN :: u32 where
  "EXPIRY_MIN = 300"

definition EXPIRY_MAX :: u32 where
  "EXPIRY_MAX = 3600"

section \<open>Operations\<close>

text \<open>\<open>req_err\<close>: what the request handler returns.\<close>

definition do_request :: "err \<Rightarrow> config \<Rightarrow> err \<times> config" where
  "do_request req_err cfg =
     (let cfg = cfg\<lparr>cf_tmr := None\<rparr>
      in if cf_reqh cfg then (req_err, cfg\<lparr>cf_is_updating := True, cf_trace := cf_trace cfg @ [Cf_reqh]\<rparr>)
         else (OK, cfg))"

text \<open>The expiry of the refresh timer.\<close>

definition cfg_tmr_handler :: "err \<Rightarrow> config \<Rightarrow> config" where
  "cfg_tmr_handler req_err cfg = snd (do_request req_err cfg)"

definition config_alloc :: "bool \<Rightarrow> bool \<Rightarrow> bool \<Rightarrow> err \<times> config option" where
  "config_alloc mem reqh updh =
     (if \<not> mem then (ENOMEM, None)
      else (OK, Some \<lparr>cf_updh = updh, cf_reqh = reqh, cf_tmr = None, cf_expires_ts = 0, cf_is_updating = False,
                      cf_config = \<lparr>cfg_iceserverv = None, cfg_iceserverc = 0, cfg_sftserverv = None,
                        cfg_sftserverc = 0, cfg_sftservers_allv = None, cfg_sftservers_allc = 0,
                        cfg_sfticeserverv = None, cfg_sfticeserverc = 0, cfg_is_federating = False\<rparr>,
                      cf_updl = [], cf_trace = []\<rparr>))"

text \<open>
  One array of the answer: the old pointer and count, and whether an empty array is an error. A
  failed decoding leaves the pointer NULL, since the old array was released before it, and the count as it was.
\<close>

definition cfg_servers ::
  "re_env \<Rightarrow> json \<Rightarrow> string \<Rightarrow> bool \<Rightarrow> zapi_ice_server list option \<times> nat
   \<Rightarrow> err \<times> zapi_ice_server list option \<times> nat" where
  "cfg_servers re jobj key required old =
     (case jzon_array re jobj key of
        (OK, Some ja) \<Rightarrow>
          (case zapi_iceservers_decode re ja of
             (e, srvv) \<Rightarrow>
               if e \<noteq> OK then (e, None, snd old)
               else (if required \<and> length srvv = 0 then ENOENT else OK, Some srvv, length srvv))
      | _ \<Rightarrow> (OK, old))"

text \<open>The arrays in order; the first error ends the update.\<close>

definition cfg_decode :: "re_env \<Rightarrow> json \<Rightarrow> call_config \<Rightarrow> err \<times> call_config" where
  "cfg_decode re jobj c =
     (let (e, v, n) = cfg_servers re jobj ''ice_servers'' True (cfg_iceserverv c, cfg_iceserverc c);
          c = c\<lparr>cfg_iceserverv := v, cfg_iceserverc := n\<rparr>
      in if e \<noteq> OK then (e, c)
         else let (e, v, n) = cfg_servers re jobj ''sft_servers'' True (cfg_sftserverv c, cfg_sftserverc c);
                  c = c\<lparr>cfg_sftserverv := v, cfg_sftserverc := n\<rparr>
              in if e \<noteq> OK then (e, c)
                 else let (e, v, n) = cfg_servers re jobj ''sft_servers_all'' True
                                        (cfg_sftservers_allv c, cfg_sftservers_allc c);
                          c = c\<lparr>cfg_sftservers_allv := v, cfg_sftservers_allc := n\<rparr>
                      in if e \<noteq> OK then (e, c)
                         else let (e, fed) = jzon_bool re (cfg_is_federating c) jobj ''is_federating'';
                                  c = c\<lparr>cfg_is_federating :=
                                          (if e \<noteq> OK then 0 < cfg_sftservers_allc c else fed)\<rparr>;
                                  (e, v, n) = cfg_servers re jobj ''sft_ice_servers'' False
                                                (cfg_sfticeserverv c, cfg_sfticeserverc c)
                              in (e, c\<lparr>cfg_sfticeserverv := v, cfg_sfticeserverc := n\<rparr>))"

definition clamp_ttl :: "u32 \<Rightarrow> u32" where
  "clamp_ttl ttl = max (min ttl EXPIRY_MAX) EXPIRY_MIN"

text \<open>\<open>resp_err\<close> is the result of the request, \<open>conf_json\<close> the answer.\<close>

definition config_update :: "re_env \<Rightarrow> u64 \<Rightarrow> config \<Rightarrow> err \<Rightarrow> string option \<Rightarrow> err \<times> config" where
  "config_update re now cfg resp_err conf_json =
     (case conf_json of
        None \<Rightarrow> (EINVAL, cfg)
      | Some text \<Rightarrow>
          let cfg = cfg\<lparr>cf_is_updating := False\<rparr>
          in if resp_err \<noteq> OK then (OK, cfg\<lparr>cf_tmr := Some (60 * 1000)\<rparr>)
             else case jzon_decode re text of
                    (OK, Some jobj) \<Rightarrow>
                      (let ttl = clamp_ttl (snd (jzon_u32 re 0 jobj ''ttl''));
                           cfg = cfg\<lparr>cf_expires_ts := now + ucast (ttl * 1000)\<rparr>;
                           (e, c) = cfg_decode re jobj (cf_config cfg);
                           cfg = cfg\<lparr>cf_config := c\<rparr>
                       in if e \<noteq> OK then (e, cfg\<lparr>cf_tmr := Some (60 * 1000)\<rparr>)
                          else (OK, cfg\<lparr>cf_tmr := Some (ucast (ttl * 9 div 10 * 1000)),
                                        cf_trace := cf_trace cfg @ (if cf_updh cfg then [Cf_updh] else []) @
                                                    map Cf_elem (cf_updl cfg)\<rparr>))
                  | (e, _) \<Rightarrow> (e, cfg))"

definition config_start :: "err \<Rightarrow> config \<Rightarrow> err \<times> config" where
  "config_start req_err cfg = do_request req_err cfg"

definition config_stop :: "config \<Rightarrow> config" where
  "config_stop cfg = cfg\<lparr>cf_tmr := None\<rparr>"

text \<open>The getters return the pointer and the count that was stored, \<open>None\<close> where nothing was.\<close>

definition config_get_iceservers :: "config option \<Rightarrow> zapi_ice_server list option \<times> nat option" where
  "config_get_iceservers cfg =
     (case cfg of
        None \<Rightarrow> (None, None)
      | Some f \<Rightarrow> if cfg_iceserverc (cf_config f) = 0 then (None, None)
                  else (cfg_iceserverv (cf_config f), Some (cfg_iceserverc (cf_config f))))"

definition config_get_sftservers :: "config option \<Rightarrow> zapi_ice_server list option \<times> nat option" where
  "config_get_sftservers cfg =
     (case cfg of
        None \<Rightarrow> (None, None)
      | Some f \<Rightarrow> if cfg_sftserverc (cf_config f) = 0 then (None, None)
                  else (cfg_sftserverv (cf_config f), Some (cfg_sftserverc (cf_config f))))"

definition config_get_sftservers_all :: "config option \<Rightarrow> zapi_ice_server list option \<times> nat option" where
  "config_get_sftservers_all cfg =
     (case cfg of
        None \<Rightarrow> (None, None)
      | Some f \<Rightarrow> if cfg_sftservers_allc (cf_config f) = 0 then (None, None)
                  else (cfg_sftservers_allv (cf_config f), Some (cfg_sftservers_allc (cf_config f))))"

definition config_get_sfticeservers :: "config option \<Rightarrow> zapi_ice_server list option \<times> nat option" where
  "config_get_sfticeservers cfg =
     (case cfg of
        None \<Rightarrow> (None, None)
      | Some f \<Rightarrow> if cfg_sfticeserverc (cf_config f) = 0 then (None, None)
                  else (cfg_sfticeserverv (cf_config f), Some (cfg_sfticeserverc (cf_config f))))"

definition config_is_federating :: "config option \<Rightarrow> bool" where
  "config_is_federating cfg = (case cfg of None \<Rightarrow> False | Some f \<Rightarrow> cfg_is_federating (cf_config f))"

definition config_request :: "err \<Rightarrow> config option \<Rightarrow> err \<times> config option" where
  "config_request req_err cfg =
     (case cfg of
        None \<Rightarrow> (EINVAL, None)
      | Some f \<Rightarrow> (case do_request req_err f of (e, f) \<Rightarrow> (e, Some f)))"

text \<open>\<open>has_updh\<close>: the element has a handler; \<open>in_cfg\<close>: it was registered before.\<close>

definition config_register_update_handler :: "nat \<Rightarrow> bool \<Rightarrow> config option \<Rightarrow> err \<times> config option" where
  "config_register_update_handler upe has_updh cfg =
     (case cfg of
        None \<Rightarrow> (EINVAL, None)
      | Some f \<Rightarrow> if \<not> has_updh then (ENOSYS, Some f) else (OK, Some (f\<lparr>cf_updl := cf_updl f @ [upe]\<rparr>)))"

definition config_unregister_update_handler :: "nat \<Rightarrow> bool \<Rightarrow> config \<Rightarrow> err \<times> config" where
  "config_unregister_update_handler upe in_cfg cfg =
     (if \<not> in_cfg then (ENOSYS, cfg) else (OK, cfg\<lparr>cf_updl := removeAll upe (cf_updl cfg)\<rparr>))"

text \<open>\<open>has_arg\<close>: the elements with the argument.\<close>

definition config_unregister_all_updates :: "config \<Rightarrow> (nat \<Rightarrow> bool) \<Rightarrow> err \<times> config" where
  "config_unregister_all_updates cfg has_arg =
     (OK, cfg\<lparr>cf_updl := filter (\<lambda>u. \<not> has_arg u) (cf_updl cfg)\<rparr>)"

definition config_needs_update :: "u64 \<Rightarrow> config \<Rightarrow> bool" where
  "config_needs_update now cfg \<longleftrightarrow> cf_is_updating cfg \<or> cf_expires_ts cfg \<le> now"

section \<open>Properties\<close>

text \<open>The arrays of a configuration are as long as their counts say.\<close>

definition counts_ok :: "call_config \<Rightarrow> bool" where
  "counts_ok c \<longleftrightarrow>
     length (case cfg_iceserverv c of Some v \<Rightarrow> v | None \<Rightarrow> []) = cfg_iceserverc c \<and>
     length (case cfg_sftserverv c of Some v \<Rightarrow> v | None \<Rightarrow> []) = cfg_sftserverc c \<and>
     length (case cfg_sftservers_allv c of Some v \<Rightarrow> v | None \<Rightarrow> []) = cfg_sftservers_allc c \<and>
     length (case cfg_sfticeserverv c of Some v \<Rightarrow> v | None \<Rightarrow> []) = cfg_sfticeserverc c"

lemma cfg_servers_count:
  assumes "cfg_servers re jobj key required (v, n) = (OK, v', n')"
    and "length (case v of Some v \<Rightarrow> v | None \<Rightarrow> []) = n"
  shows "length (case v' of Some v \<Rightarrow> v | None \<Rightarrow> []) = n'"
  using assms by (auto simp: cfg_servers_def split: prod.splits err.splits option.splits if_splits)

lemma cfg_decode_counts:
  assumes "cfg_decode re jobj c = (OK, c')" and "counts_ok c"
  shows "counts_ok c'"
  using assms
  by (auto simp: cfg_decode_def Let_def counts_ok_def split: prod.splits if_splits dest!: cfg_servers_count)

lemma clamp_ttl_bounds: "EXPIRY_MIN \<le> clamp_ttl ttl" "clamp_ttl ttl \<le> EXPIRY_MAX"
  by (simp_all add: clamp_ttl_def EXPIRY_MIN_def EXPIRY_MAX_def)

end
