(* ===== verification/Ccall.thy ===== *)
theory Ccall
  imports Econn_Fmt Keystore Userlist Config
begin

text \<open>
  A conference call, \<^verbatim>\<open>src/src/ccall/ccall.c\<close>: the state machine that joins the key store, the list
  of members, the configuration, the messages and one connection to a server (SFT). An operation
  takes what comes from outside (\<open>cl_env\<close>) and returns the new state, with the error code first where
  the C function has one. The callbacks into the application, the requests for a configuration and
  the calls into the connection (\<^verbatim>\<open>ecall\<close>, of which only the results are used) are the trace
  \<open>cl_trace\<close>; a callback of the connection is an event of its own. A step that the C code leaves undefined (a
  NULL string that is read, an assertion that fails, an int that overflows, the wrong member of a union) sets
  \<open>cl_ub\<close>. Allocations succeed.
\<close>

section \<open>Enumerations and constants\<close>

datatype ccall_state =
    CCALL_STATE_NONE | CCALL_STATE_IDLE | CCALL_STATE_INCOMING | CCALL_STATE_CONNSENT
  | CCALL_STATE_SETUPRECV | CCALL_STATE_CONNECTING | CCALL_STATE_CONNECTED | CCALL_STATE_ACTIVE
  | CCALL_STATE_TERMINATING | CCALL_STATE_WAITCONFIG | CCALL_STATE_WAITCONFIG_OUTGOING
  | CCALL_STATE_WAITNETWORK

datatype sreason = CCALL_STOP_RINGING_NONE | CCALL_STOP_RINGING_ANSWERED | CCALL_STOP_RINGING_REJECTED

datatype icall_call_type = ICALL_CALL_TYPE_NORMAL | ICALL_CALL_TYPE_VIDEO | ICALL_CALL_TYPE_FORCED_AUDIO

datatype icall_conv_type =
  ICALL_CONV_TYPE_ONEONONE | ICALL_CONV_TYPE_GROUP | ICALL_CONV_TYPE_CONFERENCE | ICALL_CONV_TYPE_CONFERENCE_MLS

datatype icall_reason =
    ICALL_REASON_NORMAL | ICALL_REASON_ERROR | ICALL_REASON_TIMEOUT | ICALL_REASON_LOST_MEDIA
  | ICALL_REASON_CANCELED | ICALL_REASON_ANSWERED_ELSEWHERE | ICALL_REASON_IO_ERROR
  | ICALL_REASON_STILL_ONGOING | ICALL_REASON_TIMEOUT_ECONN | ICALL_REASON_DATACHANNEL
  | ICALL_REASON_REJECTED | ICALL_REASON_OUTDATED_CLIENT | ICALL_REASON_NOONE_JOINED
  | ICALL_REASON_EVERYONE_LEFT | ICALL_REASON_AUTH_FAILED | ICALL_REASON_AUTH_FAILED_START
  | ICALL_REASON_DURATION

text \<open>The timers of a conference; each is only ever started with its own handler.\<close>

datatype cl_timer =
    Tmr_connect | Tmr_call | Tmr_send_check | Tmr_ongoing | Tmr_rotate_key | Tmr_rotate_mls | Tmr_ring
  | Tmr_sft_reject | Tmr_vstate | Tmr_decrypt_check | Tmr_keepalive | Tmr_alone | Tmr_duration | Tmr_meeting_term

definition CCALL_CONNECT_TIMEOUT :: u64 where "CCALL_CONNECT_TIMEOUT = 15000"
definition CCALL_SHOULD_RING_TIMEOUT :: u32 where "CCALL_SHOULD_RING_TIMEOUT = 30000"
definition CCALL_RINGER_TIMEOUT :: u64 where "CCALL_RINGER_TIMEOUT = 30000"
definition CCALL_CONFSTART_TIMEOUT_S :: u32 where "CCALL_CONFSTART_TIMEOUT_S = 120"
definition CCALL_SEND_CHECK_TIMEOUT :: u64 where "CCALL_SEND_CHECK_TIMEOUT = 60000"
definition CCALL_ONGOING_CALL_TIMEOUT :: u64 where "CCALL_ONGOING_CALL_TIMEOUT = 90000"
definition CCALL_ROTATE_KEY_TIMEOUT :: u64 where "CCALL_ROTATE_KEY_TIMEOUT = 30000"
definition CCALL_ROTATE_KEY_FIRST_TIMEOUT :: u64 where "CCALL_ROTATE_KEY_FIRST_TIMEOUT = 5000"
definition CCALL_ROTATE_KEY_FAST_TIMEOUT :: u64 where "CCALL_ROTATE_KEY_FAST_TIMEOUT = 1000"
definition CCALL_DECRYPT_CHECK_TIMEOUT :: u64 where "CCALL_DECRYPT_CHECK_TIMEOUT = 10000"
definition CCALL_KEEPALIVE_TIMEOUT :: u64 where "CCALL_KEEPALIVE_TIMEOUT = 5000"
definition CCALL_MAX_MISSING_PINGS :: u32 where "CCALL_MAX_MISSING_PINGS = 4"
definition CCALL_QUALITY_MEDIUM_MISSING :: u32 where "CCALL_QUALITY_MEDIUM_MISSING = 1"
definition CCALL_QUALITY_POOR_MISSING :: u32 where "CCALL_QUALITY_POOR_MISSING = CCALL_MAX_MISSING_PINGS - 1"
definition CCALL_NOONE_JOINED_TIMEOUT :: u64 where "CCALL_NOONE_JOINED_TIMEOUT = 300000"
definition CCALL_EVERYONE_LEFT_TIMEOUT :: u64 where "CCALL_EVERYONE_LEFT_TIMEOUT = 90000"
definition CCALL_ROTATE_MLS_TIMEOUT :: u64 where "CCALL_ROTATE_MLS_TIMEOUT = 5000"
definition CCALL_MLS_KEY_AGE :: u64 where "CCALL_MLS_KEY_AGE = 60000"
definition CCALL_REQ_NEW_EPOCH_TIMEOUT :: u64 where "CCALL_REQ_NEW_EPOCH_TIMEOUT = 82800000"
definition CCALL_DURATION_TERM_TIMEOUT :: u64 where "CCALL_DURATION_TERM_TIMEOUT = 60000"
definition CCALL_SECRET_LEN :: nat where "CCALL_SECRET_LEN = 16"
definition CCALL_MAX_RECONNECT_ATTEMPTS :: u32 where "CCALL_MAX_RECONNECT_ATTEMPTS = 2"
definition CCALL_MAX_VSTREAMS :: u32 where "CCALL_MAX_VSTREAMS = 9"
definition MAX_TURN_SERVERS :: nat where "MAX_TURN_SERVERS = 16"
definition ICALL_RECONNECTING :: int where "ICALL_RECONNECTING = 201"
definition SFT_STATUS_NETWORK_ERROR :: int where "SFT_STATUS_NETWORK_ERROR = 1000"

fun ccall_state_name :: "ccall_state \<Rightarrow> string" where
  "ccall_state_name CCALL_STATE_NONE = ''CCALL_STATE_NONE''"
| "ccall_state_name CCALL_STATE_IDLE = ''CCALL_STATE_IDLE''"
| "ccall_state_name CCALL_STATE_INCOMING = ''CCALL_STATE_INCOMING''"
| "ccall_state_name CCALL_STATE_CONNSENT = ''CCALL_STATE_CONNSENT''"
| "ccall_state_name CCALL_STATE_SETUPRECV = ''CCALL_STATE_SETUPRECV''"
| "ccall_state_name CCALL_STATE_CONNECTING = ''CCALL_STATE_CONNECTING''"
| "ccall_state_name CCALL_STATE_CONNECTED = ''CCALL_STATE_CONNECTED''"
| "ccall_state_name CCALL_STATE_ACTIVE = ''CCALL_STATE_ACTIVE''"
| "ccall_state_name CCALL_STATE_TERMINATING = ''CCALL_STATE_TERMINATING''"
| "ccall_state_name CCALL_STATE_WAITCONFIG = ''CCALL_STATE_WAITCONFIG''"
| "ccall_state_name CCALL_STATE_WAITCONFIG_OUTGOING = ''CCALL_STATE_WAITCONFIG_OUTGOING''"
| "ccall_state_name CCALL_STATE_WAITNETWORK = ''CCALL_STATE_WAITNETWORK''"

section \<open>State\<close>

record icall_metrics =
  im_conv_type :: icall_conv_type
  im_duration_call :: u64
  im_duration_active :: u64
  im_participants_max :: u32
  im_participants_audio_max :: u32
  im_participants_video_max :: u32
  im_participants_video_req :: u32
  im_packetloss_last :: u32
  im_packetloss_max :: u32
  im_rtt_last :: u32
  im_rtt_max :: u32
  im_reconnects_attempted :: u32
  im_reconnects_successful :: u32
  im_initiator :: bool

definition metrics_zero :: "icall_conv_type \<Rightarrow> icall_metrics" where
  "metrics_zero conv_type =
     \<lparr>im_conv_type = conv_type, im_duration_call = 0, im_duration_active = 0, im_participants_max = 0,
      im_participants_audio_max = 0, im_participants_video_max = 0, im_participants_video_req = 0,
      im_packetloss_last = 0, im_packetloss_max = 0, im_rtt_last = 0, im_rtt_max = 0,
      im_reconnects_attempted = 0, im_reconnects_successful = 0, im_initiator = False\<rparr>"

text \<open>The part of \<^verbatim>\<open>struct stats_report\<close> that a conference reads and writes.\<close>

record stats_report =
  sr_rtt :: int
  sr_lost_rx :: int
  sr_lost_tx :: int

text \<open>The calls of a conference into its connection with the server.\<close>

datatype ecall_call =
    EcAlloc icall_call_type
  | EcSetKeystore
  | EcSetQualityInterval u64
  | EcSetRealClientid "string option"
  | EcAddTurnserver zapi_ice_server
  | EcSetSessid "string option"
  | EcEnd
  | EcPing bool
  | EcAnswer icall_call_type bool
  | EcDceSend string
  | EcPropsSetLocal string string
  | EcSyncProps bool
  | EcUpdateSsrc u32 u32
  | EcAddDecoders "string option" "string option" "string option" u32 u32
  | EcRemoveDecoders "string option" "string option" u32 u32
  | EcSyncDecoders
  | EcMediaStart | EcMediaStop
  | EcSetVideoSendState icall_vstate
  | EcUpdateMuteState
  | EcMsgRecv string string econn_message
  | EcActivate bool
  | EcRestart icall_call_type bool

text \<open>
  What a conference does that can be seen: the callbacks into the application, by the name of the
  handler, the requests for a configuration and the calls into the connection.
\<close>

datatype cl_act =
    Sfth string econn_message
  | Sendh "string option" econn_message "icall_client list option" bool
  | Starth u32 string string bool bool icall_conv_type
  | Leaveh icall_reason u32
  | Closeh err icall_metrics u32
  | Group_changedh
  | Vstate_changedh "string option" "string option" icall_vstate
  | Qualityh string string stats_report icall_conv_type
  | Req_clientsh
  | Req_new_epochh
  | Media_estabh string string bool
  | Audio_estabh string string bool
  | Audio_levelh "audio_level list"
  | Cfg_request
  | Ecall nat ecall_call

record join_elem =
  je_id :: nat
  je_call_type :: icall_call_type
  je_audio_cbr :: bool
  je_retry_attempt :: bool

record ccall =
  cl_turnv :: "zapi_ice_server list"
  cl_convid_real :: string
  cl_convid_hash :: "string option"
  cl_userl :: userlist
  cl_confpart_data :: "(bytes \<times> nat) option"
  cl_saved_partl :: "econn_group_part list"
  cl_state :: ccall_state
  cl_is_mls_call :: bool
  cl_primary_sft_url :: "string option"
  cl_sft_url :: "string option"
  cl_sft_tuple :: "string option"
  cl_sftl :: "string list"
  cl_secret :: bytes
  cl_sft_timestamp :: u64
  cl_sft_seqno :: u32
  cl_ecall :: "nat option"
  cl_is_caller :: bool
  cl_is_ringing :: bool
  cl_stop_ringing_reason :: sreason
  cl_keystore :: keystore
  cl_call_type :: icall_call_type
  cl_vstate :: icall_vstate
  cl_someone_joined :: bool
  cl_someone_left :: bool
  cl_became_kg :: bool
  cl_request_key :: bool
  cl_reconnect_attempts :: u32
  cl_expected_ping :: u32
  cl_last_ping :: u64
  cl_received_confpart :: bool
  cl_error :: err
  cl_epoch_start_ts :: u64
  cl_tmr :: "cl_timer \<Rightarrow> u64 option"
  cl_je :: "join_elem option"
  cl_has_cfg :: bool
  cl_quality_interval :: u64
  cl_confconn_status :: int
  cl_ts_start :: u64
  cl_metrics :: icall_metrics
  cl_inc_reconnects :: bool
  cl_videol :: "icall_client list"
  cl_meeting_is_set :: bool
  cl_meeting_duration :: int
  cl_meeting_start_duration :: int
  cl_next_ecall :: nat
  cl_next_je :: nat
  cl_trace :: "cl_act list"
  cl_ub :: bool

text \<open>
  What an operation takes from outside: the key derivation, sort and clock (\<open>now\<close> is \<^verbatim>\<open>tmr_jiffies\<close>), the
  list functions, libre, random bytes, the mute state and environment of the media system, the version
  texts, the configuration, and what the callbacks and calls that can fail return.
\<close>

record cl_env =
  ve_ks :: ks_env
  ve_ul :: ul_env
  ve_re :: re_env
  ve_rand :: "nat \<Rightarrow> bytes"
  ve_muted :: bool
  ve_msys_env :: int
  ve_version_str :: string
  ve_version_short :: string
  ve_cfg :: config
  ve_req_err :: err
  ve_sendh :: "econn_message \<Rightarrow> err"
  ve_sfth :: "string \<Rightarrow> econn_message \<Rightarrow> err"
  ve_ecall :: "ecall_call \<Rightarrow> err"
  ve_has_econn :: bool
  ve_log_info :: bool

definition now :: "cl_env \<Rightarrow> u64" where
  "now env = env_now (ve_ks env)"

definition cfg_of :: "cl_env \<Rightarrow> ccall \<Rightarrow> config option" where
  "cfg_of env c = (if cl_has_cfg c then Some (ve_cfg env) else None)"

definition cl_act :: "cl_act \<Rightarrow> ccall \<Rightarrow> ccall" where
  "cl_act a c = c\<lparr>cl_trace := cl_trace c @ [a]\<rparr>"

text \<open>Undefined behaviour was met.\<close>

definition cl_fail :: "ccall \<Rightarrow> ccall" where
  "cl_fail c = c\<lparr>cl_ub := True\<rparr>"

text \<open>
  Log lines are left out, except for a call of \<^verbatim>\<open>info\<close> whose format asks for an argument that is not there:
  reading it is undefined, if the level of the log (\<open>ve_log_info\<close>) lets the line through.
\<close>

definition info_missing_arg :: "cl_env \<Rightarrow> ccall \<Rightarrow> ccall" where
  "info_missing_arg env c = (if ve_log_info env then cl_fail c else c)"

definition start_tmr :: "cl_timer \<Rightarrow> u64 \<Rightarrow> ccall \<Rightarrow> ccall" where
  "start_tmr t delay c = c\<lparr>cl_tmr := (cl_tmr c)(t := Some delay)\<rparr>"

definition cancel_tmrs :: "cl_timer list \<Rightarrow> ccall \<Rightarrow> ccall" where
  "cancel_tmrs ts c = c\<lparr>cl_tmr := (\<lambda>t. if t \<in> set ts then None else cl_tmr c t)\<rparr>"

text \<open>A call into the connection, with its result; every one of them refuses a NULL connection.\<close>

definition ecall_do :: "cl_env \<Rightarrow> ecall_call \<Rightarrow> ccall \<Rightarrow> err \<times> ccall" where
  "ecall_do env call c =
     (case cl_ecall c of
        None \<Rightarrow> (EINVAL, c)
      | Some ec \<Rightarrow> (ve_ecall env call, cl_act (Ecall ec call) c))"

definition with_ul :: "(userlist \<Rightarrow> userlist) \<Rightarrow> ccall \<Rightarrow> ccall" where
  "with_ul f c = c\<lparr>cl_userl := f (cl_userl c)\<rparr>"

definition with_ks :: "(keystore \<Rightarrow> err \<times> keystore) \<Rightarrow> ccall \<Rightarrow> ccall" where
  "with_ks f c = c\<lparr>cl_keystore := snd (f (cl_keystore c))\<rparr>"

text \<open>An operation of the key store that may be undefined.\<close>

definition ks_do :: "(keystore \<Rightarrow> ('a \<times> keystore) option) \<Rightarrow> 'a \<Rightarrow> ccall \<Rightarrow> 'a \<times> ccall" where
  "ks_do f dflt c =
     (case f (cl_keystore c) of
        Some (r, ks) \<Rightarrow> (r, c\<lparr>cl_keystore := ks\<rparr>)
      | None \<Rightarrow> (dflt, cl_fail c))"

definition kg_me :: "ccall \<Rightarrow> bool" where
  "kg_me c = userlist_is_keygenerator_me (cl_userl c)"

section \<open>States\<close>

definition enter_waitconfig :: "ccall \<Rightarrow> ccall" where
  "enter_waitconfig c =
     cancel_tmrs [Tmr_decrypt_check, Tmr_keepalive, Tmr_alone, Tmr_ring]
       (start_tmr Tmr_connect CCALL_CONNECT_TIMEOUT
          (cancel_tmrs [Tmr_rotate_key, Tmr_rotate_mls, Tmr_send_check]
             (with_ks keystore_reset_keys
                ((with_ul userlist_reset_keygenerator (c\<lparr>cl_sft_url := None\<rparr>))\<lparr>cl_received_confpart := False\<rparr>))))"

fun enter_state :: "ccall_state \<Rightarrow> ccall \<Rightarrow> ccall" where
  "enter_state CCALL_STATE_IDLE c =
     cancel_tmrs [Tmr_rotate_key, Tmr_rotate_mls, Tmr_send_check, Tmr_connect, Tmr_decrypt_check, Tmr_keepalive,
                  Tmr_alone, Tmr_duration]
       (with_ks keystore_reset
          ((with_ul userlist_reset_keygenerator (c\<lparr>cl_sft_url := None, cl_sft_timestamp := 0\<rparr>))
             \<lparr>cl_received_confpart := False\<rparr>))"
| "enter_state CCALL_STATE_INCOMING c =
     cancel_tmrs [Tmr_decrypt_check, Tmr_keepalive, Tmr_alone]
       (start_tmr Tmr_ongoing CCALL_ONGOING_CALL_TIMEOUT
          (cancel_tmrs [Tmr_rotate_key, Tmr_rotate_mls, Tmr_send_check]
             (with_ks keystore_reset_keys
                ((with_ul userlist_reset_keygenerator (c\<lparr>cl_sft_url := None\<rparr>))\<lparr>cl_received_confpart := False\<rparr>))))"
| "enter_state CCALL_STATE_WAITCONFIG c = enter_waitconfig c"
| "enter_state CCALL_STATE_WAITCONFIG_OUTGOING c = enter_waitconfig c"
| "enter_state CCALL_STATE_CONNSENT c =
     (let c = c\<lparr>cl_received_confpart := False\<rparr>;
          c = (if \<not> cl_is_mls_call c \<and> cl_reconnect_attempts c = 0
               then cancel_tmrs [Tmr_rotate_mls] (with_ks keystore_reset_keys c) else c)
      in cancel_tmrs [Tmr_decrypt_check, Tmr_keepalive, Tmr_alone]
           (start_tmr Tmr_connect CCALL_CONNECT_TIMEOUT (cancel_tmrs [Tmr_rotate_key, Tmr_send_check] c)))"
| "enter_state CCALL_STATE_CONNECTED c = cancel_tmrs [Tmr_connect] c"
| "enter_state CCALL_STATE_ACTIVE c =
     (let c = start_tmr Tmr_keepalive CCALL_KEEPALIVE_TIMEOUT
                (start_tmr Tmr_decrypt_check CCALL_DECRYPT_CHECK_TIMEOUT
                   (cancel_tmrs [Tmr_connect] (c\<lparr>cl_expected_ping := 0, cl_last_ping := 0\<rparr>)))
      in if 0 < cl_reconnect_attempts c \<and> kg_me c then start_tmr Tmr_send_check 0 c else c)"
| "enter_state CCALL_STATE_TERMINATING c =
     cancel_tmrs [Tmr_send_check, Tmr_connect, Tmr_keepalive, Tmr_alone, Tmr_duration] c"
| "enter_state _ c = c"

definition set_state :: "cl_env \<Rightarrow> ccall_state \<Rightarrow> ccall \<Rightarrow> ccall" where
  "set_state env state c =
     (let old_state = cl_state c;
          c = c\<lparr>cl_state := state,
                cl_ts_start := (if old_state = CCALL_STATE_IDLE \<and> cl_ts_start c = 0 then now env else cl_ts_start c)\<rparr>;
          c = enter_state state c
      in if state \<noteq> old_state \<and> (state = CCALL_STATE_ACTIVE \<or> old_state = CCALL_STATE_ACTIVE)
         then cl_act Group_changedh c else c)"

section \<open>Secrets and servers\<close>

text \<open>
  The copy of a server address gets a slash at its end. The address must be set and not empty: its
  length is taken and the character before the end is read.
\<close>

definition copy_sft :: "string option \<Rightarrow> string option" where
  "copy_sft src =
     (case src of
        None \<Rightarrow> None
      | Some s \<Rightarrow> if s = [] then None else Some (if last s \<noteq> CHR ''/'' then s @ ''/'' else s))"

text \<open>The log line reads four bytes of the secret.\<close>

definition ccall_set_secret :: "cl_env \<Rightarrow> bytes \<Rightarrow> ccall \<Rightarrow> ccall" where
  "ccall_set_secret env secret c =
     (if length secret < 4 then cl_fail c
      else case hash_conv (ve_ul env) secret (cl_convid_real c) of
             None \<Rightarrow> cl_fail c
           | Some (_, hash) \<Rightarrow>
               (let c = c\<lparr>cl_secret := secret, cl_convid_hash := hash\<rparr>;
                    c = (case userlist_set_secret (ve_ul env) (cl_userl c) secret of
                           None \<Rightarrow> cl_fail c
                         | Some (_, ul) \<Rightarrow> c\<lparr>cl_userl := ul\<rparr>);
                    c = with_ks (\<lambda>ks. keystore_set_salt True (now env) ks (map_option bytes_of hash)) c
                in if cl_ecall c \<noteq> None then snd (ecall_do env (EcSetSessid (cl_convid_hash c)) c) else c))"

definition ccall_set_config :: "ccall \<Rightarrow> err \<times> ccall" where
  "ccall_set_config c = (OK, c\<lparr>cl_has_cfg := True\<rparr>)"

text \<open>Two addresses are equal up to one slash at the end.\<close>

definition strip_slash :: "string \<Rightarrow> string" where
  "strip_slash s = (if s \<noteq> [] \<and> last s = CHR ''/'' then butlast s else s)"

definition sfts_equal :: "string option \<Rightarrow> string option \<Rightarrow> bool" where
  "sfts_equal sfta sftb =
     (case (sfta, sftb) of
        (Some a, Some b) \<Rightarrow>
          length (strip_slash a) = length (strip_slash b) \<and> strip_slash a = strip_slash b
      | _ \<Rightarrow> False)"

fun sftlist_differs :: "string list \<Rightarrow> string list \<Rightarrow> bool" where
  "sftlist_differs (a # as) (b # bs) = (\<not> sfts_equal (Some a) (Some b) \<or> sftlist_differs as bs)"
| "sftlist_differs _ _ = False"

definition ccall_sftlist_changed :: "string list \<Rightarrow> string list \<Rightarrow> bool" where
  "ccall_sftlist_changed lista listb \<longleftrightarrow> length lista \<noteq> length listb \<or> sftlist_differs lista listb"

definition ccall_get_sft_info :: "cl_env \<Rightarrow> ccall \<Rightarrow> string option \<Rightarrow> zapi_ice_server option" where
  "ccall_get_sft_info env c sft_url =
     (if sft_url = None then None
      else case config_get_sftservers_all (cfg_of env c) of
             (Some sftv, Some sftc) \<Rightarrow> List.find (\<lambda>s. sfts_equal sft_url (Some (ice_url s))) sftv
           | _ \<Rightarrow> None)"

definition ccall_get_sft_info_at_index :: "cl_env \<Rightarrow> ccall \<Rightarrow> int \<Rightarrow> zapi_ice_server option" where
  "ccall_get_sft_info_at_index env c ix =
     (if ix < 0 then None
      else case config_get_sftservers_all (cfg_of env c) of
             (Some sftv, Some sftc) \<Rightarrow> if sftc \<le> nat ix then None else Some (sftv ! nat ix)
           | _ \<Rightarrow> None)"

definition ccall_can_connect_sft :: "cl_env \<Rightarrow> ccall \<Rightarrow> string option \<Rightarrow> bool" where
  "ccall_can_connect_sft env c sft_url =
     (if sft_url = None then False
      else case config_get_sftservers_all (cfg_of env c) of
             (_, None) \<Rightarrow> True
           | _ \<Rightarrow> ccall_get_sft_info env c sft_url \<noteq> None)"

section \<open>Messages\<close>

text \<open>The session keys of a key message: the current one and, if there is one, the next.\<close>

definition message_keys :: "keystore \<Rightarrow> (err \<times> econn_key_info list) option" where
  "message_keys ks =
     do {
       (e, idx0, data0) \<leftarrow> keystore_get_current_session_key ks 0 E2EE_SESSIONKEY_SIZE;
       if e \<noteq> OK then Some (e, [])
       else do {
         (e1, idx1, data1) \<leftarrow> keystore_get_next_session_key ks 0 E2EE_SESSIONKEY_SIZE;
         Some (OK, \<lparr>key_idx = idx0, key_data = data0\<rparr> #
                   (if e1 \<noteq> OK then [] else [\<lparr>key_idx = idx1, key_data = data1\<rparr>])) } }"

text \<open>The copy of an address that is not set fails.\<close>

definition message_start :: "ccall \<Rightarrow> econn_props option \<Rightarrow> err \<times> econn_confstart" where
  "message_start c props =
     (case cl_primary_sft_url c of
        None \<Rightarrow> (EINVAL, confstart_zero)
      | Some url \<Rightarrow>
          (OK, \<lparr>cs_props = props, cs_sft_url = Some url, cs_sft_tuple = cl_sft_tuple c,
                cs_secret = Some (cl_secret c), cs_timestamp = cl_sft_timestamp c, cs_seqno = cl_sft_seqno c,
                cs_sftl = (if 0 < length (cl_sftl c) then snd (stringlist_clone (cl_sftl c) [])
                           else snd (stringlist_append [] url))\<rparr>))"

definition confpart_zero :: econn_confpart where
  "confpart_zero = \<lparr>cp_timestamp = 0, cp_seqno = 0, cp_should_start = False, cp_partl = [], cp_entropy = None,
     cp_sftl = []\<rparr>"

definition confconn_zero :: econn_confconn where
  "confconn_zero = \<lparr>cc_turnv = [], cc_update = False, cc_env = 0, cc_tool = None, cc_toolver = None, cc_status = 0,
     cc_selective_audio = False, cc_selective_video = False, cc_vstreams = 0, cc_sft_url = None,
     cc_sft_tuple = None, cc_sft_username = None, cc_sft_credential = None\<rparr>"

definition message_head ::
  "cl_env \<Rightarrow> econn_msg \<Rightarrow> bool \<Rightarrow> string option \<Rightarrow> string option \<Rightarrow> string option \<Rightarrow> string option \<Rightarrow> bool
   \<Rightarrow> econn_message" where
  "message_head env type resp src_userid src_clientid dest_userid dest_clientid transient =
     (let cp = (\<lambda>s. re_ncpy (ve_re env) [] s ECONN_ID_LEN)
      in econn_message_zero\<lparr>em_msg_type := Some type, em_src_userid := cp src_userid,
           em_src_clientid := cp src_clientid, em_resp := resp, em_transient := transient,
           em_dest_userid := (if dest_userid \<noteq> None then cp dest_userid else []),
           em_dest_clientid := (if dest_clientid \<noteq> None then cp dest_clientid else [])\<rparr>)"

definition alloc_message ::
  "cl_env \<Rightarrow> ccall \<Rightarrow> econn_msg \<Rightarrow> bool \<Rightarrow> string option \<Rightarrow> string option \<Rightarrow> string option \<Rightarrow> string option \<Rightarrow> bool
   \<Rightarrow> (err \<times> econn_message option) option" where
  "alloc_message env c type resp src_userid src_clientid dest_userid dest_clientid transient =
     (let msg = message_head env type resp src_userid src_clientid dest_userid dest_clientid transient;
          sess = msg\<lparr>em_sessid_sender := re_ncpy (ve_re env) [] (cl_convid_hash c) ECONN_ID_LEN\<rparr>
      in case type of
           ECONN_CONF_START \<Rightarrow>
             Some (case message_start c None of
                     (OK, cs) \<Rightarrow>
                       (case econn_props_add (ve_re env) [] (Some ''videosend'')
                               (Some (if cl_call_type c = ICALL_CALL_TYPE_VIDEO then ''true'' else ''false'')) of
                          (e, props) \<Rightarrow> if e \<noteq> OK then (e, None)
                                       else (OK, Some (sess\<lparr>em_u := U_confstart (cs\<lparr>cs_props := Some props\<rparr>)\<rparr>)))
                   | (e, _) \<Rightarrow> (e, None))
         | ECONN_CONF_CHECK \<Rightarrow>
             Some (case message_start c None of
                     (OK, cs) \<Rightarrow> (OK, Some (sess\<lparr>em_u := U_confcheck cs\<rparr>))
                   | (e, _) \<Rightarrow> (e, None))
         | ECONN_CONF_KEY \<Rightarrow>
             if cl_is_mls_call c then Some (EINVAL, None)
             else if resp then
               map_option (\<lambda>(e, keyl). if e \<noteq> OK then (e, None) else (OK, Some (msg\<lparr>em_u := U_confkey keyl\<rparr>)))
                 (message_keys (cl_keystore c))
             else Some (OK, Some (msg\<lparr>em_u := U_confkey []\<rparr>))
         | ECONN_CONF_END \<Rightarrow> Some (OK, Some sess)
         | ECONN_CONF_STREAMS \<Rightarrow> Some (OK, Some (sess\<lparr>em_u := U_confstreams [] None\<rparr>))
         | _ \<Rightarrow> Some (OK, Some msg))"

definition ccall_send_msg_i ::
  "cl_env \<Rightarrow> econn_msg \<Rightarrow> bool \<Rightarrow> icall_client list option \<Rightarrow> bool \<Rightarrow> bool \<Rightarrow> ccall \<Rightarrow> err \<times> ccall" where
  "ccall_send_msg_i env type resp targets transient my_clients_only c =
     (let self = userlist_get_self (cl_userl c)
      in case alloc_message env c type resp (ui_userid_real self) (ui_clientid_real self) None None transient of
           None \<Rightarrow> (OK, cl_fail c)
         | Some (OK, Some msg) \<Rightarrow>
             (ve_sendh env msg, cl_act (Sendh (ui_userid_real self) msg targets my_clients_only) c)
         | Some (e, _) \<Rightarrow> (e, c))"

definition ccall_send_msg ::
  "cl_env \<Rightarrow> econn_msg \<Rightarrow> bool \<Rightarrow> icall_client list option \<Rightarrow> bool \<Rightarrow> ccall \<Rightarrow> err \<times> ccall" where
  "ccall_send_msg env type resp targets transient c = ccall_send_msg_i env type resp targets transient False c"

text \<open>Only three types of message go to the server; the address is extended by the hash of the conversation.\<close>

definition ccall_send_msg_sft :: "cl_env \<Rightarrow> string option \<Rightarrow> econn_message \<Rightarrow> ccall \<Rightarrow> err \<times> ccall" where
  "ccall_send_msg_sft env sft_url msg c =
     (case sft_url of
        None \<Rightarrow> (EINVAL, c)
      | Some sft \<Rightarrow>
          if length sft < 1 then (EINVAL, c)
          else if em_msg_type msg \<in> {Some ECONN_CONF_CONN, Some ECONN_SETUP, Some ECONN_UPDATE} then
            (case cl_convid_hash c of
               None \<Rightarrow> (OK, cl_fail c)
             | Some hash \<Rightarrow>
                 (let url = sft @ (if last sft = CHR ''/'' then ''sft/'' else ''/sft/'') @ hash;
                      msg = msg\<lparr>em_sessid_sender := re_ncpy (ve_re env) (em_sessid_sender msg) (Some hash) ECONN_ID_LEN\<rparr>;
                      e = ve_sfth env url msg;
                      c = cl_act (Sfth url msg) c
                  in if e \<noteq> OK then (e, c)
                     else (OK, if em_msg_type msg \<in> {Some ECONN_SETUP, Some ECONN_UPDATE} \<and>
                                  cl_state c \<noteq> CCALL_STATE_ACTIVE
                               then set_state env CCALL_STATE_CONNECTING c else c)))
          else (OK, c))"

text \<open>The server and the credentials of a connection request.\<close>

definition conn_union ::
  "cl_env \<Rightarrow> ccall \<Rightarrow> string \<Rightarrow> string option \<Rightarrow> string option \<Rightarrow> bool \<Rightarrow> econn_confconn" where
  "conn_union env c sft_url_term sft_username sft_credential upd =
     (let other = (case cl_primary_sft_url c of Some p \<Rightarrow> p \<noteq> sft_url_term | None \<Rightarrow> False);
          auth = (case (sft_username, sft_credential) of
                    (Some u, Some k) \<Rightarrow> 0 < length u \<and> 0 < length k
                  | _ \<Rightarrow> False)
      in \<lparr>cc_turnv = (case config_get_sfticeservers (cfg_of env c) of
                        (Some turnv, _) \<Rightarrow> turnv
                      | (None, _) \<Rightarrow> cl_turnv c),
          cc_update = upd, cc_env = ve_msys_env env, cc_tool = Some (ve_version_str env),
          cc_toolver = Some (ve_version_short env), cc_status = 0, cc_selective_audio = True,
          cc_selective_video = True, cc_vstreams = CCALL_MAX_VSTREAMS,
          cc_sft_url = (if other then cl_primary_sft_url c else None),
          cc_sft_tuple = (if other then cl_sft_tuple c else None),
          cc_sft_username = (if auth then sft_username else None),
          cc_sft_credential = (if auth then sft_credential else None)\<rparr>)"

definition ccall_send_conf_conn ::
  "cl_env \<Rightarrow> string option \<Rightarrow> string option \<Rightarrow> string option \<Rightarrow> bool \<Rightarrow> ccall \<Rightarrow> err \<times> ccall" where
  "ccall_send_conf_conn env sft_url sft_username sft_credential upd c =
     (if sft_url = None then (EINVAL, c)
      else let self = userlist_get_self (cl_userl c)
           in case copy_sft sft_url of
                None \<Rightarrow> (OK, cl_fail c)
              | Some sft_url_term \<Rightarrow>
                  (case alloc_message env c ECONN_CONF_CONN False (ui_userid_hash self) (ui_clientid_hash self)
                          (Some ''SFT'') (Some ''_'') False of
                     Some (OK, Some msg) \<Rightarrow>
                       ccall_send_msg_sft env (Some sft_url_term)
                         (msg\<lparr>em_sessid_sender := re_ncpy (ve_re env) [] (cl_convid_hash c) ECONN_ID_LEN,
                              em_u := U_confconn (conn_union env c sft_url_term sft_username sft_credential upd)\<rparr>) c
                   | Some (e, _) \<Rightarrow> (e, c)
                   | None \<Rightarrow> (OK, cl_fail c)))"

text \<open>A message over the data channel: it is encoded first.\<close>

definition send_datachan :: "cl_env \<Rightarrow> econn_message \<Rightarrow> ccall \<Rightarrow> err \<times> ccall" where
  "send_datachan env msg c =
     (case econn_message_encode (ve_re env) msg of
        None \<Rightarrow> (OK, cl_fail c)
      | Some (OK, Some str) \<Rightarrow> ecall_do env (EcDceSend str) c
      | Some (e, _) \<Rightarrow> (e, c))"

definition send_confpart_response :: "cl_env \<Rightarrow> ccall \<Rightarrow> err \<times> ccall" where
  "send_confpart_response env c =
     (let self = userlist_get_self (cl_userl c)
      in case alloc_message env c ECONN_CONF_PART True (ui_userid_hash self) (ui_clientid_hash self)
                (Some ''SFT'') (Some ''SFT'') False of
           Some (OK, Some msg) \<Rightarrow>
             (case userlist_get_partlist (cl_userl c) (cl_is_mls_call c) of
                (e, partl) \<Rightarrow>
                  if e \<noteq> OK then (e, c)
                  else send_datachan env (msg\<lparr>em_u := U_confpart (confpart_zero\<lparr>cp_partl := partl\<rparr>)\<rparr>) c)
         | Some (e, _) \<Rightarrow> (e, c)
         | None \<Rightarrow> (OK, cl_fail c))"

text \<open>The streams of the requested clients that are members, and the clients kept with them.\<close>

fun streams_loop ::
  "cl_env \<Rightarrow> userlist \<Rightarrow> icall_client list \<Rightarrow> econn_stream_info list \<Rightarrow> icall_client list
   \<Rightarrow> err \<times> econn_stream_info list \<times> icall_client list" where
  "streams_loop env ul [] streaml videol = (OK, streaml, videol)"
| "streams_loop env ul (cli # cls) streaml videol =
     (case userlist_find_by_real (ve_ul env) (ul_users ul) (cli_userid cli) (cli_clientid cli) of
        None \<Rightarrow> streams_loop env ul cls streaml videol
      | Some user \<Rightarrow>
          (case econn_stream_info_alloc (ve_re env) True (ui_userid_hash user) (word_of_int (cli_quality cli)) of
             None \<Rightarrow> (ENOMEM, streaml, videol)
           | Some sinfo \<Rightarrow>
               streams_loop env ul cls (streaml @ [sinfo])
                 (videol @ [(icall_client_alloc (cli_userid cli) (cli_clientid cli))
                              \<lparr>cli_quality := cli_quality cli, cli_vstate := ui_video_state user\<rparr>])))"

definition ccall_request_video_streams :: "cl_env \<Rightarrow> icall_client list \<Rightarrow> ccall \<Rightarrow> err \<times> ccall" where
  "ccall_request_video_streams env clientl c =
     (if clientl = [] then (EINVAL, c)
      else let self = userlist_get_self (cl_userl c)
           in case alloc_message env c ECONN_CONF_STREAMS False (ui_userid_hash self) (ui_clientid_hash self)
                     (Some ''SFT'') (Some ''SFT'') False of
                Some (OK, Some msg) \<Rightarrow>
                  (case streams_loop env (cl_userl c) clientl [] [] of
                     (e, streaml, videol) \<Rightarrow>
                       (let c = c\<lparr>cl_videol := videol\<rparr>
                        in if e \<noteq> OK then (e, c)
                           else let m = cl_metrics c;
                                    c = c\<lparr>cl_metrics := m\<lparr>im_participants_video_req :=
                                          max (im_participants_video_req m) (word_of_nat (length streaml))\<rparr>\<rparr>
                                in send_datachan env (msg\<lparr>em_u := U_confstreams streaml (Some ''list'')\<rparr>) c))
              | Some (e, _) \<Rightarrow> (e, cl_fail c)
              | None \<Rightarrow> (OK, cl_fail c))"

section \<open>Ending and reconnecting\<close>

fun end_reason :: "err \<Rightarrow> icall_reason" where
  "end_reason OK = ICALL_REASON_NORMAL"
| "end_reason ETIMEDOUT = ICALL_REASON_TIMEOUT"
| "end_reason ENOONEJOINED = ICALL_REASON_NOONE_JOINED"
| "end_reason EEVERYONELEFT = ICALL_REASON_EVERYONE_LEFT"
| "end_reason EDURATION = ICALL_REASON_DURATION"
| "end_reason EACCES = ICALL_REASON_AUTH_FAILED"
| "end_reason _ = ICALL_REASON_ERROR"

definition ccall_end_with_err :: "cl_env \<Rightarrow> err \<Rightarrow> ccall \<Rightarrow> ccall" where
  "ccall_end_with_err env e c =
     (let c = c\<lparr>cl_error := e\<rparr>;
          c = (if cl_state c \<in> {CCALL_STATE_NONE, CCALL_STATE_IDLE} then set_state env CCALL_STATE_IDLE c
               else if cl_state c \<in> {CCALL_STATE_CONNSENT, CCALL_STATE_INCOMING, CCALL_STATE_WAITCONFIG,
                                     CCALL_STATE_WAITCONFIG_OUTGOING, CCALL_STATE_WAITNETWORK}
               then cl_act (Leaveh (end_reason e) ECONN_MESSAGE_TIME_UNKNOWN) (set_state env CCALL_STATE_IDLE c)
               else if cl_state c = CCALL_STATE_TERMINATING then c
               else let c = set_state env CCALL_STATE_TERMINATING c
                    in if e = EDURATION
                       then cl_act (Leaveh ICALL_REASON_DURATION ECONN_MESSAGE_TIME_UNKNOWN) c else c);
          c = with_ul (\<lambda>ul. userlist_incall_clear ul False False) c
      in if cl_ecall c \<noteq> None \<and> ve_has_econn env then snd (ecall_do env EcEnd c)
         else set_state env CCALL_STATE_IDLE c)"

definition ccall_reconnect :: "cl_env \<Rightarrow> u32 \<Rightarrow> bool \<Rightarrow> bool \<Rightarrow> ccall \<Rightarrow> ccall" where
  "ccall_reconnect env msg_time notify again c =
     (if cl_state c = CCALL_STATE_CONNSENT then c
      else if CCALL_MAX_RECONNECT_ATTEMPTS \<le> cl_reconnect_attempts c
      then cl_act (Leaveh ICALL_REASON_STILL_ONGOING msg_time) (ccall_end_with_err env ETIMEDOUT c)
      else let c = c\<lparr>cl_reconnect_attempts := cl_reconnect_attempts c + 1, cl_expected_ping := 0, cl_last_ping := 0\<rparr>;
               c = (if notify
                    then c\<lparr>cl_inc_reconnects := True,
                           cl_metrics := (cl_metrics c)\<lparr>im_reconnects_attempted :=
                                            im_reconnects_attempted (cl_metrics c) + 1\<rparr>\<rparr>
                    else c);
               c = (with_ul (\<lambda>ul. userlist_incall_clear ul True again) c)\<lparr>cl_videol := []\<rparr>;
               c = set_state env CCALL_STATE_CONNSENT c;
               c = (if cl_sft_url c \<noteq> None
                    then let sfti = ccall_get_sft_info env c (cl_sft_url c)
                         in snd (ccall_send_conf_conn env (cl_sft_url c) (map_option ice_username sfti)
                                   (map_option ice_credential sfti) True c)
                    else c)
           in if notify
              then cl_act (Qualityh ''SFT'' ''SFT''
                     \<lparr>sr_rtt = 0, sr_lost_rx = ICALL_RECONNECTING, sr_lost_tx = ICALL_RECONNECTING\<rparr>
                     ICALL_CONV_TYPE_CONFERENCE) c
              else c)"

section \<open>Keys\<close>

definition ccall_send_check_timeout :: "cl_env \<Rightarrow> ccall \<Rightarrow> ccall" where
  "ccall_send_check_timeout env c =
     (let c = (if cl_state c = CCALL_STATE_ACTIVE \<and> kg_me c
               then let c = snd (ccall_send_msg env ECONN_CONF_CHECK True None False c)
                    in if cl_is_mls_call c \<and> 0 < cl_epoch_start_ts c \<and>
                          CCALL_REQ_NEW_EPOCH_TIMEOUT \<le> now env - cl_epoch_start_ts c
                       then cl_act Req_new_epochh c else c
               else c)
      in start_tmr Tmr_send_check CCALL_SEND_CHECK_TIMEOUT c)"

definition ccall_send_keys :: "cl_env \<Rightarrow> bool \<Rightarrow> ccall \<Rightarrow> err \<times> ccall" where
  "ccall_send_keys env send_to_all c =
     (if cl_is_mls_call c then (OK, c)
      else let (e, targets, ul) = (if kg_me c \<and> cl_state c = CCALL_STATE_ACTIVE
                                   then userlist_get_key_targets (cl_userl c) send_to_all
                                   else (OK, [], cl_userl c));
               c = c\<lparr>cl_userl := ul\<rparr>
           in if e \<noteq> OK then (e, c)
              else (OK, if 0 < length targets then snd (ccall_send_msg env ECONN_CONF_KEY True (Some targets) False c)
                        else c))"

text \<open>The participants' data as it is read from the position of the buffer on.\<close>

definition confpart_salt :: "ccall \<Rightarrow> bytes option" where
  "confpart_salt c = map_option (\<lambda>(buf, pos). drop pos buf) (cl_confpart_data c)"

definition ccall_generate_session_key :: "cl_env \<Rightarrow> bool \<Rightarrow> ccall \<Rightarrow> err \<times> ccall" where
  "ccall_generate_session_key env is_first c =
     (let idx = (if is_first then 0
                 else (keystore_get_max_key (cl_keystore c) OR 0xFFFF) + 1 + (if cl_became_kg c then 0x10000 else 0));
          (e, c) = ks_do (\<lambda>ks. keystore_set_fresh_session_key (ve_ks env) ks idx
                                 (Some (ve_rand env E2EE_SESSIONKEY_SIZE)) (confpart_salt c))
                     OK (c\<lparr>cl_became_kg := False\<rparr>)
      in if e \<noteq> OK then (e, c) else ccall_send_keys env True c)"

definition ccall_rotate_key_timeout :: "cl_env \<Rightarrow> ccall \<Rightarrow> ccall" where
  "ccall_rotate_key_timeout env c =
     (if cl_state c = CCALL_STATE_ACTIVE \<and> kg_me c \<and> \<not> cl_is_mls_call c
      then let c = snd (ks_do (keystore_rotate (ve_ks env)) OK c);
               c = (if cl_someone_left c \<and> \<not> cl_is_mls_call c
                    then (snd (ccall_generate_session_key env False c))\<lparr>cl_someone_left := False\<rparr> else c)
           in start_tmr Tmr_rotate_key CCALL_ROTATE_KEY_TIMEOUT c
      else c)"

definition ccall_rotate_mls_timeout :: "cl_env \<Rightarrow> ccall \<Rightarrow> ccall" where
  "ccall_rotate_mls_timeout env c =
     (if cl_state c = CCALL_STATE_ACTIVE \<and> cl_is_mls_call c
      then if \<not> CCALL_MLS_KEY_AGE < now env then cl_fail c
           else let (again, c) = ks_do (\<lambda>ks. keystore_rotate_by_time (ve_ks env) ks (now env - CCALL_MLS_KEY_AGE)) False c
                in if again then start_tmr Tmr_rotate_mls CCALL_ROTATE_MLS_TIMEOUT c else c
      else c)"

text \<open>The member a reference to the key generator points to.\<close>

definition kg_info :: "userlist \<Rightarrow> kg_ref \<Rightarrow> userinfo option" where
  "kg_info ul kg =
     (case kg of Kg_self \<Rightarrow> Some (ul_self ul) | Kg_user a \<Rightarrow> List.find (\<lambda>u. ui_addr u = a) (ul_users ul))"

definition ccall_request_keys :: "cl_env \<Rightarrow> kg_ref option \<Rightarrow> ccall \<Rightarrow> err \<times> ccall" where
  "ccall_request_keys env keygenerator c =
     (case keygenerator of
        None \<Rightarrow> (OK, c)
      | Some ref \<Rightarrow>
          if cl_is_mls_call c \<or> ref = Kg_self then (OK, c)
          else case kg_info (cl_userl c) ref of
                 None \<Rightarrow> (OK, cl_fail c)
               | Some kg \<Rightarrow>
                   if ui_userid_real kg = None \<or> ui_clientid_real kg = None then (OK, c)
                   else (OK, snd (ccall_send_msg env ECONN_CONF_KEY False
                                    (Some [icall_client_alloc (ui_userid_real kg) (ui_clientid_real kg)]) False c)))"

section \<open>The timers\<close>

definition ccall_ongoing_call_timeout :: "cl_env \<Rightarrow> ccall \<Rightarrow> ccall" where
  "ccall_ongoing_call_timeout env c =
     (if cl_state c = CCALL_STATE_INCOMING
      then let c = set_state env CCALL_STATE_IDLE c in cl_act (Closeh OK (cl_metrics c) ECONN_MESSAGE_TIME_UNKNOWN) c
      else c)"

definition ccall_stop_ringing_timeout :: "ccall \<Rightarrow> ccall" where
  "ccall_stop_ringing_timeout c =
     (if cl_state c = CCALL_STATE_INCOMING
      then (cl_act (Leaveh ICALL_REASON_STILL_ONGOING ECONN_MESSAGE_TIME_UNKNOWN) c)\<lparr>cl_is_ringing := False\<rparr>
      else c)"

text \<open>\<^verbatim>\<open>enum econn_confconn_status\<close>.\<close>

definition ECONN_CONFCONN_OK :: int where "ECONN_CONFCONN_OK = 0"
definition ECONN_CONFCONN_REJECTED_BLACKLIST :: int where "ECONN_CONFCONN_REJECTED_BLACKLIST = 1"
definition ECONN_CONFCONN_REJECTED_AUTH_INVALID :: int where "ECONN_CONFCONN_REJECTED_AUTH_INVALID = 2"
definition ECONN_CONFCONN_REJECTED_AUTH_EXPIRED :: int where "ECONN_CONFCONN_REJECTED_AUTH_EXPIRED = 3"
definition ECONN_CONFCONN_REJECTED_AUTH_LIMIT :: int where "ECONN_CONFCONN_REJECTED_AUTH_LIMIT = 4"
definition ECONN_CONFCONN_REJECTED_AUTH_CANTSTART :: int where "ECONN_CONFCONN_REJECTED_AUTH_CANTSTART = 5"

definition reject_reason :: "int \<Rightarrow> icall_reason" where
  "reject_reason status =
     (if status = ECONN_CONFCONN_REJECTED_BLACKLIST then ICALL_REASON_OUTDATED_CLIENT
      else if status \<in> {ECONN_CONFCONN_REJECTED_AUTH_INVALID, ECONN_CONFCONN_REJECTED_AUTH_LIMIT,
                        ECONN_CONFCONN_REJECTED_AUTH_EXPIRED} then ICALL_REASON_AUTH_FAILED
      else if status = ECONN_CONFCONN_REJECTED_AUTH_CANTSTART then ICALL_REASON_AUTH_FAILED_START
      else ICALL_REASON_NORMAL)"

definition ccall_sft_reject_timeout :: "cl_env \<Rightarrow> ccall \<Rightarrow> ccall" where
  "ccall_sft_reject_timeout env c =
     (if cl_state c = CCALL_STATE_CONNSENT
      then let c = set_state env CCALL_STATE_IDLE c
           in if cl_confconn_status c = ECONN_CONFCONN_OK then c
              else snd (ecall_do env EcEnd
                     (cl_act (Leaveh (reject_reason (cl_confconn_status c)) ECONN_MESSAGE_TIME_UNKNOWN) c))
      else c)"

definition ccall_set_vstate :: "cl_env \<Rightarrow> icall_vstate \<Rightarrow> ccall \<Rightarrow> err \<times> ccall" where
  "ccall_set_vstate env state c =
     (let self = userlist_get_self (cl_userl c);
          c = cl_act Group_changedh
                (cl_act (Vstate_changedh (ui_userid_real self) (ui_clientid_real self) state) (c\<lparr>cl_vstate := state\<rparr>))
      in if cl_ecall c \<noteq> None then ecall_do env (EcSetVideoSendState state) c else (OK, c))"

definition ccall_sync_vstate_timeout :: "cl_env \<Rightarrow> ccall \<Rightarrow> ccall" where
  "ccall_sync_vstate_timeout env c = snd (ccall_set_vstate env (cl_vstate c) c)"

definition ccall_decrypt_check_timeout :: "cl_env \<Rightarrow> ccall \<Rightarrow> ccall" where
  "ccall_decrypt_check_timeout env c =
     (if cl_state c \<noteq> CCALL_STATE_ACTIVE then c
      else if \<not> cl_received_confpart c then ccall_reconnect env ECONN_MESSAGE_TIME_UNKNOWN True False c
      else if userlist_get_keygenerator (cl_userl c) = None
      then start_tmr Tmr_decrypt_check CCALL_DECRYPT_CHECK_TIMEOUT c
      else if kg_me c then c
      else let (attempted, successful) = keystore_get_decrypt_states (cl_keystore c)
           in if \<not> keystore_has_keys (cl_keystore c) \<or> attempted \<and> \<not> successful
              then snd (ccall_request_keys env (userlist_get_keygenerator (cl_userl c)) c)
              else c)"

definition ecall_ping_handler :: "cl_env \<Rightarrow> ccall \<Rightarrow> ccall" where
  "ecall_ping_handler env c =
     (let c = c\<lparr>cl_last_ping := now env, cl_expected_ping := 0, cl_reconnect_attempts := 0\<rparr>
      in if cl_inc_reconnects c
         then c\<lparr>cl_metrics := (cl_metrics c)\<lparr>im_reconnects_successful := im_reconnects_successful (cl_metrics c) + 1\<rparr>,
                cl_inc_reconnects := False\<rparr>
         else c)"

definition ccall_keepalive_timeout :: "cl_env \<Rightarrow> ccall \<Rightarrow> ccall" where
  "ccall_keepalive_timeout env c =
     (if cl_state c \<noteq> CCALL_STATE_ACTIVE \<or> cl_ecall c = None then c
      else let c = snd (ecall_do env (EcPing False) c);
               c = c\<lparr>cl_expected_ping := cl_expected_ping c + 1\<rparr>
           in if CCALL_MAX_MISSING_PINGS < cl_expected_ping c
              then ccall_reconnect env ECONN_MESSAGE_TIME_UNKNOWN True False c
              else start_tmr Tmr_keepalive CCALL_KEEPALIVE_TIMEOUT c)"

definition ccall_alone_timeout :: "cl_env \<Rightarrow> ccall \<Rightarrow> ccall" where
  "ccall_alone_timeout env c =
     (if cl_state c \<noteq> CCALL_STATE_ACTIVE \<or> cl_ecall c = None then c
      else ccall_end_with_err env (if cl_someone_joined c then EEVERYONELEFT else ENOONEJOINED) c)"

definition ccall_connect_timeout :: "cl_env \<Rightarrow> ccall \<Rightarrow> ccall" where
  "ccall_connect_timeout env c =
     (if cl_state c \<noteq> CCALL_STATE_ACTIVE then ccall_end_with_err env ETIMEDOUT c else c)"

definition duration_timeout_handler :: "cl_env \<Rightarrow> ccall \<Rightarrow> ccall" where
  "duration_timeout_handler env c = ccall_end_with_err env EDURATION (info_missing_arg env c)"

definition durterm_timeout_handler :: "cl_env \<Rightarrow> ccall \<Rightarrow> ccall" where
  "durterm_timeout_handler env c =
     (let c = set_state env CCALL_STATE_IDLE c
      in cl_act (Closeh (cl_error c) (cl_metrics c) ECONN_MESSAGE_TIME_UNKNOWN) c)"

section \<open>The media of the call\<close>

definition ccall_update_active_counts :: "cl_env \<Rightarrow> ccall \<Rightarrow> ccall" where
  "ccall_update_active_counts env c =
     (case userlist_get_active_counts (cl_userl c) of
        (e, active, active_a, active_v) \<Rightarrow>
          if e \<noteq> OK then c
          else let active_a = (if \<not> ve_muted env then active_a + 1 else active_a);
                   active_v = (if cl_vstate c = ICALL_VIDEO_STATE_STARTED then active_v + 1 else active_v);
                   m = cl_metrics c
               in c\<lparr>cl_metrics := m\<lparr>im_participants_max := max (im_participants_max m) active,
                                      im_participants_audio_max := max (im_participants_audio_max m) active_a,
                                      im_participants_video_max := max (im_participants_video_max m) active_v\<rparr>\<rparr>)"

definition ccall_sync_props :: "cl_env \<Rightarrow> ccall \<Rightarrow> err \<times> ccall" where
  "ccall_sync_props env c =
     (if cl_ecall c = None then (OK, c)
      else let (e, epochid) = userlist_get_latest_epoch (cl_userl c);
               epochid = (if e \<noteq> OK then 0 else epochid);
               (e, c) = ecall_do env (EcPropsSetLocal ''keysync'' (dec (unat epochid))) c
           in if e \<noteq> OK then (e, c) else ecall_do env (EcSyncProps True) c)"

definition ccall_sync_media_keys :: "cl_env \<Rightarrow> ccall \<Rightarrow> err \<times> ccall" where
  "ccall_sync_media_keys env c =
     (let min_key = userlist_get_key_index (cl_userl c)
      in if min_key = 0 then (OK, c)
         else case keystore_get_current (cl_keystore c) 0 0 of
                None \<Rightarrow> (OK, cl_fail c)
              | Some (e, cur_key, ts) \<Rightarrow>
                  if e \<noteq> OK then (e, c)
                  else (OK, ccall_rotate_mls_timeout env
                              (if cur_key < min_key then with_ks (\<lambda>ks. keystore_set_current (ve_ks env) ks min_key) c else c)))"

definition ccall_set_media_key :: "cl_env \<Rightarrow> u32 \<Rightarrow> bytes \<Rightarrow> ccall \<Rightarrow> err \<times> ccall" where
  "ccall_set_media_key env epochid key c =
     (if \<not> cl_is_mls_call c then (EINVAL, c)
      else let (e, c) = ks_do (\<lambda>ks. keystore_set_session_key (ve_ks env) ks epochid key) OK c
           in if e \<noteq> OK then (e, c)
              else let c = c\<lparr>cl_epoch_start_ts := now env\<rparr>;
                       c = with_ul (\<lambda>ul. snd (userlist_set_latest_epoch ul epochid)) c;
                       c = snd (ccall_sync_props env c);
                       c = snd (ccall_sync_media_keys env c)
                   in (OK, ccall_rotate_mls_timeout env c))"

text \<open>\<^verbatim>\<open>propsync_get_states\<close>: the video state, if there is one, and the mute state, if there is one.\<close>

definition propsync_get_states ::
  "re_env \<Rightarrow> econn_props option \<Rightarrow> (icall_vstate option \<times> bool option) option" where
  "propsync_get_states re props =
     (if props = None then Some (None, None)
      else do {
        vr \<leftarrow> econn_props_get re props (Some ''videosend'');
        sr \<leftarrow> econn_props_get re props (Some ''screensend'');
        mt \<leftarrow> econn_props_get re props (Some ''muted'');
        let v = (case vr of
                   None \<Rightarrow> ICALL_VIDEO_STATE_STOPPED
                 | Some s \<Rightarrow> if s = ''true'' then ICALL_VIDEO_STATE_STARTED
                             else if s = ''paused'' then ICALL_VIDEO_STATE_PAUSED else ICALL_VIDEO_STATE_STOPPED);
        let v = (case sr of
                   None \<Rightarrow> v
                 | Some s \<Rightarrow> if s = ''true'' then ICALL_VIDEO_STATE_SCREENSHARE
                             else if s = ''paused'' \<and> v \<noteq> ICALL_VIDEO_STATE_STARTED then ICALL_VIDEO_STATE_PAUSED
                             else v);
        Some (if vr \<noteq> None \<or> sr \<noteq> None then Some v else None, map_option (\<lambda>s. s = ''true'') mt) })"

text \<open>The number of the \<^verbatim>\<open>keysync\<close> property, 0 without one.\<close>

definition keysync_epoch :: "re_env \<Rightarrow> econn_props option \<Rightarrow> u32 option" where
  "keysync_epoch re props =
     do {
       ks \<leftarrow> econn_props_get re props (Some ''keysync'');
       case ks of None \<Rightarrow> Some 0 | Some s \<Rightarrow> sscanf_u 0 s }"

definition propsync_states :: "userinfo \<Rightarrow> icall_vstate option \<Rightarrow> bool option \<Rightarrow> ccall \<Rightarrow> ccall" where
  "propsync_states user vstate muted c =
     (let v_changed = (case vstate of Some v \<Rightarrow> v \<noteq> ui_video_state user | None \<Rightarrow> False);
          m_changed = (case muted of Some m \<Rightarrow> m \<noteq> ui_muted user | None \<Rightarrow> False);
          upd = (\<lambda>f. with_ul (\<lambda>ul. ul\<lparr>ul_users := upd_user (ui_addr user) f (ul_users ul)\<rparr>));
          c = (if v_changed
               then cl_act (Vstate_changedh (ui_userid_real user) (ui_clientid_real user) (the vstate))
                      (upd (\<lambda>u. u\<lparr>ui_video_state := the vstate\<rparr>) c)
               else c);
          c = (if m_changed then upd (\<lambda>u. u\<lparr>ui_muted := the muted\<rparr>) c else c)
      in if v_changed \<or> m_changed then cl_act Group_changedh c else c)"

definition propsync_user ::
  "cl_env \<Rightarrow> userinfo \<Rightarrow> icall_vstate option \<Rightarrow> bool option \<Rightarrow> u32 \<Rightarrow> ccall \<Rightarrow> err \<times> ccall" where
  "propsync_user env user vstate muted latest_epoch c =
     (let c = propsync_states user vstate muted c;
          (e, c) = (if 0 < latest_epoch \<and> latest_epoch \<noteq> ui_latest_epoch user
                    then ccall_sync_media_keys env
                           (with_ul (\<lambda>ul. ul\<lparr>ul_users := upd_user (ui_addr user)
                              (\<lambda>u. u\<lparr>ui_latest_epoch := latest_epoch\<rparr>) (ul_users ul)\<rparr>) c)
                    else (OK, c))
      in if e \<noteq> OK then (e, c) else (OK, ccall_update_active_counts env c))"

definition ecall_propsync_handler :: "cl_env \<Rightarrow> econn_message \<Rightarrow> ccall \<Rightarrow> err \<times> ccall" where
  "ecall_propsync_handler env msg c =
     (case u_props (em_u msg) of
        Some props \<Rightarrow>
          (case (econn_props_get (ve_re env) props (Some ''videosend''), econn_props_get (ve_re env) props (Some ''muted''),
                 keysync_epoch (ve_re env) props) of
             (Some _, Some _, Some latest_epoch) \<Rightarrow>
               (case userlist_find_by_hash (ve_ul env) (ul_users (cl_userl c)) (Some (em_src_userid msg))
                       (Some (em_src_clientid msg)) of
                  None \<Rightarrow> (OK, c)
                | Some user \<Rightarrow>
                    (case propsync_get_states (ve_re env) props of
                       None \<Rightarrow> (OK, cl_fail c)
                     | Some (vstate, muted) \<Rightarrow> propsync_user env user vstate muted latest_epoch c))
           | _ \<Rightarrow> (OK, cl_fail c))
      | None \<Rightarrow> (OK, cl_fail c))"

section \<open>Callbacks of the connection\<close>

definition ecall_setup_handler :: "cl_env \<Rightarrow> ccall \<Rightarrow> ccall" where
  "ecall_setup_handler env c = snd (ecall_do env (EcAnswer (cl_call_type c) True) c)"

definition ecall_datachan_estab_handler :: "cl_env \<Rightarrow> ccall \<Rightarrow> ccall" where
  "ecall_datachan_estab_handler env c =
     (if cl_state c = CCALL_STATE_CONNECTING then set_state env CCALL_STATE_CONNECTED c else c)"

definition ecall_media_estab_handler :: "cl_env \<Rightarrow> nat \<Rightarrow> string \<Rightarrow> string \<Rightarrow> bool \<Rightarrow> ccall \<Rightarrow> ccall" where
  "ecall_media_estab_handler env ecall userid clientid upd c =
     (if cl_ecall c \<noteq> Some ecall then c
      else let c = cl_act (Media_estabh userid clientid upd) c;
               c = (if cl_is_mls_call c then cl_act Req_new_epochh c else c)
           in if cl_state c \<noteq> CCALL_STATE_CONNSENT
              then let old_state = cl_state c
                   in with_ul (\<lambda>ul. userlist_incall_clear ul True (old_state = CCALL_STATE_ACTIVE))
                        (set_state env CCALL_STATE_ACTIVE c)
              else info_missing_arg env c)"

definition ecall_audio_estab_handler :: "string \<Rightarrow> string \<Rightarrow> bool \<Rightarrow> ccall \<Rightarrow> ccall" where
  "ecall_audio_estab_handler userid clientid upd c = cl_act (Audio_estabh userid clientid upd) c"

definition ecall_aulevel_handler :: "cl_env \<Rightarrow> audio_level list \<Rightarrow> ccall \<Rightarrow> ccall" where
  "ecall_aulevel_handler env levell c =
     (case userlist_update_audio_level (ve_ul env) (cl_userl c) levell of
        (levell, ul, changed) \<Rightarrow>
          (let c = c\<lparr>cl_userl := ul\<rparr>
           in cl_act (Audio_levelh levell) (if changed then cl_act Group_changedh c else c)))"

text \<open>The metrics of the connection are added up at its end.\<close>

definition close_metrics :: "cl_env \<Rightarrow> icall_metrics option \<Rightarrow> ccall \<Rightarrow> ccall" where
  "close_metrics env metrics c =
     (case metrics of
        None \<Rightarrow> c
      | Some em \<Rightarrow>
          (let m = cl_metrics c
           in c\<lparr>cl_metrics := m\<lparr>im_duration_call := (now env - cl_ts_start c) div 1000,
                                 im_duration_active := im_duration_active m + im_duration_call em,
                                 im_packetloss_last := im_packetloss_last em,
                                 im_packetloss_max := max (im_packetloss_max em) (im_packetloss_max m),
                                 im_rtt_last := im_rtt_last em,
                                 im_rtt_max := max (im_rtt_max em) (im_rtt_max m)\<rparr>\<rparr>))"

text \<open>The last part of the close handler, for a connection that is not replaced.\<close>

definition close_final :: "cl_env \<Rightarrow> bool \<Rightarrow> u32 \<Rightarrow> ccall \<Rightarrow> ccall" where
  "close_final env should_end msg_time c =
     (let c = (if should_end
               then let c = set_state env CCALL_STATE_IDLE c
                    in if cl_error c \<noteq> EDURATION then cl_act (Closeh (cl_error c) (cl_metrics c) msg_time) c else c
               else if cl_error c = EDURATION then start_tmr Tmr_meeting_term CCALL_DURATION_TERM_TIMEOUT c
               else cl_act (Leaveh ICALL_REASON_STILL_ONGOING msg_time) (set_state env CCALL_STATE_INCOMING c))
      in c\<lparr>cl_ecall := None, cl_error := OK\<rparr>)"

definition ecall_close_handler :: "cl_env \<Rightarrow> nat \<Rightarrow> err \<Rightarrow> icall_metrics option \<Rightarrow> u32 \<Rightarrow> ccall \<Rightarrow> ccall" where
  "ecall_close_handler env ecall err metrics msg_time c =
     (let should_end = (userlist_incall_count (cl_userl c) = 0)
      in if cl_ecall c \<noteq> Some ecall then c
         else let c = with_ul userlist_reset_keygenerator c
              in if err = EAGAIN \<or> err = ENOTCONN
                 then ccall_reconnect env msg_time (err = ENOTCONN) (err = EAGAIN)
                        (c\<lparr>cl_reconnect_attempts := 0, cl_expected_ping := 0, cl_last_ping := 0\<rparr>)
                 else let c = with_ul (\<lambda>ul. userlist_incall_clear ul False False) c;
                          c = (if cl_error c \<in> {OK, ENOONEJOINED, EEVERYONELEFT} \<and> should_end \<and> cl_received_confpart c
                               then snd (ccall_send_msg env ECONN_CONF_END False None False c) else c)
                      in close_final env should_end msg_time (close_metrics env metrics c))"

definition ecall_quality_handler ::
  "string \<Rightarrow> string \<Rightarrow> stats_report \<Rightarrow> icall_conv_type \<Rightarrow> ccall \<Rightarrow> ccall" where
  "ecall_quality_handler userid clientid stats peer c =
     (if cl_state c \<noteq> CCALL_STATE_ACTIVE then c
      else let stats = (if CCALL_QUALITY_POOR_MISSING \<le> cl_expected_ping c then stats\<lparr>sr_lost_rx := 30\<rparr>
                        else if CCALL_QUALITY_MEDIUM_MISSING < cl_expected_ping c then stats\<lparr>sr_lost_rx := 10\<rparr>
                        else stats)
           in cl_act (Qualityh userid clientid stats peer) c)"

definition ecall_transp_send_handler :: "cl_env \<Rightarrow> econn_message \<Rightarrow> ccall \<Rightarrow> err \<times> ccall" where
  "ecall_transp_send_handler env msg c = ccall_send_msg_sft env (cl_sft_url c) msg c"

section \<open>Callbacks of the list of members\<close>

definition userlist_add_user_handler :: "cl_env \<Rightarrow> userinfo \<Rightarrow> ccall \<Rightarrow> ccall" where
  "userlist_add_user_handler env user c =
     (let c = snd (ecall_do env (EcAddDecoders (ui_userid_real user) (ui_clientid_real user) (ui_userid_hash user)
                                   (ui_ssrca user) (ui_ssrcv user)) c)
      in if ui_video_state user \<noteq> ICALL_VIDEO_STATE_STOPPED \<and> 0 < ui_ssrcv user
         then cl_act (Vstate_changedh (ui_userid_real user) (ui_clientid_real user) (ui_video_state user)) c else c)"

definition userlist_remove_user_handler :: "cl_env \<Rightarrow> userinfo \<Rightarrow> bool \<Rightarrow> ccall \<Rightarrow> ccall" where
  "userlist_remove_user_handler env user call_vstateh c =
     (let c = snd (ecall_do env (EcRemoveDecoders (ui_userid_real user) (ui_clientid_real user)
                                   (ui_ssrca user) (ui_ssrcv user)) (c\<lparr>cl_someone_left := True\<rparr>))
      in if call_vstateh \<and> ui_video_state user \<noteq> ICALL_VIDEO_STATE_STOPPED
         then cl_act (Vstate_changedh (ui_userid_real user) (ui_clientid_real user) ICALL_VIDEO_STATE_STOPPED) c else c)"

definition userlist_sync_users_handler :: "cl_env \<Rightarrow> ccall \<Rightarrow> ccall" where
  "userlist_sync_users_handler env c = ccall_update_active_counts env (snd (ecall_do env EcSyncDecoders c))"

definition userlist_kg_change_handler :: "cl_env \<Rightarrow> kg_ref \<Rightarrow> bool \<Rightarrow> bool \<Rightarrow> ccall \<Rightarrow> ccall" where
  "userlist_kg_change_handler env keygenerator is_me is_first c =
     (if is_me
      then let c = (if \<not> cl_is_mls_call c
                    then let c = (case keystore_get_current (cl_keystore c) 0 0 of
                                    None \<Rightarrow> cl_fail c
                                  | Some (e, _, _) \<Rightarrow>
                                      if e = ENOENT then snd (ccall_generate_session_key env True c)
                                      else c\<lparr>cl_became_kg := True\<rparr>)
                         in start_tmr Tmr_rotate_key CCALL_ROTATE_KEY_FIRST_TIMEOUT c
                    else c)
           in start_tmr Tmr_send_check (if is_first then CCALL_SEND_CHECK_TIMEOUT else 0) c
      else let c = (if cl_request_key c
                    then (snd (ccall_request_keys env (Some keygenerator) c))\<lparr>cl_request_key := False\<rparr> else c)
           in cancel_tmrs [Tmr_send_check, Tmr_rotate_key] c)"

definition userlist_vstate_handler :: "userinfo \<Rightarrow> icall_vstate \<Rightarrow> ccall \<Rightarrow> ccall" where
  "userlist_vstate_handler user new_vstate c =
     cl_act (Vstate_changedh (ui_userid_real user) (ui_clientid_real user) ICALL_VIDEO_STATE_STOPPED) c"

text \<open>
  An update of the list runs first; then the handlers it called run, in the order of its trace.
  They do not depend on what the update does after calling them, except where the update of the
  server's list calls back before it elects and sorts: there the two halves are run apart.
\<close>

fun ul_event :: "cl_env \<Rightarrow> ul_act \<Rightarrow> ccall \<Rightarrow> ccall" where
  "ul_event env (Addh user) c = userlist_add_user_handler env user c"
| "ul_event env (Removeh user call_vstateh) c = userlist_remove_user_handler env user call_vstateh c"
| "ul_event env Synch c = userlist_sync_users_handler env c"
| "ul_event env (Kgchangeh keygenerator is_me is_first) c = userlist_kg_change_handler env keygenerator is_me is_first c"
| "ul_event env (Vstateh user new_vstate) c = userlist_vstate_handler user new_vstate c"

definition ul_callbacks :: "cl_env \<Rightarrow> userlist \<Rightarrow> ccall \<Rightarrow> ccall" where
  "ul_callbacks env ul c =
     fold (ul_event env) (drop (length (ul_trace (cl_userl c))) (ul_trace ul)) (c\<lparr>cl_userl := ul\<rparr>)"

text \<open>\<open>userlist_update_from_sftlist\<close> with its handlers: the flags are \<open>changed\<close>, \<open>self_changed\<close>, \<open>missing_parts\<close>.\<close>

definition cl_update_from_sftlist :: "cl_env \<Rightarrow> econn_group_part list \<Rightarrow> ccall \<Rightarrow> ccall \<times> bool \<times> bool \<times> bool" where
  "cl_update_from_sftlist env partlist c =
     (let prev = ul_keygenerator (cl_userl c);
          (ul, flags) = sft_settle (sft_walk (ve_ul env) (cl_userl c) partlist False);
          c = ul_callbacks env ul c;
          c = ul_callbacks env (track_keygenerator_change prev (cl_userl c)) c
      in (with_ul (sft_sort (ve_ul env)) c, flags))"

section \<open>The participants\<close>

text \<open>\<^verbatim>\<open>htonll\<close> and \<^verbatim>\<open>htonl\<close> before a write of the memory: the bytes, the highest first.\<close>

definition be32 :: "u32 \<Rightarrow> bytes" where
  "be32 w = map (\<lambda>i. ucast (drop_bit (8 * (3 - i)) w)) [0..<4]"

definition be64 :: "u64 \<Rightarrow> bytes" where
  "be64 w = map (\<lambda>i. ucast (drop_bit (8 * (7 - i)) w)) [0..<8]"

text \<open>A participant without an id ends the loop; the buffer is then left at its end.\<close>

fun keep_parts ::
  "econn_group_part list \<Rightarrow> bytes \<Rightarrow> econn_group_part list \<Rightarrow> bool \<times> bytes \<times> econn_group_part list" where
  "keep_parts [] buf saved = (True, buf, saved)"
| "keep_parts (p # ps) buf saved =
     (case gp_userid p of
        None \<Rightarrow> (False, buf, saved)
      | Some userid \<Rightarrow>
          (let buf = buf @ str_bytes userid @ be32 (gp_ssrca p) @ be32 (gp_ssrcv p)
           in case econn_part_alloc True (gp_userid p) (gp_clientid p) of
                None \<Rightarrow> (False, buf, saved)
              | Some pcopy \<Rightarrow> keep_parts ps buf (saved @ [pcopy\<lparr>gp_ssrca := gp_ssrca p, gp_ssrcv := gp_ssrcv p\<rparr>])))"

definition ccall_keep_confpart_data :: "econn_confpart \<Rightarrow> ccall \<Rightarrow> ccall" where
  "ccall_keep_confpart_data cp c =
     (let buf = be64 (cp_timestamp cp) @ be32 (cp_seqno cp)
      in case cp_entropy cp of
           None \<Rightarrow> c\<lparr>cl_confpart_data := Some (buf, length buf)\<rparr>
         | Some entropy \<Rightarrow>
             (case keep_parts (cp_partl cp) (buf @ entropy) [] of
                (ok, buf, saved) \<Rightarrow>
                  c\<lparr>cl_confpart_data := Some (buf, if ok then 0 else length buf), cl_saved_partl := saved\<rparr>))"

text \<open>Whether a call starts, and the time of the call.\<close>

definition confpart_start :: "cl_env \<Rightarrow> econn_confpart \<Rightarrow> bool \<Rightarrow> ccall \<Rightarrow> ccall" where
  "confpart_start env cp should_start c =
     (let c = (if should_start then c\<lparr>cl_metrics := (cl_metrics c)\<lparr>im_initiator := True\<rparr>\<rparr> else c)
      in if should_start \<and> cl_is_caller c
         then snd (ccall_send_msg env ECONN_CONF_START False None False
                     (c\<lparr>cl_sft_timestamp := cp_timestamp cp, cl_sft_seqno := cp_seqno cp\<rparr>))
         else if cl_sft_timestamp c = 0 \<and> cl_sft_seqno c = 0
         then c\<lparr>cl_sft_timestamp := cp_timestamp cp, cl_sft_seqno := cp_seqno cp\<rparr>
         else c)"

definition confpart_alone :: "nat \<Rightarrow> ccall \<Rightarrow> ccall" where
  "confpart_alone n c =
     (if 1 < n then (cancel_tmrs [Tmr_alone] c)\<lparr>cl_someone_joined := True\<rparr>
      else if cl_someone_joined c then start_tmr Tmr_alone CCALL_EVERYONE_LEFT_TIMEOUT c
      else if \<not> cl_meeting_is_set c then start_tmr Tmr_alone CCALL_NOONE_JOINED_TIMEOUT c
      else c)"

text \<open>
  The duration of a meeting; the conversion to \<^verbatim>\<open>int\<close> keeps the low 32 bits, and the subtraction of
  ints may overflow.
\<close>

definition int_ok :: "int \<Rightarrow> bool" where
  "int_ok i \<longleftrightarrow> - (2 ^ 31) \<le> i \<and> i < 2 ^ 31"

definition confpart_duration :: "cl_env \<Rightarrow> econn_confpart \<Rightarrow> bool \<Rightarrow> ccall \<Rightarrow> ccall" where
  "confpart_duration env cp first_confpart c =
     (if cl_meeting_duration c \<noteq> 0 \<and> first_confpart
      then let c = c\<lparr>cl_meeting_start_duration := sint (ucast (cp_timestamp cp - cl_sft_timestamp c) :: u32)\<rparr>;
               duration = cl_meeting_duration c - cl_meeting_start_duration c
           in if \<not> int_ok duration then cl_fail c
              else if duration \<le> 0 then ccall_end_with_err env EDURATION c
              else start_tmr Tmr_duration (word_of_int duration) c
      else c)"

text \<open>After the update of the list.\<close>

definition confpart_after :: "cl_env \<Rightarrow> econn_confpart \<Rightarrow> bool \<Rightarrow> bool \<Rightarrow> bool \<Rightarrow> bool \<Rightarrow> ccall \<Rightarrow> ccall" where
  "confpart_after env cp should_start list_changed self_changed missing_parts c =
     (let c = snd (send_confpart_response env c);
          self = userlist_get_self (cl_userl c);
          c = (if self_changed then snd (ecall_do env (EcUpdateSsrc (ui_ssrca self) (ui_ssrcv self)) c) else c);
          c = (if list_changed
               then let c = cl_act Group_changedh c
                    in if kg_me c \<and> \<not> cl_is_mls_call c then snd (ccall_send_keys env False c) else c
               else c);
          c = (if missing_parts then cl_act Req_clientsh c else c);
          sft_changed = ccall_sftlist_changed (cl_sftl c) (cp_sftl cp);
          c = c\<lparr>cl_sftl := snd (stringlist_clone (cp_sftl cp) (cl_sftl c))\<rparr>
      in if kg_me c \<and> \<not> should_start \<and> sft_changed then ccall_send_check_timeout env c else c)"

definition ecall_confpart_handler :: "cl_env \<Rightarrow> nat \<Rightarrow> econn_confpart \<Rightarrow> ccall \<Rightarrow> ccall" where
  "ecall_confpart_handler env ecall cp c =
     (let first_confpart = (\<not> cl_received_confpart c)
      in if cl_ecall c \<noteq> Some ecall then c
         else let should_start = (cp_should_start cp \<or>
                                  cl_is_caller c \<and> cl_sft_timestamp c = 0 \<and> cl_sft_seqno c = 0 \<and>
                                  length (cp_partl cp) = 1);
                  c = ccall_keep_confpart_data cp (c\<lparr>cl_received_confpart := True\<rparr>);
                  c = confpart_start env cp should_start c;
                  c = confpart_alone (length (cp_partl cp)) c;
                  c = confpart_duration env cp first_confpart c;
                  c = (if first_confpart \<and> cl_ecall c \<noteq> None then snd (ccall_sync_props env c) else c);
                  (c, list_changed, self_changed, missing_parts) = cl_update_from_sftlist env (cp_partl cp) c
              in confpart_after env cp should_start list_changed self_changed missing_parts c)"

definition ecall_confmsg_handler :: "cl_env \<Rightarrow> nat \<Rightarrow> econn_message \<Rightarrow> ccall \<Rightarrow> ccall" where
  "ecall_confmsg_handler env ecall msg c =
     (if em_msg_type msg = Some ECONN_CONF_PART
      then case u_confpart (em_u msg) of Some cp \<Rightarrow> ecall_confpart_handler env ecall cp c | None \<Rightarrow> cl_fail c
      else c)"

section \<open>Creation\<close>

text \<open>The structure as the allocation leaves it.\<close>

definition ccall_init :: "string \<Rightarrow> userlist \<Rightarrow> keystore \<Rightarrow> bool \<Rightarrow> bool \<Rightarrow> ccall" where
  "ccall_init convid ul ks is_mls_call meeting =
     \<lparr>cl_turnv = [], cl_convid_real = convid, cl_convid_hash = None, cl_userl = ul, cl_confpart_data = None,
      cl_saved_partl = [], cl_state = CCALL_STATE_IDLE, cl_is_mls_call = is_mls_call,
      cl_primary_sft_url = None, cl_sft_url = None, cl_sft_tuple = None, cl_sftl = [], cl_secret = [],
      cl_sft_timestamp = 0, cl_sft_seqno = 0, cl_ecall = None, cl_is_caller = False, cl_is_ringing = False,
      cl_stop_ringing_reason = CCALL_STOP_RINGING_NONE, cl_keystore = ks,
      cl_call_type = ICALL_CALL_TYPE_NORMAL, cl_vstate = ICALL_VIDEO_STATE_STOPPED,
      cl_someone_joined = False, cl_someone_left = False, cl_became_kg = False, cl_request_key = False,
      cl_reconnect_attempts = 0, cl_expected_ping = 0, cl_last_ping = 0, cl_received_confpart = False,
      cl_error = OK, cl_epoch_start_ts = 0, cl_tmr = (\<lambda>_. None), cl_je = None, cl_has_cfg = False,
      cl_quality_interval = 0, cl_confconn_status = 0, cl_ts_start = 0,
      cl_metrics = metrics_zero (if is_mls_call then ICALL_CONV_TYPE_CONFERENCE_MLS else ICALL_CONV_TYPE_CONFERENCE),
      cl_inc_reconnects = False, cl_videol = [], cl_meeting_is_set = meeting, cl_meeting_duration = 0,
      cl_meeting_start_duration = 0, cl_next_ecall = 0, cl_next_je = 0, cl_trace = [], cl_ub = False\<rparr>"

definition ccall_alloc ::
  "cl_env \<Rightarrow> string option \<Rightarrow> string option \<Rightarrow> string option \<Rightarrow> bool \<Rightarrow> bool \<Rightarrow> err \<times> ccall option" where
  "ccall_alloc env convid userid_self clientid is_mls_call meeting =
     (case convid of
        None \<Rightarrow> (EINVAL, None)
      | Some cid \<Rightarrow>
          (case userlist_alloc True True userid_self clientid
                  \<lparr>uh_addh = True, uh_removeh = True, uh_synch = True, uh_kgchangeh = True, uh_vstateh = True\<rparr> of
             (OK, Some ul) \<Rightarrow>
               (case keystore_alloc True OK (now env) (\<not> is_mls_call) of
                  (OK, Some ks) \<Rightarrow>
                    (OK, Some (ccall_set_secret env (ve_rand env CCALL_SECRET_LEN)
                                 (ccall_init cid ul ks is_mls_call meeting)))
                | (e, _) \<Rightarrow> (e, None))
           | (e, _) \<Rightarrow> (e, None)))"

definition ccall_add_turnserver :: "zapi_ice_server option \<Rightarrow> ccall \<Rightarrow> err \<times> ccall" where
  "ccall_add_turnserver srv c =
     (case srv of
        None \<Rightarrow> (EINVAL, c)
      | Some s \<Rightarrow> if MAX_TURN_SERVERS \<le> length (cl_turnv c) then (EOVERFLOW, c)
                  else (OK, c\<lparr>cl_turnv := cl_turnv c @ [s]\<rparr>))"

text \<open>The calls into a connection that is being set up; the first error ends it.\<close>

fun ecall_setup_calls :: "cl_env \<Rightarrow> nat \<Rightarrow> ecall_call list \<Rightarrow> ccall \<Rightarrow> err \<times> ccall" where
  "ecall_setup_calls env ecall [] c = (OK, c)"
| "ecall_setup_calls env ecall (x # xs) c =
     (let c = cl_act (Ecall ecall x) c
      in if ve_ecall env x \<noteq> OK then (ve_ecall env x, c) else ecall_setup_calls env ecall xs c)"

definition create_ecall :: "cl_env \<Rightarrow> ccall \<Rightarrow> err \<times> ccall" where
  "create_ecall env c =
     (if cl_ecall c \<noteq> None then (OK, cl_fail c)
      else let self = userlist_get_self (cl_userl c);
               c = (if cl_call_type c = ICALL_CALL_TYPE_NORMAL \<and>
                       cl_vstate c \<in> {ICALL_VIDEO_STATE_STARTED, ICALL_VIDEO_STATE_SCREENSHARE}
                    then c\<lparr>cl_call_type := ICALL_CALL_TYPE_VIDEO\<rparr> else c);
               ecall = cl_next_ecall c;
               c = c\<lparr>cl_next_ecall := ecall + 1\<rparr>;
               (e, c) = ecall_setup_calls env ecall [EcAlloc (cl_call_type c)] c
           in if e \<noteq> OK then (e, c)
              else let (e, c) = ecall_setup_calls env ecall
                                  ([EcSetQualityInterval (cl_quality_interval c),
                                    EcSetRealClientid (ui_clientid_real self)] @ map EcAddTurnserver (cl_turnv c))
                                  (cl_act (Ecall ecall EcSetKeystore) c)
                   in if e \<noteq> OK then (e, c)
                      else let c = (if cl_convid_hash c \<noteq> None
                                    then cl_act (Ecall ecall (EcSetSessid (cl_convid_hash c))) c else c)
                           in (OK, start_tmr Tmr_vstate 0 (c\<lparr>cl_ecall := Some ecall\<rparr>)))"

section \<open>Joining\<close>

definition ccall_stop_others_ringing_i :: "cl_env \<Rightarrow> ccall \<Rightarrow> ccall" where
  "ccall_stop_others_ringing_i env c =
     (case cl_stop_ringing_reason c of
        CCALL_STOP_RINGING_NONE \<Rightarrow> c
      | reason \<Rightarrow>
          (let msgtype = (if reason = CCALL_STOP_RINGING_ANSWERED then ECONN_CONF_START else ECONN_REJECT);
               c = c\<lparr>cl_stop_ringing_reason := CCALL_STOP_RINGING_NONE\<rparr>;
               (e, targets) = userlist_get_my_clients (ve_ul env) (cl_userl c)
           in if e \<noteq> OK then c
              else if cl_is_mls_call c \<or> 0 < length targets
              then snd (ccall_send_msg_i env msgtype True (Some targets) False True c)
              else c))"

definition ccall_stop_others_ringing :: "cl_env \<Rightarrow> ccall \<Rightarrow> ccall" where
  "ccall_stop_others_ringing env c =
     (if cl_is_mls_call c then ccall_stop_others_ringing_i env c else cl_act Req_clientsh c)"

definition ccall_req_cfg_join ::
  "cl_env \<Rightarrow> icall_call_type \<Rightarrow> bool \<Rightarrow> bool \<Rightarrow> bool \<Rightarrow> ccall \<Rightarrow> err \<times> ccall" where
  "ccall_req_cfg_join env call_type audio_cbr retry_attempt is_outgoing c =
     (let c = set_state env (if is_outgoing then CCALL_STATE_WAITCONFIG_OUTGOING else CCALL_STATE_WAITCONFIG) c;
          je = cl_next_je c;
          c = c\<lparr>cl_je := Some \<lparr>je_id = je, je_call_type = call_type, je_audio_cbr = audio_cbr,
                              je_retry_attempt = retry_attempt\<rparr>, cl_next_je := je + 1\<rparr>;
          e = fst (config_register_update_handler je True (cfg_of env c))
      in if e \<noteq> OK then (e, c)
         else (fst (config_request (ve_req_err env) (cfg_of env c)), cl_act Cfg_request c))"

text \<open>A connection request to one server, with the credentials of the configuration.\<close>

definition cfg_conn :: "cl_env \<Rightarrow> string \<Rightarrow> ccall \<Rightarrow> err \<times> ccall" where
  "cfg_conn env url c =
     (let sfti = ccall_get_sft_info env c (Some url)
      in ccall_send_conf_conn env (Some url) (map_option ice_username sfti) (map_option ice_credential sfti) False c)"

text \<open>The servers of the call, up to three; the code of the last request is kept.\<close>

fun cfg_sft_loop :: "cl_env \<Rightarrow> string list \<Rightarrow> nat \<Rightarrow> err \<Rightarrow> ccall \<Rightarrow> nat \<times> err \<times> ccall" where
  "cfg_sft_loop env [] connected e c = (connected, e, c)"
| "cfg_sft_loop env (url # urls) connected e c =
     (let (connected, e, c) =
            (if ccall_can_connect_sft env c (Some url)
             then case cfg_conn env url c of (e, c) \<Rightarrow> (if e \<noteq> OK then connected else connected + 1, e, c)
             else (connected, e, c))
      in if 3 \<le> connected then (connected, e, c) else cfg_sft_loop env urls connected e c)"

text \<open>The servers of the configuration, up to three.\<close>

definition cfg_server :: "cl_env \<Rightarrow> ccall \<Rightarrow> zapi_ice_server \<Rightarrow> zapi_ice_server" where
  "cfg_server env c srv =
     (case ccall_get_sft_info env c (Some (ice_url srv)) of
        Some si \<Rightarrow> si
      | None \<Rightarrow>
          (case ccall_get_sft_info_at_index env c 0 of
             Some si \<Rightarrow> si\<lparr>ice_url := re_ncpy (ve_re env) (ice_url si) (Some (ice_url srv)) 256\<rparr>
           | None \<Rightarrow> srv))"

fun cfg_url_loop :: "cl_env \<Rightarrow> zapi_ice_server list \<Rightarrow> err \<Rightarrow> ccall \<Rightarrow> err \<times> ccall" where
  "cfg_url_loop env [] e c = (e, c)"
| "cfg_url_loop env (srv # srvs) e c =
     (let sfti = cfg_server env c srv;
          (e, c) = ccall_send_conf_conn env (Some (ice_url sfti)) (Some (ice_username sfti))
                     (Some (ice_credential sfti)) False c
      in cfg_url_loop env srvs e c)"

text \<open>
  What happens to the requests: the code, whether the join element is released, and the conference.
  \<open>cfg_joined\<close>: a server of the call was asked.
\<close>

definition cfg_joined :: "cl_env \<Rightarrow> ccall \<Rightarrow> bool \<times> err \<times> ccall" where
  "cfg_joined env c =
     (if 0 < length (cl_sftl c)
      then case cfg_sft_loop env (cl_sftl c) 0 OK c of (connected, e, c) \<Rightarrow> (0 < connected, e, c)
      else case cl_primary_sft_url c of
             None \<Rightarrow> (False, OK, c)
           | Some url \<Rightarrow>
               if ccall_can_connect_sft env c (Some url)
               then case cfg_conn env url c of (e, c) \<Rightarrow> (True, e, c)
               else (False, OK, c))"

definition cfg_refused :: "cl_env \<Rightarrow> join_elem \<Rightarrow> ccall \<Rightarrow> err \<times> bool \<times> ccall" where
  "cfg_refused env je c =
     (if je_retry_attempt je then (EACCES, True, ccall_end_with_err env EACCES c)
      else case ccall_req_cfg_join env (je_call_type je) (je_audio_cbr je) True
                  (cl_state c = CCALL_STATE_WAITCONFIG_OUTGOING) c of
             (e, c) \<Rightarrow> if e \<noteq> OK then (e, True, c) else (EAGAIN, False, c))"

definition cfg_connect :: "cl_env \<Rightarrow> join_elem \<Rightarrow> ccall \<Rightarrow> err \<times> bool \<times> ccall" where
  "cfg_connect env je c =
     (case config_get_sftservers (cfg_of env c) of
        (Some urlv, Some urlc) \<Rightarrow>
          if cl_state c \<notin> {CCALL_STATE_WAITCONFIG, CCALL_STATE_WAITCONFIG_OUTGOING} then (OK, True, c)
          else let (joined, e, c') = (if cl_state c = CCALL_STATE_WAITCONFIG then cfg_joined env c else (False, OK, c))
               in if joined then (e, True, c')
                  else if cl_state c = CCALL_STATE_WAITCONFIG \<and> \<not> config_is_federating (cfg_of env c')
                  then cfg_refused env je c'
                  else case cfg_url_loop env (take 3 urlv) e c' of (e, c') \<Rightarrow> (e, True, c')
      | _ \<Rightarrow> (OK, True, ccall_end_with_err env ENOTSUP c))"

definition config_update_handler :: "cl_env \<Rightarrow> nat \<Rightarrow> ccall \<Rightarrow> ccall" where
  "config_update_handler env je_arg c =
     (case cl_je c of
        None \<Rightarrow> c
      | Some je \<Rightarrow>
          if je_id je \<noteq> je_arg then c
          else let (e, deref_je, c) = cfg_connect env je c;
                   c = (if e = OK
                        then ccall_stop_others_ringing env
                               ((set_state env CCALL_STATE_CONNSENT c)\<lparr>cl_call_type := je_call_type je\<rparr>)
                        else c)
               in if deref_je then c\<lparr>cl_je := None\<rparr> else c)"

section \<open>The call\<close>

definition ccall_answer :: "cl_env \<Rightarrow> icall_call_type \<Rightarrow> bool \<Rightarrow> ccall \<Rightarrow> err \<times> ccall" where
  "ccall_answer env call_type audio_cbr c =
     (let c = c\<lparr>cl_error := OK\<rparr>
      in if cl_state c \<in> {CCALL_STATE_IDLE, CCALL_STATE_INCOMING}
         then ccall_req_cfg_join env call_type audio_cbr False False
                (c\<lparr>cl_is_caller := False, cl_stop_ringing_reason := CCALL_STOP_RINGING_ANSWERED\<rparr>)
         else (EINVAL, c))"

definition ccall_start :: "cl_env \<Rightarrow> icall_call_type \<Rightarrow> bool \<Rightarrow> bool \<Rightarrow> ccall \<Rightarrow> err \<times> ccall" where
  "ccall_start env call_type audio_cbr meeting c =
     (let c = c\<lparr>cl_error := OK, cl_meeting_is_set := meeting\<rparr>
      in if cl_state c = CCALL_STATE_INCOMING then ccall_answer env call_type audio_cbr c
         else if cl_state c = CCALL_STATE_IDLE
         then ccall_req_cfg_join env call_type audio_cbr False True (c\<lparr>cl_is_caller := True\<rparr>)
         else (OK, c))"

definition ccall_end :: "cl_env \<Rightarrow> ccall \<Rightarrow> ccall" where
  "ccall_end env c = snd (ecall_do env EcEnd c)"

definition ccall_reject :: "cl_env \<Rightarrow> ccall \<Rightarrow> ccall" where
  "ccall_reject env c =
     (if cl_state c = CCALL_STATE_INCOMING
      then ccall_stop_others_ringing env (c\<lparr>cl_stop_ringing_reason := CCALL_STOP_RINGING_REJECTED\<rparr>) else c)"

definition ccall_media_start :: "cl_env \<Rightarrow> ccall \<Rightarrow> err \<times> ccall" where
  "ccall_media_start env c = (OK, snd (ecall_do env EcMediaStart c))"

definition ccall_media_stop :: "cl_env \<Rightarrow> ccall \<Rightarrow> ccall" where
  "ccall_media_stop env c = snd (ecall_do env EcMediaStop c)"

definition ccall_get_members ::
  "cl_env \<Rightarrow> ccall \<Rightarrow> (err \<times> (wcall_member list \<times> nat) option) option" where
  "ccall_get_members env c =
     userlist_get_members True True (ve_muted env) (cl_userl c)
       (if cl_state c = CCALL_STATE_ACTIVE then ICALL_AUDIO_STATE_ESTABLISHED else ICALL_AUDIO_STATE_CONNECTING)
       (cl_vstate c)"

definition ccall_set_quality_interval :: "cl_env \<Rightarrow> u64 \<Rightarrow> ccall \<Rightarrow> err \<times> ccall" where
  "ccall_set_quality_interval env interval c =
     (OK, snd (ecall_do env (EcSetQualityInterval interval) (c\<lparr>cl_quality_interval := interval\<rparr>)))"

definition ccall_set_clients :: "cl_env \<Rightarrow> icall_client list \<Rightarrow> u32 \<Rightarrow> ccall \<Rightarrow> ccall" where
  "ccall_set_clients env clientl epoch c =
     (case userlist_update_from_selist (ve_ul env) (cl_userl c) clientl epoch (cl_secret c) of
        None \<Rightarrow> cl_fail c
      | Some (ul, list_changed, list_removed) \<Rightarrow>
          (let c = ul_callbacks env ul c;
               c = (if list_changed then cl_act Group_changedh c else c);
               c = (if list_removed
                    then start_tmr Tmr_rotate_key CCALL_ROTATE_KEY_FAST_TIMEOUT (c\<lparr>cl_someone_left := True\<rparr>) else c);
               c = (if cl_state c = CCALL_STATE_ACTIVE
                    then snd (ccall_send_keys env False
                                (if list_changed then snd (send_confpart_response env c) else c))
                    else c)
           in if cl_stop_ringing_reason c \<noteq> CCALL_STOP_RINGING_NONE then ccall_stop_others_ringing_i env c else c))"

definition ccall_update_mute_state :: "cl_env \<Rightarrow> ccall \<Rightarrow> err \<times> ccall" where
  "ccall_update_mute_state env c =
     (let c = cl_act Group_changedh c
      in if cl_ecall c \<noteq> None then ecall_do env EcUpdateMuteState c else (OK, c))"

definition ccall_set_background :: "bool \<Rightarrow> ccall \<Rightarrow> err \<times> ccall" where
  "ccall_set_background background c =
     (OK, if cl_state c = CCALL_STATE_INCOMING
          then if background then cancel_tmrs [Tmr_ongoing] c
               else start_tmr Tmr_ongoing CCALL_ONGOING_CALL_TIMEOUT c
          else c)"

definition ccall_activate :: "cl_env \<Rightarrow> bool \<Rightarrow> ccall \<Rightarrow> err \<times> ccall" where
  "ccall_activate env active c = (OK, snd (ecall_do env (EcActivate active) c))"

definition ccall_set_duration :: "int \<Rightarrow> ccall \<Rightarrow> ccall" where
  "ccall_set_duration duration c =
     (if \<not> int_ok (duration * 1000) then cl_fail c else c\<lparr>cl_meeting_duration := duration * 1000\<rparr>)"

definition ccall_restart :: "cl_env \<Rightarrow> ccall \<Rightarrow> err \<times> ccall" where
  "ccall_restart env c = (OK, snd (ecall_do env (EcRestart (cl_call_type c) False) c))"

section \<open>Messages of the other clients\<close>

text \<open>Which of two calls is the earlier one: positive when it is the one of the message.\<close>

definition confstart_cmp :: "ccall \<Rightarrow> econn_confstart \<Rightarrow> int" where
  "confstart_cmp c cs =
     (if cl_sft_timestamp c = 0 \<or> cs_timestamp cs < cl_sft_timestamp c then 1
      else if cl_sft_timestamp c < cs_timestamp cs then -1
      else sint (cl_sft_seqno c - cs_seqno cs))"

definition confstart_adopt :: "cl_env \<Rightarrow> econn_confstart \<Rightarrow> ccall \<Rightarrow> ccall" where
  "confstart_adopt env cs c =
     (case (copy_sft (cs_sft_url cs), cs_secret cs) of
        (Some url, Some secret) \<Rightarrow>
          (let c = c\<lparr>cl_primary_sft_url := Some url, cl_sft_tuple := cs_sft_tuple cs,
                     cl_sft_timestamp := cs_timestamp cs, cl_sft_seqno := cs_seqno cs\<rparr>;
               c = with_ks keystore_reset c;
               c = ccall_set_secret env secret c
           in with_ul userlist_reset_keygenerator (c\<lparr>cl_is_caller := False\<rparr>))
      | _ \<Rightarrow> cl_fail c)"

text \<open>A message in a state in which there is no connection yet.\<close>

definition confstart_ring ::
  "cl_env \<Rightarrow> string \<Rightarrow> string \<Rightarrow> econn_message \<Rightarrow> econn_confstart \<Rightarrow> int \<Rightarrow> ccall \<Rightarrow> ccall" where
  "confstart_ring env userid_sender clientid_sender msg cs ts_cmp c =
     (let self = userlist_get_self (cl_userl c);
          should_ring = (econn_message_isrequest msg \<and> em_msg_type msg = Some ECONN_CONF_START \<and>
                         em_age msg * 1000 < CCALL_SHOULD_RING_TIMEOUT \<and>
                         \<not> ue_caseeq (ve_ul env) (Some userid_sender) (ui_userid_real self) \<and>
                         \<not> cl_meeting_is_set c);
          c = set_state env CCALL_STATE_INCOMING (c\<lparr>cl_is_ringing := should_ring\<rparr>);
          c = cl_act (Starth (em_time msg) userid_sender clientid_sender False should_ring
                        (if cl_is_mls_call c then ICALL_CONV_TYPE_CONFERENCE_MLS else ICALL_CONV_TYPE_CONFERENCE)) c;
          c = (if should_ring then start_tmr Tmr_ring CCALL_RINGER_TIMEOUT c else c)
      in if 0 \<le> ts_cmp then c\<lparr>cl_sftl := snd (stringlist_clone (cs_sftl cs) (cl_sftl c))\<rparr> else c)"

text \<open>The ringing stops when another client of the user has answered or rejected.\<close>

definition ring_stopped :: "ccall \<Rightarrow> ccall" where
  "ring_stopped c =
     (cl_act (Leaveh ICALL_REASON_STILL_ONGOING ECONN_MESSAGE_TIME_UNKNOWN) (cancel_tmrs [Tmr_ring] c))
       \<lparr>cl_is_ringing := False\<rparr>"

definition confstart_again :: "cl_env \<Rightarrow> string \<Rightarrow> econn_confstart \<Rightarrow> int \<Rightarrow> ccall \<Rightarrow> ccall" where
  "confstart_again env userid_sender cs ts_cmp c =
     (let c = (if ue_caseeq (ve_ul env) (Some userid_sender) (ui_userid_real (userlist_get_self (cl_userl c))) \<and>
                  cl_is_ringing c
               then ring_stopped c else c);
          c = start_tmr Tmr_ongoing CCALL_ONGOING_CALL_TIMEOUT c
      in if 0 \<le> ts_cmp then c\<lparr>cl_sftl := snd (stringlist_clone (cs_sftl cs) (cl_sftl c))\<rparr> else c)"

text \<open>The earlier call is joined instead.\<close>

definition confstart_switch :: "cl_env \<Rightarrow> econn_confstart \<Rightarrow> ccall \<Rightarrow> err \<times> ccall" where
  "confstart_switch env cs c =
     (let c = (snd (ecall_do env EcEnd c))\<lparr>cl_ecall := None\<rparr>;
          c = (if cl_state c \<noteq> CCALL_STATE_ACTIVE
               then c\<lparr>cl_metrics := (cl_metrics c)\<lparr>im_initiator := False\<rparr>\<rparr> else c);
          c = c\<lparr>cl_sftl := snd (stringlist_clone (cs_sftl cs) (cl_sftl c))\<rparr>
      in ccall_req_cfg_join env (cl_call_type c) True False False c)"

definition confstart_state ::
  "cl_env \<Rightarrow> string \<Rightarrow> string \<Rightarrow> econn_message \<Rightarrow> econn_confstart \<Rightarrow> int \<Rightarrow> ccall \<Rightarrow> err \<times> ccall" where
  "confstart_state env userid_sender clientid_sender msg cs ts_cmp c =
     (if cl_state c = CCALL_STATE_IDLE then (OK, confstart_ring env userid_sender clientid_sender msg cs ts_cmp c)
      else if cl_state c = CCALL_STATE_INCOMING then (OK, confstart_again env userid_sender cs ts_cmp c)
      else if cl_state c \<in> {CCALL_STATE_NONE, CCALL_STATE_TERMINATING} then (OK, c)
      else if 0 < ts_cmp then confstart_switch env cs c
      else if cl_state c = CCALL_STATE_ACTIVE \<and> ts_cmp < 0 \<and> kg_me c
      then (OK, snd (ccall_send_msg env ECONN_CONF_START True None False c))
      else (OK, c))"

text \<open>The two messages that announce a call, and whether they still count.\<close>

definition confstart_of :: "econn_message \<Rightarrow> (err \<times> econn_confstart \<times> bool) option" where
  "confstart_of msg =
     (if em_msg_type msg = Some ECONN_CONF_START
      then map_option (\<lambda>cs. (OK, cs, em_age msg < CCALL_CONFSTART_TIMEOUT_S)) (u_confstart (em_u msg))
      else if em_msg_type msg = Some ECONN_CONF_CHECK
      then map_option (\<lambda>cs. (OK, cs, \<not> econn_message_isrequest msg \<and> em_age msg < CCALL_CONFSTART_TIMEOUT_S))
             (u_confcheck (em_u msg))
      else Some (EINVAL, confstart_zero, False))"

definition ccall_handle_confstart_check ::
  "cl_env \<Rightarrow> string option \<Rightarrow> string option \<Rightarrow> econn_message \<Rightarrow> ccall \<Rightarrow> err \<times> ccall" where
  "ccall_handle_confstart_check env userid_sender clientid_sender msg c =
     (case (userid_sender, clientid_sender) of
        (Some userid, Some clientid) \<Rightarrow>
          (case confstart_of msg of
             None \<Rightarrow> (OK, cl_fail c)
           | Some (e, cs, valid_call) \<Rightarrow>
               if e \<noteq> OK then (e, c)
               else if \<not> valid_call then (OK, c)
               else let ts_cmp = confstart_cmp c cs;
                        c = (if 0 < ts_cmp then confstart_adopt env cs c else c)
                    in confstart_state env userid clientid msg cs ts_cmp c)
      | _ \<Rightarrow> (EINVAL, c))"

fun confkey_loop :: "cl_env \<Rightarrow> econn_key_info list \<Rightarrow> ccall \<Rightarrow> ccall" where
  "confkey_loop env [] c = c"
| "confkey_loop env (k # ks) c =
     (case ks_do (\<lambda>s. keystore_set_session_key (ve_ks env) s (key_idx k) (key_data k)) OK c of
        (e, c) \<Rightarrow> if e \<noteq> OK \<and> e \<noteq> EALREADY then c else confkey_loop env ks c)"

text \<open>Keys of another client, and the request for keys by one.\<close>

definition confkey_resp :: "cl_env \<Rightarrow> string option \<Rightarrow> string option \<Rightarrow> econn_key_info list \<Rightarrow> ccall \<Rightarrow> ccall" where
  "confkey_resp env userid_sender clientid_sender keyl c =
     (case userlist_get_keygenerator (cl_userl c) of
        None \<Rightarrow> c\<lparr>cl_request_key := True\<rparr>
      | Some ref \<Rightarrow>
          if kg_me c then c
          else case kg_info (cl_userl c) ref of
                 None \<Rightarrow> cl_fail c
               | Some kg \<Rightarrow>
                   if ui_userid_real kg = None \<or> ui_clientid_real kg = None then c
                   else if \<not> ue_caseeq (ve_ul env) userid_sender (ui_userid_real kg) \<or>
                           \<not> ue_caseeq (ve_ul env) clientid_sender (ui_clientid_real kg) then c
                   else confkey_loop env keyl
                          (with_ks (\<lambda>ks. keystore_set_salt True (now env) ks (map_option bytes_of (cl_convid_hash c))) c))"

definition confkey_req :: "cl_env \<Rightarrow> string option \<Rightarrow> string option \<Rightarrow> ccall \<Rightarrow> ccall" where
  "confkey_req env userid_sender clientid_sender c =
     (if \<not> kg_me c then c
      else case userlist_find_by_real (ve_ul env) (ul_users (cl_userl c)) userid_sender clientid_sender of
             None \<Rightarrow> c
           | Some u \<Rightarrow>
               if \<not> ui_incall_now u then c
               else snd (ccall_send_keys env False
                      (with_ul (\<lambda>ul. ul\<lparr>ul_users := upd_user (ui_addr u) (\<lambda>v. v\<lparr>ui_needs_key := True\<rparr>) (ul_users ul)\<rparr>) c)))"

definition confend_recv :: "cl_env \<Rightarrow> econn_message \<Rightarrow> ccall \<Rightarrow> ccall" where
  "confend_recv env msg c =
     (if cl_state c = CCALL_STATE_INCOMING
      then case cl_convid_hash c of
             None \<Rightarrow> cl_fail c
           | Some hash \<Rightarrow>
               if take ECONN_ID_LEN (em_sessid_sender msg) = take ECONN_ID_LEN hash
               then let c = set_state env CCALL_STATE_IDLE c
                    in cl_act (Closeh OK (cl_metrics c) ECONN_MESSAGE_TIME_UNKNOWN) c
               else c
      else if cl_state c = CCALL_STATE_ACTIVE \<and> kg_me c then start_tmr Tmr_send_check 0 c
      else c)"

definition ccall_msg_recv ::
  "cl_env \<Rightarrow> string option \<Rightarrow> string option \<Rightarrow> econn_message \<Rightarrow> ccall \<Rightarrow> err \<times> ccall" where
  "ccall_msg_recv env userid_sender clientid_sender msg c =
     (case em_msg_type msg of
        Some ECONN_CONF_START \<Rightarrow> ccall_handle_confstart_check env userid_sender clientid_sender msg c
      | Some ECONN_CONF_CHECK \<Rightarrow> ccall_handle_confstart_check env userid_sender clientid_sender msg c
      | Some ECONN_CONF_END \<Rightarrow> (OK, confend_recv env msg c)
      | Some ECONN_CONF_KEY \<Rightarrow>
          (OK, if em_resp msg
               then case u_confkey (em_u msg) of
                      Some keyl \<Rightarrow> confkey_resp env userid_sender clientid_sender keyl c
                    | None \<Rightarrow> cl_fail c
               else confkey_req env userid_sender clientid_sender c)
      | Some ECONN_REJECT \<Rightarrow>
          (OK, if cl_state c = CCALL_STATE_INCOMING \<and>
                  ue_caseeq (ve_ul env) userid_sender (ui_userid_real (userlist_get_self (cl_userl c)))
               then ring_stopped c else c)
      | _ \<Rightarrow> (OK, c))"

section \<open>Messages of the server\<close>

text \<open>A description of a session of the server: its address is kept where none is known.\<close>

definition sft_setup :: "econn_setup \<Rightarrow> ccall \<Rightarrow> ccall" where
  "sft_setup su c =
     (case su_url su of
        None \<Rightarrow> c
      | Some url \<Rightarrow>
          (case copy_sft (Some url) of
             None \<Rightarrow> if cl_sft_url c = None \<or> cl_primary_sft_url c = None then cl_fail c else c
           | Some addr \<Rightarrow>
               (let c = (if cl_sft_url c = None then c\<lparr>cl_sft_url := Some addr\<rparr> else c)
                in if cl_primary_sft_url c = None
                   then c\<lparr>cl_primary_sft_url := Some addr, cl_sft_tuple := su_sft_tuple su\<rparr> else c)))"

text \<open>
  The connection gets the message and is created if there is none. The log line after that reads
  the address of a session description whatever the type of the message.
\<close>

definition sft_to_ecall :: "cl_env \<Rightarrow> econn_message \<Rightarrow> ccall \<Rightarrow> err \<times> ccall" where
  "sft_to_ecall env msg c =
     (let userid_peer = (if re_isset (ve_re env) (Some (em_src_userid msg)) then em_src_userid msg else ''SFT'');
          c = (if cl_ecall c = None
               then let c = snd (create_ecall env c)
                    in (case u_setup (em_u msg) of Some _ \<Rightarrow> c | None \<Rightarrow> cl_fail c)
               else c)
      in ecall_do env (EcMsgRecv userid_peer ''SFT'' msg) c)"

definition ccall_sft_msg_recv :: "cl_env \<Rightarrow> int \<Rightarrow> econn_message option \<Rightarrow> ccall \<Rightarrow> err \<times> ccall" where
  "ccall_sft_msg_recv env status msg_opt c =
     (if status \<noteq> 0 \<and> status = SFT_STATUS_NETWORK_ERROR then (OK, ccall_end_with_err env ENOSYS c)
      else case msg_opt of
        None \<Rightarrow> (OK, if cl_state c = CCALL_STATE_CONNSENT then set_state env CCALL_STATE_WAITNETWORK c else c)
      | Some msg \<Rightarrow>
          if cl_convid_hash c \<noteq> None \<and> \<not> ue_caseeq (ve_ul env) (cl_convid_hash c) (Some (em_sessid_sender msg))
          then (OK, c)
          else if em_msg_type msg = Some ECONN_CONF_CONN
          then (OK, case u_confconn (em_u msg) of
                      Some cc \<Rightarrow>
                        if cc_status cc \<in> {ECONN_CONFCONN_REJECTED_BLACKLIST, ECONN_CONFCONN_REJECTED_AUTH_INVALID,
                             ECONN_CONFCONN_REJECTED_AUTH_LIMIT, ECONN_CONFCONN_REJECTED_AUTH_EXPIRED,
                             ECONN_CONFCONN_REJECTED_AUTH_CANTSTART}
                        then start_tmr Tmr_sft_reject 1 (c\<lparr>cl_confconn_status := cc_status cc\<rparr>)
                        else c
                    | None \<Rightarrow> cl_fail c)
          else if em_msg_type msg \<in> {Some ECONN_SETUP, Some ECONN_UPDATE}
          then if cl_state c \<noteq> CCALL_STATE_CONNSENT then (OK, c)
               else let c = set_state env CCALL_STATE_SETUPRECV c
                    in if em_msg_type msg = Some ECONN_SETUP
                       then case u_setup (em_u msg) of
                              Some su \<Rightarrow> sft_to_ecall env msg (sft_setup su c)
                            | None \<Rightarrow> (OK, cl_fail c)
                       else sft_to_ecall env msg c
          else sft_to_ecall env msg c)"

section \<open>Events\<close>

datatype cl_event =
    EvSetConfig
  | EvAddTurn zapi_ice_server
  | EvStart icall_call_type bool bool
  | EvAnswer icall_call_type bool
  | EvEnd | EvReject | EvMediaStart | EvMediaStop
  | EvSetVstate icall_vstate
  | EvQualityInterval u64
  | EvSetClients "icall_client list" u32
  | EvMuteState
  | EvRequestStreams "icall_client list"
  | EvSetMediaKey u32 bytes
  | EvBackground bool
  | EvActivate bool
  | EvDuration int
  | EvRestart
  | EvMsg "string option" "string option" econn_message
  | EvSft int "econn_message option"
  | EvCfg nat
  | EvTimer cl_timer
  | EvEcSetup | EvDatachan
  | EvMediaEstab nat string string bool
  | EvAudioEstab string string bool
  | EvAulevel "audio_level list"
  | EvClose nat err "icall_metrics option" u32
  | EvQuality string string stats_report icall_conv_type
  | EvTransp econn_message
  | EvPing
  | EvPropsync econn_message
  | EvConfmsg nat econn_message

text \<open>The expiry of a timer; nothing starts \<open>Tmr_call\<close>.\<close>

fun cl_timeout :: "cl_env \<Rightarrow> cl_timer \<Rightarrow> ccall \<Rightarrow> ccall" where
  "cl_timeout env Tmr_connect c = ccall_connect_timeout env c"
| "cl_timeout env Tmr_call c = c"
| "cl_timeout env Tmr_send_check c = ccall_send_check_timeout env c"
| "cl_timeout env Tmr_ongoing c = ccall_ongoing_call_timeout env c"
| "cl_timeout env Tmr_rotate_key c = ccall_rotate_key_timeout env c"
| "cl_timeout env Tmr_rotate_mls c = ccall_rotate_mls_timeout env c"
| "cl_timeout env Tmr_ring c = ccall_stop_ringing_timeout c"
| "cl_timeout env Tmr_sft_reject c = ccall_sft_reject_timeout env c"
| "cl_timeout env Tmr_vstate c = ccall_sync_vstate_timeout env c"
| "cl_timeout env Tmr_decrypt_check c = ccall_decrypt_check_timeout env c"
| "cl_timeout env Tmr_keepalive c = ccall_keepalive_timeout env c"
| "cl_timeout env Tmr_alone c = ccall_alone_timeout env c"
| "cl_timeout env Tmr_duration c = duration_timeout_handler env c"
| "cl_timeout env Tmr_meeting_term c = durterm_timeout_handler env c"

fun cl_do :: "cl_env \<Rightarrow> ccall \<Rightarrow> cl_event \<Rightarrow> ccall" where
  "cl_do env c EvSetConfig = snd (ccall_set_config c)"
| "cl_do env c (EvAddTurn srv) = snd (ccall_add_turnserver (Some srv) c)"
| "cl_do env c (EvStart t cbr meeting) = snd (ccall_start env t cbr meeting c)"
| "cl_do env c (EvAnswer t cbr) = snd (ccall_answer env t cbr c)"
| "cl_do env c EvEnd = ccall_end env c"
| "cl_do env c EvReject = ccall_reject env c"
| "cl_do env c EvMediaStart = snd (ccall_media_start env c)"
| "cl_do env c EvMediaStop = ccall_media_stop env c"
| "cl_do env c (EvSetVstate v) = snd (ccall_set_vstate env v c)"
| "cl_do env c (EvQualityInterval i) = snd (ccall_set_quality_interval env i c)"
| "cl_do env c (EvSetClients cls epoch) = ccall_set_clients env cls epoch c"
| "cl_do env c EvMuteState = snd (ccall_update_mute_state env c)"
| "cl_do env c (EvRequestStreams cls) = snd (ccall_request_video_streams env cls c)"
| "cl_do env c (EvSetMediaKey epoch key) = snd (ccall_set_media_key env epoch key c)"
| "cl_do env c (EvBackground b) = snd (ccall_set_background b c)"
| "cl_do env c (EvActivate b) = snd (ccall_activate env b c)"
| "cl_do env c (EvDuration d) = ccall_set_duration d c"
| "cl_do env c EvRestart = snd (ccall_restart env c)"
| "cl_do env c (EvMsg u cid msg) = snd (ccall_msg_recv env u cid msg c)"
| "cl_do env c (EvSft status msg) = snd (ccall_sft_msg_recv env status msg c)"
| "cl_do env c (EvCfg je) = config_update_handler env je c"
| "cl_do env c (EvTimer t) = (if cl_tmr c t = None then c else cl_timeout env t (cancel_tmrs [t] c))"
| "cl_do env c EvEcSetup = ecall_setup_handler env c"
| "cl_do env c EvDatachan = ecall_datachan_estab_handler env c"
| "cl_do env c (EvMediaEstab ec u cid b) = ecall_media_estab_handler env ec u cid b c"
| "cl_do env c (EvAudioEstab u cid b) = ecall_audio_estab_handler u cid b c"
| "cl_do env c (EvAulevel levell) = ecall_aulevel_handler env levell c"
| "cl_do env c (EvClose ec e m t) = ecall_close_handler env ec e m t c"
| "cl_do env c (EvQuality u cid stats peer) = ecall_quality_handler u cid stats peer c"
| "cl_do env c (EvTransp msg) = snd (ecall_transp_send_handler env msg c)"
| "cl_do env c EvPing = ecall_ping_handler env c"
| "cl_do env c (EvPropsync msg) = snd (ecall_propsync_handler env msg c)"
| "cl_do env c (EvConfmsg ec msg) = ecall_confmsg_handler env ec msg c"

definition cl_step :: "ccall \<Rightarrow> cl_env \<times> cl_event \<Rightarrow> ccall option" where
  "cl_step c ev = (let c' = cl_do (fst ev) c (snd ev) in if cl_ub c' then None else Some c')"

end
