(* ===== verification/Ccall_Inv.thy ===== *)
theory Ccall_Inv
  imports Ccall
begin

text \<open>
  The invariant of a conference and its preservation by every event. The invariants of the key
  store (\<open>ks_inv\<close>) and of the list of members (\<open>ul_inv\<close>) are parts of it, and their steps are used
  through the machines of those components (\<open>ksm\<close>, \<open>ulm\<close>); the conference itself is a third machine (\<open>clm\<close>).
\<close>

section \<open>The invariant\<close>

text \<open>
  Session keys go to named clients, never to everyone, and never in a call whose keys come from MLS.
\<close>

definition is_confkey :: "econn_message \<Rightarrow> bool" where
  "is_confkey msg \<longleftrightarrow> em_msg_type msg = Some ECONN_CONF_KEY"

fun act_ok :: "bool \<Rightarrow> cl_act \<Rightarrow> bool" where
  "act_ok mls (Sendh _ msg targets _) =
     (is_confkey msg \<longrightarrow> \<not> mls \<and> (case targets of None \<Rightarrow> False | Some ts \<Rightarrow> ts \<noteq> []))"
| "act_ok mls _ = True"

definition cl_ok :: "ccall \<Rightarrow> bool" where
  "cl_ok c \<longleftrightarrow> \<not> cl_ub c \<and> ks_inv (cl_keystore c) \<and> ul_inv (cl_userl c) \<and> cl_convid_hash c \<noteq> None \<and>
     cl_sft_url c \<noteq> Some [] \<and> cl_primary_sft_url c \<noteq> Some [] \<and> [] \<notin> set (cl_sftl c) \<and>
     0 \<le> cl_meeting_duration c \<and> int_ok (cl_meeting_duration c) \<and>
     list_all (act_ok (cl_is_mls_call c)) (cl_trace c)"

text \<open>
  The states in which the conference waits for the configuration, the network or the server: each
  of them is left by the connection timer at the latest.
\<close>

definition cl_waiting :: "ccall_state set" where
  "cl_waiting = {CCALL_STATE_WAITCONFIG, CCALL_STATE_WAITCONFIG_OUTGOING, CCALL_STATE_CONNSENT,
              CCALL_STATE_WAITNETWORK, CCALL_STATE_SETUPRECV}"

definition cl_live :: "ccall \<Rightarrow> bool" where
  "cl_live c \<longleftrightarrow> (cl_state c \<in> cl_waiting \<longrightarrow> cl_tmr c Tmr_connect = Some CCALL_CONNECT_TIMEOUT)"

definition cl_inv :: "ccall \<Rightarrow> bool" where
  "cl_inv c \<longleftrightarrow> cl_ok c \<and> cl_live c"

text \<open>What is relied on from outside.\<close>

definition cfg_urls_ok :: "config \<Rightarrow> bool" where
  "cfg_urls_ok cfg \<longleftrightarrow>
     list_all (\<lambda>s. ice_url s \<noteq> []) (case cfg_sftserverv (cf_config cfg) of Some v \<Rightarrow> v | None \<Rightarrow> []) \<and>
     list_all (\<lambda>s. ice_url s \<noteq> []) (case cfg_sftservers_allv (cf_config cfg) of Some v \<Rightarrow> v | None \<Rightarrow> []) \<and>
     counts_ok (cf_config cfg)"

definition cl_env_ok :: "cl_env \<Rightarrow> bool" where
  "cl_env_ok env \<longleftrightarrow> list_sort_ok (env_sort (ve_ks env)) \<and> ul_env_ok (ve_ul env) \<and>
     (\<forall>ps. fst (ue_sha256 (ve_ul env) ps) = OK) \<and> CCALL_MLS_KEY_AGE < now env \<and>
     (\<forall>n. length (ve_rand env n) = n) \<and> cfg_urls_ok (ve_cfg env) \<and>
     (\<forall>d s. s \<noteq> [] \<longrightarrow> re_ncpy (ve_re env) d (Some s) 256 \<noteq> [])"

subsection \<open>Fields\<close>

lemmas prim_defs = cl_act_def cl_fail_def start_tmr_def cancel_tmrs_def with_ul_def with_ks_def

lemma prim_fields [simp]:
  "cl_state (cl_act a c) = cl_state c" "cl_state (start_tmr t d c) = cl_state c"
  "cl_state (cancel_tmrs ts c) = cl_state c" "cl_state (with_ul f c) = cl_state c" "cl_state (with_ks g c) = cl_state c"
  "cl_tmr (cl_act a c) = cl_tmr c" "cl_tmr (with_ul f c) = cl_tmr c" "cl_tmr (with_ks g c) = cl_tmr c"
  "cl_ecall (cl_act a c) = cl_ecall c" "cl_ecall (start_tmr t d c) = cl_ecall c"
  "cl_ecall (cancel_tmrs ts c) = cl_ecall c" "cl_ecall (with_ul f c) = cl_ecall c" "cl_ecall (with_ks g c) = cl_ecall c"
  "cl_keystore (cl_act a c) = cl_keystore c" "cl_keystore (start_tmr t d c) = cl_keystore c"
  "cl_keystore (cancel_tmrs ts c) = cl_keystore c" "cl_keystore (with_ul f c) = cl_keystore c"
  "cl_userl (cl_act a c) = cl_userl c" "cl_userl (start_tmr t d c) = cl_userl c"
  "cl_userl (cancel_tmrs ts c) = cl_userl c" "cl_userl (with_ks g c) = cl_userl c"
  by (simp_all add: prim_defs)

lemma cl_inv_fields [simp]:
  "cl_inv (c\<lparr>cl_turnv := x1\<rparr>) = cl_inv c" "cl_inv (c\<lparr>cl_confpart_data := x3\<rparr>) = cl_inv c"
  "cl_inv (c\<lparr>cl_saved_partl := x4\<rparr>) = cl_inv c" "cl_inv (c\<lparr>cl_sft_tuple := x5\<rparr>) = cl_inv c"
  "cl_inv (c\<lparr>cl_sft_timestamp := x7\<rparr>) = cl_inv c" "cl_inv (c\<lparr>cl_sft_seqno := x8\<rparr>) = cl_inv c"
  "cl_inv (c\<lparr>cl_ecall := x9\<rparr>) = cl_inv c" "cl_inv (c\<lparr>cl_is_caller := x10\<rparr>) = cl_inv c"
  "cl_inv (c\<lparr>cl_is_ringing := x11\<rparr>) = cl_inv c" "cl_inv (c\<lparr>cl_stop_ringing_reason := x12\<rparr>) = cl_inv c"
  "cl_inv (c\<lparr>cl_call_type := x13\<rparr>) = cl_inv c" "cl_inv (c\<lparr>cl_vstate := x14\<rparr>) = cl_inv c"
  "cl_inv (c\<lparr>cl_someone_joined := x15\<rparr>) = cl_inv c" "cl_inv (c\<lparr>cl_someone_left := x16\<rparr>) = cl_inv c"
  "cl_inv (c\<lparr>cl_became_kg := x17\<rparr>) = cl_inv c" "cl_inv (c\<lparr>cl_request_key := x18\<rparr>) = cl_inv c"
  "cl_inv (c\<lparr>cl_reconnect_attempts := x19\<rparr>) = cl_inv c" "cl_inv (c\<lparr>cl_expected_ping := x20\<rparr>) = cl_inv c"
  "cl_inv (c\<lparr>cl_last_ping := x21\<rparr>) = cl_inv c" "cl_inv (c\<lparr>cl_received_confpart := x22\<rparr>) = cl_inv c"
  "cl_inv (c\<lparr>cl_error := x23\<rparr>) = cl_inv c" "cl_inv (c\<lparr>cl_epoch_start_ts := x24\<rparr>) = cl_inv c"
  "cl_inv (c\<lparr>cl_je := x25\<rparr>) = cl_inv c" "cl_inv (c\<lparr>cl_has_cfg := x26\<rparr>) = cl_inv c"
  "cl_inv (c\<lparr>cl_quality_interval := x27\<rparr>) = cl_inv c" "cl_inv (c\<lparr>cl_confconn_status := x28\<rparr>) = cl_inv c"
  "cl_inv (c\<lparr>cl_ts_start := x29\<rparr>) = cl_inv c" "cl_inv (c\<lparr>cl_metrics := x30\<rparr>) = cl_inv c"
  "cl_inv (c\<lparr>cl_inc_reconnects := x31\<rparr>) = cl_inv c" "cl_inv (c\<lparr>cl_videol := x32\<rparr>) = cl_inv c"
  "cl_inv (c\<lparr>cl_meeting_is_set := x33\<rparr>) = cl_inv c" "cl_inv (c\<lparr>cl_meeting_start_duration := x34\<rparr>) = cl_inv c"
  "cl_inv (c\<lparr>cl_next_ecall := x35\<rparr>) = cl_inv c" "cl_inv (c\<lparr>cl_next_je := x36\<rparr>) = cl_inv c"
  by (simp_all add: cl_inv_def cl_ok_def cl_live_def)

lemma cl_inv_prims [simp]:
  "t \<noteq> Tmr_connect \<Longrightarrow> cl_inv (start_tmr t d c) = cl_inv c"
  "Tmr_connect \<notin> set ts \<Longrightarrow> cl_inv (cancel_tmrs ts c) = cl_inv c"
  "cl_inv (cl_act a c) \<longleftrightarrow> act_ok (cl_is_mls_call c) a \<and> cl_inv c"
  by (auto simp: prim_defs cl_inv_def cl_ok_def cl_live_def)

lemma cl_invD:
  assumes "cl_inv c"
  shows "\<not> cl_ub c" "ks_inv (cl_keystore c)" "ul_inv (cl_userl c)" "cl_convid_hash c \<noteq> None"
    "cl_sft_url c \<noteq> Some []" "cl_primary_sft_url c \<noteq> Some []" "[] \<notin> set (cl_sftl c)"
    "0 \<le> cl_meeting_duration c" "int_ok (cl_meeting_duration c)"
  using assms by (simp_all add: cl_inv_def cl_ok_def)

lemma cl_inv_userl: "cl_inv c \<Longrightarrow> ul_inv ul \<Longrightarrow> cl_inv (c\<lparr>cl_userl := ul\<rparr>)"
  by (simp add: cl_inv_def cl_ok_def cl_live_def)

lemma cl_inv_keystore: "cl_inv c \<Longrightarrow> ks_inv ks \<Longrightarrow> cl_inv (c\<lparr>cl_keystore := ks\<rparr>)"
  by (simp add: cl_inv_def cl_ok_def cl_live_def)

lemma cl_inv_sftl: "cl_inv c \<Longrightarrow> [] \<notin> set urls \<Longrightarrow> cl_inv (c\<lparr>cl_sftl := urls\<rparr>)"
  by (simp add: cl_inv_def cl_ok_def cl_live_def)

lemma cl_inv_urls:
  "cl_inv c \<Longrightarrow> url \<noteq> Some [] \<Longrightarrow> cl_inv (c\<lparr>cl_sft_url := url\<rparr>)"
  "cl_inv c \<Longrightarrow> url \<noteq> Some [] \<Longrightarrow> cl_inv (c\<lparr>cl_primary_sft_url := url\<rparr>)"
  by (simp_all add: cl_inv_def cl_ok_def cl_live_def)

lemma cl_env_okD:
  assumes "cl_env_ok env"
  shows "list_sort_ok (env_sort (ve_ks env))" "ul_env_ok (ve_ul env)" "fst (ue_sha256 (ve_ul env) ps) = OK"
    "CCALL_MLS_KEY_AGE < now env" "length (ve_rand env n) = n" "cfg_urls_ok (ve_cfg env)"
    "s \<noteq> [] \<Longrightarrow> re_ncpy (ve_re env) d (Some s) 256 \<noteq> []"
  using assms by (simp_all add: cl_env_ok_def)

subsection \<open>The components\<close>

text \<open>Each step of the list and of the key store keeps the invariant of the conference.\<close>

lemma with_ul_inv:
  assumes "cl_inv c" and "ul_env_ok env" and "\<And>ul. ul_do env ul op = Some (f ul)"
  shows "cl_inv (with_ul f c)"
proof -
  have "ul_guard (cl_userl c) (env, op)" using assms(2) by (simp add: ul_guard_def)
  from ulm.inv_step [OF cl_invD(3) [OF assms(1)] this] have "ul_inv (f (cl_userl c))"
    using assms(3) by (simp add: ul_step_def)
  then show ?thesis using cl_inv_userl [OF assms(1)] by (simp add: with_ul_def)
qed

lemma with_ul_ops:
  assumes "cl_inv c"
  shows "cl_inv (with_ul userlist_reset_keygenerator c)" "cl_inv (with_ul (\<lambda>ul. userlist_incall_clear ul b b') c)"
    "cl_inv (with_ul (\<lambda>ul. snd (userlist_set_latest_epoch ul epoch)) c)"
proof -
  have "cl_inv (with_ul f c)" if "\<And>ul. ul_inv ul \<Longrightarrow> ul_inv (f ul)" for f
    using cl_inv_userl [OF assms that [OF cl_invD(3) [OF assms]]] by (simp add: with_ul_def)
  note w = this
  show "cl_inv (with_ul userlist_reset_keygenerator c)"
    by (rule w) (erule ul_inv_cong, simp_all add: userlist_reset_keygenerator_def)
  show "cl_inv (with_ul (\<lambda>ul. userlist_incall_clear ul b b') c)"
    by (rule w) (erule ul_inv_cong, simp_all add: userlist_incall_clear_def Let_def comp_def)
  show "cl_inv (with_ul (\<lambda>ul. snd (userlist_set_latest_epoch ul epoch)) c)"
    by (rule w) (erule ul_inv_cong, simp_all add: userlist_set_latest_epoch_def)
qed

lemma upd_user_inv:
  assumes "cl_inv c" and "\<And>u. ui_addr (f u) = ui_addr u"
  shows "cl_inv (with_ul (\<lambda>ul. ul\<lparr>ul_users := upd_user a f (ul_users ul)\<rparr>) c)"
proof -
  have "ul_inv ((cl_userl c)\<lparr>ul_users := upd_user a f (ul_users (cl_userl c))\<rparr>)"
    using cl_invD(3) [OF assms(1)] by (rule ul_inv_cong) (simp_all add: assms(2))
  then show ?thesis using cl_inv_userl [OF assms(1)] by (simp add: with_ul_def)
qed

lemma with_ks_inv:
  assumes "cl_inv c" and "list_sort_ok (env_sort env)" and "op \<noteq> OpRotate"
    and "\<And>ks. ks_step ks (env, op) = Some (snd (f ks))"
  shows "cl_inv (with_ks f c)"
proof -
  have "ks_guard (cl_keystore c) (env, op)" using assms(2,3) by (simp add: ks_guard_def)
  from ksm.inv_step [OF cl_invD(2) [OF assms(1)] this] have "ks_inv (snd (f (cl_keystore c)))"
    using assms(4) by simp
  then show ?thesis using cl_inv_keystore [OF assms(1)] by (simp add: with_ks_def)
qed

lemma ks_do_inv:
  assumes "cl_inv c" and "list_sort_ok (env_sort env)"
    and "op = OpRotate \<Longrightarrow> \<forall>k \<in> set (ks_keyl (cl_keystore c)). ki_index k \<noteq> 0xffffffff"
    and "\<And>ks. ks_step ks (env, op) = map_option snd (f ks)"
  shows "cl_inv (snd (ks_do f dflt c))"
proof -
  have "ks_guard (cl_keystore c) (env, op)" using assms(2,3) by (simp add: ks_guard_def)
  from ksm.inv_step [OF cl_invD(2) [OF assms(1)] this] obtain r ks where
    "f (cl_keystore c) = Some (r, ks)" "ks_inv ks"
    using assms(4) by (metis map_option_eq_Some prod.collapse)
  then show ?thesis using cl_inv_keystore [OF assms(1)] by (simp add: ks_do_def)
qed

subsection \<open>States and calls\<close>

lemma reset_ks_inv:
  assumes "ks_inv ks"
  shows "ks_inv (snd (keystore_reset ks))" "ks_inv (snd (keystore_reset_keys ks))"
  using assms by (simp_all add: keystore_reset_def keystore_reset_keys_def ks_inv_def keys_wf_def cur_ok_def)

lemma reset_kg_inv: "ul_inv ul \<Longrightarrow> ul_inv (userlist_reset_keygenerator ul)"
  by (erule ul_inv_cong) (simp_all add: userlist_reset_keygenerator_def)

declare enter_state.simps [simp del]

lemma enter_state_ok:
  assumes "cl_ok c"
  shows "cl_ok (enter_state s c)"
  using assms reset_ks_inv reset_kg_inv
  by (cases s) (auto simp: enter_state.simps cl_ok_def prim_defs enter_waitconfig_def Let_def)

lemma enter_state_state [simp]: "cl_state (enter_state s c) = cl_state c"
  by (cases s) (simp_all add: enter_state.simps enter_waitconfig_def Let_def)

lemma enter_state_live:
  assumes "s \<in> cl_waiting" and "s \<notin> {CCALL_STATE_WAITNETWORK, CCALL_STATE_SETUPRECV}"
  shows "cl_tmr (enter_state s c) Tmr_connect = Some CCALL_CONNECT_TIMEOUT"
  using assms by (cases s) (simp_all add: enter_state.simps cl_waiting_def prim_defs enter_waitconfig_def Let_def)

lemma act_group_ok: "cl_ok c \<Longrightarrow> cl_ok (cl_act Group_changedh c)"
  by (simp add: cl_ok_def cl_act_def)

lemma set_state_ok:
  assumes "cl_ok c"
  shows "cl_ok (set_state env s c)"
proof -
  have "cl_ok (enter_state s (c\<lparr>cl_state := s, cl_ts_start := t\<rparr>))" for t
    using assms by (intro enter_state_ok) (simp add: cl_ok_def)
  then show ?thesis by (simp add: set_state_def Let_def act_group_ok)
qed

lemma set_state_state [simp]: "cl_state (set_state env s c) = s"
  by (simp add: set_state_def Let_def)

lemma set_state_live:
  assumes "s \<notin> {CCALL_STATE_WAITNETWORK, CCALL_STATE_SETUPRECV}"
  shows "cl_live (set_state env s c)"
proof (cases "s \<in> cl_waiting")
  case True
  then have "cl_tmr (set_state env s c) Tmr_connect = Some CCALL_CONNECT_TIMEOUT"
    using enter_state_live [OF True assms] by (simp add: set_state_def Let_def)
  then show ?thesis by (simp add: cl_live_def)
qed (simp add: cl_live_def)

lemma set_state_inv:
  assumes "cl_ok c" and "s \<notin> {CCALL_STATE_WAITNETWORK, CCALL_STATE_SETUPRECV}"
  shows "cl_inv (set_state env s c)"
  using set_state_ok [OF assms(1)] set_state_live [OF assms(2)] by (simp add: cl_inv_def)

lemma set_state_wait:
  assumes "cl_inv c" and "cl_state c \<in> cl_waiting" and "s \<in> {CCALL_STATE_WAITNETWORK, CCALL_STATE_SETUPRECV}"
  shows "cl_inv (set_state env s c)"
proof -
  have "cl_tmr (set_state env s c) = cl_tmr c"
    using assms(3) by (auto simp: set_state_def Let_def enter_state.simps)
  then have "cl_live (set_state env s c)" using assms(1,2) by (simp add: cl_live_def cl_inv_def)
  then show ?thesis using set_state_ok assms(1) by (simp add: cl_inv_def)
qed

lemma cl_inv_ok: "cl_inv c \<Longrightarrow> cl_ok c"
  by (simp add: cl_inv_def)

lemma set_state_simple [simp]:
  "cl_inv c \<Longrightarrow> s \<notin> {CCALL_STATE_WAITNETWORK, CCALL_STATE_SETUPRECV} \<Longrightarrow> cl_inv (set_state env s c)"
  by (rule set_state_inv [OF cl_inv_ok])

lemma ecall_do_inv [simp]: "cl_inv c \<Longrightarrow> cl_inv (snd (ecall_do env call c))"
  by (simp add: ecall_do_def split: option.split)

lemma ecall_do_fields [simp]:
  "cl_state (snd (ecall_do env call c)) = cl_state c" "cl_ecall (snd (ecall_do env call c)) = cl_ecall c"
  "cl_tmr (snd (ecall_do env call c)) = cl_tmr c" "cl_userl (snd (ecall_do env call c)) = cl_userl c"
  "cl_keystore (snd (ecall_do env call c)) = cl_keystore c"
  by (simp_all add: ecall_do_def split: option.split)

subsection \<open>Messages\<close>

lemma current_deref:
  assumes "ks_inv ks" and "ks_current ks = Some a"
  shows "deref ks a \<noteq> None"
proof -
  have "ks_keyl ks \<noteq> []" using assms by (auto simp: ks_inv_def cur_ok_def)
  from ks_inv_current [OF assms(1) this] obtain c cur where "ks_current ks = Some c" "deref ks c = Some cur" by blast
  then show ?thesis using assms(2) by simp
qed

lemma message_keys_Some:
  assumes "ks_inv ks"
  shows "message_keys ks \<noteq> None"
  using current_deref [OF assms]
  by (cases "ks_current ks")
     (auto simp: message_keys_def keystore_get_current_session_key_def keystore_get_next_session_key_def
           split: option.splits)

lemma alloc_message_res:
  assumes "cl_inv c"
  shows "(\<exists>m. alloc_message env c type resp su sc du dc tr = Some (OK, Some m) \<and> em_msg_type m = Some type \<and>
              (type = ECONN_CONF_KEY \<longrightarrow> \<not> cl_is_mls_call c)) \<or>
         (\<exists>e. alloc_message env c type resp su sc du dc tr = Some (e, None) \<and> e \<noteq> OK)"
  using message_keys_Some [OF cl_invD(2) [OF assms]]
  by (cases type)
     (auto simp: alloc_message_def message_head_def Let_def message_start_def
           split: option.splits prod.splits err.splits, (metis (full_types))+)

lemma send_msg_i_inv:
  assumes "cl_inv c" and "type = ECONN_CONF_KEY \<Longrightarrow> case targets of None \<Rightarrow> False | Some ts \<Rightarrow> ts \<noteq> []"
  shows "cl_inv (snd (ccall_send_msg_i env type resp targets tr mine c))"
proof -
  let ?self = "userlist_get_self (cl_userl c)"
  consider (msg) m where
      "alloc_message env c type resp (ui_userid_real ?self) (ui_clientid_real ?self) None None tr = Some (OK, Some m)"
      "em_msg_type m = Some type" "type = ECONN_CONF_KEY \<Longrightarrow> \<not> cl_is_mls_call c"
    | (err) e where
      "alloc_message env c type resp (ui_userid_real ?self) (ui_clientid_real ?self) None None tr = Some (e, None)" "e \<noteq> OK"
    using alloc_message_res [OF assms(1)] by metis
  then show ?thesis
  proof cases
    case (msg m)
    then show ?thesis using assms by (auto simp: ccall_send_msg_i_def is_confkey_def)
  next
    case (err e)
    then show ?thesis using assms(1) by (cases e) (simp_all add: ccall_send_msg_i_def)
  qed
qed

lemma send_msg_inv [simp]:
  "cl_inv c \<Longrightarrow> type \<noteq> ECONN_CONF_KEY \<Longrightarrow> cl_inv (snd (ccall_send_msg env type resp targets tr c))"
  "cl_inv c \<Longrightarrow> ts \<noteq> [] \<Longrightarrow> cl_inv (snd (ccall_send_msg env type resp (Some ts) tr c))"
  unfolding ccall_send_msg_def by (rule send_msg_i_inv; simp)+

lemma send_msg_sft_inv:
  assumes "cl_inv c"
  shows "cl_inv (snd (ccall_send_msg_sft env url msg c))"
  using assms cl_invD(4) [OF assms] by (auto simp: ccall_send_msg_sft_def Let_def split: option.splits)

lemma copy_sft_Some: "url \<noteq> None \<Longrightarrow> url \<noteq> Some [] \<Longrightarrow> \<exists>s. copy_sft url = Some s \<and> s \<noteq> []"
  by (auto simp: copy_sft_def split: option.split)

lemma send_conf_conn_inv:
  assumes "cl_inv c" and "url \<noteq> Some []"
  shows "cl_inv (snd (ccall_send_conf_conn env url un cr upd c))"
proof (cases url)
  case (Some u)
  let ?self = "userlist_get_self (cl_userl c)"
  obtain s where s: "copy_sft url = Some s" using copy_sft_Some assms(2) Some by blast
  consider (msg) m where
      "alloc_message env c ECONN_CONF_CONN False (ui_userid_hash ?self) (ui_clientid_hash ?self) (Some ''SFT'') (Some ''_'')
         False = Some (OK, Some m)"
    | (err) e where
      "alloc_message env c ECONN_CONF_CONN False (ui_userid_hash ?self) (ui_clientid_hash ?self) (Some ''SFT'') (Some ''_'')
         False = Some (e, None)" "e \<noteq> OK"
    using alloc_message_res [OF assms(1)] by metis
  then show ?thesis
  proof cases
    case (msg m)
    then show ?thesis using assms(1) Some s by (simp add: ccall_send_conf_conn_def Let_def send_msg_sft_inv)
  next
    case (err e)
    then show ?thesis using assms(1) Some s by (cases e) (simp_all add: ccall_send_conf_conn_def Let_def)
  qed
qed (use assms in \<open>simp add: ccall_send_conf_conn_def\<close>)

lemma and_then_Some: "r \<noteq> None \<Longrightarrow> (\<And>j. f j \<noteq> None) \<Longrightarrow> and_then r f \<noteq> None"
  by (auto simp: and_then_def split: option.splits prod.splits if_splits)

lemma encode_Some:
  assumes "\<And>j. encode_union re msg j \<noteq> None"
  shows "econn_message_encode re msg \<noteq> None"
proof -
  have "jzon_creatf re ''sss'' [VaStr (Some a), VaStr (Some b), VaStr (Some a1), VaStr (Some b1),
      VaStr (Some a2), VaStr (Some b2)] \<noteq> None" for a b a1 b1 a2 b2
    by (simp add: jzon_creatf_def)
  moreover have "and_then (Some r) (encode_union re msg) \<noteq> None" for r
    by (rule and_then_Some) (simp_all add: assms)
  ultimately show ?thesis
    unfolding econn_message_encode_def
    by (simp split: option.split prod.split err.split) (metis option.distinct(1))
qed

lemma send_datachan_inv:
  assumes "cl_inv c" and "\<And>j. encode_union (ve_re env) msg j \<noteq> None"
  shows "cl_inv (snd (send_datachan env msg c))"
  using assms(1) encode_Some [OF assms(2)]
  by (auto simp: send_datachan_def split: option.splits prod.splits err.splits)

lemma send_confpart_response_inv [simp]:
  assumes "cl_inv c"
  shows "cl_inv (snd (send_confpart_response env c))"
proof -
  let ?self = "userlist_get_self (cl_userl c)"
  consider (msg) m where
      "alloc_message env c ECONN_CONF_PART True (ui_userid_hash ?self) (ui_clientid_hash ?self) (Some ''SFT'') (Some ''SFT'')
         False = Some (OK, Some m)" "em_msg_type m = Some ECONN_CONF_PART"
    | (err) e where
      "alloc_message env c ECONN_CONF_PART True (ui_userid_hash ?self) (ui_clientid_hash ?self) (Some ''SFT'') (Some ''SFT'')
         False = Some (e, None)" "e \<noteq> OK"
    using alloc_message_res [OF assms] by metis
  then show ?thesis
  proof cases
    case (msg m)
    have "cl_inv (snd (send_datachan env (m\<lparr>em_u := U_confpart p\<rparr>) c))" for p
      by (rule send_datachan_inv [OF assms]) (simp add: encode_union_def Let_def msg(2) u_confpart_def)
    then show ?thesis using msg by (simp add: send_confpart_response_def Let_def userlist_get_partlist_def)
  next
    case (err e)
    then show ?thesis using assms by (cases e) (simp_all add: send_confpart_response_def Let_def)
  qed
qed

lemma request_video_streams_inv:
  assumes "cl_inv c"
  shows "cl_inv (snd (ccall_request_video_streams env clientl c))"
proof (cases "clientl = []")
  case False
  obtain e streaml videol where r: "streams_loop env (cl_userl c) clientl [] [] = (e, streaml, videol)"
    by (rule prod_cases3)
  have "cl_inv (snd (send_datachan env (msg\<lparr>em_u := U_confstreams streaml md\<rparr>) (c\<lparr>cl_videol := v, cl_metrics := x\<rparr>)))"
    if "em_msg_type msg = Some ECONN_CONF_STREAMS" for msg md v x
    by (rule send_datachan_inv) (simp_all add: encode_union_def Let_def that assms u_confstreams_def)
  then show ?thesis
    using False assms r by (simp add: ccall_request_video_streams_def Let_def alloc_message_def message_head_def)
qed (simp add: assms ccall_request_video_streams_def)

subsection \<open>Secrets and the end\<close>

lemma hash_conv_Some:
  assumes "cl_env_ok env"
  shows "\<exists>h. hash_conv (ve_ul env) secret cid = Some (OK, Some h)"
proof -
  obtain hash where s: "ue_sha256 (ve_ul env) [secret, str_bytes cid] = (OK, hash)"
    using cl_env_okD(3) [OF assms] by (metis prod.collapse)
  then have "length hash = 32" using cl_env_okD(2) [OF assms] by (metis fst_conv snd_conv ul_env_ok_def)
  then have "hex_loop hash 16 \<noteq> None" by (intro hex_loop_Some) simp
  then show ?thesis using s by (auto simp: hash_conv_def)
qed

lemma set_secret_cl:
  assumes "cl_env_ok env" and "4 \<le> length secret" and "ul_inv (cl_userl c)"
  obtains h ul where "hash_conv (ve_ul env) secret (cl_convid_real c) = Some (OK, Some h)"
    "userlist_set_secret (ve_ul env) (cl_userl c) secret = Some (OK, ul)" "ul_inv ul"
    "ccall_set_secret env secret c =
       (let c = with_ks (\<lambda>ks. keystore_set_salt True (now env) ks (Some (bytes_of h)))
                  (c\<lparr>cl_secret := secret, cl_convid_hash := Some h, cl_userl := ul\<rparr>)
        in if cl_ecall c \<noteq> None then snd (ecall_do env (EcSetSessid (Some h)) c) else c)"
proof -
  obtain h where h: "hash_conv (ve_ul env) secret (cl_convid_real c) = Some (OK, Some h)"
    using hash_conv_Some [OF assms(1)] by blast
  moreover obtain ul where "userlist_set_secret (ve_ul env) (cl_userl c) secret = Some (OK, ul)" "ul_inv ul"
    using set_secret_inv [OF assms(3) cl_env_okD(2) [OF assms(1)]] by blast
  moreover from this have "ccall_set_secret env secret c =
       (let c = with_ks (\<lambda>ks. keystore_set_salt True (now env) ks (Some (bytes_of h)))
                  (c\<lparr>cl_secret := secret, cl_convid_hash := Some h, cl_userl := ul\<rparr>)
        in if cl_ecall c \<noteq> None then snd (ecall_do env (EcSetSessid (Some h)) c) else c)"
    using h assms(2) by (simp add: ccall_set_secret_def Let_def with_ks_def)
  ultimately show thesis using that by blast
qed

lemma set_salt_inv: "ks_inv ks \<Longrightarrow> ks_inv (snd (keystore_set_salt True t ks s))"
  by (simp add: keystore_set_salt_def ks_inv_def split: option.split)

lemma set_secret_inv0:
  assumes "cl_inv (c\<lparr>cl_convid_hash := Some x\<rparr>)" and "cl_env_ok env" and "4 \<le> length secret"
  shows "cl_inv (ccall_set_secret env secret c)"
proof (rule set_secret_cl [OF assms(2,3)])
  show "ul_inv (cl_userl c)" using cl_invD(3) [OF assms(1)] by simp
next
  fix h ul
  assume ul: "ul_inv ul" and r: "ccall_set_secret env secret c =
       (let c = with_ks (\<lambda>ks. keystore_set_salt True (now env) ks (Some (bytes_of h)))
                  (c\<lparr>cl_secret := secret, cl_convid_hash := Some h, cl_userl := ul\<rparr>)
        in if cl_ecall c \<noteq> None then snd (ecall_do env (EcSetSessid (Some h)) c) else c)"
  have "cl_inv (with_ks (\<lambda>ks. keystore_set_salt True (now env) ks (Some (bytes_of h)))
          (c\<lparr>cl_secret := secret, cl_convid_hash := Some h, cl_userl := ul\<rparr>))"
    using assms(1) ul by (simp add: with_ks_def cl_inv_def cl_ok_def cl_live_def set_salt_inv)
  then show ?thesis by (simp add: r Let_def)
qed

lemma set_secret_inv_cl:
  assumes "cl_inv c" and "cl_env_ok env" and "4 \<le> length secret"
  shows "cl_inv (ccall_set_secret env secret c)"
  by (rule set_secret_inv0 [where x = "[]", OF _ assms(2,3)]) (use assms(1) in \<open>simp add: cl_inv_def cl_ok_def cl_live_def\<close>)

text \<open>The end of a call gives the invariant back, also after the connection timer has expired.\<close>

lemma cl_ok_prims:
  "cl_ok c \<Longrightarrow> cl_ok (cl_act (Leaveh r t) c)" "cl_ok c \<Longrightarrow> cl_ok (snd (ecall_do env call c))"
  "cl_ok c \<Longrightarrow> cl_ok (with_ul (\<lambda>ul. userlist_incall_clear ul b b') c)" "cl_ok (c\<lparr>cl_error := e\<rparr>) = cl_ok c"
proof -
  have i: "ul_inv (userlist_incall_clear ul b b')" if "ul_inv ul" for ul
    using that by (rule ul_inv_cong) (simp_all add: userlist_incall_clear_def Let_def comp_def)
  show "cl_ok c \<Longrightarrow> cl_ok (with_ul (\<lambda>ul. userlist_incall_clear ul b b') c)"
    by (simp add: cl_ok_def with_ul_def i)
qed (auto simp: cl_ok_def prim_defs ecall_do_def split: option.split)

lemma end_with_err_inv:
  assumes "cl_ok c"
  shows "cl_inv (ccall_end_with_err env e c)"
    and "cl_state (ccall_end_with_err env e c) \<in> {CCALL_STATE_IDLE, CCALL_STATE_TERMINATING}"
proof -
  define c1 where "c1 = c\<lparr>cl_error := e\<rparr>"
  define c2 where "c2 = (if cl_state c1 \<in> {CCALL_STATE_NONE, CCALL_STATE_IDLE} then set_state env CCALL_STATE_IDLE c1
               else if cl_state c1 \<in> {CCALL_STATE_CONNSENT, CCALL_STATE_INCOMING, CCALL_STATE_WAITCONFIG,
                                     CCALL_STATE_WAITCONFIG_OUTGOING, CCALL_STATE_WAITNETWORK}
               then cl_act (Leaveh (end_reason e) ECONN_MESSAGE_TIME_UNKNOWN) (set_state env CCALL_STATE_IDLE c1)
               else if cl_state c1 = CCALL_STATE_TERMINATING then c1
               else let c = set_state env CCALL_STATE_TERMINATING c1
                    in if e = EDURATION
                       then cl_act (Leaveh ICALL_REASON_DURATION ECONN_MESSAGE_TIME_UNKNOWN) c else c)"
  define c3 where "c3 = with_ul (\<lambda>ul. userlist_incall_clear ul False False) c2"
  have ok: "cl_ok c1" using assms by (simp add: c1_def cl_ok_prims)
  then have "cl_ok c2" by (auto simp: c2_def Let_def cl_ok_prims set_state_ok)
  then have "cl_ok c3" by (simp add: c3_def cl_ok_prims)
  moreover have st: "cl_state c2 \<in> {CCALL_STATE_IDLE, CCALL_STATE_TERMINATING}" by (auto simp: c2_def Let_def)
  then have "cl_state c3 \<in> {CCALL_STATE_IDLE, CCALL_STATE_TERMINATING}" by (simp add: c3_def)
  moreover have r: "ccall_end_with_err env e c =
      (if cl_ecall c3 \<noteq> None \<and> ve_has_econn env then snd (ecall_do env EcEnd c3) else set_state env CCALL_STATE_IDLE c3)"
    by (simp add: ccall_end_with_err_def c1_def c2_def c3_def Let_def cong: if_cong)
  ultimately show "cl_state (ccall_end_with_err env e c) \<in> {CCALL_STATE_IDLE, CCALL_STATE_TERMINATING}" by auto
  have "cl_inv c3" using \<open>cl_ok c3\<close> \<open>cl_state c3 \<in> _\<close> by (auto simp: cl_inv_def cl_live_def cl_waiting_def)
  then show "cl_inv (ccall_end_with_err env e c)" using r by simp
qed

lemma end_with_err_simp [simp]: "cl_inv c \<Longrightarrow> cl_inv (ccall_end_with_err env e c)"
  by (rule end_with_err_inv(1) [OF cl_inv_ok])

lemma reconnect_inv [simp]:
  assumes "cl_inv c"
  shows "cl_inv (ccall_reconnect env t notify again c)"
proof -
  define c1 where "c1 = c\<lparr>cl_reconnect_attempts := cl_reconnect_attempts c + 1, cl_expected_ping := 0, cl_last_ping := 0\<rparr>"
  define c2 where "c2 = (if notify
                    then c1\<lparr>cl_inc_reconnects := True,
                           cl_metrics := (cl_metrics c1)\<lparr>im_reconnects_attempted :=
                                            im_reconnects_attempted (cl_metrics c1) + 1\<rparr>\<rparr>
                    else c1)"
  define c3 where "c3 = set_state env CCALL_STATE_CONNSENT
                    ((with_ul (\<lambda>ul. userlist_incall_clear ul True again) c2)\<lparr>cl_videol := []\<rparr>)"
  have "cl_inv c2" using assms by (simp add: c1_def c2_def)
  then have "cl_inv c3" by (simp add: c3_def with_ul_ops)
  then have "cl_inv (snd (ccall_send_conf_conn env (cl_sft_url c3) un cr True c3))" for un cr
    by (rule send_conf_conn_inv) (simp add: cl_invD(5) [OF \<open>cl_inv c3\<close>])
  then show ?thesis
    using assms \<open>cl_inv c3\<close> unfolding ccall_reconnect_def Let_def c1_def [symmetric] c2_def [symmetric] c3_def [symmetric]
    by simp
qed

subsection \<open>Keys and timers\<close>

lemma send_check_inv [simp]: "cl_inv c \<Longrightarrow> cl_inv (ccall_send_check_timeout env c)"
  by (simp add: ccall_send_check_timeout_def Let_def)

lemma key_targets_inv: "ul_inv ul \<Longrightarrow> ul_inv (snd (snd (userlist_get_key_targets ul all)))"
  by (erule ul_inv_cong) (simp_all add: userlist_get_key_targets_def split_beta)

lemma send_keys_inv [simp]:
  assumes "cl_inv c"
  shows "cl_inv (snd (ccall_send_keys env all c))"
proof -
  obtain e targets ul where r: "userlist_get_key_targets (cl_userl c) all = (e, targets, ul)" by (rule prod_cases3)
  have "ul_inv ul" using key_targets_inv [OF cl_invD(3) [OF assms], of all] r by simp
  then have "cl_inv (c\<lparr>cl_userl := ul\<rparr>)" by (rule cl_inv_userl [OF assms])
  then show ?thesis using assms r by (auto simp: ccall_send_keys_def Let_def)
qed

lemma generate_key_inv [simp]:
  assumes "cl_inv c" and "cl_env_ok env"
  shows "cl_inv (snd (ccall_generate_session_key env first c))"
proof -
  define idx where "idx = (if first then 0
      else (keystore_get_max_key (cl_keystore c) OR 0xFFFF) + 1 + (if cl_became_kg c then 0x10000 else 0))"
  let ?f = "\<lambda>ks. keystore_set_fresh_session_key (ve_ks env) ks idx (Some (ve_rand env E2EE_SESSIONKEY_SIZE)) (confpart_salt c)"
  obtain e c' where r: "ks_do ?f OK (c\<lparr>cl_became_kg := False\<rparr>) = (e, c')" by fastforce
  have "cl_inv (snd (ks_do ?f OK (c\<lparr>cl_became_kg := False\<rparr>)))"
    by (rule ks_do_inv [of _ "ve_ks env" "OpSetFreshSessionKey idx (Some (ve_rand env E2EE_SESSIONKEY_SIZE)) (confpart_salt c)"])
       (simp_all add: assms(1) cl_env_okD [OF assms(2)])
  then have "cl_inv c'" by (simp add: r)
  then show ?thesis
    using r unfolding ccall_generate_session_key_def idx_def [symmetric] Let_def by simp
qed

lemma rotate_key_inv:
  assumes "cl_inv c" and "cl_env_ok env" and "\<forall>k \<in> set (ks_keyl (cl_keystore c)). ki_index k \<noteq> 0xffffffff"
  shows "cl_inv (ccall_rotate_key_timeout env c)"
proof -
  have "cl_inv (snd (ks_do (keystore_rotate (ve_ks env)) OK c))"
    by (rule ks_do_inv [of _ "ve_ks env" OpRotate]) (use assms in \<open>simp_all add: cl_env_okD\<close>)
  then show ?thesis using assms(1,2) by (simp add: ccall_rotate_key_timeout_def Let_def)
qed

lemma rotate_mls_inv [simp]:
  assumes "cl_inv c" and "cl_env_ok env"
  shows "cl_inv (ccall_rotate_mls_timeout env c)"
proof -
  let ?f = "\<lambda>ks. keystore_rotate_by_time (ve_ks env) ks (now env - CCALL_MLS_KEY_AGE)"
  have "cl_inv (snd (ks_do ?f False c))"
    by (rule ks_do_inv [of _ "ve_ks env" "OpRotateByTime (now env - CCALL_MLS_KEY_AGE)"])
       (simp_all add: assms cl_env_okD)
  then show ?thesis
    using assms cl_env_okD(4) [OF assms(2)]
    by (cases "ks_do ?f False c") (simp add: ccall_rotate_mls_timeout_def)
qed

lemma kg_info_Some: "ul_inv ul \<Longrightarrow> ul_keygenerator ul = Some kg \<Longrightarrow> kg_info ul kg \<noteq> None"
  unfolding kg_info_def ul_inv_def by (cases kg) (simp_all add: find_None_iff, metis imageE)

lemma request_keys_inv:
  assumes "cl_inv c" and "\<And>r. kg = Some r \<Longrightarrow> kg_info (cl_userl c) r \<noteq> None"
  shows "cl_inv (snd (ccall_request_keys env kg c))"
  using assms by (auto simp: ccall_request_keys_def split: option.splits)

lemma request_keys_current [simp]:
  "cl_inv c \<Longrightarrow> cl_inv (snd (ccall_request_keys env (userlist_get_keygenerator (cl_userl c)) c))"
  by (rule request_keys_inv) (auto simp: userlist_get_keygenerator_def dest: kg_info_Some [OF cl_invD(3)])

lemma set_vstate_inv [simp]: "cl_inv c \<Longrightarrow> cl_inv (snd (ccall_set_vstate env v c))"
  by (simp add: ccall_set_vstate_def Let_def)

lemma timeouts_inv:
  assumes "cl_inv c"
  shows "cl_inv (ccall_ongoing_call_timeout env c)" "cl_inv (ccall_stop_ringing_timeout c)"
    "cl_inv (ccall_sft_reject_timeout env c)" "cl_inv (ccall_sync_vstate_timeout env c)"
    "cl_inv (ccall_decrypt_check_timeout env c)" "cl_inv (ccall_keepalive_timeout env c)"
    "cl_inv (ccall_alone_timeout env c)" "\<not> ve_log_info env \<Longrightarrow> cl_inv (duration_timeout_handler env c)"
    "cl_inv (durterm_timeout_handler env c)" "cl_inv (ecall_ping_handler env c)"
  using assms
  by (simp_all add: ccall_ongoing_call_timeout_def ccall_stop_ringing_timeout_def ccall_sft_reject_timeout_def
        ccall_sync_vstate_timeout_def ccall_decrypt_check_timeout_def ccall_keepalive_timeout_def
        ccall_alone_timeout_def duration_timeout_handler_def info_missing_arg_def durterm_timeout_handler_def ecall_ping_handler_def Let_def
      split: prod.split)

lemma connect_timeout_inv:
  assumes "cl_ok c" and "cl_state c \<noteq> CCALL_STATE_ACTIVE \<or> cl_live c"
  shows "cl_inv (ccall_connect_timeout env c)"
proof (cases "cl_state c = CCALL_STATE_ACTIVE")
  case True
  then have "cl_live c" by (simp add: cl_live_def cl_waiting_def)
  then show ?thesis using assms(1) True by (simp add: ccall_connect_timeout_def cl_inv_def)
qed (simp add: ccall_connect_timeout_def end_with_err_inv(1) [OF assms(1)])

subsection \<open>Callbacks of the connection\<close>

lemma active_counts_inv [simp]: "cl_inv c \<Longrightarrow> cl_inv (ccall_update_active_counts env c)"
  by (simp add: ccall_update_active_counts_def Let_def split: prod.split)

lemma sync_props_inv [simp]: "cl_inv c \<Longrightarrow> cl_inv (snd (ccall_sync_props env c))"
  by (auto simp: ccall_sync_props_def Let_def userlist_get_latest_epoch_def ecall_do_def split: option.split)

lemma sync_media_keys_inv [simp]:
  assumes "cl_inv c" and "cl_env_ok env"
  shows "cl_inv (snd (ccall_sync_media_keys env c))"
proof -
  let ?k = "userlist_get_key_index (cl_userl c)"
  have "keystore_get_current (cl_keystore c) 0 0 \<noteq> None"
    using current_deref [OF cl_invD(2) [OF assms(1)]] by (auto simp: keystore_get_current_def split: option.split)
  moreover have "cl_inv (with_ks (\<lambda>ks. keystore_set_current (ve_ks env) ks ?k) c)"
    by (rule with_ks_inv [of _ "ve_ks env" "OpSetCurrent ?k"]) (simp_all add: assms cl_env_okD)
  ultimately show ?thesis using assms by (auto simp: ccall_sync_media_keys_def Let_def)
qed

lemma set_media_key_inv:
  assumes "cl_inv c" and "cl_env_ok env"
  shows "cl_inv (snd (ccall_set_media_key env epochid key c))"
proof -
  let ?f = "\<lambda>ks. keystore_set_session_key (ve_ks env) ks epochid key"
  obtain e c' where r: "ks_do ?f OK c = (e, c')" by fastforce
  have "cl_inv (snd (ks_do ?f OK c))"
    by (rule ks_do_inv [of _ "ve_ks env" "OpSetSessionKey epochid key"]) (simp_all add: assms cl_env_okD)
  then have "cl_inv c'" by (simp add: r)
  then have "cl_inv (with_ul (\<lambda>ul. snd (userlist_set_latest_epoch ul epochid)) (c'\<lparr>cl_epoch_start_ts := now env\<rparr>))"
    by (intro with_ul_ops) simp
  then show ?thesis using assms \<open>cl_inv c'\<close> r by (simp add: ccall_set_media_key_def Let_def)
qed

lemma propsync_states_inv: "cl_inv c \<Longrightarrow> cl_inv (propsync_states user vstate muted c)"
  by (simp add: propsync_states_def Let_def upd_user_inv)

lemma propsync_user_inv:
  assumes "cl_inv c" and "cl_env_ok env"
  shows "cl_inv (snd (propsync_user env user vstate muted latest_epoch c))"
proof -
  let ?c = "propsync_states user vstate muted c"
  let ?r = "if 0 < latest_epoch \<and> latest_epoch \<noteq> ui_latest_epoch user
      then ccall_sync_media_keys env (with_ul (\<lambda>ul. ul\<lparr>ul_users := upd_user (ui_addr user)
             (\<lambda>u. u\<lparr>ui_latest_epoch := latest_epoch\<rparr>) (ul_users ul)\<rparr>) ?c)
      else (OK, ?c)"
  have "cl_inv ?c" using assms(1) by (rule propsync_states_inv)
  then have "cl_inv (snd ?r)" using assms(2) by (simp add: upd_user_inv)
  then show ?thesis unfolding propsync_user_def Let_def by (cases ?r) simp
qed

lemma setup_handler_inv: "cl_inv c \<Longrightarrow> cl_inv (ecall_setup_handler env c)"
  by (simp add: ecall_setup_handler_def)

lemma estab_inv:
  assumes "cl_inv c"
  shows "cl_inv (ecall_datachan_estab_handler env c)"
    "(cl_ecall c = Some ec \<and> cl_state c = CCALL_STATE_CONNSENT \<longrightarrow> \<not> ve_log_info env) \<Longrightarrow>
     cl_inv (ecall_media_estab_handler env ec u cid b c)"
    "cl_inv (ecall_audio_estab_handler u cid b c)"
  using assms
  by (simp_all add: ecall_datachan_estab_handler_def ecall_media_estab_handler_def ecall_audio_estab_handler_def Let_def
        info_missing_arg_def with_ul_ops) blast

lemma aulevel_inv:
  assumes "cl_inv c"
  shows "cl_inv (ecall_aulevel_handler env levell c)"
proof -
  obtain l ul ch where r: "userlist_update_audio_level (ve_ul env) (cl_userl c) levell = (l, ul, ch)" by (rule prod_cases3)
  have "ul_inv ul" using audio_level_inv [OF cl_invD(3) [OF assms], of "ve_ul env" levell] r by simp
  then show ?thesis using cl_inv_userl [OF assms] r by (simp add: ecall_aulevel_handler_def Let_def)
qed

lemma close_metrics_inv: "cl_inv (close_metrics env m c) = cl_inv c"
  by (simp add: close_metrics_def Let_def split: option.split)

lemma close_final_inv: "cl_inv c \<Longrightarrow> cl_inv (close_final env b t c)"
  by (simp add: close_final_def Let_def)

lemma close_inv:
  assumes "cl_inv c"
  shows "cl_inv (ecall_close_handler env ec e m t c)"
proof -
  let ?c = "with_ul userlist_reset_keygenerator c"
  have "cl_inv ?c" using assms by (rule with_ul_ops)
  moreover from this have "cl_inv (with_ul (\<lambda>ul. userlist_incall_clear ul False False) ?c)" by (rule with_ul_ops)
  ultimately show ?thesis
    using assms by (simp add: ecall_close_handler_def Let_def close_final_inv close_metrics_inv)
qed

lemma quality_inv: "cl_inv c \<Longrightarrow> cl_inv (ecall_quality_handler u cid stats peer c)"
  by (simp add: ecall_quality_handler_def Let_def)

lemma transp_inv: "cl_inv c \<Longrightarrow> cl_inv (snd (ecall_transp_send_handler env msg c))"
  by (simp add: ecall_transp_send_handler_def send_msg_sft_inv)

subsection \<open>Callbacks of the list of members\<close>

text \<open>The addresses of the members, and the key generators that can be looked up.\<close>

definition addrs :: "ccall \<Rightarrow> nat set" where
  "addrs c = ui_addr ` set (ul_users (cl_userl c))"

fun kg_known :: "nat set \<Rightarrow> ul_act \<Rightarrow> bool" where
  "kg_known A (Kgchangeh (Kg_user a) _ _) = (a \<in> A)"
| "kg_known A _ = True"

lemma kg_known_info: "kg_known (addrs c) (Kgchangeh r b b') \<Longrightarrow> kg_info (cl_userl c) r \<noteq> None"
  by (cases r) (auto simp: kg_info_def addrs_def find_None_iff)

lemma kg_known_mono: "A \<subseteq> B \<Longrightarrow> kg_known A e \<Longrightarrow> kg_known B e"
  by (induction A e rule: kg_known.induct) auto

lemma ks_do_userl [simp]: "cl_userl (snd (ks_do f d c)) = cl_userl c"
  by (simp add: ks_do_def prim_defs split: option.split prod.split)

lemma send_msg_userl [simp]: "cl_userl (snd (ccall_send_msg env type resp targets tr c)) = cl_userl c"
  by (simp add: ccall_send_msg_def ccall_send_msg_i_def Let_def prim_defs split: option.split prod.split err.split)

lemma addrs_prims [simp]:
  "addrs (cl_act a c) = addrs c" "addrs (start_tmr t d c) = addrs c" "addrs (cancel_tmrs ts c) = addrs c"
  "addrs (snd (ecall_do env call c)) = addrs c" "addrs (cl_fail c) = addrs c" "addrs (snd (ks_do f dflt c)) = addrs c"
  "addrs (c\<lparr>cl_someone_left := b\<rparr>) = addrs c" "addrs (c\<lparr>cl_became_kg := b\<rparr>) = addrs c"
  "addrs (c\<lparr>cl_request_key := b\<rparr>) = addrs c" "addrs (c\<lparr>cl_metrics := m\<rparr>) = addrs c"
  "addrs (snd (ccall_send_msg env type resp targets tr c)) = addrs c"
  by (simp_all add: addrs_def) (simp add: cl_fail_def)

lemma send_keys_addrs [simp]: "addrs (snd (ccall_send_keys env all c)) = addrs c"
proof -
  have "map ui_addr (ul_users (snd (snd (userlist_get_key_targets (cl_userl c) all)))) = map ui_addr (ul_users (cl_userl c))"
    by (simp add: userlist_get_key_targets_def split_beta)
  then have "addrs (c\<lparr>cl_userl := snd (snd (userlist_get_key_targets (cl_userl c) all))\<rparr>) = addrs c"
    by (simp add: addrs_def) (metis list.set_map)
  then show ?thesis
    by (cases "userlist_get_key_targets (cl_userl c) all") (auto simp: ccall_send_keys_def Let_def)
qed

lemma ul_event_addrs [simp]: "addrs (ul_event env e c) = addrs c"
proof (cases e)
  case (Kgchangeh r b b')
  have "addrs (snd (ccall_generate_session_key env f c)) = addrs c" for f
    by (simp add: ccall_generate_session_key_def Let_def split_beta)
  moreover have "addrs (snd (ccall_request_keys env k c)) = addrs c" for k
    by (simp add: ccall_request_keys_def split: option.split)
  ultimately show ?thesis
    by (simp add: Kgchangeh userlist_kg_change_handler_def Let_def split: option.split)
qed (simp_all add: userlist_add_user_handler_def userlist_remove_user_handler_def userlist_sync_users_handler_def
       userlist_vstate_handler_def ccall_update_active_counts_def Let_def split: prod.split)

lemma ul_event_inv:
  assumes "cl_inv c" and "cl_env_ok env" and "kg_known (addrs c) e"
  shows "cl_inv (ul_event env e c)"
proof (cases e)
  case (Kgchangeh r b b')
  have "keystore_get_current (cl_keystore c) 0 0 \<noteq> None"
    using current_deref [OF cl_invD(2) [OF assms(1)]] by (auto simp: keystore_get_current_def split: option.split)
  moreover have "cl_inv (snd (ccall_request_keys env (Some r) c))"
    using assms(1) kg_known_info assms(3) Kgchangeh by (intro request_keys_inv) auto
  ultimately show ?thesis
    using assms(1,2) by (auto simp: Kgchangeh userlist_kg_change_handler_def Let_def)
qed (use assms in \<open>simp_all add: userlist_add_user_handler_def userlist_remove_user_handler_def
       userlist_sync_users_handler_def userlist_vstate_handler_def Let_def\<close>)

lemma ul_events_inv:
  assumes "cl_env_ok env"
  shows "cl_inv c \<Longrightarrow> list_all (kg_known (addrs c)) es \<Longrightarrow> cl_inv (fold (ul_event env) es c)"
proof (induction es arbitrary: c)
  case (Cons e es)
  then show ?case using ul_event_inv [OF Cons.prems(1) assms] by simp
qed simp

lemma ul_callbacks_inv:
  assumes "cl_inv c" and "cl_env_ok env" and "ul_inv ul" and "ul_trace ul = ul_trace (cl_userl c) @ es"
    and "list_all (kg_known (ui_addr ` set (ul_users ul))) es"
  shows "cl_inv (ul_callbacks env ul c)"
  using ul_events_inv [OF assms(2) cl_inv_userl [OF assms(1,3)], of es] assms(4,5)
  by (simp add: ul_callbacks_def addrs_def)

text \<open>What an update of the list adds to its trace.\<close>

definition uaddrs :: "userlist \<Rightarrow> nat set" where
  "uaddrs ul = ui_addr ` set (ul_users ul)"

definition traced :: "userlist \<Rightarrow> userlist \<Rightarrow> bool" where
  "traced ul ul' \<longleftrightarrow> uaddrs ul \<subseteq> uaddrs ul' \<and>
     (\<exists>es. ul_trace ul' = ul_trace ul @ es \<and> list_all (kg_known (uaddrs ul')) es)"

lemma traced_refl: "uaddrs ul \<subseteq> uaddrs ul' \<Longrightarrow> ul_trace ul' = ul_trace ul \<Longrightarrow> traced ul ul'"
  by (simp add: traced_def)

lemma traced_trans:
  assumes "traced ul ul'" and "traced ul' ul''"
  shows "traced ul ul''"
proof -
  obtain es es' where es: "ul_trace ul' = ul_trace ul @ es" "list_all (kg_known (uaddrs ul')) es"
    "ul_trace ul'' = ul_trace ul' @ es'" "list_all (kg_known (uaddrs ul'')) es'" "uaddrs ul' \<subseteq> uaddrs ul''"
    using assms by (auto simp: traced_def)
  then have "list_all (kg_known (uaddrs ul'')) (es @ es')"
    using kg_known_mono [OF es(5)] by (auto simp: list_all_iff)
  then show ?thesis using assms es by (auto simp: traced_def)
qed

lemma traced_act: "kg_known (uaddrs ul) e \<Longrightarrow> traced ul (ul_act e ul)"
  by (simp add: traced_def uaddrs_def ul_act_def)

lemma uaddrs_cong: "map ui_addr (ul_users ul') = map ui_addr (ul_users ul) \<Longrightarrow> uaddrs ul' = uaddrs ul"
  unfolding uaddrs_def by (metis list.set_map)

lemma traced_same:
  assumes "map ui_addr (ul_users ul') = map ui_addr (ul_users ul)" and "ul_trace ul' = ul_trace ul @ es"
    and "list_all (kg_known (uaddrs ul)) es"
  shows "traced ul ul'"
  using assms(2,3) uaddrs_cong [OF assms(1)] by (auto simp: traced_def)

lemma uaddrs_fields [simp]:
  "uaddrs (ul_act e ul) = uaddrs ul" "uaddrs (ul\<lparr>ul_keygenerator := k\<rparr>) = uaddrs ul"
  "uaddrs (ul\<lparr>ul_self := s\<rparr>) = uaddrs ul" "uaddrs (track_keygenerator_change p ul) = uaddrs ul"
  by (simp_all add: uaddrs_def)

lemma traced_track: "ul_inv ul \<Longrightarrow> traced ul (track_keygenerator_change p ul)"
proof -
  assume inv: "ul_inv ul"
  have "kg_known (uaddrs ul) (Kgchangeh kg b b')" if "ul_keygenerator ul = Some kg" for kg b b'
    using inv that by (cases kg) (auto simp: ul_inv_def uaddrs_def)
  then show ?thesis
    by (auto simp: track_keygenerator_change_def intro!: traced_act traced_refl split: option.split)
qed

lemma sft_part_traced: "traced (ss_ul st) (ss_ul (sft_part env first i p st))"
proof -
  have "traced (ss_ul st) (ss_ul (sft_self b p st))" "traced (ss_ul st) (ss_ul (sft_new p st))" for b
    by (auto simp: sft_self_def sft_new_def Let_def uaddrs_def intro!: traced_refl)
  moreover have "traced (ss_ul st) (ss_ul (sft_found b p u st))" for b u
    by (rule traced_same [of _ _ "if ui_incall_prev u \<and> (ui_ssrca u \<noteq> gp_ssrca p \<or> ui_ssrcv u \<noteq> gp_ssrcv p) \<and>
          uh_removeh (ul_handlers (ss_ul st)) then [Removeh u (gp_ssrcv p = 0)] else []"])
       (simp_all add: sft_found_def Let_def ul_act_def)
  ultimately show ?thesis by (simp add: sft_part_def split: option.split)
qed

lemma sft_loop_traced: "traced (ss_ul st) (ss_ul (sft_loop env first i ps st))"
proof (induction ps arbitrary: i st)
  case (Cons p ps)
  have "traced (ss_ul (sft_part env first i p st)) (ss_ul (sft_loop env first (i + 1) ps (sft_part env first i p st)))"
    by (rule Cons.IH)
  then show ?case using traced_trans [OF sft_part_traced] by simp
qed (simp add: traced_refl)

lemma settle_acts: "e \<in> set (fst (sft_join_leave h u)) \<Longrightarrow> kg_known A e"
  by (auto simp: sft_join_leave_def Let_def split: if_splits)

lemma sft_settle_traced: "traced (ss_ul st) (fst (sft_settle st))"
proof -
  let ?ul = "ss_ul st"
  let ?rs = "map (sft_join_leave (ul_handlers ?ul)) (ul_users ?ul)"
  have "traced ?ul (?ul\<lparr>ul_trace := ul_trace ?ul @ concat (map fst ?rs), ul_users := map (\<lambda>r. fst (snd r)) ?rs\<rparr>)"
    by (rule traced_same [of _ _ "concat (map fst ?rs)"]) (use settle_acts in \<open>auto simp: list_all_iff comp_def\<close>)
  moreover have "traced ul (ul_act Synch ul)" for ul by (rule traced_act) simp
  ultimately show ?thesis by (auto simp: sft_settle_def Let_def intro: traced_trans)
qed

lemma settle_inv: "ul_inv (ss_ul st) \<Longrightarrow> ul_inv (fst (sft_settle st))"
  by (erule ul_inv_cong) (simp_all add: sft_settle_def Let_def comp_def)

lemma walk_settle:
  assumes "ul_inv ul"
  shows "ul_inv (fst (sft_settle (sft_walk env ul parts b)))" "traced ul (fst (sft_settle (sft_walk env ul parts b)))"
proof -
  let ?st = "\<lparr>ss_ul = sft_begin ul, ss_listpos = 0, ss_self_changed = b, ss_list_changed = False,
              ss_sync_decoders = False, ss_missing = False\<rparr>"
  have w: "sft_walk env ul parts b = sft_loop env (find_first_approved env (sft_begin ul) 0 parts) 0 parts ?st"
    by (simp add: sft_walk_def Let_def)
  show "ul_inv (fst (sft_settle (sft_walk env ul parts b)))"
    unfolding w by (rule settle_inv [OF sft_loop_inv]) (simp add: sft_begin_inv [OF assms])
  have "traced ul (ss_ul ?st)" by (rule traced_same [of _ _ "[]"]) (simp_all add: sft_begin_def comp_def)
  then show "traced ul (fst (sft_settle (sft_walk env ul parts b)))"
    unfolding w by (rule traced_trans [OF traced_trans [OF _ sft_loop_traced] sft_settle_traced])
qed

lemma callbacks_traced:
  assumes "cl_inv c" and "cl_env_ok env" and "ul_inv ul" and "traced (cl_userl c) ul"
  shows "cl_inv (ul_callbacks env ul c)"
  using assms ul_callbacks_inv [OF assms(1-3)] by (auto simp: traced_def uaddrs_def)

lemma update_from_sftlist_inv:
  assumes "cl_inv c" and "cl_env_ok env"
  shows "cl_inv (fst (cl_update_from_sftlist env parts c))"
proof -
  let ?p = "ul_keygenerator (cl_userl c)"
  define ul where "ul = fst (sft_settle (sft_walk (ve_ul env) (cl_userl c) parts False))"
  define c1 where "c1 = ul_callbacks env ul c"
  define c2 where "c2 = ul_callbacks env (track_keygenerator_change ?p (cl_userl c1)) c1"
  have c1: "cl_inv c1"
    unfolding c1_def ul_def using walk_settle [OF cl_invD(3) [OF assms(1)]] by (intro callbacks_traced [OF assms])
  have "ul_inv (track_keygenerator_change ?p (cl_userl c1))"
    using cl_invD(3) [OF c1] by (rule ul_inv_cong) simp_all
  then have c2: "cl_inv c2"
    unfolding c2_def using traced_track [OF cl_invD(3) [OF c1]] by (intro callbacks_traced [OF c1 assms(2)])
  have "ul_inv (sft_sort (ve_ul env) (cl_userl c2))"
    unfolding sft_sort_def
    by (rule ul_inv_mset [OF cl_invD(3) [OF c2]])
       (use cl_env_okD(2) [OF assms(2)] sort_users in \<open>simp add: ul_env_ok_def\<close>)
  then have "cl_inv (with_ul (sft_sort (ve_ul env)) c2)" using cl_inv_userl [OF c2] by (simp add: with_ul_def)
  then show ?thesis
    unfolding cl_update_from_sftlist_def Let_def c2_def c1_def ul_def by (simp add: split_beta)
qed

lemma se_approve_hash_traced:
  assumes "ul_inv (se_ul st)" and "user \<in> set (ul_users (se_ul st))"
  shows "traced (se_ul st) (se_ul (fst (se_approve_hash prev epoch cli user st)))"
proof -
  let ?ul = "se_ul st"
  let ?kg = "ui_addr user"
  define user' where "user' = user\<lparr>ui_userid_real := cli_userid cli, ui_clientid_real := cli_clientid cli,
                       ui_first_epoch := epoch\<rparr>"
  define add where "add = (uh_addh (ul_handlers ?ul) \<and> (ui_ssrca user' \<noteq> 0 \<or> ui_ssrcv user' \<noteq> 0))"
  define es where "es = (if add then [Addh user'] else []) @
    (if ui_listpos user' = 0 \<and> prev \<noteq> Some (Kg_user ?kg) \<and> uh_kgchangeh (ul_handlers ?ul)
     then [Kgchangeh (Kg_user ?kg) False (prev = None)] else [])"
  have "?kg \<in> uaddrs ?ul" using assms(2) by (simp add: uaddrs_def)
  then have k: "list_all (kg_known (uaddrs ?ul)) es" by (simp add: es_def)
  show ?thesis
    by (rule traced_same [OF _ _ k])
       (auto simp: se_approve_hash_def Let_def track_keygenerator_change_def ul_act_def es_def add_def user'_def)
qed

lemma se_client_traced:
  assumes "ul_inv (se_ul st)" and "se_client env prev epoch secret cli st = Some st'"
  shows "traced (se_ul st) (se_ul st')"
proof -
  have add: "traced (se_ul st) (se_ul (fst (se_add u st)))" for u
    by (auto simp: se_add_def Let_def traced_def uaddrs_def)
  have upd: "traced (se_ul st) ((se_ul st)\<lparr>ul_users := upd_user (ui_addr v) (\<lambda>_. w) (ul_users (se_ul st))\<rparr>)"
    if "hash_userinfo env secret v = Some w" for v w
    by (rule traced_same [of _ _ "[]"]) (use that in \<open>auto simp: hash_userinfo_def bind_eq_Some_conv\<close>)
  have user: "traced (se_ul st) (se_ul s)" if "se_user env prev epoch secret cli st = Some (s, a)" for s a
    using that add upd se_approve_hash_traced [OF assms(1) find_by_hash_in]
    by (auto simp: se_user_def bind_eq_Some_conv split: option.splits if_splits) (metis fst_conv)+
  have "traced ul (ul\<lparr>ul_users := upd_user a (se_approve epoch cli) (ul_users ul)\<rparr>)" for ul a
    by (rule traced_same [of _ _ "[]"]) simp_all
  then show ?thesis
    using assms(2) user traced_trans
    by (fastforce simp: se_client_def bind_eq_Some_conv traced_refl split: if_splits)
qed

lemma se_loop_traced:
  assumes "ul_env_ok env"
  shows "ul_inv (se_ul st) \<Longrightarrow> se_loop env prev epoch secret cls st = Some st' \<Longrightarrow> traced (se_ul st) (se_ul st')"
proof (induction cls arbitrary: st)
  case (Cons cli cls)
  obtain s where s: "se_client env prev epoch secret cli st = Some s" "ul_inv (se_ul s)"
    using se_client_inv [OF Cons.prems(1) assms] by blast
  then have "traced (se_ul s) (se_ul st')" using Cons by simp
  then show ?case using se_client_traced [OF Cons.prems(1) s(1)] traced_trans by blast
qed (simp add: traced_refl)

lemma selist_traced:
  assumes "ul_inv ul" and "ul_env_ok env" and "userlist_update_from_selist env ul cls epoch secret = Some r"
  shows "traced ul (fst r)"
proof -
  let ?st = "\<lparr>se_ul = se_begin ul, se_list_changed = False, se_sync_decoders = False\<rparr>"
  obtain st where st: "se_loop env (ul_keygenerator ul) epoch secret cls ?st = Some st" "r = se_end st"
    using assms(3) by (auto simp: userlist_update_from_selist_def)
  have "traced ul (se_ul ?st)" by (rule traced_same [of _ _ "[]"]) (simp_all add: se_begin_def comp_def)
  moreover have "traced (se_ul ?st) (se_ul st)"
    using se_loop_traced [OF assms(2) _ st(1)] se_begin_inv [OF assms(1)] by simp
  moreover have "traced (se_ul st) (fst (se_end st))"
    by (rule traced_same [of _ _ "if se_sync_decoders st \<and> uh_synch (ul_handlers (se_ul st)) then [Synch] else []"])
       (simp_all add: se_end_def Let_def comp_def ul_act_def)
  ultimately show ?thesis using st(2) traced_trans by blast
qed

lemma stop_others_i_inv [simp]: "cl_inv c \<Longrightarrow> cl_inv (ccall_stop_others_ringing_i env c)"
  by (auto simp: ccall_stop_others_ringing_i_def Let_def intro!: send_msg_i_inv split: sreason.split prod.split)

lemma set_clients_inv:
  assumes "cl_inv c" and "cl_env_ok env"
  shows "cl_inv (ccall_set_clients env cls epoch c)"
proof -
  note ok = cl_env_okD(2) [OF assms(2)]
  obtain ul ch rem where r: "userlist_update_from_selist (ve_ul env) (cl_userl c) cls epoch (cl_secret c) = Some (ul, ch, rem)"
    "ul_inv ul" using selist_inv [OF cl_invD(3) [OF assms(1)] ok] by (metis fst_conv prod_cases3)
  have "traced (cl_userl c) ul" using selist_traced [OF cl_invD(3) [OF assms(1)] ok r(1)] by simp
  then have "cl_inv (ul_callbacks env ul c)" by (rule callbacks_traced [OF assms r(2)])
  then show ?thesis using r(1) by (simp add: ccall_set_clients_def Let_def)
qed

subsection \<open>The participants\<close>

lemma keep_confpart_inv: "cl_inv (ccall_keep_confpart_data cp c) = cl_inv c"
  by (simp add: ccall_keep_confpart_data_def Let_def split: option.split prod.split)

lemma clone_loop_eq: "clone_loop xs ys = (OK, ys @ xs)"
  by (induction xs arbitrary: ys) (simp_all add: stringlist_append_def)

lemma stringlist_clone_eq [simp]: "stringlist_clone xs ys = (OK, xs)"
  by (simp add: stringlist_clone_def clone_loop_eq)

lemma confpart_start_inv: "cl_inv c \<Longrightarrow> cl_inv (confpart_start env cp b c)"
  by (simp add: confpart_start_def Let_def)

lemma confpart_alone_inv: "cl_inv c \<Longrightarrow> cl_inv (confpart_alone n c)"
  by (simp add: confpart_alone_def)

lemma confpart_duration_inv:
  assumes "cl_inv c" and "cl_meeting_duration c \<noteq> 0 \<Longrightarrow> 0 \<le> sint (ucast (cp_timestamp cp - cl_sft_timestamp c) :: u32)"
  shows "cl_inv (confpart_duration env cp b c)"
proof -
  have "sint (w :: u32) < 2 ^ 31" for w using sint_lt [of w] by simp
  then have "int_ok (cl_meeting_duration c - sint (ucast (cp_timestamp cp - cl_sft_timestamp c) :: u32))"
    if "cl_meeting_duration c \<noteq> 0"
    using assms(2) [OF that] cl_invD(8,9) [OF assms(1)]
      \<open>\<And>w. sint w < 2 ^ 31\<close> [of "ucast (cp_timestamp cp - cl_sft_timestamp c)"]
    unfolding int_ok_def by linarith
  then show ?thesis using assms(1) by (auto simp: confpart_duration_def Let_def)
qed

lemma confpart_after_inv:
  assumes "cl_inv c" and "[] \<notin> set (cp_sftl cp)"
  shows "cl_inv (confpart_after env cp b ch self missing c)"
  using assms by (simp add: confpart_after_def Let_def cl_inv_sftl)

lemma confpart_fields:
  "cl_meeting_duration (ccall_keep_confpart_data cp c) = cl_meeting_duration c"
  "cl_sft_timestamp (ccall_keep_confpart_data cp c) = cl_sft_timestamp c"
  "cl_meeting_duration (confpart_start env cp b c) = cl_meeting_duration c"
  "cl_meeting_duration (confpart_alone n c) = cl_meeting_duration c"
  "cl_sft_timestamp (confpart_alone n c) = cl_sft_timestamp c"
  "cl_sft_timestamp (confpart_start env cp b c) \<in> {cp_timestamp cp, cl_sft_timestamp c}"
proof -
  have m: "cl_meeting_duration (snd (ccall_send_msg env t r ts tr d)) = cl_meeting_duration d"
    "cl_sft_timestamp (snd (ccall_send_msg env t r ts tr d)) = cl_sft_timestamp d" for t r ts tr d
    by (simp_all add: ccall_send_msg_def ccall_send_msg_i_def Let_def prim_defs split: option.split prod.split err.split)
  show "cl_meeting_duration (confpart_start env cp b c) = cl_meeting_duration c"
    "cl_sft_timestamp (confpart_start env cp b c) \<in> {cp_timestamp cp, cl_sft_timestamp c}"
    by (simp_all add: confpart_start_def Let_def m)
qed (simp_all add: ccall_keep_confpart_data_def confpart_alone_def prim_defs Let_def split: option.split prod.split)

text \<open>The time of the server is not before the start of a meeting, and less than 25 days after it.\<close>

definition confpart_guard :: "ccall \<Rightarrow> econn_confpart \<Rightarrow> bool" where
  "confpart_guard c cp \<longleftrightarrow> [] \<notin> set (cp_sftl cp) \<and>
     (cl_meeting_duration c \<noteq> 0 \<longrightarrow> 0 \<le> sint (ucast (cp_timestamp cp - cl_sft_timestamp c) :: u32))"

lemma confpart_inv:
  assumes "cl_inv c" and "cl_env_ok env" and "confpart_guard c cp"
  shows "cl_inv (ecall_confpart_handler env ec cp c)"
proof (cases "cl_ecall c = Some ec")
  case True
  define b where "b = (cp_should_start cp \<or> cl_is_caller c \<and> cl_sft_timestamp c = 0 \<and> cl_sft_seqno c = 0 \<and>
                       length (cp_partl cp) = 1)"
  define c1 where "c1 = confpart_start env cp b (ccall_keep_confpart_data cp (c\<lparr>cl_received_confpart := True\<rparr>))"
  define c2 where "c2 = confpart_alone (length (cp_partl cp)) c1"
  define c3 where "c3 = confpart_duration env cp (\<not> cl_received_confpart c) c2"
  define c4 where "c4 = (if \<not> cl_received_confpart c \<and> cl_ecall c3 \<noteq> None then snd (ccall_sync_props env c3) else c3)"
  have c2: "cl_inv c2"
    using assms(1) by (simp add: c2_def c1_def confpart_alone_inv confpart_start_inv keep_confpart_inv)
  have t: "cl_sft_timestamp c2 \<in> {cp_timestamp cp, cl_sft_timestamp c}" "cl_meeting_duration c2 = cl_meeting_duration c"
    using confpart_fields(6) [of env cp b "ccall_keep_confpart_data cp (c\<lparr>cl_received_confpart := True\<rparr>)"]
    by (simp_all add: c2_def c1_def confpart_fields(1-5))
  have "cl_inv c3"
    unfolding c3_def by (rule confpart_duration_inv [OF c2]) (use t assms(3) in \<open>auto simp: confpart_guard_def\<close>)
  then have "cl_inv c4" by (simp add: c4_def)
  then have "cl_inv (fst (cl_update_from_sftlist env (cp_partl cp) c4))" by (rule update_from_sftlist_inv [OF _ assms(2)])
  then have "cl_inv (confpart_after env cp b x y z (fst (cl_update_from_sftlist env (cp_partl cp) c4)))" for x y z
    using assms(3) by (intro confpart_after_inv) (simp_all add: confpart_guard_def)
  then show ?thesis
    using True unfolding ecall_confpart_handler_def Let_def b_def [symmetric] c1_def [symmetric] c2_def [symmetric]
      c3_def [symmetric] c4_def [symmetric] by (simp add: split_beta)
qed (use assms(1) in \<open>simp add: ecall_confpart_handler_def Let_def\<close>)

subsection \<open>Joining\<close>

lemma setup_calls_inv: "cl_inv c \<Longrightarrow> cl_inv (snd (ecall_setup_calls env ec xs c))"
  by (induction xs arbitrary: c) (simp_all add: Let_def)

lemma create_ecall_inv:
  assumes "cl_inv c" and "cl_ecall c = None"
  shows "cl_inv (snd (create_ecall env c))"
proof -
  define c1 where "c1 = (if cl_call_type c = ICALL_CALL_TYPE_NORMAL \<and>
                       cl_vstate c \<in> {ICALL_VIDEO_STATE_STARTED, ICALL_VIDEO_STATE_SCREENSHARE}
                    then c\<lparr>cl_call_type := ICALL_CALL_TYPE_VIDEO\<rparr> else c)"
  let ?c = "c1\<lparr>cl_next_ecall := cl_next_ecall c1 + 1\<rparr>"
  let ?self = "userlist_get_self (cl_userl c)"
  obtain e2 c2 where c2: "ecall_setup_calls env (cl_next_ecall c1) [EcAlloc (cl_call_type ?c)] ?c = (e2, c2)" by fastforce
  obtain e3 c3 where c3: "ecall_setup_calls env (cl_next_ecall c1)
      ([EcSetQualityInterval (cl_quality_interval c2), EcSetRealClientid (ui_clientid_real ?self)] @
       map EcAddTurnserver (cl_turnv c2)) (cl_act (Ecall (cl_next_ecall c1) EcSetKeystore) c2) = (e3, c3)" by fastforce
  have "cl_inv ?c" using assms(1) by (simp add: c1_def)
  from setup_calls_inv [OF this] have "cl_inv c2" using c2 by (metis snd_conv)
  then have "cl_inv (cl_act (Ecall (cl_next_ecall c1) EcSetKeystore) c2)" by simp
  from setup_calls_inv [OF this] have "cl_inv c3" using c3 by (metis snd_conv)
  then show ?thesis
    using assms(2) \<open>cl_inv c2\<close>
    unfolding create_ecall_def Let_def c1_def [symmetric] c2 prod.case c3 by simp
qed

lemma stop_others_inv [simp]: "cl_inv c \<Longrightarrow> cl_inv (ccall_stop_others_ringing env c)"
  by (simp add: ccall_stop_others_ringing_def)

lemma req_cfg_join_inv [simp]: "cl_inv c \<Longrightarrow> cl_inv (snd (ccall_req_cfg_join env t cbr retry out c))"
  by (simp add: ccall_req_cfg_join_def Let_def)

lemma cfg_conn_inv: "cl_inv c \<Longrightarrow> url \<noteq> [] \<Longrightarrow> cl_inv (snd (cfg_conn env url c))"
  by (simp add: cfg_conn_def Let_def send_conf_conn_inv)

lemma cfg_sft_loop_inv:
  "cl_inv c \<Longrightarrow> [] \<notin> set urls \<Longrightarrow> cl_inv (snd (snd (cfg_sft_loop env urls n e c)))"
proof (induction urls arbitrary: n e c)
  case (Cons url urls)
  obtain e1 c1 where r: "cfg_conn env url c = (e1, c1)" by fastforce
  have "cl_inv c1" using cfg_conn_inv [OF Cons.prems(1), of url env] Cons.prems(2) r by auto
  then show ?case using Cons.prems by (simp add: r Let_def Cons.IH)
qed simp

lemma cfg_server_url:
  assumes "cl_env_ok env" and "ice_url srv \<noteq> []"
  shows "ice_url (cfg_server env c srv) \<noteq> []"
proof -
  have urls: "ice_url s \<noteq> []"
    if "config_get_sftservers_all (cfg_of env c) = (Some v, n)" "s \<in> set v" for v n s
    using that cl_env_okD(6) [OF assms(1)]
    by (auto simp: config_get_sftservers_all_def cfg_of_def cfg_urls_ok_def list_all_iff split: option.splits if_splits)
  have "ice_url si \<noteq> []" if "ccall_get_sft_info env c u = Some si" for u si
    using that urls nth_mem
    by (fastforce simp: ccall_get_sft_info_def find_Some_iff split: if_splits option.splits prod.splits)
  then show ?thesis
    using assms cl_env_okD(7) [OF assms(1,2)] by (auto simp: cfg_server_def split: option.split)
qed

lemma cfg_url_loop_inv:
  assumes "cl_env_ok env"
  shows "cl_inv c \<Longrightarrow> list_all (\<lambda>s. ice_url s \<noteq> []) srvs \<Longrightarrow> cl_inv (snd (cfg_url_loop env srvs e c))"
proof (induction srvs arbitrary: e c)
  case (Cons srv srvs)
  let ?s = "cfg_server env c srv"
  obtain e1 c1 where r: "ccall_send_conf_conn env (Some (ice_url ?s)) (Some (ice_username ?s)) (Some (ice_credential ?s))
      False c = (e1, c1)" by fastforce
  have "ice_url ?s \<noteq> []" using cfg_server_url [OF assms] Cons.prems(2) by simp
  then have "cl_inv c1"
    using send_conf_conn_inv [OF Cons.prems(1), of "Some (ice_url ?s)" env "Some (ice_username ?s)"
        "Some (ice_credential ?s)" False] r by simp
  then show ?case using Cons by (simp add: r Let_def)
qed simp

lemma cfg_joined_inv:
  assumes "cl_inv c"
  shows "cl_inv (snd (snd (cfg_joined env c)))"
  using assms cfg_sft_loop_inv [OF assms cl_invD(7) [OF assms], of env 0 OK]
    cfg_conn_inv [OF assms, of _ env] cl_invD(6) [OF assms]
  by (auto simp: cfg_joined_def split: option.split prod.split) 

lemma cfg_refused_inv: "cl_inv c \<Longrightarrow> cl_inv (snd (snd (cfg_refused env je c)))"
  by (simp add: cfg_refused_def split_beta)

lemma cfg_connect_inv:
  assumes "cl_inv c" and "cl_env_ok env"
  shows "cl_inv (snd (snd (cfg_connect env je c)))"
proof -
  define r where "r = (if cl_state c = CCALL_STATE_WAITCONFIG then cfg_joined env c else (False, OK, c))"
  obtain j e d where jed: "r = (j, e, d)" by (rule prod_cases3)
  have d: "cl_inv d" using cfg_joined_inv [OF assms(1), of env] assms(1) jed by (auto simp: r_def split: if_splits)
  have "list_all (\<lambda>s. ice_url s \<noteq> []) (take 3 v)" if "config_get_sftservers (cfg_of env c) = (Some v, n)" for v n
    using that cl_env_okD(6) [OF assms(2)]
    by (auto simp: config_get_sftservers_def cfg_of_def cfg_urls_ok_def list_all_iff split: option.splits if_splits
        dest: in_set_takeD)
  then have "cl_inv (snd (cfg_url_loop env (take 3 v) e d))" if "config_get_sftservers (cfg_of env c) = (Some v, n)" for v n
    using that by (intro cfg_url_loop_inv [OF assms(2) d])
  then show ?thesis
    using assms(1) d cfg_refused_inv [OF d, of env je] unfolding cfg_connect_def r_def [symmetric] jed
    by (cases "config_get_sftservers (cfg_of env c)") (auto simp: split_beta split: option.split)
qed

lemma config_update_inv:
  assumes "cl_inv c" and "cl_env_ok env"
  shows "cl_inv (config_update_handler env je c)"
proof (cases "cl_je c")
  case (Some j)
  obtain e b d where r: "cfg_connect env j c = (e, b, d)" by (rule prod_cases3)
  have "cl_inv d" using cfg_connect_inv [OF assms, of j] r by simp
  then show ?thesis using assms(1) Some r by (simp add: config_update_handler_def Let_def)
qed (simp add: config_update_handler_def assms(1))

lemma api_inv:
  assumes "cl_inv c"
  shows "cl_inv (snd (ccall_answer env t cbr c))" "cl_inv (snd (ccall_start env t cbr m c))"
    "cl_inv (ccall_end env c)" "cl_inv (ccall_reject env c)" "cl_inv (snd (ccall_media_start env c))"
    "cl_inv (ccall_media_stop env c)" "cl_inv (snd (ccall_set_quality_interval env i c))"
    "cl_inv (snd (ccall_update_mute_state env c))" "cl_inv (snd (ccall_set_background b c))"
    "cl_inv (snd (ccall_activate env b c))" "cl_inv (snd (ccall_restart env c))"
    "cl_inv (snd (ccall_add_turnserver s c))" "cl_inv (snd (ccall_set_config c))"
  using assms
  by (simp_all add: ccall_answer_def ccall_start_def ccall_end_def ccall_reject_def ccall_media_start_def
        ccall_media_stop_def ccall_set_quality_interval_def ccall_update_mute_state_def ccall_set_background_def
        ccall_activate_def ccall_restart_def ccall_add_turnserver_def ccall_set_config_def Let_def split: option.split)

subsection \<open>Messages received\<close>

definition start_ok :: "econn_confstart \<Rightarrow> bool" where
  "start_ok cs \<longleftrightarrow> cs_sft_url cs \<notin> {None, Some []} \<and> [] \<notin> set (cs_sftl cs) \<and>
     (case cs_secret cs of None \<Rightarrow> False | Some s \<Rightarrow> 4 \<le> length s)"

lemma adopt_inv:
  assumes "cl_inv c" and "cl_env_ok env" and "start_ok cs"
  shows "cl_inv (confstart_adopt env cs c)"
proof -
  obtain url where url: "copy_sft (cs_sft_url cs) = Some url" "url \<noteq> []"
    using copy_sft_Some [of "cs_sft_url cs"] assms(3) by (auto simp: start_ok_def)
  obtain secret where s: "cs_secret cs = Some secret" "4 \<le> length secret"
    using assms(3) by (auto simp: start_ok_def split: option.splits)
  let ?c = "c\<lparr>cl_primary_sft_url := Some url, cl_sft_tuple := cs_sft_tuple cs,
               cl_sft_timestamp := cs_timestamp cs, cl_sft_seqno := cs_seqno cs\<rparr>"
  have "cl_inv ?c" using cl_inv_urls(2) [OF assms(1)] url(2) by simp
  then have "cl_inv (with_ks keystore_reset ?c)"
    using reset_ks_inv cl_invD(2) [OF \<open>cl_inv ?c\<close>] cl_inv_keystore by (simp add: with_ks_def)
  then have "cl_inv (ccall_set_secret env secret (with_ks keystore_reset ?c))"
    by (rule set_secret_inv_cl [OF _ assms(2) s(2)])
  then show ?thesis using url s by (simp add: confstart_adopt_def Let_def with_ul_ops)
qed

lemma confstart_state_inv:
  assumes "cl_inv c" and "start_ok cs"
  shows "cl_inv (snd (confstart_state env u cid msg cs n c))"
proof -
  have s: "[] \<notin> set (cs_sftl cs)" using assms(2) by (simp add: start_ok_def)
  have "cl_inv (confstart_ring env u cid msg cs n c)" "cl_inv (confstart_again env u cs n c)"
    "cl_inv (snd (confstart_switch env cs c))"
    using assms(1) s by (simp_all add: confstart_ring_def confstart_again_def ring_stopped_def confstart_switch_def
        Let_def cl_inv_sftl)
  then show ?thesis using assms(1) by (simp add: confstart_state_def)
qed

lemma handle_confstart_inv:
  assumes "cl_inv c" and "cl_env_ok env" and "confstart_of msg = Some r" "fst r = OK \<Longrightarrow> start_ok (fst (snd r))"
  shows "cl_inv (snd (ccall_handle_confstart_check env u cid msg c))"
  using assms adopt_inv [OF assms(1,2)]
  by (auto simp: ccall_handle_confstart_check_def Let_def confstart_state_inv split: option.split prod.splits)

lemma confkey_loop_inv:
  assumes "cl_env_ok env"
  shows "cl_inv c \<Longrightarrow> cl_inv (confkey_loop env keys c)"
proof (induction keys arbitrary: c)
  case (Cons k keys)
  let ?f = "\<lambda>s. keystore_set_session_key (ve_ks env) s (key_idx k) (key_data k)"
  obtain e d where r: "ks_do ?f OK c = (e, d)" by fastforce
  have "cl_inv (snd (ks_do ?f OK c))"
    by (rule ks_do_inv [of _ "ve_ks env" "OpSetSessionKey (key_idx k) (key_data k)"])
       (simp_all add: Cons.prems cl_env_okD [OF assms])
  then have "cl_inv d" using r by simp
  then show ?case by (simp add: r Cons.IH)
qed simp

lemma confkey_resp_inv:
  assumes "cl_inv c" and "cl_env_ok env"
  shows "cl_inv (confkey_resp env u cid keys c)"
proof -
  have "cl_inv (with_ks (\<lambda>ks. keystore_set_salt True (now env) ks s) c)" for s
    using cl_inv_keystore [OF assms(1) set_salt_inv [OF cl_invD(2) [OF assms(1)]]] by (simp add: with_ks_def)
  then show ?thesis
    using assms(1) confkey_loop_inv [OF assms(2)] kg_info_Some [OF cl_invD(3) [OF assms(1)]]
    by (auto simp: confkey_resp_def userlist_get_keygenerator_def split: option.splits)
qed

lemma confkey_req_inv: "cl_inv c \<Longrightarrow> cl_inv (confkey_req env u cid c)"
  by (simp add: confkey_req_def upd_user_inv split: option.split)

lemma confend_inv: "cl_inv c \<Longrightarrow> cl_inv (confend_recv env msg c)"
  using cl_invD(4) [of c] by (auto simp: confend_recv_def Let_def split: option.split)

definition msg_guard :: "econn_message \<Rightarrow> bool" where
  "msg_guard msg \<longleftrightarrow>
     (case confstart_of msg of None \<Rightarrow> False | Some (e, cs, _) \<Rightarrow> e = OK \<longrightarrow> start_ok cs) \<and>
     (em_msg_type msg = Some ECONN_CONF_KEY \<and> em_resp msg \<longrightarrow> u_confkey (em_u msg) \<noteq> None)"

lemma msg_recv_inv:
  assumes "cl_inv c" and "cl_env_ok env" and "msg_guard msg"
  shows "cl_inv (snd (ccall_msg_recv env u cid msg c))"
proof -
  obtain r where r: "confstart_of msg = Some r" "fst r = OK \<Longrightarrow> start_ok (fst (snd r))"
    using assms(3) by (auto simp: msg_guard_def split: option.splits)
  have "cl_inv (snd (ccall_handle_confstart_check env u cid msg c))" by (rule handle_confstart_inv [OF assms(1,2) r])
  then show ?thesis
    using assms(1,3) confkey_resp_inv [OF assms(1,2), of u cid] confkey_req_inv [OF assms(1)] confend_inv [OF assms(1)]
    by (auto simp: ccall_msg_recv_def ring_stopped_def msg_guard_def
        split: option.splits econn_msg.split)
qed

lemma sft_setup_inv:
  assumes "cl_inv c" and "su_url su \<noteq> Some []"
  shows "cl_inv (sft_setup su c)"
proof (cases "su_url su")
  case (Some url)
  then obtain s where s: "copy_sft (Some url) = Some s" "s \<noteq> []" using copy_sft_Some [of "Some url"] assms(2) by auto
  then have "cl_inv (c\<lparr>cl_sft_url := Some s\<rparr>)" "cl_inv (c\<lparr>cl_primary_sft_url := Some s\<rparr>)"
    "cl_inv (c\<lparr>cl_sft_url := Some s, cl_primary_sft_url := Some s\<rparr>)"
    using cl_inv_urls(1) [OF assms(1), of "Some s"] cl_inv_urls(2) [OF assms(1), of "Some s"]
      cl_inv_urls(2) [OF cl_inv_urls(1) [OF assms(1), of "Some s"], of "Some s"] by simp_all
  then show ?thesis using Some s(1) assms(1) by (simp add: sft_setup_def Let_def)
qed (simp add: sft_setup_def assms(1))

definition sft_guard :: "ccall \<Rightarrow> econn_message \<Rightarrow> bool" where
  "sft_guard c msg \<longleftrightarrow>
     (em_msg_type msg = Some ECONN_CONF_CONN \<longrightarrow> u_confconn (em_u msg) \<noteq> None) \<and>
     (em_msg_type msg = Some ECONN_SETUP \<longrightarrow>
        (case u_setup (em_u msg) of None \<Rightarrow> False | Some su \<Rightarrow> su_url su \<noteq> Some [])) \<and>
     (em_msg_type msg \<noteq> Some ECONN_CONF_CONN \<longrightarrow> cl_ecall c = None \<longrightarrow> u_setup (em_u msg) \<noteq> None)"

lemma sft_to_ecall_inv:
  assumes "cl_inv c" and "cl_ecall c = None \<Longrightarrow> u_setup (em_u msg) \<noteq> None"
  shows "cl_inv (snd (sft_to_ecall env msg c))"
  using assms create_ecall_inv [OF assms(1), of env]
  by (cases "cl_ecall c = None") (auto simp: sft_to_ecall_def Let_def)

lemma set_state_ecall [simp]: "cl_ecall (set_state env s c) = cl_ecall c"
proof -
  have "cl_ecall (enter_state s d) = cl_ecall d" for d
    by (cases s) (simp_all add: enter_state.simps enter_waitconfig_def Let_def)
  then show ?thesis by (simp add: set_state_def Let_def)
qed

lemma sft_setup_ecall [simp]: "cl_ecall (sft_setup su c) = cl_ecall c"
  by (simp add: sft_setup_def Let_def cl_fail_def split: option.split)

lemma sft_msg_recv_inv:
  assumes "cl_inv c" and "\<And>msg. m = Some msg \<Longrightarrow> sft_guard c msg"
  shows "cl_inv (snd (ccall_sft_msg_recv env status m c))"
proof (cases m)
  case None
  have "cl_inv (set_state env CCALL_STATE_WAITNETWORK c)" if "cl_state c = CCALL_STATE_CONNSENT"
    using assms(1) that by (intro set_state_wait) (simp_all add: cl_waiting_def)
  then show ?thesis using assms(1) None by (simp add: ccall_sft_msg_recv_def)
next
  case (Some msg)
  note g = assms(2) [OF Some, unfolded sft_guard_def]
  have s: "cl_inv (set_state env CCALL_STATE_SETUPRECV c)" if "cl_state c = CCALL_STATE_CONNSENT"
    using assms(1) that by (intro set_state_wait) (simp_all add: cl_waiting_def)
  have "cl_inv (snd (sft_to_ecall env msg (sft_setup su (set_state env CCALL_STATE_SETUPRECV c))))"
    if "cl_state c = CCALL_STATE_CONNSENT" "em_msg_type msg = Some ECONN_SETUP" "u_setup (em_u msg) = Some su" for su
    using g that by (intro sft_to_ecall_inv sft_setup_inv s) auto
  moreover have "cl_inv (snd (sft_to_ecall env msg (set_state env CCALL_STATE_SETUPRECV c)))"
    if "cl_state c = CCALL_STATE_CONNSENT" "em_msg_type msg \<noteq> Some ECONN_CONF_CONN"
    using g that by (intro sft_to_ecall_inv s) auto
  moreover have "cl_inv (snd (sft_to_ecall env msg c))" if "em_msg_type msg \<noteq> Some ECONN_CONF_CONN"
    using g that assms(1) by (intro sft_to_ecall_inv) auto
  ultimately show ?thesis
    using assms(1) Some g by (auto simp: ccall_sft_msg_recv_def Let_def split: option.splits)
qed

subsection \<open>The machine\<close>

definition propsync_guard :: "cl_env \<Rightarrow> econn_message \<Rightarrow> bool" where
  "propsync_guard env msg \<longleftrightarrow>
     (case u_props (em_u msg) of
        None \<Rightarrow> False
      | Some props \<Rightarrow> keysync_epoch (ve_re env) props \<noteq> None \<and>
          list_all (\<lambda>k. econn_props_get (ve_re env) props (Some k) \<noteq> None) [''videosend'', ''screensend'', ''muted''])"

lemma propsync_states_Some:
  assumes "list_all (\<lambda>k. econn_props_get re props (Some k) \<noteq> None) [''videosend'', ''screensend'', ''muted'']"
  shows "propsync_get_states re props \<noteq> None"
  using assms by (auto simp: propsync_get_states_def Let_def)

lemma propsync_inv:
  assumes "cl_inv c" and "cl_env_ok env" and "propsync_guard env msg"
  shows "cl_inv (snd (ecall_propsync_handler env msg c))"
proof -
  obtain props where p: "u_props (em_u msg) = Some props" "keysync_epoch (ve_re env) props \<noteq> None"
    "list_all (\<lambda>k. econn_props_get (ve_re env) props (Some k) \<noteq> None) [''videosend'', ''screensend'', ''muted'']"
    using assms(3) by (auto simp: propsync_guard_def split: option.splits)
  obtain v m where vm: "propsync_get_states (ve_re env) props = Some (v, m)" using propsync_states_Some [OF p(3)] by auto
  have "econn_props_get (ve_re env) props (Some ''videosend'') \<noteq> None"
    "econn_props_get (ve_re env) props (Some ''muted'') \<noteq> None" using p(3) by simp_all
  then show ?thesis
    using assms(1) p(1,2) vm propsync_user_inv [OF assms(1,2)]
    by (auto simp: ecall_propsync_handler_def split: option.split)
qed

text \<open>
  What the code takes for granted of an event. Messages have the union member of their type; an announcement has
  an address that is not empty, servers with addresses that are not empty, and a secret of at least four bytes; a
  SETUP of the server has no empty address, and one that comes before there is a connection is a SETUP; the
  properties of a PROPSYNC are strings and its epoch is a number; a list of participants names
  no empty address and, in a meeting with a duration, a time that is not before its start; the duration
  fits. A key is not rotated at the largest index. With info lines in the log, the duration of a
  meeting does not expire and no media is established while the connection request is out: their log lines lack an argument.
\<close>

fun ev_guard :: "cl_env \<Rightarrow> ccall \<Rightarrow> cl_event \<Rightarrow> bool" where
  "ev_guard env c (EvDuration d) = (0 \<le> d \<and> int_ok (d * 1000))"
| "ev_guard env c (EvMsg _ _ msg) = msg_guard msg"
| "ev_guard env c (EvSft _ m) = (case m of None \<Rightarrow> True | Some msg \<Rightarrow> sft_guard c msg)"
| "ev_guard env c (EvTimer t) =
     ((t = Tmr_rotate_key \<longrightarrow> list_all (\<lambda>k. ki_index k \<noteq> 0xffffffff) (ks_keyl (cl_keystore c))) \<and>
      (t = Tmr_duration \<longrightarrow> \<not> ve_log_info env))"
| "ev_guard env c (EvMediaEstab ec _ _ _) =
     (cl_ecall c = Some ec \<and> cl_state c = CCALL_STATE_CONNSENT \<longrightarrow> \<not> ve_log_info env)"
| "ev_guard env c (EvPropsync msg) = propsync_guard env msg"
| "ev_guard env c (EvConfmsg _ msg) =
     (em_msg_type msg = Some ECONN_CONF_PART \<longrightarrow>
        (case u_confpart (em_u msg) of None \<Rightarrow> False | Some cp \<Rightarrow> confpart_guard c cp))"
| "ev_guard env c _ = True"

definition cl_guard :: "ccall \<Rightarrow> cl_env \<times> cl_event \<Rightarrow> bool" where
  "cl_guard c ev \<longleftrightarrow> cl_env_ok (fst ev) \<and> ev_guard (fst ev) c (snd ev)"

lemma timer_inv:
  assumes "cl_inv c" and "cl_env_ok env" and "ev_guard env c (EvTimer t)"
  shows "cl_inv (cl_timeout env t (cancel_tmrs [t] c))"
proof (cases "t = Tmr_connect")
  case True
  have "cl_ok (cancel_tmrs [t] c)" using assms(1) by (simp add: cancel_tmrs_def cl_inv_def cl_ok_def)
  then show ?thesis using True end_with_err_inv(1)
    by (cases "cl_state c = CCALL_STATE_ACTIVE")
       (simp_all add: ccall_connect_timeout_def cl_inv_def cl_live_def cl_waiting_def)
next
  case False
  let ?c = "cancel_tmrs [t] c"
  have c: "cl_inv ?c" using assms(1) False by simp
  have "cl_inv (ccall_rotate_key_timeout env ?c)" if "t = Tmr_rotate_key"
    by (rule rotate_key_inv [OF c assms(2)]) (use assms(3) that in \<open>simp add: list_all_iff\<close>)
  then show ?thesis
    using False timeouts_inv [OF c] c assms(2,3) by (cases t) simp_all
qed

lemma confmsg_inv:
  assumes "cl_inv c" and "cl_env_ok env" and "ev_guard env c (EvConfmsg ec msg)"
  shows "cl_inv (ecall_confmsg_handler env ec msg c)"
  using assms confpart_inv [OF assms(1,2)] by (auto simp: ecall_confmsg_handler_def split: option.splits)

lemma set_duration_inv: "cl_inv c \<Longrightarrow> 0 \<le> d \<Longrightarrow> int_ok (d * 1000) \<Longrightarrow> cl_inv (ccall_set_duration d c)"
  by (simp add: ccall_set_duration_def cl_inv_def cl_ok_def cl_live_def)

lemma cl_do_inv:
  assumes "cl_inv c" and "cl_env_ok env" and "ev_guard env c ev"
  shows "cl_inv (cl_do env c ev)"
proof (cases ev)
  case (EvTimer t)
  then show ?thesis using timer_inv [OF assms(1,2)] assms(1,3) by simp
next
  case (EvConfmsg ec msg)
  then show ?thesis using confmsg_inv [OF assms(1,2)] assms(3) by simp
next
  case (EvSft status m)
  then show ?thesis using sft_msg_recv_inv [OF assms(1), of m env status] assms(3) by (cases m) simp_all
qed (use assms api_inv [OF assms(1)] set_clients_inv [OF assms(1,2)] request_video_streams_inv [OF assms(1)]
      set_media_key_inv [OF assms(1,2)] msg_recv_inv [OF assms(1,2)] config_update_inv [OF assms(1,2)]
      setup_handler_inv [OF assms(1)] estab_inv [OF assms(1)] aulevel_inv [OF assms(1)] close_inv [OF assms(1)]
      quality_inv [OF assms(1)] transp_inv [OF assms(1)] timeouts_inv [OF assms(1)] propsync_inv [OF assms(1,2)]
      set_duration_inv [OF assms(1)] set_vstate_inv [OF assms(1)] in simp_all)

interpretation clm: inv_machine cl_step cl_guard cl_inv
proof unfold_locales
  fix c ev
  assume "cl_inv c" and "cl_guard c ev"
  then have "cl_inv (cl_do (fst ev) c (snd ev))" by (auto simp: cl_guard_def intro: cl_do_inv)
  then show "\<exists>c'. cl_step c ev = Some c' \<and> cl_inv c'" by (simp add: cl_step_def Let_def cl_invD(1))
qed

lemma alloc_inv:
  assumes "cl_env_ok env" and "ccall_alloc env convid userid clientid mls meeting = (OK, Some c)"
  shows "cl_inv c"
proof -
  let ?h = "\<lparr>uh_addh = True, uh_removeh = True, uh_synch = True, uh_kgchangeh = True, uh_vstateh = True\<rparr>"
  obtain cid where cid: "convid = Some cid" using assms(2) by (cases convid) (simp_all add: ccall_alloc_def)
  obtain ul where ul: "userlist_alloc True True userid clientid ?h = (OK, Some ul)" "ul_inv ul"
    by (simp add: userlist_alloc_def userinfo_alloc_def ul_inv_def)
  obtain ks where ks: "keystore_alloc True OK (now env) (\<not> mls) = (OK, Some ks)" by (simp add: keystore_alloc_def)
  have "cl_inv ((ccall_init cid ul ks mls meeting)\<lparr>cl_convid_hash := Some []\<rparr>)"
    using ul(2) keystore_alloc_inv [OF ks]
    by (simp add: ccall_init_def cl_inv_def cl_ok_def cl_live_def cl_waiting_def int_ok_def)
  moreover have "c = ccall_set_secret env (ve_rand env CCALL_SECRET_LEN) (ccall_init cid ul ks mls meeting)"
    using assms(2) by (simp add: ccall_alloc_def cid ul(1) ks)
  ultimately show ?thesis
    using cl_env_okD(5) [OF assms(1)] by (simp add: set_secret_inv0 [OF _ assms(1)] CCALL_SECRET_LEN_def)
qed

end
