(* ===== verification/Ccall_Props.thy ===== *)
theory Ccall_Props
  imports Ccall_Inv "HOL-Library.Product_Lexorder"
begin

text \<open>
  What a conference promises: that its parts never reach undefined behaviour together, that it does not
  hang, who gives and who gets keys, and which of several calls is joined.
\<close>

section \<open>Properties\<close>

subsection \<open>The run of a conference\<close>

lemma run_reached:
  assumes "cl_env_ok env" and "ccall_alloc env convid userid clientid mls meeting = (OK, Some c)"
    and "guarded cl_step cl_guard c evs"
  shows "\<exists>c'. run cl_step c evs = Some c' \<and> cl_inv c'"
  by (rule clm.run_inv [OF alloc_inv [OF assms(1,2)] assms(3)])

lemma waiting_timer:
  assumes "cl_inv c" and "cl_state c \<in> cl_waiting"
  shows "cl_tmr c Tmr_connect = Some CCALL_CONNECT_TIMEOUT"
    and "cl_state (cl_do env c (EvTimer Tmr_connect)) \<in> {CCALL_STATE_IDLE, CCALL_STATE_TERMINATING}"
proof -
  show t: "cl_tmr c Tmr_connect = Some CCALL_CONNECT_TIMEOUT"
    using assms by (simp add: cl_inv_def cl_live_def)
  have "cl_ok (cancel_tmrs [Tmr_connect] c)" using assms(1) by (simp add: cancel_tmrs_def cl_inv_def cl_ok_def)
  moreover have "cl_state c \<noteq> CCALL_STATE_ACTIVE" using assms(2) by (auto simp: cl_waiting_def)
  ultimately show "cl_state (cl_do env c (EvTimer Tmr_connect)) \<in> {CCALL_STATE_IDLE, CCALL_STATE_TERMINATING}"
    using t end_with_err_inv(2) [of "cancel_tmrs [Tmr_connect] c" env ETIMEDOUT]
    by (simp add: ccall_connect_timeout_def)
qed

text \<open>Nothing that was reported is taken back.\<close>

lemma set_state_trace: "set (cl_trace d) \<subseteq> set (cl_trace (set_state env s d))"
proof -
  have "cl_trace (enter_state s d) = cl_trace d" for d
    by (cases s) (simp_all add: enter_state.simps enter_waitconfig_def Let_def prim_defs)
  then show ?thesis by (auto simp: set_state_def Let_def cl_act_def)
qed

lemma send_msg_i_trace: "set (cl_trace c) \<subseteq> set (cl_trace (snd (ccall_send_msg_i env type resp targets tr mine c)))"
  by (auto simp: ccall_send_msg_i_def Let_def cl_fail_def cl_act_def split: option.split prod.split err.split)

lemma send_msg_i_state [simp]: "cl_state (snd (ccall_send_msg_i env type resp targets tr mine c)) = cl_state c"
  by (simp add: ccall_send_msg_i_def Let_def prim_defs split: option.split prod.split err.split)

lemma stop_others_trace: "set (cl_trace c) \<subseteq> set (cl_trace (ccall_stop_others_ringing env c))"
  using send_msg_i_trace [of "c\<lparr>cl_stop_ringing_reason := CCALL_STOP_RINGING_NONE\<rparr>" env]
  by (auto simp: ccall_stop_others_ringing_def ccall_stop_others_ringing_i_def cl_act_def Let_def
      split: sreason.split prod.split)

lemma stop_others_state [simp]: "cl_state (ccall_stop_others_ringing env c) = cl_state c"
  by (simp add: ccall_stop_others_ringing_def ccall_stop_others_ringing_i_def Let_def split: sreason.split prod.split)

text \<open>Before there is a connection the application is told that the call timed out.\<close>

lemma end_with_err_leave:
  assumes "cl_state c \<in> {CCALL_STATE_CONNSENT, CCALL_STATE_INCOMING, CCALL_STATE_WAITCONFIG,
                          CCALL_STATE_WAITCONFIG_OUTGOING, CCALL_STATE_WAITNETWORK}"
  shows "Leaveh (end_reason e) ECONN_MESSAGE_TIME_UNKNOWN \<in> set (cl_trace (ccall_end_with_err env e c))"
proof -
  let ?c = "cl_act (Leaveh (end_reason e) ECONN_MESSAGE_TIME_UNKNOWN)
              (set_state env CCALL_STATE_IDLE (c\<lparr>cl_error := e\<rparr>))"
  let ?d = "with_ul (\<lambda>ul. userlist_incall_clear ul False False) ?c"
  have l: "Leaveh (end_reason e) ECONN_MESSAGE_TIME_UNKNOWN \<in> set (cl_trace ?d)" by (simp add: cl_act_def with_ul_def)
  have "ccall_end_with_err env e c = (if cl_ecall ?d \<noteq> None \<and> ve_has_econn env then snd (ecall_do env EcEnd ?d)
      else set_state env CCALL_STATE_IDLE ?d)"
    using assms by (auto simp: ccall_end_with_err_def Let_def)
  moreover have "set (cl_trace ?d) \<subseteq> set (cl_trace (snd (ecall_do env EcEnd ?d)))"
    by (auto simp: ecall_do_def cl_act_def split: option.split)
  ultimately show ?thesis using l set_state_trace [of ?d env CCALL_STATE_IDLE] by auto
qed

subsection \<open>Keys\<close>

lemma send_msg_keystore [simp]: "cl_keystore (snd (ccall_send_msg env type resp targets tr c)) = cl_keystore c"
  by (simp add: ccall_send_msg_def ccall_send_msg_i_def Let_def prim_defs split: option.split prod.split err.split)

lemma send_keys_keystore [simp]: "cl_keystore (snd (ccall_send_keys env all c)) = cl_keystore c"
  by (simp add: ccall_send_keys_def Let_def split: prod.split)

text \<open>A key message: its sender has the elected key generator's ids.\<close>

definition from_keygenerator :: "cl_env \<Rightarrow> ccall \<Rightarrow> string option \<Rightarrow> string option \<Rightarrow> bool" where
  "from_keygenerator env c userid clientid \<longleftrightarrow>
     (\<exists>kg \<in> set (ul_users (cl_userl c)). ul_keygenerator (cl_userl c) = Some (Kg_user (ui_addr kg)) \<and>
        ui_userid_real kg \<noteq> None \<and> ui_clientid_real kg \<noteq> None \<and>
        ue_caseeq (ve_ul env) userid (ui_userid_real kg) \<and> ue_caseeq (ve_ul env) clientid (ui_clientid_real kg))"

lemma confkey_resp_other:
  assumes "\<not> from_keygenerator env c userid clientid"
  shows "cl_keystore (confkey_resp env userid clientid keyl c) = cl_keystore c"
proof (cases "ul_keygenerator (cl_userl c)")
  case (Some ref)
  show ?thesis
  proof (cases ref)
    case (Kg_user a)
    have "from_keygenerator env c userid clientid"
      if "List.find (\<lambda>u. ui_addr u = a) (ul_users (cl_userl c)) = Some kg"
        "ui_userid_real kg \<noteq> None" "ui_clientid_real kg \<noteq> None"
        "ue_caseeq (ve_ul env) userid (ui_userid_real kg)" "ue_caseeq (ve_ul env) clientid (ui_clientid_real kg)" for kg
      using that Some Kg_user unfolding from_keygenerator_def by (auto simp: find_Some_iff)
    then show ?thesis
      using assms Some Kg_user
      by (auto simp: confkey_resp_def userlist_get_keygenerator_def kg_me_def userlist_is_keygenerator_me_def kg_info_def
          cl_fail_def split: option.split)
  qed (use Some in \<open>simp add: confkey_resp_def userlist_get_keygenerator_def kg_me_def userlist_is_keygenerator_me_def\<close>)
qed (simp add: confkey_resp_def userlist_get_keygenerator_def)

text \<open>The index of a new session key.\<close>

definition fresh_index :: "ccall \<Rightarrow> u32" where
  "fresh_index c = (keystore_get_max_key (cl_keystore c) OR 0xFFFF) + 1 + (if cl_became_kg c then 0x10000 else 0)"

lemma generate_key_stored:
  assumes "cl_env_ok env" and "cl_inv c" and "ccall_generate_session_key env False c = (OK, c')"
  shows "\<exists>k \<in> set (ks_keyl (cl_keystore c')). ki_index k = fresh_index c"
proof -
  let ?f = "\<lambda>ks. keystore_set_fresh_session_key (ve_ks env) ks (fresh_index c)
              (Some (ve_rand env E2EE_SESSIONKEY_SIZE)) (confpart_salt c)"
  obtain e d where r: "ks_do ?f OK (c\<lparr>cl_became_kg := False\<rparr>) = (e, d)" by fastforce
  then have g: "ccall_generate_session_key env False c = (if e \<noteq> OK then (e, d) else ccall_send_keys env True d)"
    by (simp add: ccall_generate_session_key_def fresh_index_def)
  then have ok: "e = OK" "ccall_send_keys env True d = (OK, c')" using assms(3) by (auto split: if_splits)
  have k: "cl_keystore c' = cl_keystore d" using send_keys_keystore [of env True d] unfolding ok(2) by simp
  have "ks_guard (cl_keystore c) (ve_ks env, OpSetFreshSessionKey (fresh_index c)
      (Some (ve_rand env E2EE_SESSIONKEY_SIZE)) (confpart_salt c))"
    using cl_env_okD(1) [OF assms(1)] by (simp add: ks_guard_def)
  from ksm.inv_step [OF cl_invD(2) [OF assms(2)] this] obtain x ks where x: "?f (cl_keystore c) = Some (x, ks)" by auto
  then have "x = OK" "cl_keystore d = ks" using r ok(1) by (auto simp: ks_do_def)
  then obtain key where "keystore_set_session_key (ve_ks env) (cl_keystore c) (fresh_index c) key = Some (OK, ks)"
    using x by (auto simp: keystore_set_fresh_session_key_def split: option.splits)
  from set_session_key_stored [OF cl_env_okD(1) [OF assms(1)] cl_invD(2) [OF assms(2)] this] show ?thesis
    using k \<open>cl_keystore d = ks\<close> by auto
qed

lemma or_mask: "(x :: nat) OR mask n = x div 2 ^ n * 2 ^ n + mask n"
proof -
  have "push_bit n (drop_bit n x) + mask n = push_bit n (drop_bit n x) OR mask n"
    by (rule disjunctive_add) (auto simp: bit_simps)
  also have "\<dots> = x OR mask n" by (rule bit_eqI) (auto simp: bit_simps)
  finally show ?thesis by (simp add: push_bit_eq_mult drop_bit_eq_div)
qed

lemma fresh_index_bounds:
  assumes "keystore_get_max_key (cl_keystore c) < 0xFFFE0000"
  shows "keystore_get_max_key (cl_keystore c) < fresh_index c" and "unat (fresh_index c) mod 0x10000 = 0"
proof -
  let ?m = "keystore_get_max_key (cl_keystore c)"
  have m: "unat ?m < 0xFFFE0000" using assms by (simp add: word_less_nat_alt)
  have "mask 16 = (65535 :: nat)" by (simp add: mask_eq_exp_minus_1)
  then have o: "unat (?m OR 0xFFFF) = unat ?m div 65536 * 65536 + 65535"
    using or_mask [of "unat ?m" 16] by (simp add: unsigned_or_eq)
  define k :: u32 where "k = (if cl_became_kg c then 0x10000 else 0)"
  have "unat ?m div 65536 \<le> 65533" using m by simp
  then have "unat (?m OR 0xFFFF) + 1 + unat k < 2 ^ 32" using o by (simp add: k_def)
  then have f: "unat (fresh_index c) = unat ?m div 65536 * 65536 + 65535 + 1 + unat k"
    using o unfolding fresh_index_def k_def [symmetric] by (simp add: unat_word_ariths)
  have "unat ?m < unat ?m div 65536 * 65536 + 65536"
    using mod_less_divisor [of 65536 "unat ?m"] div_mult_mod_eq [of "unat ?m" 65536] by linarith
  then show "?m < fresh_index c" using f by (simp add: word_less_nat_alt)
  show "unat (fresh_index c) mod 0x10000 = 0" using f by (simp add: k_def)
qed

lemma max_key_bound:
  assumes "ks_inv ks" and "k \<in> set (ks_keyl ks)"
  shows "ki_index k \<le> keystore_get_max_key ks"
proof -
  have s: "sorted_wrt (\<lambda>a b. ki_index a < ki_index b) (ks_keyl ks)" using assms(1) by (simp add: ks_inv_def keys_wf_def)
  have "ks_keyl ks \<noteq> []" using assms(2) by auto
  then have e: "ks_keyl ks = butlast (ks_keyl ks) @ [last (ks_keyl ks)]" by simp
  then have "k \<in> set (butlast (ks_keyl ks)) \<or> k = last (ks_keyl ks)" using assms(2) by (metis Un_iff empty_iff empty_set list.simps(15) insert_iff set_append)
  moreover have "sorted_wrt (\<lambda>a b. ki_index a < ki_index b) (butlast (ks_keyl ks) @ [last (ks_keyl ks)])" using s e by simp
  ultimately have "ki_index k \<le> ki_index (last (ks_keyl ks))" by (auto simp: sorted_wrt_append)
  then show ?thesis
    using assms(2) by (auto simp: keystore_get_max_key_def keystore_get_latest_def get_latest_last split: option.split)
qed

subsection \<open>The start of a call\<close>

text \<open>What identifies the call: its time and number, its server and its secret.\<close>

definition call_key :: "ccall \<Rightarrow> nat \<times> nat" where
  "call_key c = (unat (cl_sft_timestamp c), unat (cl_sft_seqno c))"

definition start_key :: "econn_confstart \<Rightarrow> nat \<times> nat" where
  "start_key cs = (unat (cs_timestamp cs), unat (cs_seqno cs))"

lemma uint_small: "unat (a :: u32) < 2 ^ 31 \<Longrightarrow> uint a < 2 ^ 31"
proof -
  assume "unat a < 2 ^ 31"
  then have "int (unat a) < int (2 ^ 31)" by (simp only: of_nat_less_iff)
  then show ?thesis by simp
qed

lemma sint_small: "unat (a :: u32) < 2 ^ 31 \<Longrightarrow> sint a = uint a"
proof -
  assume "unat a < 2 ^ 31"
  moreover have "- (2 ^ 31) \<le> uint a" by (rule order_trans [OF _ uint_ge_0]) simp
  ultimately have "signed_take_bit 31 (uint a) = uint a" by (intro signed_take_bit_int_eq_self uint_small)
  then show ?thesis by (simp add: sint_uint)
qed

lemma sint_diff:
  assumes "unat (a :: u32) < 2 ^ 31" and "unat b < 2 ^ 31"
  shows "sint (a - b) = uint a - uint b"
proof -
  have "signed_take_bit 31 (uint a - uint b) = uint a - uint b"
    using uint_small [OF assms(1)] uint_small [OF assms(2)] uint_ge_0 [of a] uint_ge_0 [of b]
    by (intro signed_take_bit_int_eq_self) linarith+
  then show ?thesis using sint_small [OF assms(1)] sint_small [OF assms(2)] by (simp add: sint_word_diff)
qed

text \<open>The comparison of the code is the order of the keys as long as the numbers are below \<open>2 ^ 31\<close>.\<close>

lemma confstart_cmp_key:
  assumes "unat (cl_sft_seqno c) < 2 ^ 31" and "unat (cs_seqno cs) < 2 ^ 31" and "cl_sft_timestamp c \<noteq> 0"
  shows "0 < confstart_cmp c cs \<longleftrightarrow> start_key cs < call_key c"
    and "0 \<le> confstart_cmp c cs \<longleftrightarrow> start_key cs \<le> call_key c"
proof -
  have u1: "uint x < uint y \<longleftrightarrow> unat x < unat y" for x y :: u32
    using of_nat_less_iff [of "unat x" "unat y", where 'a = int] by simp
  then have u: "uint x \<le> uint y \<longleftrightarrow> \<not> unat y < unat x" for x y :: u32 by (simp add: linorder_not_less [symmetric])
  consider "unat (cs_timestamp cs) < unat (cl_sft_timestamp c)" | "unat (cl_sft_timestamp c) < unat (cs_timestamp cs)"
    | "cs_timestamp cs = cl_sft_timestamp c" by (metis linorder_neqE_nat word_unat_eq_iff)
  then have "(0 < confstart_cmp c cs \<longleftrightarrow> start_key cs < call_key c) \<and> (0 \<le> confstart_cmp c cs \<longleftrightarrow> start_key cs \<le> call_key c)"
  proof cases
    case 3
    then have "confstart_cmp c cs = uint (cl_sft_seqno c) - uint (cs_seqno cs)"
      using sint_diff [OF assms(1,2)] assms(3) by (simp add: confstart_cmp_def)
    then show ?thesis using 3 by (auto simp: start_key_def call_key_def u u1)
  qed (use assms(3) in \<open>simp_all add: confstart_cmp_def start_key_def call_key_def word_less_nat_alt\<close>)
  then show "0 < confstart_cmp c cs \<longleftrightarrow> start_key cs < call_key c"
    "0 \<le> confstart_cmp c cs \<longleftrightarrow> start_key cs \<le> call_key c" by blast+
qed

text \<open>A message that counts, in a conference that is not joined.\<close>

definition confstart_msg :: "econn_message \<Rightarrow> econn_confstart \<Rightarrow> bool" where
  "confstart_msg msg cs \<longleftrightarrow> confstart_of msg = Some (OK, cs, True) \<and> start_ok cs \<and> cs_timestamp cs \<noteq> 0 \<and>
     unat (cs_seqno cs) < 2 ^ 31"

definition call_of :: "ccall \<Rightarrow> (nat \<times> nat) \<times> string option \<times> bytes" where
  "call_of c = (call_key c, cl_primary_sft_url c, cl_secret c)"

definition start_of :: "econn_confstart \<Rightarrow> (nat \<times> nat) \<times> string option \<times> bytes" where
  "start_of cs = (start_key cs, copy_sft (cs_sft_url cs), the (cs_secret cs))"

lemma set_state_call [simp]: "call_of (set_state env CCALL_STATE_INCOMING c) = call_of c"
  by (simp add: set_state_def Let_def enter_state.simps call_of_def call_key_def prim_defs)

lemma call_of_prims [simp]:
  "call_of (cl_act a c) = call_of c" "call_of (start_tmr t d c) = call_of c" "call_of (cancel_tmrs ts c) = call_of c"
  "call_of (c\<lparr>cl_is_ringing := b\<rparr>) = call_of c" "call_of (c\<lparr>cl_sftl := xs\<rparr>) = call_of c"
  "call_of (with_ul f c) = call_of c" "call_of (c\<lparr>cl_is_caller := b\<rparr>) = call_of c" "call_of (with_ks g c) = call_of c"
  "call_of (snd (ecall_do env call c)) = call_of c"
  by (simp_all add: call_of_def call_key_def prim_defs ecall_do_def split: option.split)

lemma adopt_call:
  assumes "cl_inv c" and "cl_env_ok env" and "start_ok cs"
  shows "call_of (confstart_adopt env cs c) = start_of cs" "cl_state (confstart_adopt env cs c) = cl_state c"
proof -
  obtain url where url: "copy_sft (cs_sft_url cs) = Some url"
    using copy_sft_Some [of "cs_sft_url cs"] assms(3) by (auto simp: start_ok_def)
  obtain secret where s: "cs_secret cs = Some secret" "4 \<le> length secret"
    using assms(3) by (auto simp: start_ok_def split: option.splits)
  let ?c = "with_ks keystore_reset (c\<lparr>cl_primary_sft_url := Some url, cl_sft_tuple := cs_sft_tuple cs,
               cl_sft_timestamp := cs_timestamp cs, cl_sft_seqno := cs_seqno cs\<rparr>)"
  have "ul_inv (cl_userl ?c)" using cl_invD(3) [OF assms(1)] by simp
  from set_secret_cl [OF assms(2) s(2) this] obtain h ul where
    "ccall_set_secret env secret ?c =
       (let c = with_ks (\<lambda>ks. keystore_set_salt True (now env) ks (Some (bytes_of h)))
                  (?c\<lparr>cl_secret := secret, cl_convid_hash := Some h, cl_userl := ul\<rparr>)
        in if cl_ecall c \<noteq> None then snd (ecall_do env (EcSetSessid (Some h)) c) else c)" by metis
  then have "call_of (ccall_set_secret env secret ?c) = call_of (?c\<lparr>cl_secret := secret\<rparr>)"
    "cl_state (ccall_set_secret env secret ?c) = cl_state c"
    by (simp_all add: Let_def) (simp_all add: call_of_def call_key_def with_ks_def)
  then show "call_of (confstart_adopt env cs c) = start_of cs" "cl_state (confstart_adopt env cs c) = cl_state c"
    using url s(1) by (simp_all add: confstart_adopt_def Let_def)
      (simp add: call_of_def call_key_def start_of_def start_key_def with_ks_def)
qed

lemma confstart_states:
  "call_of (confstart_ring env u cid msg cs n c) = call_of c" "call_of (confstart_again env u cs n c) = call_of c"
  "cl_state (confstart_ring env u cid msg cs n c) = CCALL_STATE_INCOMING"
  "cl_state (confstart_again env u cs n c) = cl_state c"
  by (simp_all add: confstart_ring_def confstart_again_def ring_stopped_def Let_def)

lemma confstart_step:
  assumes "cl_inv c" and "cl_env_ok env" and "confstart_msg msg cs"
    and "cl_state c \<in> {CCALL_STATE_IDLE, CCALL_STATE_INCOMING}"
  shows "call_of (snd (ccall_msg_recv env (Some u) (Some cid) msg c)) =
           (if 0 < confstart_cmp c cs then start_of cs else call_of c)"
    and "cl_state (snd (ccall_msg_recv env (Some u) (Some cid) msg c)) = CCALL_STATE_INCOMING"
    and "cl_inv (snd (ccall_msg_recv env (Some u) (Some cid) msg c))"
proof -
  have ok: "start_ok cs" and m: "confstart_of msg = Some (OK, cs, True)" using assms(3) by (simp_all add: confstart_msg_def)
  define d where "d = (if 0 < confstart_cmp c cs then confstart_adopt env cs c else c)"
  have d: "call_of d = (if 0 < confstart_cmp c cs then start_of cs else call_of c)" "cl_state d = cl_state c" "cl_inv d"
    using adopt_call [OF assms(1,2) ok] adopt_inv [OF assms(1,2) ok] assms(1) by (simp_all add: d_def)
  have t: "em_msg_type msg \<in> {Some ECONN_CONF_START, Some ECONN_CONF_CHECK}"
    using m by (auto simp: confstart_of_def split: if_splits)
  have r: "ccall_msg_recv env (Some u) (Some cid) msg c = confstart_state env u cid msg cs (confstart_cmp c cs) d"
    using t m by (auto simp: ccall_msg_recv_def ccall_handle_confstart_check_def d_def Let_def)
  show "cl_inv (snd (ccall_msg_recv env (Some u) (Some cid) msg c))"
    unfolding r by (rule confstart_state_inv [OF d(3) ok])
  show "cl_state (snd (ccall_msg_recv env (Some u) (Some cid) msg c)) = CCALL_STATE_INCOMING"
    "call_of (snd (ccall_msg_recv env (Some u) (Some cid) msg c)) =
           (if 0 < confstart_cmp c cs then start_of cs else call_of c)"
    using assms(4) d(1,2) unfolding r by (auto simp: confstart_state_def confstart_states)
qed

text \<open>Messages that announce calls, one after the other, with their senders.\<close>

definition start_data :: "econn_message \<Rightarrow> econn_confstart" where
  "start_data msg = fst (snd (the (confstart_of msg)))"

definition counts :: "econn_message \<Rightarrow> bool" where
  "counts msg \<longleftrightarrow> confstart_msg msg (start_data msg)"

definition recv_all :: "cl_env \<Rightarrow> (string \<times> string \<times> econn_message) list \<Rightarrow> ccall \<Rightarrow> ccall" where
  "recv_all env ms c = fold (\<lambda>(u, cid, msg) c. snd (ccall_msg_recv env (Some u) (Some cid) msg c)) ms c"

lemma call_of_start:
  assumes "call_of c = start_of s" and "cs_timestamp s \<noteq> 0" and "unat (cs_seqno s) < 2 ^ 31"
  shows "call_key c = start_key s" "cl_sft_timestamp c \<noteq> 0" "unat (cl_sft_seqno c) < 2 ^ 31"
proof -
  show k: "call_key c = start_key s" using assms(1) by (simp add: call_of_def start_of_def)
  then have "unat (cl_sft_timestamp c) = unat (cs_timestamp s)" "unat (cl_sft_seqno c) = unat (cs_seqno s)"
    by (simp_all add: call_key_def start_key_def)
  then show "cl_sft_timestamp c \<noteq> 0" "unat (cl_sft_seqno c) < 2 ^ 31"
    using assms(2,3) by (auto simp: unat_eq_zero)
qed

lemma recv_all_min:
  assumes "cl_env_ok env"
  shows "cl_inv c \<Longrightarrow> cl_state c \<in> {CCALL_STATE_IDLE, CCALL_STATE_INCOMING} \<Longrightarrow> \<forall>m \<in> set ms. counts (snd (snd m)) \<Longrightarrow>
    call_of c = start_of s \<Longrightarrow> cs_timestamp s \<noteq> 0 \<Longrightarrow> unat (cs_seqno s) < 2 ^ 31 \<Longrightarrow>
    \<exists>t \<in> insert s ((\<lambda>m. start_data (snd (snd m))) ` set ms). call_of (recv_all env ms c) = start_of t \<and>
      (\<forall>x \<in> insert s ((\<lambda>m. start_data (snd (snd m))) ` set ms). start_key t \<le> start_key x)"
proof (induction ms arbitrary: c s)
  case (Cons m ms)
  obtain u cid msg where m: "m = (u, cid, msg)" by (cases m)
  let ?cs = "start_data msg"
  have cm: "confstart_msg msg ?cs" using Cons.prems(3) m by (simp add: counts_def)
  then have n: "cs_timestamp ?cs \<noteq> 0" "unat (cs_seqno ?cs) < 2 ^ 31" by (simp_all add: confstart_msg_def)
  define d where "d = snd (ccall_msg_recv env (Some u) (Some cid) msg c)"
  define t where "t = (if start_key ?cs < start_key s then ?cs else s)"
  note step = confstart_step [OF Cons.prems(1) assms cm Cons.prems(2), of u cid]
  note k = call_of_start [OF Cons.prems(4-6)]
  have "call_of d = start_of t"
    using step(1) confstart_cmp_key(1) [OF k(3) n(2) k(2)] k(1) Cons.prems(4) by (simp add: d_def t_def)
  moreover have "cs_timestamp t \<noteq> 0" "unat (cs_seqno t) < 2 ^ 31" using n Cons.prems(5,6) by (simp_all add: t_def)
  moreover have "cl_inv d" "cl_state d \<in> {CCALL_STATE_IDLE, CCALL_STATE_INCOMING}" using step(2,3) by (simp_all add: d_def)
  ultimately obtain r where r: "r \<in> insert t ((\<lambda>m. start_data (snd (snd m))) ` set ms)"
      "call_of (recv_all env ms d) = start_of r"
      "\<forall>x \<in> insert t ((\<lambda>m. start_data (snd (snd m))) ` set ms). start_key r \<le> start_key x"
    using Cons.IH [of d t] Cons.prems(3) by auto
  have "recv_all env (m # ms) c = recv_all env ms d" by (simp add: recv_all_def m d_def)
  moreover have "start_key t \<le> start_key s" "start_key t \<le> start_key ?cs" by (auto simp: t_def)
  then have "start_key r \<le> start_key s" "start_key r \<le> start_key ?cs" using r(3) by force+
  ultimately show ?case using r by (intro bexI [of _ r]) (auto simp: m t_def split: if_splits)
qed (simp add: recv_all_def)

lemma recv_all_earliest:
  assumes "cl_env_ok env" and "cl_inv c" and "cl_state c = CCALL_STATE_IDLE" and "cl_sft_timestamp c = 0"
    and "\<forall>m \<in> set ms. counts (snd (snd m))" and "ms \<noteq> []"
  shows "\<exists>m \<in> set ms. call_of (recv_all env ms c) = start_of (start_data (snd (snd m))) \<and>
           (\<forall>m' \<in> set ms. start_key (start_data (snd (snd m))) \<le> start_key (start_data (snd (snd m'))))"
proof -
  obtain u cid msg ns where ms: "ms = (u, cid, msg) # ns" using assms(6) by (metis list.exhaust prod_cases3)
  let ?cs = "start_data msg"
  have cm: "confstart_msg msg ?cs" using assms(5) ms by (simp add: counts_def)
  define d where "d = snd (ccall_msg_recv env (Some u) (Some cid) msg c)"
  have st: "cl_state c \<in> {CCALL_STATE_IDLE, CCALL_STATE_INCOMING}" using assms(3) by simp
  note step = confstart_step [OF assms(2,1) cm st, of u cid, folded d_def]
  have "call_of d = start_of ?cs" using step(1) assms(4) by (simp add: confstart_cmp_def)
  moreover have "recv_all env ms c = recv_all env ns d" by (simp add: recv_all_def ms d_def)
  ultimately show ?thesis
    using recv_all_min [OF assms(1) step(3), of ns ?cs] step(2) cm assms(5) by (auto simp: ms confstart_msg_def)
qed

section \<open>A concrete conference\<close>

text \<open>
  One server, two users \<open>a\<close> and \<open>b\<close>; the digest is the sum of the bytes, in 32 copies.
\<close>

definition conf_cfg :: config where
  "conf_cfg = (the (snd (config_alloc True True False)))\<lparr>cf_config :=
     \<lparr>cfg_iceserverv = None, cfg_iceserverc = 0,
      cfg_sftserverv = Some [\<lparr>ice_url = ''s/'', ice_username = [], ice_credential = []\<rparr>], cfg_sftserverc = 1,
      cfg_sftservers_allv = None, cfg_sftservers_allc = 0, cfg_sfticeserverv = None, cfg_sfticeserverc = 0,
      cfg_is_federating = False\<rparr>\<rparr>"

definition conf_env :: cl_env where
  "conf_env = \<lparr>ve_ks = demo_env\<lparr>env_now := 100000\<rparr>,
     ve_ul = demo_ul\<lparr>ue_sha256 := (\<lambda>ps. (OK, replicate 32 (sum_list (concat ps))))\<rparr>,
     ve_re = wire_re, ve_rand = (\<lambda>n. replicate n 9), ve_muted = False, ve_msys_env = 0, ve_version_str = ''v'',
     ve_version_short = ''v'', ve_cfg = conf_cfg, ve_req_err = OK, ve_sendh = (\<lambda>_. OK), ve_sfth = (\<lambda>_ _. OK),
     ve_ecall = (\<lambda>_. OK), ve_has_econn = True, ve_log_info = False\<rparr>"

lemma conf_env_ok: "cl_env_ok conf_env"
proof -
  have "take n s \<noteq> []" if "s \<noteq> []" "0 < n" for s :: string and n using that by (cases s; cases n) simp_all
  then show ?thesis
    by (simp add: cl_env_ok_def conf_env_def demo_env_def demo_ul_def isort_by_ok ul_env_ok_def now_def
        CCALL_MLS_KEY_AGE_def cfg_urls_ok_def conf_cfg_def config_alloc_def counts_ok_def wire_re_def)
qed

text \<open>The guards of a sequence of events in one environment.\<close>

fun ev_guarded :: "cl_env \<Rightarrow> ccall \<Rightarrow> cl_event list \<Rightarrow> bool" where
  "ev_guarded env c [] = True"
| "ev_guarded env c (ev # evs) = (ev_guard env c ev \<and> ev_guarded env (cl_do env c ev) evs)"

lemma guarded_events:
  "cl_env_ok env \<Longrightarrow> ev_guarded env c evs \<Longrightarrow> guarded cl_step cl_guard c (map (Pair env) evs)"
  by (induction evs arbitrary: c) (simp_all add: cl_guard_def cl_step_def Let_def)

definition conf_new :: "string \<Rightarrow> ccall" where
  "conf_new u = the (snd (ccall_alloc conf_env (Some ''k'') (Some u) (Some ''x'') False False))"

lemma conf_new_alloc: "ccall_alloc conf_env (Some ''k'') (Some u) (Some ''x'') False False = (OK, Some (conf_new u))"
  by (simp add: conf_new_def ccall_alloc_def userlist_alloc_def userinfo_alloc_def keystore_alloc_def)

lemma conf_new_inv: "cl_inv (conf_new u)"
  by (rule alloc_inv [OF conf_env_ok conf_new_alloc])

lemma alloc_fields:
  assumes "cl_env_ok env" and "ccall_alloc env convid userid clientid mls meeting = (OK, Some c)"
  shows "cl_state c = CCALL_STATE_IDLE" "cl_sft_timestamp c = 0" "cl_trace c = []" "cl_has_cfg c = False"
    "cl_next_je c = 0" "cl_ecall c = None" "cl_is_mls_call c = mls"
proof -
  obtain cid ul ks where r: "c = ccall_set_secret env (ve_rand env CCALL_SECRET_LEN) (ccall_init cid ul ks mls meeting)"
      "ul_inv ul"
    using assms(2)
    by (cases convid) (auto simp: ccall_alloc_def userlist_alloc_def userinfo_alloc_def keystore_alloc_def ul_inv_def)
  let ?c = "ccall_init cid ul ks mls meeting"
  have "4 \<le> length (ve_rand env CCALL_SECRET_LEN)" using cl_env_okD(5) [OF assms(1)] by (simp add: CCALL_SECRET_LEN_def)
  moreover have "ul_inv (cl_userl ?c)" using r(2) by (simp add: ccall_init_def)
  ultimately obtain h ul' where "ccall_set_secret env (ve_rand env CCALL_SECRET_LEN) ?c =
       (let c = with_ks (\<lambda>ks. keystore_set_salt True (now env) ks (Some (bytes_of h)))
                  (?c\<lparr>cl_secret := ve_rand env CCALL_SECRET_LEN, cl_convid_hash := Some h, cl_userl := ul'\<rparr>)
        in if cl_ecall c \<noteq> None then snd (ecall_do env (EcSetSessid (Some h)) c) else c)"
    using set_secret_cl [OF assms(1)] by metis
  then show "cl_state c = CCALL_STATE_IDLE" "cl_sft_timestamp c = 0" "cl_trace c = []" "cl_has_cfg c = False"
    "cl_next_je c = 0" "cl_ecall c = None" "cl_is_mls_call c = mls"
    by (simp_all add: r(1) Let_def with_ks_def ccall_init_def)
qed

lemmas conf_new_fields = alloc_fields [OF conf_env_ok conf_new_alloc]

text \<open>A call is started and waits for the configuration, which arrives.\<close>

definition conf_events :: "cl_event list" where
  "conf_events = [EvSetConfig, EvStart ICALL_CALL_TYPE_NORMAL True False, EvCfg 0]"

lemma conf_guarded: "guarded cl_step cl_guard (conf_new u) (map (Pair conf_env) conf_events)"
  by (rule guarded_events [OF conf_env_ok]) (simp add: conf_events_def)

lemma conf_waiting:
  "\<exists>c. run cl_step (conf_new u) (map (Pair conf_env) (take 2 conf_events)) = Some c \<and>
       cl_state c = CCALL_STATE_WAITCONFIG_OUTGOING"
proof -
  let ?c = "cl_do conf_env (cl_do conf_env (conf_new u) EvSetConfig) (EvStart ICALL_CALL_TYPE_NORMAL True False)"
  have "cl_inv (cl_do conf_env (conf_new u) EvSetConfig)" by (rule cl_do_inv [OF conf_new_inv conf_env_ok]) simp
  moreover from this have "cl_inv ?c" by (rule cl_do_inv [OF _ conf_env_ok]) simp
  ultimately have "run cl_step (conf_new u) (map (Pair conf_env) (take 2 conf_events)) = Some ?c"
    by (simp add: conf_events_def cl_step_def Let_def cl_invD(1))
  moreover have "cl_state ?c = CCALL_STATE_WAITCONFIG_OUTGOING"
    by (simp add: ccall_set_config_def ccall_start_def ccall_req_cfg_join_def Let_def conf_new_fields)
  ultimately show ?thesis by blast
qed

section \<open>Theorems\<close>



text \<open>
  C11: session keys are never broadcast. Whatever happens in a conference, a key message that it
  hands to the application to send names the clients it is for, and a call whose keys come from MLS
  sends none at all.
\<close>

theorem ccall_keys_never_broadcast:
  assumes "cl_env_ok env" and "ccall_alloc env convid userid clientid mls meeting = (OK, Some c)"
    and "guarded cl_step cl_guard c evs"
  shows "\<exists>c'. run cl_step c evs = Some c' \<and>
    (\<forall>u msg targets mine. Sendh u msg targets mine \<in> set (cl_trace c') \<and> em_msg_type msg = Some ECONN_CONF_KEY \<longrightarrow>
       \<not> cl_is_mls_call c' \<and> (\<exists>ts. targets = Some ts \<and> ts \<noteq> []))"
proof -
  obtain c' where c': "run cl_step c evs = Some c'" "cl_inv c'" using run_reached [OF assms] by blast
  then have "list_all (act_ok (cl_is_mls_call c')) (cl_trace c')" by (simp add: cl_inv_def cl_ok_def)
  then have "\<not> cl_is_mls_call c' \<and> (\<exists>ts. targets = Some ts \<and> ts \<noteq> [])"
    if "Sendh u msg targets mine \<in> set (cl_trace c')" "em_msg_type msg = Some ECONN_CONF_KEY" for u msg targets mine
    using that by (cases targets) (auto simp: list_all_iff is_confkey_def dest!: bspec)
  then show ?thesis using c'(1) by blast
qed

theorem ccall_keys_never_broadcast_witness:
  "\<exists>c'. run cl_step (conf_new ''b'') (map (Pair conf_env) conf_events) = Some c' \<and>
    (\<forall>u msg targets mine. Sendh u msg targets mine \<in> set (cl_trace c') \<and> em_msg_type msg = Some ECONN_CONF_KEY \<longrightarrow>
       \<not> cl_is_mls_call c' \<and> (\<exists>ts. targets = Some ts \<and> ts \<noteq> []))"
  by (rule ccall_keys_never_broadcast [OF conf_env_ok conf_new_alloc conf_guarded])

text \<open>
  C19: a conference does not hang while it connects. Whenever it waits for the configuration, the
  network or the server (the states WAITCONFIG, WAITCONFIG_OUTGOING, WAITNETWORK, CONNSENT and SETUPRECV), its connection
  timer runs with 15 seconds, and when the timer expires, the call is idle or being terminated. In all of these states
  but SETUPRECV, in which there may be a connection to tear down first, the application has then been
  told that the call timed out. The state CONNECTING is not among them.
\<close>

theorem ccall_connecting_ends:
  assumes "cl_env_ok env" and "ccall_alloc env convid userid clientid mls meeting = (OK, Some c)"
    and "guarded cl_step cl_guard c evs" and "run cl_step c evs = Some c'" and "cl_state c' \<in> cl_waiting"
  shows "cl_tmr c' Tmr_connect = Some 15000 \<and>
    (let d = cl_do env' c' (EvTimer Tmr_connect)
     in cl_state d \<in> {CCALL_STATE_IDLE, CCALL_STATE_TERMINATING} \<and>
        (cl_state c' \<noteq> CCALL_STATE_SETUPRECV \<longrightarrow>
           Leaveh ICALL_REASON_TIMEOUT ECONN_MESSAGE_TIME_UNKNOWN \<in> set (cl_trace d)))"
proof -
  have inv: "cl_inv c'" using run_reached [OF assms(1-3)] assms(4) by auto
  note t = waiting_timer [OF inv assms(5)]
  have "Leaveh ICALL_REASON_TIMEOUT ECONN_MESSAGE_TIME_UNKNOWN \<in> set (cl_trace (cl_do env' c' (EvTimer Tmr_connect)))"
    if "cl_state c' \<noteq> CCALL_STATE_SETUPRECV"
  proof -
    have "cl_state c' \<noteq> CCALL_STATE_ACTIVE" using assms(5) by (auto simp: cl_waiting_def)
    moreover have "cl_state (cancel_tmrs [Tmr_connect] c') \<in> {CCALL_STATE_CONNSENT, CCALL_STATE_INCOMING,
        CCALL_STATE_WAITCONFIG, CCALL_STATE_WAITCONFIG_OUTGOING, CCALL_STATE_WAITNETWORK}"
      using assms(5) that by (auto simp: cl_waiting_def)
    ultimately show ?thesis
      using t(1) end_with_err_leave [of "cancel_tmrs [Tmr_connect] c'" ETIMEDOUT env'] by (simp add: ccall_connect_timeout_def)
  qed
  then show ?thesis using t by (simp add: Let_def CCALL_CONNECT_TIMEOUT_def)
qed

theorem ccall_connecting_ends_witness:
  "\<exists>c. run cl_step (conf_new ''a'') (map (Pair conf_env) (take 2 conf_events)) = Some c \<and>
       cl_state c = CCALL_STATE_WAITCONFIG_OUTGOING \<and> cl_tmr c Tmr_connect = Some 15000 \<and>
       cl_state (cl_do conf_env c (EvTimer Tmr_connect)) \<in> {CCALL_STATE_IDLE, CCALL_STATE_TERMINATING}"
proof -
  obtain c where c: "run cl_step (conf_new ''a'') (map (Pair conf_env) (take 2 conf_events)) = Some c"
    "cl_state c = CCALL_STATE_WAITCONFIG_OUTGOING" using conf_waiting by blast
  have "guarded cl_step cl_guard (conf_new ''a'') (map (Pair conf_env) (take 2 conf_events))"
    by (rule guarded_events [OF conf_env_ok]) (simp add: conf_events_def)
  from ccall_connecting_ends [OF conf_env_ok conf_new_alloc this c(1), of conf_env] show ?thesis
    using c by (auto simp: cl_waiting_def Let_def)
qed

text \<open>
  C20: keys are taken from the key generator only. A key message changes the key store only if its
  sender is the elected key generator, which is another member whose ids the backend has confirmed.
\<close>

theorem ccall_keys_from_keygenerator:
  assumes "em_msg_type msg = Some ECONN_CONF_KEY" and "em_resp msg"
    and "cl_keystore (snd (ccall_msg_recv env userid clientid msg c)) \<noteq> cl_keystore c"
  shows "from_keygenerator env c userid clientid"
proof (rule ccontr)
  assume "\<not> from_keygenerator env c userid clientid"
  then have "cl_keystore (snd (ccall_msg_recv env userid clientid msg c)) = cl_keystore c"
    using assms(1,2) confkey_resp_other by (auto simp: ccall_msg_recv_def cl_fail_def split: option.split)
  then show False using assms(3) by simp
qed

text \<open>User \<open>a\<close> in a call in which \<open>b\<close> makes the keys.\<close>

definition member_b :: userinfo where
  "member_b = userinfo_zero\<lparr>ui_addr := 1, ui_userid_real := Some ''b'', ui_clientid_real := Some ''x'',
     ui_userid_hash := Some ''hb'', ui_clientid_hash := Some ''_'', ui_se_approved := True, ui_incall_now := True,
     ui_needs_key := True\<rparr>"

definition conf_with :: "kg_ref \<Rightarrow> ccall" where
  "conf_with kg = (ccall_init ''k'' ((demo_fresh ''a'')\<lparr>ul_users := [member_b], ul_keygenerator := Some kg, ul_next := 2\<rparr>)
     demo_store False False)\<lparr>cl_state := CCALL_STATE_ACTIVE, cl_convid_hash := Some ''h'',
       cl_confpart_data := Some ([1, 2, 3], 0)\<rparr>"

lemma conf_with_inv: "cl_inv (conf_with Kg_self)" "cl_inv (conf_with (Kg_user 1))"
  using keystore_alloc_inv [OF demo_alloc]
  by (simp_all add: conf_with_def ccall_init_def cl_inv_def cl_ok_def cl_live_def cl_waiting_def int_ok_def ul_inv_def
      demo_fresh_def member_b_def)

definition conf_key :: econn_message where
  "conf_key = econn_message_zero\<lparr>em_msg_type := Some ECONN_CONF_KEY, em_resp := True,
     em_u := U_confkey [\<lparr>key_idx = 4, key_data = replicate 32 1\<rparr>]\<rparr>"

theorem ccall_keys_from_keygenerator_witness:
  "from_keygenerator conf_env (conf_with (Kg_user 1)) (Some ''b'') (Some ''x'')"
proof (rule ccall_keys_from_keygenerator [of conf_key])
  let ?ks = "demo_store\<lparr>ks_salt := [104], ks_update_ts := 100000\<rparr>"
  have "map_option (\<lambda>(e, ks). (e, map ki_index (ks_keyl ks)))
      (keystore_set_session_key (demo_env\<lparr>env_now := 100000\<rparr>) ?ks 4 (replicate 32 1)) = Some (OK, [4])" by code_simp
  then obtain ks where ks: "keystore_set_session_key (demo_env\<lparr>env_now := 100000\<rparr>) ?ks 4 (replicate 32 1) = Some (OK, ks)"
    "map ki_index (ks_keyl ks) = [4]" by auto
  have "cl_keystore (snd (ccall_msg_recv conf_env (Some ''b'') (Some ''x'') conf_key (conf_with (Kg_user 1)))) = ks"
    using ks(1) by (simp add: ccall_msg_recv_def conf_key_def u_confkey_def confkey_resp_def conf_with_def ccall_init_def
        demo_fresh_def userlist_get_keygenerator_def kg_me_def userlist_is_keygenerator_me_def kg_info_def member_b_def
        conf_env_def demo_ul_def make_lower_def with_ks_def keystore_set_salt_def ks_do_def now_def bytes_of_def)
  moreover have "ks_keyl (cl_keystore (conf_with (Kg_user 1))) = []"
    by (simp add: conf_with_def ccall_init_def demo_store_def keystore_alloc_def)
  ultimately show "cl_keystore (snd (ccall_msg_recv conf_env (Some ''b'') (Some ''x'') conf_key (conf_with (Kg_user 1))))
      \<noteq> cl_keystore (conf_with (Kg_user 1))" using ks(2) by auto
qed (simp_all add: conf_key_def)

text \<open>
  C7: agreement on the call. Two clients that are in no call and get the same announcements of calls, in any order and
  any number of times, choose the same call - the same time and number, server and secret -, and it is the
  earliest one that was announced. The announcements are recent and complete (an address, servers with addresses, a
  secret of at least four bytes), with a time that is not zero and a number below \<open>2 ^ 31\<close>, and two of the same time
  and number announce the same server and secret.
\<close>

theorem ccall_agree_on_call:
  assumes "cl_env_ok env" and "ccall_alloc env convid u k mls meeting = (OK, Some a)"
    and "cl_env_ok env'" and "ccall_alloc env' convid u' k' mls meeting = (OK, Some b)"
    and "set ms = set ns" and "ms \<noteq> []" and "\<forall>m \<in> set ms. counts (snd (snd m))"
    and "\<forall>m \<in> set ms. \<forall>n \<in> set ms. start_key (start_data (snd (snd m))) = start_key (start_data (snd (snd n))) \<longrightarrow>
           start_of (start_data (snd (snd m))) = start_of (start_data (snd (snd n)))"
  shows "call_of (recv_all env ms a) = call_of (recv_all env' ns b) \<and>
    (\<forall>m \<in> set ms. call_key (recv_all env ms a) \<le> start_key (start_data (snd (snd m))))"
proof -
  let ?s = "\<lambda>m. start_data (snd (snd m))"
  obtain m where m: "m \<in> set ms" "call_of (recv_all env ms a) = start_of (?s m)"
      "\<forall>x \<in> set ms. start_key (?s m) \<le> start_key (?s x)"
    using recv_all_earliest [OF assms(1) alloc_inv [OF assms(1,2)] alloc_fields(1,2) [OF assms(1,2)] assms(7,6)] by blast
  obtain n where n: "n \<in> set ns" "call_of (recv_all env' ns b) = start_of (?s n)"
      "\<forall>x \<in> set ns. start_key (?s n) \<le> start_key (?s x)"
    using recv_all_earliest [OF assms(3) alloc_inv [OF assms(3,4)] alloc_fields(1,2) [OF assms(3,4)], of ns] assms(5-7)
    by (metis set_empty)
  have "start_key (?s m) = start_key (?s n)" using m(1,3) n(1,3) assms(5) by (simp add: antisym)
  moreover have "n \<in> set ms" using n(1) assms(5) by simp
  ultimately have "start_of (?s m) = start_of (?s n)" using assms(8) m(1) by blast
  then have "call_of (recv_all env ms a) = call_of (recv_all env' ns b)" unfolding m(2) n(2) .
  moreover have "\<forall>m \<in> set ms. call_key (recv_all env ms a) \<le> start_key (start_data (snd (snd m)))"
    using m(2,3) by (simp add: call_of_def start_of_def)
  ultimately show ?thesis by blast
qed

definition conf_announce :: "u64 \<Rightarrow> econn_message" where
  "conf_announce ts = econn_message_zero\<lparr>em_msg_type := Some ECONN_CONF_START,
     em_u := U_confstart (confstart_zero\<lparr>cs_sft_url := Some ''s/'', cs_secret := Some [1, 2, 3, 4], cs_timestamp := ts\<rparr>)\<rparr>"

lemma conf_announce_data:
  "start_data (conf_announce ts) = confstart_zero\<lparr>cs_sft_url := Some ''s/'', cs_secret := Some [1, 2, 3, 4], cs_timestamp := ts\<rparr>"
  "ts \<noteq> 0 \<Longrightarrow> counts (conf_announce ts)"
  by (simp_all add: conf_announce_def counts_def confstart_msg_def start_data_def confstart_of_def u_confstart_def
      econn_message_zero_def CCALL_CONFSTART_TIMEOUT_S_def start_ok_def confstart_zero_def)

theorem ccall_agree_on_call_witness:
  "call_of (recv_all conf_env [(''c'', ''x'', conf_announce 7), (''d'', ''x'', conf_announce 5)] (conf_new ''a'')) =
   call_of (recv_all conf_env [(''d'', ''x'', conf_announce 5), (''c'', ''x'', conf_announce 7)] (conf_new ''b''))"
  by (rule conjunct1 [OF ccall_agree_on_call [OF conf_env_ok conf_new_alloc conf_env_ok conf_new_alloc]])
     (auto simp: conf_announce_data start_key_def)

text \<open>
  C29: the indexes of the keys of two key generators do not clash. As long as the indexes of all keys
  the client knows are below 0xFFFE0000, a fresh session key gets an index above all of them and at the start
  of a block of 65536, so that the keys derived from the old ones, which count up, stay below it. (From
  that index on the computation of the index wraps around.)
\<close>

theorem ccall_fresh_key_index:
  assumes "cl_env_ok env" and "cl_inv c" and "ccall_generate_session_key env False c = (OK, c')"
    and "keystore_get_max_key (cl_keystore c) < 0xFFFE0000"
  shows "\<exists>k \<in> set (ks_keyl (cl_keystore c')). ki_index k = fresh_index c \<and> unat (ki_index k) mod 0x10000 = 0 \<and>
           (\<forall>old \<in> set (ks_keyl (cl_keystore c)). ki_index old < ki_index k)"
proof -
  have "\<exists>k \<in> set (ks_keyl (cl_keystore c')). ki_index k = fresh_index c"
    by (rule generate_key_stored [OF assms(1-3)])
  moreover have "ki_index old < fresh_index c" if "old \<in> set (ks_keyl (cl_keystore c))" for old
    using max_key_bound [OF cl_invD(2) [OF assms(2)] that] fresh_index_bounds(1) [OF assms(4)] by (rule order.strict_trans1)
  ultimately show ?thesis using fresh_index_bounds(2) [OF assms(4)] by metis
qed

theorem ccall_fresh_key_index_witness:
  "\<exists>c'. ccall_generate_session_key conf_env False (conf_with Kg_self) = (OK, c') \<and>
        (\<exists>k \<in> set (ks_keyl (cl_keystore c')). ki_index k = 0x10000)"
proof -
  let ?c = "conf_with Kg_self"
  have m: "keystore_get_max_key (cl_keystore ?c) = 0" "\<not> cl_became_kg ?c"
    by (simp_all add: conf_with_def ccall_init_def demo_store_def keystore_alloc_def keystore_get_max_key_def
        keystore_get_latest_def)
  have "map_option fst (keystore_set_fresh_session_key (demo_env\<lparr>env_now := 100000\<rparr>) demo_store 0x10000
      (Some (replicate 32 9)) (Some [1, 2, 3])) = Some OK" by code_simp
  then obtain ks where ks: "keystore_set_fresh_session_key (demo_env\<lparr>env_now := 100000\<rparr>) demo_store 0x10000
      (Some (replicate 32 9)) (Some [1, 2, 3]) = Some (OK, ks)" by auto
  have "fst (ccall_send_keys conf_env True d) = OK" for d
    by (simp add: ccall_send_keys_def Let_def userlist_get_key_targets_def split: prod.split)
  then have "fst (ccall_generate_session_key conf_env False ?c) = OK"
    using ks m by (simp add: ccall_generate_session_key_def ks_do_def Let_def) (simp add: conf_with_def ccall_init_def
        confpart_salt_def conf_env_def E2EE_SESSIONKEY_SIZE_def)
  then obtain c' where "ccall_generate_session_key conf_env False ?c = (OK, c')" by (metis prod.collapse)
  with ccall_fresh_key_index [OF conf_env_ok conf_with_inv(1) this] m show ?thesis by (auto simp: fresh_index_def)
qed

text \<open>
  C35: a configuration without servers for conferences. The application is told that the call ended with an
  error, and yet the conference goes on as if the connection request had been sent: the handler does not
  pass the error on to the test that follows.
\<close>

theorem ccall_config_without_servers:
  assumes "cl_je c = Some je" and "cl_state c \<in> {CCALL_STATE_WAITCONFIG, CCALL_STATE_WAITCONFIG_OUTGOING}"
    and "fst (config_get_sftservers (cfg_of env c)) = None"
  shows "Leaveh ICALL_REASON_ERROR ECONN_MESSAGE_TIME_UNKNOWN \<in> set (cl_trace (config_update_handler env (je_id je) c)) \<and>
         cl_state (config_update_handler env (je_id je) c) = CCALL_STATE_CONNSENT"
proof -
  let ?d = "(set_state env CCALL_STATE_CONNSENT (ccall_end_with_err env ENOTSUP c))\<lparr>cl_call_type := je_call_type je\<rparr>"
  have "cfg_connect env je c = (OK, True, ccall_end_with_err env ENOTSUP c)"
    using assms(3) by (auto simp: cfg_connect_def split: prod.split option.split)
  then have r: "config_update_handler env (je_id je) c = (ccall_stop_others_ringing env ?d)\<lparr>cl_je := None\<rparr>"
    using assms(1) by (simp add: config_update_handler_def)
  have "Leaveh (end_reason ENOTSUP) ECONN_MESSAGE_TIME_UNKNOWN \<in> set (cl_trace (ccall_end_with_err env ENOTSUP c))"
    by (rule end_with_err_leave) (use assms(2) in auto)
  then have "Leaveh (end_reason ENOTSUP) ECONN_MESSAGE_TIME_UNKNOWN \<in> set (cl_trace ?d)"
    using set_state_trace [of "ccall_end_with_err env ENOTSUP c" env CCALL_STATE_CONNSENT] by auto
  then show ?thesis
    using stop_others_trace [of ?d env] unfolding r by (auto simp: set_state_def Let_def)
qed

definition conf_bare :: cl_env where
  "conf_bare = conf_env\<lparr>ve_cfg := the (snd (config_alloc True True False))\<rparr>"

definition conf_joining :: ccall where
  "conf_joining = (conf_with Kg_self)\<lparr>cl_state := CCALL_STATE_WAITCONFIG, cl_has_cfg := True,
     cl_je := Some \<lparr>je_id = 0, je_call_type = ICALL_CALL_TYPE_NORMAL, je_audio_cbr = False, je_retry_attempt = False\<rparr>\<rparr>"

theorem ccall_config_without_servers_witness:
  "cl_state (config_update_handler conf_bare 0 conf_joining) = CCALL_STATE_CONNSENT"
proof -
  have "fst (config_get_sftservers (cfg_of conf_bare conf_joining)) = None"
    by (simp add: config_get_sftservers_def cfg_of_def conf_bare_def conf_joining_def config_alloc_def)
  from ccall_config_without_servers [OF _ _ this] show ?thesis by (auto simp: conf_joining_def)
qed

end
