(* ===== verification/Turn.thy ===== *)
theory Turn
  imports AVS_Prelude "HOL-Library.While_Combinator"
begin

text \<open>
  The connection with a TURN server (\<^verbatim>\<open>src/src/turn/turnconn.c\<close>): allocation over UDP, TCP and TLS, the
  handlers of libre's TURN client, and the reassembly of the frames of a TCP stream.

  libre's buffer is a list of bytes with a position and an end. The TURN client itself, the sockets
  and TLS are libre's: what their functions return is the environment \<open>turn_env\<close>, and the bytes and the
  source that \<^verbatim>\<open>turnc_recv\<close> leaves for the application are a function of the frames it has got.
  So is the result of \<^verbatim>\<open>mbuf_write_mem\<close>, which fails when the buffer cannot grow. Log lines are left out,
  also the warning at the end of \<^verbatim>\<open>tcp_recv\<close>, whose format has a conversion without an argument.
\<close>

section \<open>Buffers\<close>

record mbuf =
  mb_buf :: bytes
  mb_pos :: nat
  mb_end :: nat

definition mbuf_get_left :: "mbuf \<Rightarrow> nat" where
  "mbuf_get_left mb = (if mb_pos mb < mb_end mb then mb_end mb - mb_pos mb else 0)"

text \<open>The bytes between the position and the end.\<close>

definition mbuf_window :: "mbuf \<Rightarrow> bytes" where
  "mbuf_window mb = take (mbuf_get_left mb) (drop (mb_pos mb) (mb_buf mb))"

text \<open>Write at the position, over what is there; the end moves if it has to.\<close>

definition mbuf_write_mem :: "mbuf \<Rightarrow> bytes \<Rightarrow> mbuf" where
  "mbuf_write_mem mb bs =
     mb\<lparr>mb_buf := take (mb_pos mb) (mb_buf mb) @ bs @ drop (mb_pos mb + length bs) (mb_buf mb),
        mb_pos := mb_pos mb + length bs, mb_end := max (mb_end mb) (mb_pos mb + length bs)\<rparr>"

text \<open>Two bytes in network order.\<close>

definition be16 :: "bytes \<Rightarrow> nat \<Rightarrow> nat" where
  "be16 bs i = unat (bs ! i) * 256 + unat (bs ! (i + 1))"

section \<open>State\<close>

definition TURNPING_INTERVAL :: nat where "TURNPING_INTERVAL = 15"
definition STUN_HEADER_SIZE :: nat where "STUN_HEADER_SIZE = 20"
definition IPPROTO_TCP :: int where "IPPROTO_TCP = 6"
definition IPPROTO_UDP :: int where "IPPROTO_UDP = 17"
definition AF_UNSPEC :: int where "AF_UNSPEC = 0"
definition AF_INET :: int where "AF_INET = 2"
definition AF_INET6 :: int where "AF_INET6 = 10"

record sa =
  sa_af :: int
  sa_host :: string
  sa_port :: nat

text \<open>Callbacks and calls into libre.\<close>

datatype turn_act =
    Tn_estabh sa sa
  | Tn_datah sa bytes
  | Tn_errorh err
  | Tn_turnc_alloc int
  | Tn_keepalive nat
  | Tn_add_perm sa
  | Tn_add_chan sa

text \<open>\<open>tn_frames\<close>: what \<^verbatim>\<open>turnc_recv\<close> has got; \<open>tn_freed\<close>: the connection was released.\<close>

record turn_conn =
  tn_turnc :: bool
  tn_tc :: bool
  tn_turn_srv :: sa
  tn_tlsc :: bool
  tn_mb :: "mbuf option"
  tn_us_turn :: bool
  tn_ska :: bool
  tn_tmr_delay :: "u32 option"
  tn_username :: string
  tn_password :: string
  tn_af :: int
  tn_proto :: int
  tn_secure :: bool
  tn_turn_allocated :: bool
  tn_failed :: bool
  tn_layer_stun :: int
  tn_layer_turn :: int
  tn_delay :: u32
  tn_estabh :: bool
  tn_datah :: bool
  tn_errorh :: bool
  tn_ts_turn_resp :: u64
  tn_ts_turn_req :: u64
  tn_n_permh :: u32
  tn_relay_addr :: "sa option"
  tn_mapped_addr :: "sa option"
  tn_frames :: "bytes list"
  tn_trace :: "turn_act list"
  tn_freed :: bool

record turn_env =
  te_turnc_alloc :: err
  te_turnc_recv :: "bytes list \<Rightarrow> bytes \<Rightarrow> err \<times> sa \<times> bytes"
  te_mbuf_write :: "mbuf \<Rightarrow> nat \<Rightarrow> err"
  te_ska_alloc :: err
  te_rand :: u32
  te_now :: u64
  te_v6_addr :: err
  te_udp_helper :: bool
  te_udp_listen :: err
  te_udp_local :: err
  te_tcp_connect :: err
  te_tls_alloc :: err
  te_tls_start :: err
  te_add_perm :: err
  te_add_chan :: err
  te_proto2name :: "int \<Rightarrow> string"

definition tn_act :: "turn_act \<Rightarrow> turn_conn \<Rightarrow> turn_conn" where
  "tn_act a tc = tc\<lparr>tn_trace := tn_trace tc @ [a]\<rparr>"

definition call_errorh :: "err \<Rightarrow> turn_conn \<Rightarrow> turn_conn" where
  "call_errorh e tc = tn_act (Tn_errorh (if e \<noteq> OK then e else EPROTO)) tc"

section \<open>Lists of connections\<close>

definition turnconn_find_allocated :: "turn_conn list \<Rightarrow> int \<Rightarrow> turn_conn option" where
  "turnconn_find_allocated turnconnl proto =
     List.find (\<lambda>conn. tn_proto conn = proto \<and> tn_turn_allocated conn) turnconnl"

definition turnconn_is_one_allocated :: "turn_conn list \<Rightarrow> bool" where
  "turnconn_is_one_allocated turnconnl = list_ex tn_turn_allocated turnconnl"

definition turnconn_are_all_allocated :: "turn_conn list \<Rightarrow> bool" where
  "turnconn_are_all_allocated turnconnl \<longleftrightarrow> turnconnl \<noteq> [] \<and> list_all tn_turn_allocated turnconnl"

definition turnconn_are_all_failed :: "turn_conn list \<Rightarrow> bool" where
  "turnconn_are_all_failed turnconnl \<longleftrightarrow> turnconnl \<noteq> [] \<and> list_all tn_failed turnconnl"

definition turnconn_proto_name :: "turn_env \<Rightarrow> turn_conn option \<Rightarrow> string" where
  "turnconn_proto_name env conn =
     (case conn of
        None \<Rightarrow> ''???''
      | Some tc \<Rightarrow> if tn_secure tc then ''TLS'' else te_proto2name env (tn_proto tc))"

section \<open>Handlers of the TURN client\<close>

definition turntcp_recv_data :: "sa \<Rightarrow> bytes \<Rightarrow> turn_conn \<Rightarrow> turn_conn" where
  "turntcp_recv_data src bs tc = (if tn_datah tc then tn_act (Tn_datah src bs) tc else tc)"

text \<open>The answer of the server to an allocation; the handlers are called without a test for NULL.\<close>

definition turnc_error :: "err \<Rightarrow> turn_conn \<Rightarrow> turn_conn option" where
  "turnc_error e tc = (if tn_errorh tc then Some (call_errorh e (tc\<lparr>tn_failed := True\<rparr>)) else None)"

definition turnc_handler :: "turn_env \<Rightarrow> err \<Rightarrow> nat \<Rightarrow> sa \<Rightarrow> sa \<Rightarrow> turn_conn \<Rightarrow> turn_conn option" where
  "turnc_handler env e scode relay_addr mapped_addr tc =
     (if e \<noteq> OK then turnc_error e tc
      else if scode \<noteq> 0 then turnc_error (if scode = 441 then EAUTH else OK) tc
      else let tc = tc\<lparr>tn_turn_allocated := True, tn_ts_turn_resp := te_now env,
                       tn_relay_addr := Some relay_addr, tn_mapped_addr := Some mapped_addr\<rparr>;
               ping = (tn_proto tc = IPPROTO_UDP \<and> \<not> tn_ska tc)
           in if ping \<and> te_ska_alloc env \<noteq> OK then turnc_error (te_ska_alloc env) tc
              else let tc = (if ping then tn_act (Tn_keepalive TURNPING_INTERVAL) (tc\<lparr>tn_ska := True\<rparr>) else tc)
                   in if tn_estabh tc then Some (tn_act (Tn_estabh relay_addr mapped_addr) tc) else None)"

text \<open>The delayed allocation over UDP; \<open>connl\<close> is the list the connection is in.\<close>

definition tmr_delay_handler :: "turn_env \<Rightarrow> turn_conn list \<Rightarrow> turn_conn \<Rightarrow> turn_conn" where
  "tmr_delay_handler env connl conn =
     (let conn = conn\<lparr>tn_tmr_delay := None\<rparr>
      in if turnconn_is_one_allocated connl then conn\<lparr>tn_freed := True\<rparr>
         else let conn = tn_act (Tn_turnc_alloc IPPROTO_UDP) conn
              in if te_turnc_alloc env \<noteq> OK
                 then if tn_errorh conn then call_errorh (te_turnc_alloc env) conn else conn
                 else conn\<lparr>tn_turnc := True\<rparr>)"

definition tcp_estab :: "turn_env \<Rightarrow> turn_conn \<Rightarrow> turn_conn" where
  "tcp_estab env conn =
     (let conn = tn_act (Tn_turnc_alloc IPPROTO_TCP) (conn\<lparr>tn_mb := None\<rparr>)
      in if te_turnc_alloc env \<noteq> OK then conn else conn\<lparr>tn_turnc := True\<rparr>)"

definition tcp_close :: "err \<Rightarrow> turn_conn \<Rightarrow> turn_conn" where
  "tcp_close e tc =
     (let tc = tc\<lparr>tn_turn_allocated := False, tn_turnc := False\<rparr>
      in if tn_errorh tc then call_errorh e tc else tc)"

section \<open>Frames of a TCP stream\<close>

text \<open>The loop that rounds a length up to a multiple of four.\<close>

function align4 :: "nat \<Rightarrow> nat" where
  "align4 len = (if len mod 4 \<noteq> 0 then align4 (len + 1) else len)"
  by pat_completeness auto
termination
proof (relation "measure (\<lambda>len. (4 - len mod 4) mod 4)", goal_cases)
  case (2 len)
  then have "len mod 4 = 1 \<or> len mod 4 = 2 \<or> len mod 4 = 3" by (auto simp: mod_Suc)
  then show ?case by (auto simp: mod_Suc)
qed simp

declare align4.simps [simp del]

record tcp_loop =
  lp_conn :: turn_conn
  lp_err :: err
  lp_go :: bool

definition lp_break :: "tcp_loop \<Rightarrow> tcp_loop" where
  "lp_break st = st\<lparr>lp_go := False\<rparr>"

definition lp_fail :: "err \<Rightarrow> tcp_loop \<Rightarrow> tcp_loop" where
  "lp_fail e st = st\<lparr>lp_err := e, lp_go := False\<rparr>"

text \<open>A complete frame goes to the TURN client, which refuses it if there is none.\<close>

definition to_turnc :: "turn_env \<Rightarrow> bytes \<Rightarrow> turn_conn \<Rightarrow> (err \<times> sa \<times> bytes) \<times> turn_conn" where
  "to_turnc env frame conn =
     (if \<not> tn_turnc conn then ((EINVAL, \<lparr>sa_af = AF_UNSPEC, sa_host = [], sa_port = 0\<rparr>, []), conn)
      else (te_turnc_recv env (tn_frames conn) frame, conn\<lparr>tn_frames := tn_frames conn @ [frame]\<rparr>))"

definition tcp_frame :: "turn_env \<Rightarrow> mbuf \<Rightarrow> nat \<Rightarrow> tcp_loop \<Rightarrow> tcp_loop" where
  "tcp_frame env mb len st =
     (let ((e, src, left), conn) = to_turnc env (take len (drop (mb_pos mb) (mb_buf mb))) (lp_conn st);
          st = st\<lparr>lp_conn := conn\<rparr>
      in if e \<noteq> OK then lp_fail e st
         else let conn = (if left \<noteq> [] then turntcp_recv_data src left conn else conn);
                  mb = mb\<lparr>mb_pos := mb_pos mb + align4 len\<rparr>
              in if mb_end mb \<le> mb_pos mb then lp_break (st\<lparr>lp_conn := conn\<lparr>tn_mb := None\<rparr>\<rparr>)
                 else st\<lparr>lp_conn := conn\<lparr>tn_mb := Some mb\<rparr>\<rparr>)"

text \<open>The size of a frame from its type and length: a STUN message, or data of a channel.\<close>

definition frame_size :: "nat \<Rightarrow> nat \<Rightarrow> nat option" where
  "frame_size typ len =
     (if typ < 0x4000 then Some (len + STUN_HEADER_SIZE)
      else if typ < 0x8000 then Some (len + 4)
      else None)"

definition tcp_body :: "turn_env \<Rightarrow> tcp_loop \<Rightarrow> tcp_loop" where
  "tcp_body env st =
     (case tn_mb (lp_conn st) of
        None \<Rightarrow> lp_break st
      | Some mb \<Rightarrow>
          if mbuf_get_left mb < 4 then lp_break st
          else case frame_size (be16 (mb_buf mb) (mb_pos mb)) (be16 (mb_buf mb) (mb_pos mb + 2)) of
                 None \<Rightarrow> lp_fail EBADMSG st
               | Some len \<Rightarrow> if mbuf_get_left mb < len then lp_break st else tcp_frame env mb len st)"

text \<open>
  The bytes that arrived, after those that were left over. If the buffer cannot grow, its position
  stays at its end and the handler gives up. The result of the handler is \<open>None\<close> if the loop does not end.
\<close>

definition tcp_append :: "turn_env \<Rightarrow> mbuf \<Rightarrow> turn_conn \<Rightarrow> err \<times> turn_conn" where
  "tcp_append env mb conn =
     (case tn_mb conn of
        Some old \<Rightarrow>
          (let pos = mb_pos old;
               old = old\<lparr>mb_pos := mb_end old\<rparr>;
               e = te_mbuf_write env old (mbuf_get_left mb)
           in if e \<noteq> OK then (e, conn\<lparr>tn_mb := Some old\<rparr>)
              else (OK, conn\<lparr>tn_mb := Some ((mbuf_write_mem old (mbuf_window mb))\<lparr>mb_pos := pos\<rparr>)\<rparr>))
      | None \<Rightarrow> (OK, conn\<lparr>tn_mb := Some mb\<rparr>))"

definition tcp_recv :: "turn_env \<Rightarrow> mbuf \<Rightarrow> turn_conn \<Rightarrow> turn_conn option" where
  "tcp_recv env mb conn =
     (case tcp_append env mb conn of
        (e, conn) \<Rightarrow>
          if e \<noteq> OK then Some (conn\<lparr>tn_freed := True\<rparr>)
          else map_option (\<lambda>st. if lp_err st \<noteq> OK then (lp_conn st)\<lparr>tn_freed := True\<rparr> else lp_conn st)
                 (while_option lp_go (tcp_body env) \<lparr>lp_conn = conn, lp_err = OK, lp_go = True\<rparr>))"

section \<open>Allocation\<close>

definition turnconn_init ::
  "turn_env \<Rightarrow> nat \<Rightarrow> sa \<Rightarrow> int \<Rightarrow> bool \<Rightarrow> string \<Rightarrow> string \<Rightarrow> int \<Rightarrow> int \<Rightarrow> int \<Rightarrow> bool \<Rightarrow> bool \<Rightarrow> bool \<Rightarrow> turn_conn" where
  "turnconn_init env connc turn_srv proto secure username password af layer_stun layer_turn estabh datah errorh =
     \<lparr>tn_turnc = False, tn_tc = False, tn_turn_srv = turn_srv, tn_tlsc = False, tn_mb = None, tn_us_turn = False,
      tn_ska = False, tn_tmr_delay = None, tn_username = username, tn_password = password, tn_af = af,
      tn_proto = proto, tn_secure = secure, tn_turn_allocated = False, tn_failed = False,
      tn_layer_stun = layer_stun, tn_layer_turn = layer_turn,
      tn_delay = (if connc = 0 then 1 else 100 + te_rand env mod 100),
      tn_estabh = estabh, tn_datah = datah, tn_errorh = errorh, tn_ts_turn_resp = 0, tn_ts_turn_req = 0,
      tn_n_permh = 0, tn_relay_addr = None, tn_mapped_addr = None, tn_frames = [], tn_trace = [], tn_freed = False\<rparr>"

text \<open>\<open>sock\<close>: the caller gives a socket.\<close>

definition alloc_udp :: "turn_env \<Rightarrow> bool \<Rightarrow> turn_conn \<Rightarrow> err \<times> turn_conn" where
  "alloc_udp env sock tc =
     (let e = (if tn_af tc = AF_INET then OK else if tn_af tc = AF_INET6 then te_v6_addr env else EAFNOSUPPORT)
      in if e \<noteq> OK then (e, tc)
         else let e = (if sock then if te_udp_helper env then EPROTO else OK
                       else if te_udp_listen env \<noteq> OK then te_udp_listen env else te_udp_local env)
              in if e \<noteq> OK then (e, tc)
                 else (OK, tc\<lparr>tn_us_turn := True, tn_tmr_delay := Some (tn_delay tc)\<rparr>))"

definition alloc_tcp :: "turn_env \<Rightarrow> turn_conn \<Rightarrow> err \<times> turn_conn" where
  "alloc_tcp env tc =
     (if te_tcp_connect env \<noteq> OK then (te_tcp_connect env, tc)
      else let tc = tc\<lparr>tn_tc := True\<rparr>
           in if \<not> tn_secure tc then (OK, tc)
              else if te_tls_alloc env \<noteq> OK then (te_tls_alloc env, tc)
              else if te_tls_start env \<noteq> OK then (te_tls_start env, tc)
              else (OK, tc\<lparr>tn_tlsc := True\<rparr>))"

text \<open>The list of connections gets the new one at its end. A name or a password that is NULL cannot be copied.\<close>

definition turnconn_alloc ::
  "turn_env \<Rightarrow> turn_conn list \<Rightarrow> sa option \<Rightarrow> int \<Rightarrow> bool \<Rightarrow> string option \<Rightarrow> string option \<Rightarrow> int \<Rightarrow> bool
   \<Rightarrow> int \<Rightarrow> int \<Rightarrow> bool \<Rightarrow> bool \<Rightarrow> bool \<Rightarrow> err \<times> turn_conn list" where
  "turnconn_alloc env connl turn_srv proto secure username password af sock layer_stun layer_turn estabh datah errorh =
     (case turn_srv of
        None \<Rightarrow> (EINVAL, connl)
      | Some srv \<Rightarrow>
          if proto = 0 \<or> af = AF_UNSPEC then (EINVAL, connl)
          else case (username, password) of
            (Some u, Some p) \<Rightarrow>
              (let tc = turnconn_init env (length connl) srv proto secure u p af layer_stun layer_turn estabh datah errorh;
                   (e, tc) = (if proto = IPPROTO_UDP then alloc_udp env sock tc
                              else if proto = IPPROTO_TCP then alloc_tcp env tc
                              else (EPROTONOSUPPORT, tc))
               in if e \<noteq> OK then (e, connl) else (OK, connl @ [tc\<lparr>tn_ts_turn_req := te_now env\<rparr>]))
          | _ \<Rightarrow> (EINVAL, connl))"

definition turnc_perm_handler :: "turn_conn \<Rightarrow> turn_conn" where
  "turnc_perm_handler conn = conn\<lparr>tn_n_permh := tn_n_permh conn + 1\<rparr>"

definition turnconn_add_permission :: "turn_env \<Rightarrow> sa option \<Rightarrow> turn_conn \<Rightarrow> err \<times> turn_conn" where
  "turnconn_add_permission env peer conn =
     (case peer of
        None \<Rightarrow> (EINVAL, conn)
      | Some p \<Rightarrow> if sa_af p \<noteq> AF_INET then (EAFNOSUPPORT, conn)
                  else if \<not> tn_turn_allocated conn then (EINTR, conn)
                  else (te_add_perm env, tn_act (Tn_add_perm p) conn))"

definition turnconn_add_channel :: "turn_env \<Rightarrow> sa option \<Rightarrow> turn_conn \<Rightarrow> err \<times> turn_conn" where
  "turnconn_add_channel env peer conn =
     (case peer of
        None \<Rightarrow> (EINVAL, conn)
      | Some p \<Rightarrow> if sa_af p \<noteq> AF_INET then (EAFNOSUPPORT, conn)
                  else if \<not> tn_turn_allocated conn then (EINTR, conn)
                  else (te_add_chan env, tn_act (Tn_add_chan p) conn))"

section \<open>The loop ends\<close>

lemma align4_eq: "align4 len = (len + 3) div 4 * 4"
proof (induction len rule: align4.induct)
  case (1 len)
  show ?case
  proof (cases "len mod 4 = 0")
    case True
    then show ?thesis by (subst align4.simps) auto
  next
    case False
    then have "len mod 4 = 1 \<or> len mod 4 = 2 \<or> len mod 4 = 3" by arith
    then have "(len + 1 + 3) div 4 = (len + 3) div 4" by arith
    then show ?thesis using False 1 by (subst align4.simps) simp
  qed
qed

lemma align4_bounds: "len \<le> align4 len" "len mod 4 = 0 \<Longrightarrow> align4 len = len"
  unfolding align4_eq by auto

lemma frame_size_min: "frame_size typ len = Some n \<Longrightarrow> 4 \<le> n"
  by (auto simp: frame_size_def STUN_HEADER_SIZE_def split: if_splits)

lemma loop_simps [simp]:
  "lp_go (lp_break st) = False" "lp_conn (lp_break st) = lp_conn st" "lp_err (lp_break st) = lp_err st"
  "lp_go (lp_fail e st) = False" "lp_conn (lp_fail e st) = lp_conn st" "lp_err (lp_fail e st) = e"
  by (simp_all add: lp_break_def lp_fail_def)

text \<open>Each pass that goes on has taken bytes from the buffer.\<close>

definition lp_left :: "tcp_loop \<Rightarrow> nat" where
  "lp_left st = (case tn_mb (lp_conn st) of None \<Rightarrow> 0 | Some mb \<Rightarrow> mbuf_get_left mb)"

lemma frame_progress:
  assumes "lp_go (tcp_frame env mb len st)" and "4 \<le> len" and "0 < mbuf_get_left mb"
  shows "lp_left (tcp_frame env mb len st) < mbuf_get_left mb"
  using assms align4_bounds(1) [of len]
  by (auto simp: tcp_frame_def Let_def lp_left_def mbuf_get_left_def split: prod.splits if_splits)

lemma body_progress:
  assumes "lp_go (tcp_body env st)"
  shows "lp_left (tcp_body env st) < lp_left st"
proof -
  obtain mb where mb: "tn_mb (lp_conn st) = Some mb" "\<not> mbuf_get_left mb < 4"
    using assms by (auto simp: tcp_body_def split: option.splits if_splits)
  then obtain len where len: "frame_size (be16 (mb_buf mb) (mb_pos mb)) (be16 (mb_buf mb) (mb_pos mb + 2)) = Some len"
      "\<not> mbuf_get_left mb < len"
    using assms by (auto simp: tcp_body_def split: option.splits if_splits)
  have "tcp_body env st = tcp_frame env mb len st" unfolding tcp_body_def using mb len by simp
  then show ?thesis
    using frame_progress [of env mb len st] frame_size_min [OF len(1)] assms mb by (simp add: lp_left_def)
qed

lemma loop_ends: "\<exists>st'. while_option lp_go (tcp_body env) st = Some st'"
  by (rule measure_while_option_Some [where P = "\<lambda>_. True" and f = "\<lambda>st. if lp_go st then Suc (lp_left st) else 0"])
     (use body_progress in auto)

section \<open>The frames of a stream\<close>

text \<open>A stream of bytes as frames, the bytes that are left over, and whether all types were known.\<close>

function frames_of :: "bytes \<Rightarrow> bytes list \<times> bytes \<times> bool" where
  "frames_of bs =
     (if length bs < 4 then ([], bs, True)
      else case frame_size (be16 bs 0) (be16 bs 2) of
             None \<Rightarrow> ([], bs, False)
           | Some len \<Rightarrow>
               if length bs < len then ([], bs, True)
               else case frames_of (drop (align4 len) bs) of (fs, r, ok) \<Rightarrow> (take len bs # fs, r, ok))"
  by pat_completeness auto
termination
proof (relation "measure length", goal_cases)
  case (2 bs len)
  then show ?case using frame_size_min [of _ _ len] align4_bounds(1) [of len] by fastforce
qed simp

declare frames_of.simps [simp del]

lemma frames_of_Nil [simp]: "frames_of [] = ([], [], True)"
  by (simp add: frames_of.simps)

lemma be16_append: "i + 1 < length xs \<Longrightarrow> be16 (xs @ ys) i = be16 xs i"
  by (simp add: be16_def nth_append)

text \<open>If no frame needs padding, the frames of a stream do not depend on where it is cut.\<close>

lemma frames_of_append:
  "frames_of xs = (fs, r, True) \<Longrightarrow> \<forall>f \<in> set fs. length f mod 4 = 0 \<Longrightarrow> frames_of (r @ ys) = (gs, r', ok) \<Longrightarrow>
   frames_of (xs @ ys) = (fs @ gs, r', ok)"
proof (induction xs arbitrary: fs rule: frames_of.induct)
  case (1 bs)
  show ?case
  proof (cases "length bs < 4")
    case True
    then show ?thesis using "1.prems" by (simp add: frames_of.simps [of bs])
  next
    case False
    then have b: "be16 (bs @ ys) 0 = be16 bs 0" "be16 (bs @ ys) 2 = be16 bs 2" by (simp_all add: be16_append)
    obtain len where len: "frame_size (be16 bs 0) (be16 bs 2) = Some len"
      using "1.prems"(1) False by (auto simp: frames_of.simps [of bs] split: option.splits)
    show ?thesis
    proof (cases "length bs < len")
      case True
      then show ?thesis using "1.prems" False len by (simp add: frames_of.simps [of bs])
    next
      case ge: False
      obtain fs' where f: "frames_of (drop (align4 len) bs) = (fs', r, True)" "fs = take len bs # fs'"
        using "1.prems"(1) False len ge by (auto simp: frames_of.simps [of bs] split: prod.splits)
      have al: "align4 len = len" using "1.prems"(2) f(2) ge by (intro align4_bounds(2)) simp
      have "frames_of (drop (align4 len) bs @ ys) = (fs' @ gs, r', ok)"
        by (rule "1.IH" [OF False len ge f(1)]) (use "1.prems"(2,3) f(2) in simp_all)
      then have "frames_of (drop len (bs @ ys)) = (fs' @ gs, r', ok)" using ge unfolding al by simp
      then show ?thesis
        using False len ge b f(2) unfolding frames_of.simps [of "bs @ ys"] by (simp add: al)
    qed
  qed
qed

text \<open>
  What the connection does with one frame after the other, up to the first that the TURN client
  refuses; the second result says that it took all of them.
\<close>

definition take_frame :: "turn_env \<Rightarrow> bytes \<Rightarrow> turn_conn \<Rightarrow> turn_conn" where
  "take_frame env f conn =
     (case te_turnc_recv env (tn_frames conn) f of
        (e, src, left) \<Rightarrow>
          (let conn = conn\<lparr>tn_frames := tn_frames conn @ [f]\<rparr>
           in if e = OK \<and> left \<noteq> [] then turntcp_recv_data src left conn else conn))"

fun feed :: "turn_env \<Rightarrow> bytes list \<Rightarrow> turn_conn \<Rightarrow> turn_conn \<times> bool" where
  "feed env [] conn = (conn, True)"
| "feed env (f # fs) conn =
     (if fst (te_turnc_recv env (tn_frames conn) f) = OK then feed env fs (take_frame env f conn)
      else (take_frame env f conn, False))"

definition pending :: "turn_conn \<Rightarrow> bytes" where
  "pending conn = (case tn_mb conn of None \<Rightarrow> [] | Some mb \<Rightarrow> mbuf_window mb)"

definition mb_ok :: "mbuf \<Rightarrow> bool" where
  "mb_ok mb \<longleftrightarrow> mb_pos mb \<le> mb_end mb \<and> mb_end mb \<le> length (mb_buf mb)"

text \<open>The buffer can always grow.\<close>

definition mem_suffices :: "turn_env \<Rightarrow> bool" where
  "mem_suffices env \<longleftrightarrow> (\<forall>mb n. te_mbuf_write env mb n = OK)"

lemma window_length [simp]: "mb_ok mb \<Longrightarrow> length (mbuf_window mb) = mbuf_get_left mb"
  by (auto simp: mbuf_window_def mbuf_get_left_def mb_ok_def)

lemma window_be16: "mb_ok mb \<Longrightarrow> i + 1 < mbuf_get_left mb \<Longrightarrow> be16 (mb_buf mb) (mb_pos mb + i) = be16 (mbuf_window mb) i"
  by (auto simp: be16_def mbuf_window_def mb_ok_def mbuf_get_left_def add.assoc split: if_splits)

lemma window_take: "len \<le> mbuf_get_left mb \<Longrightarrow> take len (drop (mb_pos mb) (mb_buf mb)) = take len (mbuf_window mb)"
  by (simp add: mbuf_window_def min_def)

lemma window_drop:
  "mb_ok mb \<Longrightarrow> mbuf_window (mb\<lparr>mb_pos := mb_pos mb + n\<rparr>) = drop n (mbuf_window mb)"
  by (auto simp: mbuf_window_def mbuf_get_left_def mb_ok_def drop_take add.commute)

lemma take_frame_simps [simp]:
  "tn_turnc (take_frame env f conn) = tn_turnc conn" "tn_freed (take_frame env f conn) = tn_freed conn"
  "tn_mb (take_frame env f conn) = tn_mb conn" "tn_frames (take_frame env f conn) = tn_frames conn @ [f]"
  "take_frame env f (conn\<lparr>tn_mb := m\<rparr>) = (take_frame env f conn)\<lparr>tn_mb := m\<rparr>"
  "take_frame env f (conn\<lparr>tn_freed := b\<rparr>) = (take_frame env f conn)\<lparr>tn_freed := b\<rparr>"
  by (auto simp: take_frame_def Let_def turntcp_recv_data_def tn_act_def split: prod.split)

lemma feed_simps [simp]:
  "tn_turnc (fst (feed env fs conn)) = tn_turnc conn" "tn_freed (fst (feed env fs conn)) = tn_freed conn"
  "tn_mb (fst (feed env fs conn)) = tn_mb conn"
  "feed env fs (conn\<lparr>tn_mb := m\<rparr>) = apfst (tn_mb_update (\<lambda>_. m)) (feed env fs conn)"
  "feed env fs (conn\<lparr>tn_freed := b\<rparr>) = apfst (tn_freed_update (\<lambda>_. b)) (feed env fs conn)"
  by (induction fs arbitrary: conn) simp_all

lemma feed_append:
  "feed env (fs @ gs) conn = (if snd (feed env fs conn) then feed env gs (fst (feed env fs conn)) else feed env fs conn)"
  by (induction fs arbitrary: conn) simp_all

text \<open>One pass, and the whole loop.\<close>

lemma body_window:
  assumes "tn_mb (lp_conn st) = Some mb" and "mb_ok mb"
  shows "tcp_body env st =
    (if mbuf_get_left mb < 4 then lp_break st
     else case frame_size (be16 (mbuf_window mb) 0) (be16 (mbuf_window mb) 2) of
            None \<Rightarrow> lp_fail EBADMSG st
          | Some len \<Rightarrow> if mbuf_get_left mb < len then lp_break st else tcp_frame env mb len st)"
  using assms(1) window_be16 [OF assms(2), of 0] window_be16 [OF assms(2), of 2] by (simp add: tcp_body_def)

lemma frame_step:
  assumes "tn_turnc (lp_conn st)" and "lp_go st" and "len \<le> mbuf_get_left mb"
    and "fst (te_turnc_recv env (tn_frames (lp_conn st)) (take len (mbuf_window mb))) = OK"
  shows "tcp_frame env mb len st =
    (let conn = take_frame env (take len (mbuf_window mb)) (lp_conn st);
         mb = mb\<lparr>mb_pos := mb_pos mb + align4 len\<rparr>
     in if mb_end mb \<le> mb_pos mb then st\<lparr>lp_conn := conn\<lparr>tn_mb := None\<rparr>, lp_go := False\<rparr>
        else st\<lparr>lp_conn := conn\<lparr>tn_mb := Some mb\<rparr>\<rparr>)"
proof -
  let ?f = "take len (mbuf_window mb)"
  obtain src left where r: "te_turnc_recv env (tn_frames (lp_conn st)) ?f = (OK, src, left)"
    using assms(4) by (metis prod_cases3 fst_conv)
  show ?thesis
    using assms(1,2) r
    by (auto simp: tcp_frame_def window_take [OF assms(3)] to_turnc_def take_frame_def Let_def lp_break_def)
qed

lemma frame_refused:
  assumes "tn_turnc (lp_conn st)" and "len \<le> mbuf_get_left mb"
    and "fst (te_turnc_recv env (tn_frames (lp_conn st)) (take len (mbuf_window mb))) = e" and "e \<noteq> OK"
  shows "tcp_frame env mb len st = lp_fail e (st\<lparr>lp_conn := take_frame env (take len (mbuf_window mb)) (lp_conn st)\<rparr>)"
proof -
  let ?f = "take len (mbuf_window mb)"
  obtain src left where r: "te_turnc_recv env (tn_frames (lp_conn st)) ?f = (e, src, left)"
    using assms(3) by (metis prod_cases3 fst_conv)
  show ?thesis
    using assms(1,4) r by (simp add: tcp_frame_def window_take [OF assms(2)] to_turnc_def take_frame_def Let_def)
qed

lemma loop_stop:
  assumes "lp_go st" and "tcp_body env st = st'" and "\<not> lp_go st'"
  shows "while_option lp_go (tcp_body env) st = Some st'"
  using assms by (simp add: while_option_unfold [of lp_go _ st] while_option_unfold [of lp_go _ st'])

definition loop_done :: "turn_env \<Rightarrow> tcp_loop \<Rightarrow> bytes list \<Rightarrow> bytes \<Rightarrow> bool \<Rightarrow> bool" where
  "loop_done env st fs r ok \<longleftrightarrow>
     (\<exists>m e. while_option lp_go (tcp_body env) st =
              Some \<lparr>lp_conn = (fst (feed env fs (lp_conn st)))\<lparr>tn_mb := m\<rparr>, lp_err = e, lp_go = False\<rparr> \<and>
            (e = OK \<longleftrightarrow> ok \<and> snd (feed env fs (lp_conn st))) \<and>
            (e = OK \<longrightarrow> (case m of None \<Rightarrow> r = [] | Some mb \<Rightarrow> mb_ok mb \<and> mbuf_window mb = r)))"

lemma loop_done_stop:
  assumes "tn_mb (lp_conn st) = Some mb" and "mb_ok mb" and "lp_go st" and "lp_err st = OK"
  shows "tcp_body env st = lp_break st \<Longrightarrow> loop_done env st [] (mbuf_window mb) True"
    and "tcp_body env st = lp_fail EBADMSG st \<Longrightarrow> loop_done env st [] r False"
proof -
  have c: "(lp_conn st)\<lparr>tn_mb := Some mb\<rparr> = lp_conn st" using assms(1) by simp
  show "loop_done env st [] (mbuf_window mb) True" if "tcp_body env st = lp_break st"
    using loop_stop [OF assms(3) that] assms(2,4) c unfolding loop_done_def
    by (intro exI [of _ "Some mb"] exI [of _ OK]) (simp add: lp_break_def)
  show "loop_done env st [] r False" if "tcp_body env st = lp_fail EBADMSG st"
    using loop_stop [OF assms(3) that] c unfolding loop_done_def
    by (intro exI [of _ "Some mb"] exI [of _ EBADMSG]) (simp add: lp_fail_def)
qed

lemma loop_done_refused:
  assumes "tn_turnc (lp_conn st)" and "lp_go st" and "len \<le> mbuf_get_left mb"
    and "tcp_body env st = tcp_frame env mb len st"
    and "fst (te_turnc_recv env (tn_frames (lp_conn st)) (take len (mbuf_window mb))) \<noteq> OK"
  shows "loop_done env st (take len (mbuf_window mb) # fs) r ok"
proof -
  let ?c = "take_frame env (take len (mbuf_window mb)) (lp_conn st)"
  have "?c\<lparr>tn_mb := tn_mb (lp_conn st)\<rparr> = ?c" by (simp add: take_frame_simps(3) [of env _ "lp_conn st", symmetric] del: take_frame_simps)
  then show ?thesis
    using loop_stop [OF assms(2,4)] frame_refused [OF assms(1,3) refl assms(5)] assms(5) unfolding loop_done_def
    by (intro exI [of _ "tn_mb (lp_conn st)"] exI) (auto simp: lp_fail_def)
qed

lemma loop_done_step:
  assumes "tn_turnc (lp_conn st)" and "lp_go st" and "lp_err st = OK" and "len \<le> mbuf_get_left mb"
    and "tcp_body env st = tcp_frame env mb len st" and "mb_ok mb"
    and "frames_of (drop (align4 len) (mbuf_window mb)) = (fs, r, ok)"
    and taken: "fst (te_turnc_recv env (tn_frames (lp_conn st)) (take len (mbuf_window mb))) = OK"
    and more: "\<And>mb' st'. mbuf_window mb' = drop (align4 len) (mbuf_window mb) \<Longrightarrow> tn_mb (lp_conn st') = Some mb' \<Longrightarrow> mb_ok mb' \<Longrightarrow>
           tn_turnc (lp_conn st') \<Longrightarrow> lp_go st' \<Longrightarrow> lp_err st' = OK \<Longrightarrow> loop_done env st' fs r ok"
  shows "loop_done env st (take len (mbuf_window mb) # fs) r ok"
proof -
  let ?c = "take_frame env (take len (mbuf_window mb)) (lp_conn st)"
  let ?mb = "mb\<lparr>mb_pos := mb_pos mb + align4 len\<rparr>"
  note step = frame_step [OF assms(1,2,4) taken]
  have w: "mbuf_window ?mb = drop (align4 len) (mbuf_window mb)" by (rule window_drop [OF assms(6)])
  show ?thesis
  proof (cases "mb_end mb \<le> mb_pos mb + align4 len")
    case True
    then have "drop (align4 len) (mbuf_window mb) = []" unfolding w [symmetric] by (simp add: mbuf_window_def mbuf_get_left_def)
    then have "fs = []" "r = []" "ok" using assms(7) by simp_all
    then show ?thesis
      using loop_stop [OF assms(2), of env] True step assms(3,5) taken unfolding loop_done_def
      by (intro exI [of _ None] exI [of _ OK]) (simp add: Let_def)
  next
    case False
    let ?st = "st\<lparr>lp_conn := ?c\<lparr>tn_mb := Some ?mb\<rparr>\<rparr>"
    have "mb_ok ?mb" using assms(6) False by (simp add: mb_ok_def)
    then have "loop_done env ?st fs r ok" using assms(1-3) w by (intro more) simp_all
    moreover have "tcp_body env st = ?st" using False step assms(5) by (simp add: Let_def)
    ultimately show ?thesis using assms(2) taken by (simp add: loop_done_def while_option_unfold [of lp_go _ st])
  qed
qed

lemma loop_frames:
  "tn_mb (lp_conn st) = Some mb \<Longrightarrow> mb_ok mb \<Longrightarrow> tn_turnc (lp_conn st) \<Longrightarrow> lp_go st \<Longrightarrow> lp_err st = OK \<Longrightarrow>
    frames_of (mbuf_window mb) = (fs, r, ok) \<Longrightarrow> loop_done env st fs r ok"
proof (induction "mbuf_window mb" arbitrary: st mb fs rule: frames_of.induct)
  case 1
  note frames = frames_of.simps [of "mbuf_window mb"] and body = body_window [OF "1.prems"(1,2), of env]
  note stop = loop_done_stop [OF "1.prems"(1,2,4,5)]
  show ?case
  proof (cases "mbuf_get_left mb < 4")
    case True
    then show ?thesis using stop(1) body "1.prems"(2,6) by (simp add: frames)
  next
    case False
    then have ge4: "\<not> length (mbuf_window mb) < 4" using "1.prems"(2) by simp
    show ?thesis
    proof (cases "frame_size (be16 (mbuf_window mb) 0) (be16 (mbuf_window mb) 2)")
      case None
      then show ?thesis using stop(2) [of env "mbuf_window mb"] body False ge4 "1.prems"(6) by (simp add: frames)
    next
      case (Some len)
      show ?thesis
      proof (cases "mbuf_get_left mb < len")
        case True
        then show ?thesis using stop(1) body Some False ge4 "1.prems"(2,6) by (simp add: frames)
      next
        case ge: False
        then have lw: "\<not> length (mbuf_window mb) < len" using "1.prems"(2) by simp
        obtain fs' where f: "frames_of (drop (align4 len) (mbuf_window mb)) = (fs', r, ok)" "fs = take len (mbuf_window mb) # fs'"
          using "1.prems"(6) Some ge4 lw by (auto simp: frames split: prod.splits)
        have "loop_done env st' fs' r ok"
          if "mbuf_window mb' = drop (align4 len) (mbuf_window mb)" "tn_mb (lp_conn st') = Some mb'" "mb_ok mb'"
            "tn_turnc (lp_conn st')" "lp_go st'" "lp_err st' = OK" for mb' st'
          by (rule "1.hyps" [OF ge4 Some lw that(1) [symmetric] that(2-6)]) (use that(1) f(1) in simp)
        then show ?thesis
          unfolding f(2) using ge body Some False
          by (cases "fst (te_turnc_recv env (tn_frames (lp_conn st)) (take len (mbuf_window mb))) = OK")
             (intro loop_done_step [OF "1.prems"(3-5) _ _ "1.prems"(2) f(1)] loop_done_refused [OF "1.prems"(3,4)]; simp)+
      qed
    qed
  qed
qed

lemma append_pending:
  assumes "mem_suffices env" and "pred_option mb_ok (tn_mb conn)" and "mb_ok mb"
  shows "\<exists>mb'. tcp_append env mb conn = (OK, conn\<lparr>tn_mb := Some mb'\<rparr>) \<and> mb_ok mb' \<and>
    mbuf_window mb' = pending conn @ mbuf_window mb"
proof (cases "tn_mb conn")
  case (Some old)
  then have ok: "mb_pos old \<le> mb_end old" "mb_end old \<le> length (mb_buf old)" using assms(2) by (simp_all add: mb_ok_def)
  let ?w = "mbuf_window mb"
  let ?mb = "old\<lparr>mb_buf := take (mb_end old) (mb_buf old) @ ?w @ drop (mb_end old + length ?w) (mb_buf old),
      mb_end := mb_end old + length ?w\<rparr>"
  have "tcp_append env mb conn = (OK, conn\<lparr>tn_mb := Some ?mb\<rparr>)"
    using assms(1) by (simp add: tcp_append_def Some mbuf_write_mem_def mem_suffices_def Let_def)
  moreover have "pending conn = take (mb_end old - mb_pos old) (drop (mb_pos old) (mb_buf old))"
    using ok by (simp add: pending_def Some mbuf_window_def mbuf_get_left_def)
  moreover have "mbuf_get_left ?mb = mb_end old + length ?w - mb_pos old" using ok by (auto simp: mbuf_get_left_def)
  then have "mbuf_window ?mb = take (mb_end old - mb_pos old) (drop (mb_pos old) (mb_buf old)) @ ?w"
    using ok by (simp add: mbuf_window_def [of ?mb] drop_take)
  ultimately show ?thesis using ok by (intro exI [of _ ?mb]) (simp add: mb_ok_def)
qed (use assms(3) in \<open>auto simp: tcp_append_def pending_def\<close>)

lemma recv_frames:
  assumes "mem_suffices env" and "tn_turnc conn" and "pred_option mb_ok (tn_mb conn)" and "mb_ok mb"
    and "frames_of (pending conn @ mbuf_window mb) = (fs, r, ok)" and "feed env fs conn = (conn', taken)"
  shows "\<exists>m. tcp_recv env mb conn = Some (conn'\<lparr>tn_mb := m, tn_freed := \<not> (ok \<and> taken) \<or> tn_freed conn\<rparr>) \<and>
    (ok \<and> taken \<longrightarrow> pred_option mb_ok m \<and> (case m of None \<Rightarrow> [] | Some mb \<Rightarrow> mbuf_window mb) = r)"
proof -
  obtain mb' where mb': "tcp_append env mb conn = (OK, conn\<lparr>tn_mb := Some mb'\<rparr>)" "mb_ok mb'"
      "mbuf_window mb' = pending conn @ mbuf_window mb"
    using append_pending [OF assms(1,3,4)] by blast
  let ?st = "\<lparr>lp_conn = conn\<lparr>tn_mb := Some mb'\<rparr>, lp_err = OK, lp_go = True\<rparr>"
  have "loop_done env ?st fs r ok"
    by (rule loop_frames [of _ mb']) (use mb' assms(2,5) in simp_all)
  then obtain m e where "while_option lp_go (tcp_body env) ?st = Some \<lparr>lp_conn = conn'\<lparr>tn_mb := m\<rparr>, lp_err = e, lp_go = False\<rparr>"
      "e = OK \<longleftrightarrow> ok \<and> taken" "e = OK \<longrightarrow> (case m of None \<Rightarrow> r = [] | Some mb \<Rightarrow> mb_ok mb \<and> mbuf_window mb = r)"
    unfolding loop_done_def by (auto simp: assms(6))
  moreover have "tn_freed conn' = tn_freed conn" using feed_simps(2) [of env fs conn] assms(6) by simp
  ultimately show ?thesis by (intro exI [of _ m]) (auto simp: tcp_recv_def mb'(1) split: option.splits)
qed

text \<open>The segments of a stream, until the connection is released.\<close>

fun recv_segments :: "turn_env \<Rightarrow> mbuf list \<Rightarrow> turn_conn \<Rightarrow> turn_conn option" where
  "recv_segments env [] conn = Some conn"
| "recv_segments env (mb # mbs) conn =
     (if tn_freed conn then Some conn else Option.bind (tcp_recv env mb conn) (recv_segments env mbs))"

lemma segments_freed [simp]: "tn_freed conn \<Longrightarrow> recv_segments env mbs conn = Some conn"
  by (cases mbs) simp_all

text \<open>What is left over holds no frame.\<close>

lemma frames_of_rest: "frames_of xs = (fs, r, True) \<Longrightarrow> frames_of r = ([], r, True)"
proof (induction xs arbitrary: fs rule: frames_of.induct)
  case (1 bs)
  show ?case
  proof (cases "frames_of bs = ([], bs, True)")
    case False
    then have ge4: "\<not> length bs < 4" by (auto simp: frames_of.simps [of bs])
    then obtain len where len: "frame_size (be16 bs 0) (be16 bs 2) = Some len" "\<not> length bs < len"
      using False "1.prems" by (auto simp: frames_of.simps [of bs] split: option.splits if_splits)
    then obtain fs' where "frames_of (drop (align4 len) bs) = (fs', r, True)"
      using "1.prems" ge4 by (auto simp: frames_of.simps [of bs] split: prod.splits)
    then show ?thesis by (rule "1.IH" [OF ge4 len])
  qed (use "1.prems" in simp)
qed

lemma frames_of_bad: "frames_of xs = (fs, r, False) \<Longrightarrow> \<forall>f \<in> set fs. length f mod 4 = 0 \<Longrightarrow> frames_of (xs @ ys) = (fs, r @ ys, False)"
proof (induction xs arbitrary: fs rule: frames_of.induct)
  case (1 bs)
  then have ge4: "\<not> length bs < 4" by (auto simp: frames_of.simps [of bs])
  then have b: "be16 (bs @ ys) 0 = be16 bs 0" "be16 (bs @ ys) 2 = be16 bs 2" by (simp_all add: be16_append)
  show ?case
  proof (cases "frame_size (be16 bs 0) (be16 bs 2)")
    case None
    then have "fs = []" "r = bs" using ge4 "1.prems" by (simp_all add: frames_of.simps [of bs])
    then show ?thesis using ge4 b None unfolding frames_of.simps [of "bs @ ys"] by simp
  next
    case (Some len)
    then have ge: "\<not> length bs < len" using ge4 "1.prems" by (auto simp: frames_of.simps [of bs])
    obtain fs' where f: "frames_of (drop (align4 len) bs) = (fs', r, False)" "fs = take len bs # fs'"
      using "1.prems"(1) Some ge4 ge by (auto simp: frames_of.simps [of bs] split: prod.splits)
    have al: "align4 len = len" using "1.prems"(2) f(2) ge by (intro align4_bounds(2)) simp
    have "frames_of (drop (align4 len) bs @ ys) = (fs', r @ ys, False)"
      by (rule "1.IH" [OF ge4 Some ge f(1)]) (use "1.prems"(2) f(2) in simp)
    then have "frames_of (drop len (bs @ ys)) = (fs', r @ ys, False)" using ge unfolding al by simp
    then show ?thesis using ge4 Some ge b f(2) unfolding frames_of.simps [of "bs @ ys"] by (simp add: al)
  qed
qed

lemma frames_of_prefix:
  assumes "frames_of (xs @ ys) = (fs, r, ok)" and "\<forall>f \<in> set fs. length f mod 4 = 0"
    and "frames_of xs = (gs, s, good)"
  shows "\<forall>g \<in> set gs. length g mod 4 = 0"
  using assms
proof (induction xs arbitrary: fs gs rule: frames_of.induct)
  case (1 bs)
  show ?case
  proof (cases "length bs < 4")
    case False
    then have b: "be16 (bs @ ys) 0 = be16 bs 0" "be16 (bs @ ys) 2 = be16 bs 2" by (simp_all add: be16_append)
    show ?thesis
    proof (cases "frame_size (be16 bs 0) (be16 bs 2)")
      case (Some len)
      show ?thesis
      proof (cases "length bs < len")
        case ge: False
        obtain fs' where f: "frames_of (drop (align4 len) (bs @ ys)) = (fs', r, ok)" "fs = take len (bs @ ys) # fs'"
          using "1.prems"(1) Some b ge False by (auto simp: frames_of.simps [of "bs @ ys"] split: prod.splits)
        have al: "align4 len = len" using "1.prems"(2) f(2) ge by (intro align4_bounds(2)) simp
        obtain gs' where g: "frames_of (drop (align4 len) bs) = (gs', s, good)" "gs = take len bs # gs'"
          using "1.prems"(3) Some ge False by (auto simp: frames_of.simps [of bs] split: prod.splits)
        have "frames_of (drop (align4 len) bs @ ys) = (fs', r, ok)" using f(1) ge unfolding al by simp
        then have "\<forall>g \<in> set gs'. length g mod 4 = 0"
          using "1.IH" [OF False Some ge _ _ g(1)] "1.prems"(2) f(2) by simp
        then show ?thesis using "1.prems"(2) f(2) g(2) ge by simp
      qed (use "1.prems"(3) Some False in \<open>simp add: frames_of.simps [of bs]\<close>)
    qed (use "1.prems"(3) False in \<open>simp add: frames_of.simps [of bs]\<close>)
  qed (use "1.prems"(3) in \<open>simp add: frames_of.simps [of bs]\<close>)
qed

lemma segments_frames:
  assumes "mem_suffices env"
  shows "tn_turnc conn \<Longrightarrow> pred_option mb_ok (tn_mb conn) \<Longrightarrow> \<not> tn_freed conn \<Longrightarrow> \<forall>mb \<in> set mbs. mb_ok mb \<Longrightarrow>
    frames_of (pending conn) = ([], pending conn, True) \<Longrightarrow>
    frames_of (pending conn @ concat (map mbuf_window mbs)) = (fs, r, ok) \<Longrightarrow> \<forall>f \<in> set fs. length f mod 4 = 0 \<Longrightarrow>
    feed env fs conn = (conn', taken) \<Longrightarrow>
    \<exists>m. recv_segments env mbs conn = Some (conn'\<lparr>tn_mb := m, tn_freed := \<not> (ok \<and> taken)\<rparr>)"
proof (induction mbs arbitrary: conn fs conn')
  case Nil
  then show ?case by (intro exI [of _ "tn_mb conn"]) simp
next
  case (Cons mb mbs)
  let ?ys = "concat (map mbuf_window mbs)"
  obtain gs s good where g: "frames_of (pending conn @ mbuf_window mb) = (gs, s, good)" by (rule prod_cases3)
  obtain c took where c: "feed env gs conn = (c, took)" by fastforce
  have cc: "tn_turnc c = tn_turnc conn" "tn_freed c = tn_freed conn"
    using feed_simps(1,2) [of env gs conn] c by simp_all
  have al: "\<forall>f \<in> set gs. length f mod 4 = 0"
    by (rule frames_of_prefix [OF _ Cons.prems(7) g, of ?ys]) (use Cons.prems(6) in simp)
  obtain m where m: "tcp_recv env mb conn = Some (c\<lparr>tn_mb := m, tn_freed := \<not> (good \<and> took)\<rparr>)"
      "good \<and> took \<longrightarrow> pred_option mb_ok m \<and> (case m of None \<Rightarrow> [] | Some mb \<Rightarrow> mbuf_window mb) = s"
    using recv_frames [OF assms Cons.prems(1,2) _ g c] Cons.prems(3,4) by auto
  show ?case
  proof (cases good)
    case False
    have bad: "frames_of (pending conn @ mbuf_window mb) = (gs, s, False)" using g False by simp
    have "fs = gs" "\<not> ok" using frames_of_bad [OF bad al, of ?ys] Cons.prems(6) by simp_all
    then show ?thesis using m(1) False Cons.prems(3,8) c by auto
  next
    case True
    then have g': "frames_of (pending conn @ mbuf_window mb) = (gs, s, True)" using g by simp
    let ?c = "c\<lparr>tn_mb := m, tn_freed := False\<rparr>"
    obtain hs r' ok' where h: "frames_of (s @ ?ys) = (hs, r', ok')" by (rule prod_cases3)
    have "frames_of (pending conn @ mbuf_window mb @ ?ys) = (gs @ hs, r', ok')"
      using frames_of_append [OF g' al h] by simp
    then have fs: "fs = gs @ hs" "r' = r" "ok' = ok" using Cons.prems(6) by simp_all
    show ?thesis
    proof (cases took)
      case False
      then have "conn' = c" "\<not> taken" using Cons.prems(8) c fs(1) by (simp_all add: feed_append)
      then show ?thesis using m(1) False Cons.prems(3) by auto
    next
      case took: True
      have p: "pending ?c = s" "pred_option mb_ok m" using m(2) True took by (simp_all add: pending_def)
      have f: "feed env hs c = (conn', taken)" using Cons.prems(8) c took fs(1) by (simp add: feed_append)
      have "\<exists>m'. recv_segments env mbs ?c = Some ((conn'\<lparr>tn_mb := m, tn_freed := False\<rparr>)\<lparr>tn_mb := m', tn_freed := \<not> (ok \<and> taken)\<rparr>)"
      proof (rule Cons.IH)
        show "frames_of (pending ?c) = ([], pending ?c, True)" using frames_of_rest [OF g'] p(1) by simp
        show "frames_of (pending ?c @ ?ys) = (hs, r, ok)" using h fs(2,3) p(1) by simp
        show "\<forall>f \<in> set hs. length f mod 4 = 0" using Cons.prems(7) fs(1) by simp
      qed (use p(2) Cons.prems(1,4) cc f in simp_all)
      then show ?thesis using m(1) True took Cons.prems(3) by simp
    qed
  qed
qed

text \<open>A frame passed on starts with the first bytes that were in the buffer.\<close>

lemma frames_of_hd:
  assumes "frames_of (xs @ ys) = (fs, r, ok)" and "length xs \<le> 4"
  shows "fs = [] \<or> take (length xs) (hd fs) = xs"
proof (cases "frame_size (be16 (xs @ ys) 0) (be16 (xs @ ys) 2)")
  case (Some len)
  then have "4 \<le> len" by (rule frame_size_min)
  then show ?thesis
    using assms Some by (auto simp: frames_of.simps [of "xs @ ys"] min_def split: if_splits prod.splits)
qed (use assms in \<open>auto simp: frames_of.simps [of "xs @ ys"] split: if_splits\<close>)

lemma frames_of_Cons:
  assumes "frames_of f = ([f], [], True)" and "length pad = align4 (length f) - length f"
    and "frames_of rest = (gs, r, ok)"
  shows "frames_of (f @ pad @ rest) = (f # gs, r, ok)"
proof -
  have ge4: "\<not> length f < 4" using assms(1) by (auto simp: frames_of.simps [of f])
  then obtain len where len: "frame_size (be16 f 0) (be16 f 2) = Some len" "len \<le> length f" "take len f = f"
    using assms(1) by (auto simp: frames_of.simps [of f] split: option.splits if_splits prod.splits)
  then have l: "len = length f" by (metis length_take min.absorb2)
  have "be16 (f @ pad @ rest) 0 = be16 f 0" "be16 (f @ pad @ rest) 2 = be16 f 2"
    using ge4 by (simp_all add: be16_append)
  moreover have "drop (align4 len) (f @ pad @ rest) = rest"
    using assms(2) l align4_bounds(1) [of len] by simp
  ultimately show ?thesis using len(1) l ge4 assms(3) by (simp add: frames_of.simps [of "f @ pad @ rest"])
qed

lemma pad_short: "align4 n - n < 4"
  by (simp add: align4_eq)

definition seg :: "bytes \<Rightarrow> mbuf" where
  "seg bs = \<lparr>mb_buf = bs, mb_pos = 0, mb_end = length bs\<rparr>"

lemma seg_window [simp]: "mbuf_window (seg bs) = bs" "mb_ok (seg bs)"
  by (simp_all add: seg_def mbuf_window_def mbuf_get_left_def mb_ok_def)

text \<open>Two segments, when the first holds one frame.\<close>

lemma split_frames:
  assumes "mem_suffices env" and "tn_turnc conn" and "tn_mb conn = None" and "\<not> tn_freed conn"
    and "frames_of f = ([f], [], True)" and "frames_of bs = (hs, s, ok)" and "feed env (f # hs) conn = (c, taken)"
  shows "\<exists>m. recv_segments env [seg f, seg bs] conn = Some (c\<lparr>tn_mb := m, tn_freed := \<not> (ok \<and> taken)\<rparr>)"
proof -
  obtain d took where d: "feed env [f] conn = (d, took)" by fastforce
  have dd: "tn_turnc d = tn_turnc conn" using feed_simps(1) [of env "[f]" conn] d by simp
  obtain m where m: "tcp_recv env (seg f) conn = Some (d\<lparr>tn_mb := m, tn_freed := \<not> took\<rparr>)"
      "took \<longrightarrow> pred_option mb_ok m \<and> (case m of None \<Rightarrow> [] | Some mb \<Rightarrow> mbuf_window mb) = []"
    using recv_frames [OF assms(1,2) _ _ _ d, of "seg f" "[]" True] assms(3-5) by (auto simp: pending_def)
  have fd: "feed env (f # hs) conn = (if took then feed env hs d else (d, False))"
    using feed_append [of env "[f]" hs conn] d by simp
  show ?thesis
  proof (cases took)
    case False
    then show ?thesis using m(1) fd assms(4,7) by auto
  next
    case True
    let ?c = "d\<lparr>tn_mb := m, tn_freed := False\<rparr>"
    have "feed env hs ?c = (c\<lparr>tn_mb := m, tn_freed := False\<rparr>, taken)" using fd True assms(7) by simp
    moreover have "frames_of (pending ?c @ mbuf_window (seg bs)) = (hs, s, ok)"
      using m(2) True assms(6) by (simp add: pending_def)
    ultimately obtain m' where "tcp_recv env (seg bs) ?c = Some (c\<lparr>tn_mb := m', tn_freed := \<not> (ok \<and> taken)\<rparr>)"
      using recv_frames [OF assms(1), of ?c "seg bs" hs s ok] m(2) True dd assms(2) by force
    then show ?thesis using m(1) True assms(4) by auto
  qed
qed

section \<open>Theorems\<close>

text \<open>
  C18: the loop over the frames ends. Whatever bytes a server sends and whatever the TURN client makes
  of them, the handler of received bytes returns.
\<close>

theorem tcp_recv_terminates: "\<exists>conn'. tcp_recv env mb conn = Some conn'"
  using loop_ends [of env "\<lparr>lp_conn = snd (tcp_append env mb conn), lp_err = OK, lp_go = True\<rparr>"]
  by (cases "tcp_append env mb conn") (auto simp: tcp_recv_def)

text \<open>
  C12: the cut of a stream into segments does not matter. If the lengths of the frames are multiples
  of four and the buffer can grow, the TURN client gets the frames of the stream, one after the other and
  up to the first it refuses, whatever segments the stream arrives in; the connection is
  released if and only if the client refuses a frame or a type is unknown.
\<close>

theorem tcp_recv_segments:
  assumes "mem_suffices env" and "tn_turnc conn" and "tn_mb conn = None" and "\<not> tn_freed conn"
    and "\<forall>mb \<in> set mbs. mb_ok mb"
    and "frames_of (concat (map mbuf_window mbs)) = (fs, r, ok)" and "\<forall>f \<in> set fs. length f mod 4 = 0"
    and "feed env fs conn = (conn', taken)"
  shows "\<exists>m. recv_segments env mbs conn = Some (conn'\<lparr>tn_mb := m, tn_freed := \<not> (ok \<and> taken)\<rparr>)"
  using segments_frames [OF assms(1,2) _ assms(4,5) _ _ assms(7,8)] assms(3,6) by (simp add: pending_def)

text \<open>
  A server and a connection for concrete runs: every frame is data of the same peer, and the client
  refuses a frame for the channel 0x4001.
\<close>

definition demo_sa :: sa where
  "demo_sa = \<lparr>sa_af = AF_INET, sa_host = ''10.0.0.1'', sa_port = 3478\<rparr>"

definition demo_turn :: turn_env where
  "demo_turn = \<lparr>te_turnc_alloc = OK,
     te_turnc_recv = (\<lambda>hist f. if take 2 f = [0x40, 1] then (EBADMSG, demo_sa, []) else (OK, demo_sa, drop 4 f)),
     te_mbuf_write = (\<lambda>mb n. OK), te_ska_alloc = OK, te_rand = 7,
     te_now = 1, te_v6_addr = OK, te_udp_helper = False, te_udp_listen = OK, te_udp_local = OK, te_tcp_connect = OK,
     te_tls_alloc = OK, te_tls_start = OK, te_add_perm = OK, te_add_chan = OK, te_proto2name = (\<lambda>_. ''TCP'')\<rparr>"

definition demo_conn :: turn_conn where
  "demo_conn = tcp_estab demo_turn (turnconn_init demo_turn 0 demo_sa IPPROTO_TCP False ''u'' ''p'' AF_INET 0 0 True True True)"

lemma demo_conn_ok: "mem_suffices demo_turn" "tn_turnc demo_conn" "tn_mb demo_conn = None" "\<not> tn_freed demo_conn"
  by (simp_all add: mem_suffices_def demo_turn_def demo_conn_def tcp_estab_def turnconn_init_def tn_act_def Let_def)

lemmas frames_eval = frames_of.simps [of "_ # _"] frames_of.simps [of "[]"] be16_def frame_size_def align4_eq

theorem tcp_recv_segments_witness:
  "\<exists>m. recv_segments demo_turn [seg [0x40, 0, 0], seg [4, 1, 2, 3, 4, 0x40, 1], seg [0, 0, 0x40, 0]] demo_conn =
       Some ((take_frame demo_turn [0x40, 1, 0, 0] (take_frame demo_turn [0x40, 0, 0, 4, 1, 2, 3, 4] demo_conn))
               \<lparr>tn_mb := m, tn_freed := True\<rparr>)"
proof -
  let ?mbs = "[seg [0x40, 0, 0], seg [4, 1, 2, 3, 4, 0x40, 1], seg [0, 0, 0x40, 0]]"
  have f: "frames_of (concat (map mbuf_window ?mbs)) = ([[0x40, 0, 0, 4, 1, 2, 3, 4], [0x40, 1, 0, 0]], [0x40, 0], True)"
    by (simp add: frames_eval)
  have g: "feed demo_turn [[0x40, 0, 0, 4, 1, 2, 3, 4], [0x40, 1, 0, 0]] demo_conn =
      (take_frame demo_turn [0x40, 1, 0, 0] (take_frame demo_turn [0x40, 0, 0, 4, 1, 2, 3, 4] demo_conn), False)"
    by (simp add: demo_turn_def)
  show ?thesis
    using tcp_recv_segments [OF demo_conn_ok _ f _ g] by (simp del: recv_segments.simps feed.simps)
qed

text \<open>
  C31: padding that arrives later is read as a frame. Data of a channel whose length is no multiple of four
  is padded on a stream. If the frame, its padding and the rest of the stream arrive in one
  segment, the frames passed on are that frame and the frames of the rest. If the first segment ends before the
  padding, the buffer is dropped with the frame, and the frames passed on after it are those of the padding
  followed by the rest: the next one starts with the padding, if there is any.
\<close>

theorem tcp_recv_padding_split:
  assumes "mem_suffices env" and "tn_turnc conn" and "tn_mb conn = None" and "\<not> tn_freed conn"
    and "frames_of f = ([f], [], True)" and "length pad = align4 (length f) - length f" and "pad \<noteq> []"
    and "frames_of rest = (gs, r, ok)" and "feed env (f # gs) conn = (c, taken)"
    and "frames_of (pad @ rest) = (hs, s, ok')" and "feed env (f # hs) conn = (c', taken')"
  shows "\<exists>m m'. recv_segments env [seg (f @ pad @ rest)] conn = Some (c\<lparr>tn_mb := m, tn_freed := \<not> (ok \<and> taken)\<rparr>) \<and>
    recv_segments env [seg f, seg (pad @ rest)] conn = Some (c'\<lparr>tn_mb := m', tn_freed := \<not> (ok' \<and> taken')\<rparr>) \<and>
    (hs = [] \<or> take (length pad) (hd hs) = pad)"
proof -
  have "hs = [] \<or> take (length pad) (hd hs) = pad"
    using frames_of_hd [OF assms(10)] pad_short [of "length f"] assms(6) by simp
  moreover obtain m where "tcp_recv env (seg (f @ pad @ rest)) conn = Some (c\<lparr>tn_mb := m, tn_freed := \<not> (ok \<and> taken)\<rparr>)"
    using recv_frames [OF assms(1,2) _ _ _ assms(9), of "seg (f @ pad @ rest)"] frames_of_Cons [OF assms(5,6,8)] assms(3,4)
    by (auto simp: pending_def)
  ultimately show ?thesis using split_frames [OF assms(1-5,10,11)] assms(4) by auto
qed

theorem tcp_recv_padding_split_witness:
  "map_option tn_frames (recv_segments demo_turn [seg [0x40, 0, 0, 1, 9, 0, 0, 0, 0x40, 0, 0, 0]] demo_conn) =
     Some [[0x40, 0, 0, 1, 9], [0x40, 0, 0, 0]] \<and>
   map_option tn_frames (recv_segments demo_turn [seg [0x40, 0, 0, 1, 9], seg [0, 0, 0, 0x40, 0, 0, 0]] demo_conn) =
     Some [[0x40, 0, 0, 1, 9]]"
proof -
  have f: "frames_of [0x40, 0, 0, 1, 9] = ([[0x40, 0, 0, 1, 9]], [], True)" by (simp add: frames_eval)
  have p: "length [0, 0, 0::u8] = align4 (length [0x40, 0, 0, 1, 9::u8]) - length [0x40, 0, 0, 1, 9::u8]" "[0, 0, 0::u8] \<noteq> []"
    by (simp_all add: align4_eq)
  have r: "frames_of [0x40, 0, 0, 0] = ([[0x40, 0, 0, 0]], [], True)" by (simp add: frames_eval)
  have s: "frames_of ([0, 0, 0] @ [0x40, 0, 0, 0]) = ([], [0, 0, 0, 0x40, 0, 0, 0], True)"
    by (simp add: frames_eval STUN_HEADER_SIZE_def)
  have g: "feed demo_turn [[0x40, 0, 0, 1, 9], [0x40, 0, 0, 0]] demo_conn =
      (take_frame demo_turn [0x40, 0, 0, 0] (take_frame demo_turn [0x40, 0, 0, 1, 9] demo_conn), True)"
    "feed demo_turn [[0x40, 0, 0, 1, 9]] demo_conn = (take_frame demo_turn [0x40, 0, 0, 1, 9] demo_conn, True)"
    by (simp_all add: demo_turn_def)
  have e: "tn_frames demo_conn = []"
    by (simp add: demo_conn_def tcp_estab_def turnconn_init_def tn_act_def Let_def)
  show ?thesis
    using tcp_recv_padding_split [OF demo_conn_ok f p r g(1) s g(2)] by (auto simp: e simp del: recv_segments.simps)
qed

end
