(* ===== verification/Econn.thy ===== *)
theory Econn
  imports Econn_Msg
begin

text \<open>
  One end of a call connection, \<^verbatim>\<open>src/src/econn/econn.c\<close> and \<^verbatim>\<open>src/src/econn/state.c\<close>. The object is the
  record \<open>econn\<close>; its handlers are flags that say which are set, its timer is the delay and the
  handler it was started with, and \<open>ec_trace\<close> is what the object did to the outside: messages given
  to the transport, with the transport's answer, and calls of its handlers. The sources call a
  handler last, so what the application does in one is the next operation. The transport and libre
  are \<open>ec_env\<close>. The object is alive (its magic number is intact) while it is used.
\<close>

section \<open>State\<close>

datatype tmr_handler = Tmr_local | Tmr_term | Tmr_cancel

record econn_handlers =
  h_connh :: bool
  h_answerh :: bool
  h_update_reqh :: bool
  h_update_resph :: bool
  h_alerth :: bool
  h_confmsgh :: bool
  h_pingh :: bool

datatype econn_act =
    Sent econn_message err
  | Connh u32 string string u32 "string option" "econn_props option" bool
  | Answerh bool "string option" "econn_props option"
  | Update_reqh string string "string option" "econn_props option" bool
  | Update_resph "string option" "econn_props option"
  | Alerth u32 "string option"
  | Confmsgh econn_message
  | Pingh bool
  | Closeh err u32

record econn_conf =
  timeout_setup :: u32
  timeout_term :: u32

record econn =
  ec_conf :: econn_conf
  ec_tmr_local :: "(u32 \<times> tmr_handler) option"
  ec_transp :: bool
  ec_state :: econn_state
  ec_dir :: econn_dir
  ec_userid_self :: string
  ec_clientid :: string
  ec_sessid_local :: string
  ec_sessid_remote :: string
  ec_userid_remote :: string
  ec_clientid_remote :: string
  ec_setup_err :: err
  ec_conflict :: int
  ec_handlers :: econn_handlers
  ec_closeh :: bool
  ec_err :: err
  ec_trace :: "econn_act list"

record ec_env =
  ee_re :: re_env
  ee_send :: "econn_message \<Rightarrow> err"

definition default_conf :: econn_conf where
  "default_conf = \<lparr>timeout_setup = 60000, timeout_term = 5000\<rparr>"

section \<open>Sending\<close>

definition act :: "econn_act \<Rightarrow> econn \<Rightarrow> econn" where
  "act a conn = conn\<lparr>ec_trace := ec_trace conn @ [a]\<rparr>"

definition tmr_start :: "u32 \<Rightarrow> tmr_handler \<Rightarrow> econn \<Rightarrow> econn" where
  "tmr_start delay h conn = conn\<lparr>ec_tmr_local := Some (delay, h)\<rparr>"

definition tmr_cancel :: "econn \<Rightarrow> econn" where
  "tmr_cancel conn = conn\<lparr>ec_tmr_local := None\<rparr>"

definition econn_set_state :: "econn_state \<Rightarrow> econn \<Rightarrow> econn" where
  "econn_set_state st conn = (if ec_state conn = st then conn else conn\<lparr>ec_state := st\<rparr>)"

definition str_ncpy :: "ec_env \<Rightarrow> string \<Rightarrow> string \<Rightarrow> string" where
  "str_ncpy env dst src = re_ncpy (ee_re env) dst (Some src) ECONN_ID_LEN"

text \<open>\<^verbatim>\<open>str_casecmp\<close> is not 0.\<close>

definition differ :: "ec_env \<Rightarrow> string \<Rightarrow> string \<Rightarrow> bool" where
  "differ env s t \<longleftrightarrow> \<not> re_casecmp (ee_re env) s t"

definition econn_transp_send :: "ec_env \<Rightarrow> econn \<Rightarrow> econn_message \<Rightarrow> err \<times> econn" where
  "econn_transp_send env conn msg =
     (if \<not> ec_transp conn then (ENOTSUP, conn)
      else (ee_send env msg, act (Sent msg (ee_send env msg)) conn))"

definition econn_send_setup ::
  "ec_env \<Rightarrow> econn \<Rightarrow> bool \<Rightarrow> string option \<Rightarrow> econn_props option \<Rightarrow> bool \<Rightarrow> err \<times> econn" where
  "econn_send_setup env conn resp sdp props update =
     (let mtype = (if update then ECONN_UPDATE else ECONN_SETUP);
          (e, msg) = econn_message_init (ee_re env) mtype (ec_sessid_local conn)
      in if e \<noteq> OK then (e, conn)
         else let msg = msg\<lparr>em_u := U_setup \<lparr>su_sdp_msg = sdp, su_props = props, su_url = None, su_sft_tuple = None\<rparr>,
                            em_resp := resp\<rparr>;
                  (e, conn) = econn_transp_send env conn msg
              in if e \<noteq> OK then (e, econn_set_state ECONN_TERMINATING (conn\<lparr>ec_setup_err := e\<rparr>))
                 else (OK, conn))"

definition send_cancel :: "ec_env \<Rightarrow> econn \<Rightarrow> err \<times> econn" where
  "send_cancel env conn =
     (let (e, msg) = econn_message_init (ee_re env) ECONN_CANCEL (ec_sessid_local conn)
      in if e \<noteq> OK then (e, conn) else econn_transp_send env conn msg)"

definition send_hangup :: "ec_env \<Rightarrow> econn \<Rightarrow> bool \<Rightarrow> err \<times> econn" where
  "send_hangup env conn resp =
     (let (e, msg) = econn_message_init (ee_re env) ECONN_HANGUP (ec_sessid_local conn)
      in if e \<noteq> OK then (e, conn) else econn_transp_send env conn (msg\<lparr>em_resp := resp\<rparr>))"

definition econn_close :: "ec_env \<Rightarrow> econn \<Rightarrow> err \<Rightarrow> u32 \<Rightarrow> econn" where
  "econn_close env conn err msg_time =
     (let closeh = ec_closeh conn;
          conn = (tmr_cancel conn)\<lparr>ec_setup_err := err\<rparr>;
          conn = (if ec_state conn = ECONN_PENDING_OUTGOING then snd (send_cancel env conn) else conn);
          conn = conn\<lparr>ec_state := ECONN_TERMINATING\<rparr>
      in if closeh then act (Closeh err msg_time) (conn\<lparr>ec_closeh := False\<rparr>) else conn)"

section \<open>Receiving\<close>

definition handle_setup_request :: "ec_env \<Rightarrow> econn \<Rightarrow> string \<Rightarrow> string \<Rightarrow> econn_message \<Rightarrow> econn" where
  "handle_setup_request env conn userid_sender clientid_sender msg =
     (let incoming = (\<lambda>reset.
            let conn = (econn_set_state ECONN_PENDING_INCOMING conn)\<lparr>ec_dir := ECONN_DIR_INCOMING\<rparr>;
                conn = conn\<lparr>ec_sessid_remote := str_ncpy env (ec_sessid_remote conn) (em_sessid_sender msg)\<rparr>;
                conn = tmr_start (timeout_setup (ec_conf conn)) Tmr_local conn
            in if h_connh (ec_handlers conn)
               then act (Connh (em_time msg) userid_sender clientid_sender (em_age msg)
                           (su_sdp_msg (em_setup msg)) (su_props (em_setup msg)) reset) conn
               else conn)
      in case ec_state conn of
           ECONN_IDLE \<Rightarrow> incoming False
         | ECONN_ANSWERED \<Rightarrow> incoming True
         | ECONN_DATACHAN_ESTABLISHED \<Rightarrow> incoming True
         | ECONN_UPDATE_SENT \<Rightarrow> incoming True
         | ECONN_PENDING_OUTGOING \<Rightarrow>
             (let is_winner = econn_iswinner (ec_userid_self conn) (ec_clientid conn)
                                userid_sender clientid_sender;
                  conn = conn\<lparr>ec_sessid_remote := str_ncpy env (ec_sessid_remote conn) (em_sessid_sender msg)\<rparr>
              in if is_winner then conn\<lparr>ec_conflict := 1\<rparr>
                 else let conn = econn_set_state ECONN_CONFLICT_RESOLUTION (conn\<lparr>ec_conflict := -1\<rparr>)
                      in if h_answerh (ec_handlers conn)
                         then act (Answerh True (su_sdp_msg (em_setup msg)) (su_props (em_setup msg))) conn
                         else conn)
         | _ \<Rightarrow> conn)"

definition handle_setup_response :: "ec_env \<Rightarrow> econn \<Rightarrow> string \<Rightarrow> string \<Rightarrow> econn_message \<Rightarrow> econn" where
  "handle_setup_response env conn userid_sender clientid_sender msg =
     (if ec_state conn \<noteq> ECONN_PENDING_OUTGOING \<and> ec_state conn \<noteq> ECONN_CONFLICT_RESOLUTION then conn
      else let conn = econn_set_state ECONN_ANSWERED (tmr_cancel conn);
               conn = conn\<lparr>ec_sessid_remote := str_ncpy env (ec_sessid_remote conn) (em_sessid_sender msg)\<rparr>
           in if h_answerh (ec_handlers conn)
              then act (Answerh False (su_sdp_msg (em_setup msg)) (su_props (em_setup msg))) conn
              else conn)"

definition recv_setup :: "ec_env \<Rightarrow> econn \<Rightarrow> string \<Rightarrow> string \<Rightarrow> econn_message \<Rightarrow> econn" where
  "recv_setup env conn userid_sender clientid_sender msg =
     (let isset = (\<lambda>s. re_isset (ee_re env) (Some s))
      in if isset (ec_userid_remote conn) \<and> differ env (ec_userid_remote conn) userid_sender then conn
         else let conn = (if isset (ec_userid_remote conn) then conn
                          else conn\<lparr>ec_userid_remote := str_ncpy env (ec_userid_remote conn) userid_sender\<rparr>)
              in if isset (ec_clientid_remote conn) \<and> differ env (ec_clientid_remote conn) clientid_sender
                 then conn
                 else let conn = (if isset (ec_clientid_remote conn) then conn
                                  else conn\<lparr>ec_clientid_remote :=
                                              str_ncpy env (ec_clientid_remote conn) clientid_sender\<rparr>)
                      in if econn_message_isrequest msg
                         then handle_setup_request env conn userid_sender clientid_sender msg
                         else handle_setup_response env conn userid_sender clientid_sender msg)"

definition handle_update_request :: "ec_env \<Rightarrow> econn \<Rightarrow> string \<Rightarrow> string \<Rightarrow> econn_message \<Rightarrow> econn" where
  "handle_update_request env conn userid_sender clientid_sender msg =
     (let accept = (\<lambda>should_reset.
            let conn = tmr_start (timeout_setup (ec_conf conn)) Tmr_local
                         (econn_set_state ECONN_UPDATE_RECV conn)
            in if h_update_reqh (ec_handlers conn)
               then act (Update_reqh userid_sender clientid_sender (su_sdp_msg (em_setup msg))
                           (su_props (em_setup msg)) should_reset) conn
               else conn)
      in if differ env (ec_clientid_remote conn) clientid_sender then conn
         else case ec_state conn of
                ECONN_ANSWERED \<Rightarrow> accept False
              | ECONN_DATACHAN_ESTABLISHED \<Rightarrow> accept False
              | ECONN_UPDATE_SENT \<Rightarrow>
                  if econn_iswinner (ec_userid_self conn) (ec_clientid conn) userid_sender clientid_sender
                  then conn else accept True
              | _ \<Rightarrow> conn)"

definition handle_update_response :: "ec_env \<Rightarrow> econn \<Rightarrow> string \<Rightarrow> string \<Rightarrow> econn_message \<Rightarrow> econn" where
  "handle_update_response env conn userid_sender clientid_sender msg =
     (if differ env (ec_clientid_remote conn) clientid_sender then conn
      else if ec_state conn \<noteq> ECONN_UPDATE_SENT then conn
      else let conn = econn_set_state ECONN_ANSWERED (tmr_cancel conn)
           in if h_update_resph (ec_handlers conn)
              then act (Update_resph (su_sdp_msg (em_setup msg)) (su_props (em_setup msg))) conn
              else conn)"

definition recv_update :: "ec_env \<Rightarrow> econn \<Rightarrow> string \<Rightarrow> string \<Rightarrow> econn_message \<Rightarrow> econn" where
  "recv_update env conn userid_sender clientid_sender msg =
     (if differ env (ec_sessid_remote conn) (em_sessid_sender msg) then conn
      else if econn_message_isrequest msg
      then handle_update_request env conn userid_sender clientid_sender msg
      else handle_update_response env conn userid_sender clientid_sender msg)"

definition recv_cancel :: "ec_env \<Rightarrow> econn \<Rightarrow> string \<Rightarrow> econn_message \<Rightarrow> econn" where
  "recv_cancel env conn clientid_sender msg =
     (let finish = (\<lambda>err.
            if differ env (ec_sessid_remote conn) (em_sessid_sender msg) then conn
            else let conn = econn_set_state ECONN_TERMINATING conn
                 in econn_close env conn (if ec_err conn \<noteq> OK then ec_err conn else err) (em_time msg))
      in if differ env clientid_sender (ec_clientid_remote conn) then conn
         else if ec_state conn = ECONN_PENDING_INCOMING then finish ECANCELED
         else if ec_state conn \<in> {ECONN_UPDATE_SENT, ECONN_UPDATE_RECV, ECONN_ANSWERED,
                                  ECONN_DATACHAN_ESTABLISHED} then finish OK
         else conn)"

definition recv_hangup :: "ec_env \<Rightarrow> econn \<Rightarrow> econn_message \<Rightarrow> econn" where
  "recv_hangup env conn msg =
     (if differ env (ec_sessid_remote conn) (em_sessid_sender msg) then conn
      else if ec_state conn \<noteq> ECONN_DATACHAN_ESTABLISHED \<and> ec_state conn \<noteq> ECONN_HANGUP_SENT then conn
      else let conn = econn_set_state ECONN_HANGUP_RECV conn;
               conn = (if econn_message_isrequest msg then snd (send_hangup env conn True) else conn);
               conn = econn_set_state ECONN_TERMINATING conn
           in econn_close env conn (ec_err conn) (em_time msg))"

definition recv_alert :: "econn \<Rightarrow> econn_message \<Rightarrow> econn" where
  "recv_alert conn msg =
     (if h_alerth (ec_handlers conn) then act (Alerth (fst (em_alert msg)) (snd (em_alert msg))) conn else conn)"

definition recv_confmsg :: "econn \<Rightarrow> econn_message \<Rightarrow> econn" where
  "recv_confmsg conn msg = (if h_confmsgh (ec_handlers conn) then act (Confmsgh msg) conn else conn)"

definition recv_ping :: "econn \<Rightarrow> econn_message \<Rightarrow> econn" where
  "recv_ping conn msg = (if h_pingh (ec_handlers conn) then act (Pingh (em_resp msg)) conn else conn)"

definition econn_recv_message :: "ec_env \<Rightarrow> econn \<Rightarrow> string \<Rightarrow> string \<Rightarrow> econn_message \<Rightarrow> econn" where
  "econn_recv_message env conn userid_sender clientid_sender msg =
     (case em_msg_type msg of
        Some ECONN_SETUP \<Rightarrow> recv_setup env conn userid_sender clientid_sender msg
      | Some ECONN_UPDATE \<Rightarrow> recv_update env conn userid_sender clientid_sender msg
      | Some ECONN_CANCEL \<Rightarrow> recv_cancel env conn clientid_sender msg
      | Some ECONN_HANGUP \<Rightarrow> recv_hangup env conn msg
      | Some ECONN_ALERT \<Rightarrow> recv_alert conn msg
      | Some ECONN_CONF_CONN \<Rightarrow> recv_confmsg conn msg
      | Some ECONN_CONF_PART \<Rightarrow> recv_confmsg conn msg
      | Some ECONN_CONF_STREAMS \<Rightarrow> recv_confmsg conn msg
      | Some ECONN_PING \<Rightarrow> recv_ping conn msg
      | _ \<Rightarrow> conn)"

section \<open>The application's operations\<close>

text \<open>
  \<open>rnd\<close> is the random session id, \<open>dup_err\<close> the code of the two string copies. When they fail the
  code releases \<^verbatim>\<open>connp\<close>, the address of the caller's pointer, which is not an allocated object.
\<close>

definition econn_alloc ::
  "re_env \<Rightarrow> bool \<Rightarrow> err \<Rightarrow> string \<Rightarrow> econn_conf option \<Rightarrow> string option \<Rightarrow> string option \<Rightarrow> string option
   \<Rightarrow> bool \<Rightarrow> econn_handlers \<Rightarrow> bool \<Rightarrow> (err \<times> econn option) option" where
  "econn_alloc re mem dup_err rnd conf userid_self clientid sessid tp handlers closeh =
     (case (userid_self, clientid) of
        (Some u, Some c) \<Rightarrow>
          if \<not> re_isset re userid_self \<or> \<not> re_isset re clientid then Some (EINVAL, None)
          else if \<not> mem then Some (ENOMEM, None)
          else if dup_err \<noteq> OK then None
          else let conf = (case conf of Some c \<Rightarrow> c | None \<Rightarrow> default_conf)
               in Some (OK, Some
                    \<lparr>ec_conf = conf, ec_tmr_local = Some (timeout_setup conf, Tmr_local), ec_transp = tp,
                     ec_state = ECONN_IDLE, ec_dir = ECONN_DIR_UNKNOWN, ec_userid_self = u, ec_clientid = c,
                     ec_sessid_local = (case sessid of Some s \<Rightarrow> re_ncpy re [] (Some s) ECONN_ID_LEN | None \<Rightarrow> rnd),
                     ec_sessid_remote = [], ec_userid_remote = [], ec_clientid_remote = [],
                     ec_setup_err = OK, ec_conflict = 0, ec_handlers = handlers, ec_closeh = closeh,
                     ec_err = OK, ec_trace = []\<rparr>)
      | _ \<Rightarrow> Some (EINVAL, None))"

definition tmr_local_handler :: "ec_env \<Rightarrow> econn \<Rightarrow> econn" where
  "tmr_local_handler env conn =
     econn_close env conn (if ec_err conn \<noteq> OK then ec_err conn else ETIMEDOUT_ECONN) ECONN_MESSAGE_TIME_UNKNOWN"

definition econn_start :: "ec_env \<Rightarrow> econn \<Rightarrow> string option \<Rightarrow> econn_props option \<Rightarrow> err \<times> econn" where
  "econn_start env conn sdp props =
     (if ec_state conn \<noteq> ECONN_IDLE \<and> ec_state conn \<noteq> ECONN_PENDING_OUTGOING then (EPROTO, conn)
      else let conn = (econn_set_state ECONN_PENDING_OUTGOING conn)\<lparr>ec_dir := ECONN_DIR_OUTGOING\<rparr>;
               (e, conn) = econn_send_setup env conn False sdp props False
           in if e \<noteq> OK then (e, conn)
              else if timeout_setup (ec_conf conn) = 0 then (EPROTO, conn)
              else (OK, tmr_start (timeout_setup (ec_conf conn)) Tmr_local conn))"

definition econn_update_req :: "ec_env \<Rightarrow> econn \<Rightarrow> string option \<Rightarrow> econn_props option \<Rightarrow> err \<times> econn" where
  "econn_update_req env conn sdp props =
     (let tmo = timeout_setup (ec_conf conn)
      in if ec_state conn \<notin> {ECONN_ANSWERED, ECONN_DATACHAN_ESTABLISHED, ECONN_UPDATE_SENT, ECONN_UPDATE_RECV}
         then (EPROTO, conn)
         else let conn = econn_set_state ECONN_UPDATE_SENT conn;
                  (e, conn) = econn_send_setup env conn False sdp props True
              in if e \<noteq> OK then (e, tmr_start 1 Tmr_local conn)
                 else if tmo = 0 then (EPROTO, conn)
                 else (OK, tmr_start tmo Tmr_local conn))"

definition econn_update_resp :: "ec_env \<Rightarrow> econn \<Rightarrow> string option \<Rightarrow> econn_props option \<Rightarrow> err \<times> econn" where
  "econn_update_resp env conn sdp props =
     (if ec_state conn \<noteq> ECONN_UPDATE_RECV then (EPROTO, conn)
      else let (e, conn) = econn_send_setup env (tmr_cancel conn) True sdp props True
           in if e \<noteq> OK then (e, conn) else (OK, econn_set_state ECONN_ANSWERED conn))"

definition econn_answer :: "ec_env \<Rightarrow> econn \<Rightarrow> string option \<Rightarrow> econn_props option \<Rightarrow> err \<times> econn" where
  "econn_answer env conn sdp props =
     (if ec_state conn \<noteq> ECONN_PENDING_INCOMING \<and> ec_state conn \<noteq> ECONN_CONFLICT_RESOLUTION then (EPROTO, conn)
      else let (e, conn) = econn_send_setup env (tmr_cancel conn) True sdp props False
           in if e \<noteq> OK then (e, conn) else (OK, econn_set_state ECONN_ANSWERED conn))"

definition tmr_term_handler :: "ec_env \<Rightarrow> econn \<Rightarrow> econn" where
  "tmr_term_handler env conn = econn_close env conn (ec_err conn) ECONN_MESSAGE_TIME_UNKNOWN"

definition tmr_cancel_handler :: "ec_env \<Rightarrow> econn \<Rightarrow> econn" where
  "tmr_cancel_handler env conn = econn_close env conn (ec_err conn) ECONN_MESSAGE_TIME_UNKNOWN"

definition econn_end :: "ec_env \<Rightarrow> econn \<Rightarrow> econn" where
  "econn_end env conn =
     (let cancel = (\<lambda>conn. tmr_start 1 Tmr_cancel (econn_set_state ECONN_TERMINATING conn))
      in case ec_state conn of
           ECONN_UPDATE_RECV \<Rightarrow> cancel conn
         | ECONN_PENDING_INCOMING \<Rightarrow> cancel conn
         | ECONN_UPDATE_SENT \<Rightarrow> cancel (snd (send_cancel env conn))
         | ECONN_PENDING_OUTGOING \<Rightarrow> cancel (snd (send_cancel env conn))
         | ECONN_ANSWERED \<Rightarrow> cancel (snd (send_cancel env conn))
         | ECONN_CONFLICT_RESOLUTION \<Rightarrow> cancel (snd (send_cancel env conn))
         | ECONN_DATACHAN_ESTABLISHED \<Rightarrow>
             (let (e, conn) = send_hangup env conn False
              in if e \<noteq> OK then tmr_start 1 Tmr_term (conn\<lparr>ec_err := e\<rparr>)
                 else tmr_start (timeout_term (ec_conf conn)) Tmr_term (econn_set_state ECONN_HANGUP_SENT conn))
         | ECONN_TERMINATING \<Rightarrow> conn
         | ECONN_IDLE \<Rightarrow> conn
         | _ \<Rightarrow> tmr_start (timeout_term (ec_conf conn)) Tmr_term (econn_set_state ECONN_TERMINATING conn))"

definition econn_current_state :: "econn option \<Rightarrow> econn_state" where
  "econn_current_state conn = (case conn of Some c \<Rightarrow> ec_state c | None \<Rightarrow> ECONN_IDLE)"

definition econn_current_dir :: "econn option \<Rightarrow> econn_dir" where
  "econn_current_dir conn = (case conn of Some c \<Rightarrow> ec_dir c | None \<Rightarrow> ECONN_DIR_UNKNOWN)"

definition econn_userid_remote :: "econn option \<Rightarrow> string option" where
  "econn_userid_remote conn = map_option ec_userid_remote conn"

definition econn_clientid_remote :: "econn option \<Rightarrow> string option" where
  "econn_clientid_remote conn = map_option ec_clientid_remote conn"

definition econn_sessid_local :: "econn option \<Rightarrow> string option" where
  "econn_sessid_local conn = map_option ec_sessid_local conn"

definition econn_sessid_remote :: "econn option \<Rightarrow> string option" where
  "econn_sessid_remote conn = map_option ec_sessid_remote conn"

definition econn_can_send_propsync :: "econn option \<Rightarrow> bool" where
  "econn_can_send_propsync conn =
     (case conn of Some c \<Rightarrow> ec_state c = ECONN_DATACHAN_ESTABLISHED | None \<Rightarrow> False)"

definition econn_send_propsync :: "ec_env \<Rightarrow> econn \<Rightarrow> bool \<Rightarrow> econn_props option \<Rightarrow> err \<times> econn" where
  "econn_send_propsync env conn resp props =
     (if props = None then (EINVAL, conn)
      else if ec_state conn \<noteq> ECONN_DATACHAN_ESTABLISHED then (EPROTO, conn)
      else let (e, msg) = econn_message_init (ee_re env) ECONN_PROPSYNC (ec_sessid_local conn)
           in if e \<noteq> OK then (e, conn)
              else econn_transp_send env conn
                     (msg\<lparr>em_src_userid := str_ncpy env [] (ec_userid_self conn),
                          em_src_clientid := str_ncpy env [] (ec_clientid conn),
                          em_resp := resp, em_u := U_propsync props\<rparr>))"

definition econn_set_datachan_established :: "econn \<Rightarrow> econn" where
  "econn_set_datachan_established conn =
     (if ec_state conn = ECONN_ANSWERED then econn_set_state ECONN_DATACHAN_ESTABLISHED conn else conn)"

definition econn_set_error :: "econn \<Rightarrow> err \<Rightarrow> econn" where
  "econn_set_error conn err = conn\<lparr>ec_err := err\<rparr>"

definition econn_send_alert :: "ec_env \<Rightarrow> econn \<Rightarrow> u32 \<Rightarrow> string \<Rightarrow> err \<times> econn" where
  "econn_send_alert env conn level descr =
     (let (e, msg) = econn_message_init (ee_re env) ECONN_ALERT (ec_sessid_local conn)
      in if e \<noteq> OK then (e, conn)
         else econn_transp_send env conn (msg\<lparr>em_transient := True, em_u := U_alert level (Some descr)\<rparr>))"

definition econn_send_ping :: "ec_env \<Rightarrow> econn \<Rightarrow> bool \<Rightarrow> err \<times> econn" where
  "econn_send_ping env conn response =
     (let (e, msg) = econn_message_init (ee_re env) ECONN_PING (ec_sessid_local conn)
      in if e \<noteq> OK then (e, conn) else econn_transp_send env conn (msg\<lparr>em_resp := response\<rparr>))"

section \<open>Runs\<close>

datatype econn_op =
    OpStart "string option" "econn_props option"
  | OpAnswer "string option" "econn_props option"
  | OpUpdateReq "string option" "econn_props option"
  | OpUpdateResp "string option" "econn_props option"
  | OpEnd
  | OpClose err u32
  | OpRecv string string econn_message
  | OpDatachan
  | OpSetError err
  | OpSendPropsync bool "econn_props option"
  | OpSendAlert u32 string
  | OpSendPing bool
  | OpTimer

text \<open>A timer that expires is no longer running when its handler is called.\<close>

definition econn_timer :: "ec_env \<Rightarrow> econn \<Rightarrow> econn" where
  "econn_timer env conn =
     (case ec_tmr_local conn of
        None \<Rightarrow> conn
      | Some (_, Tmr_local) \<Rightarrow> tmr_local_handler env (tmr_cancel conn)
      | Some (_, Tmr_term) \<Rightarrow> tmr_term_handler env (tmr_cancel conn)
      | Some (_, Tmr_cancel) \<Rightarrow> tmr_cancel_handler env (tmr_cancel conn))"

fun econn_do :: "ec_env \<Rightarrow> econn \<Rightarrow> econn_op \<Rightarrow> econn" where
  "econn_do env conn (OpStart sdp props) = snd (econn_start env conn sdp props)"
| "econn_do env conn (OpAnswer sdp props) = snd (econn_answer env conn sdp props)"
| "econn_do env conn (OpUpdateReq sdp props) = snd (econn_update_req env conn sdp props)"
| "econn_do env conn (OpUpdateResp sdp props) = snd (econn_update_resp env conn sdp props)"
| "econn_do env conn OpEnd = econn_end env conn"
| "econn_do env conn (OpClose e t) = econn_close env conn e t"
| "econn_do env conn (OpRecv u c msg) = econn_recv_message env conn u c msg"
| "econn_do env conn OpDatachan = econn_set_datachan_established conn"
| "econn_do env conn (OpSetError e) = econn_set_error conn e"
| "econn_do env conn (OpSendPropsync resp props) = snd (econn_send_propsync env conn resp props)"
| "econn_do env conn (OpSendAlert level descr) = snd (econn_send_alert env conn level descr)"
| "econn_do env conn (OpSendPing resp) = snd (econn_send_ping env conn resp)"
| "econn_do env conn OpTimer = econn_timer env conn"

definition econn_step :: "econn \<Rightarrow> ec_env \<times> econn_op \<Rightarrow> econn option" where
  "econn_step conn ev = Some (econn_do (fst ev) conn (snd ev))"

section \<open>The abstract machine\<close>

text \<open>
  The states a connection may go through, as the protocol has them: what one operation may do to the
  state. \<^const>\<open>ECONN_HANGUP_RECV\<close> is left again within the operation that enters it.
\<close>

inductive econn_edge :: "econn_state \<Rightarrow> econn_state \<Rightarrow> bool" where
  stay: "econn_edge s s"
| terminate: "econn_edge s ECONN_TERMINATING"
| call: "econn_edge ECONN_IDLE ECONN_PENDING_OUTGOING"
| ring: "econn_edge ECONN_IDLE ECONN_PENDING_INCOMING"
| lost: "econn_edge ECONN_PENDING_OUTGOING ECONN_CONFLICT_RESOLUTION"
| answered: "econn_edge ECONN_PENDING_OUTGOING ECONN_ANSWERED"
| resolved: "econn_edge ECONN_CONFLICT_RESOLUTION ECONN_ANSWERED"
| pickup: "econn_edge ECONN_PENDING_INCOMING ECONN_ANSWERED"
| established: "econn_edge ECONN_ANSWERED ECONN_DATACHAN_ESTABLISHED"
| restart: "s \<in> {ECONN_ANSWERED, ECONN_DATACHAN_ESTABLISHED, ECONN_UPDATE_SENT} \<Longrightarrow>
            econn_edge s ECONN_PENDING_INCOMING"
| update: "s \<in> {ECONN_ANSWERED, ECONN_DATACHAN_ESTABLISHED, ECONN_UPDATE_RECV} \<Longrightarrow>
           econn_edge s ECONN_UPDATE_SENT"
| updated: "s \<in> {ECONN_ANSWERED, ECONN_DATACHAN_ESTABLISHED, ECONN_UPDATE_SENT} \<Longrightarrow>
            econn_edge s ECONN_UPDATE_RECV"
| update_done: "s \<in> {ECONN_UPDATE_SENT, ECONN_UPDATE_RECV} \<Longrightarrow> econn_edge s ECONN_ANSWERED"
| hangup: "econn_edge ECONN_DATACHAN_ESTABLISHED ECONN_HANGUP_SENT"

inductive_cases edge_terminating: "econn_edge ECONN_TERMINATING s"

inductive_cases edge_to_idle: "econn_edge s ECONN_IDLE"

text \<open>What the invariant below has to know of a state before and after an operation.\<close>

definition is_close :: "econn_act \<Rightarrow> bool" where
  "is_close a = (case a of Closeh _ _ \<Rightarrow> True | _ \<Rightarrow> False)"

definition closes :: "econn \<Rightarrow> nat" where
  "closes conn = length (filter is_close (ec_trace conn))"

definition waiting :: "econn_state \<Rightarrow> bool" where
  "waiting s \<longleftrightarrow> s \<in> {ECONN_IDLE, ECONN_PENDING_OUTGOING, ECONN_PENDING_INCOMING, ECONN_CONFLICT_RESOLUTION,
                     ECONN_UPDATE_SENT, ECONN_UPDATE_RECV, ECONN_HANGUP_SENT}"

definition econn_inv :: "econn \<Rightarrow> bool" where
  "econn_inv conn \<longleftrightarrow>
     closes conn + (if ec_closeh conn then 1 else 0) \<le> 1 \<and>
     (0 < closes conn \<longrightarrow> ec_state conn = ECONN_TERMINATING) \<and>
     ec_state conn \<noteq> ECONN_HANGUP_RECV \<and>
     (timeout_setup (ec_conf conn) \<noteq> 0 \<and> waiting (ec_state conn) \<longrightarrow> ec_tmr_local conn \<noteq> None)"

text \<open>
  What one operation does: an edge of the abstract machine, the close handler is called by using it
  up and only on the way to the end, and a state that waits for the peer has a timer.
\<close>

definition close_token :: "econn \<Rightarrow> nat" where
  "close_token conn = closes conn + (if ec_closeh conn then 1 else 0)"

definition okstep :: "econn \<Rightarrow> econn \<Rightarrow> bool" where
  "okstep c c' \<longleftrightarrow>
     econn_edge (ec_state c) (ec_state c') \<and> ec_conf c' = ec_conf c \<and> close_token c' = close_token c \<and>
     (closes c' \<noteq> closes c \<longrightarrow> ec_state c' = ECONN_TERMINATING) \<and>
     (ec_state c \<noteq> ECONN_HANGUP_RECV \<longrightarrow> ec_state c' \<noteq> ECONN_HANGUP_RECV) \<and>
     (timeout_setup (ec_conf c) \<noteq> 0 \<and> waiting (ec_state c') \<longrightarrow>
        ec_tmr_local c' \<noteq> None \<or> waiting (ec_state c) \<and> ec_tmr_local c' = ec_tmr_local c)"

lemma waiting_simps [simp]:
  "waiting ECONN_IDLE" "waiting ECONN_PENDING_OUTGOING" "waiting ECONN_PENDING_INCOMING"
  "waiting ECONN_CONFLICT_RESOLUTION" "waiting ECONN_UPDATE_SENT" "waiting ECONN_UPDATE_RECV"
  "waiting ECONN_HANGUP_SENT" "\<not> waiting ECONN_ANSWERED" "\<not> waiting ECONN_DATACHAN_ESTABLISHED"
  "\<not> waiting ECONN_HANGUP_RECV" "\<not> waiting ECONN_TERMINATING"
  by (simp_all add: waiting_def)

lemma set_state_eq [simp]: "econn_set_state st conn = conn\<lparr>ec_state := st\<rparr>"
  by (auto simp: econn_set_state_def)

lemma closes_upd [simp]:
  "closes (conn\<lparr>ec_state := st\<rparr>) = closes conn" "closes (conn\<lparr>ec_dir := d\<rparr>) = closes conn"
  "closes (conn\<lparr>ec_sessid_remote := x\<rparr>) = closes conn" "closes (conn\<lparr>ec_userid_remote := x\<rparr>) = closes conn"
  "closes (conn\<lparr>ec_clientid_remote := x\<rparr>) = closes conn" "closes (conn\<lparr>ec_setup_err := e\<rparr>) = closes conn"
  "closes (conn\<lparr>ec_conflict := i\<rparr>) = closes conn" "closes (conn\<lparr>ec_closeh := b\<rparr>) = closes conn"
  "closes (conn\<lparr>ec_err := e\<rparr>) = closes conn"
  by (simp_all add: closes_def)

lemma tmr_simps [simp]:
  "closes (tmr_start d h conn) = closes conn" "ec_closeh (tmr_start d h conn) = ec_closeh conn"
  "ec_state (tmr_start d h conn) = ec_state conn" "ec_conf (tmr_start d h conn) = ec_conf conn"
  "ec_handlers (tmr_start d h conn) = ec_handlers conn" "ec_err (tmr_start d h conn) = ec_err conn"
  "ec_tmr_local (tmr_start d h conn) = Some (d, h)"
  "closes (tmr_cancel conn) = closes conn" "ec_closeh (tmr_cancel conn) = ec_closeh conn"
  "ec_state (tmr_cancel conn) = ec_state conn" "ec_conf (tmr_cancel conn) = ec_conf conn"
  "ec_handlers (tmr_cancel conn) = ec_handlers conn" "ec_err (tmr_cancel conn) = ec_err conn"
  "ec_tmr_local (tmr_cancel conn) = None"
  by (simp_all add: closes_def tmr_start_def tmr_cancel_def)

lemma act_simps [simp]:
  "closes (act a conn) = closes conn + (if is_close a then 1 else 0)" "ec_closeh (act a conn) = ec_closeh conn"
  "ec_state (act a conn) = ec_state conn" "ec_conf (act a conn) = ec_conf conn"
  "ec_handlers (act a conn) = ec_handlers conn" "ec_tmr_local (act a conn) = ec_tmr_local conn"
  "ec_err (act a conn) = ec_err conn"
  by (simp_all add: closes_def act_def)

lemma is_close_simps [simp]:
  "is_close (Closeh e t)" "\<not> is_close (Sent m e)" "\<not> is_close (Connh x1 x2 x3 x4 x5 x6 x7)"
  "\<not> is_close (Answerh b x y)" "\<not> is_close (Update_reqh y1 y2 y3 y4 y5)" "\<not> is_close (Update_resph x y)"
  "\<not> is_close (Alerth l d)" "\<not> is_close (Confmsgh m)" "\<not> is_close (Pingh b)"
  by (simp_all add: is_close_def)

text \<open>Sending changes the trace, and a failed SETUP or UPDATE ends the connection.\<close>

definition same_but_trace :: "econn \<Rightarrow> econn \<Rightarrow> bool" where
  "same_but_trace c c' \<longleftrightarrow> (\<exists>tr. c' = c\<lparr>ec_trace := ec_trace c @ tr\<rparr> \<and> filter is_close tr = [])"

lemma same_but_traceD:
  assumes "same_but_trace c c'"
  shows "closes c' = closes c" "ec_closeh c' = ec_closeh c" "ec_state c' = ec_state c" "ec_conf c' = ec_conf c"
    "ec_handlers c' = ec_handlers c" "ec_tmr_local c' = ec_tmr_local c" "ec_err c' = ec_err c"
  using assms by (auto simp: same_but_trace_def closes_def)

lemma same_but_trace_refl [simp]: "same_but_trace c c"
  unfolding same_but_trace_def by (rule exI [of _ "[]"]) simp

lemma transp_send_same: "same_but_trace conn (snd (econn_transp_send env conn msg))"
proof (cases "ec_transp conn")
  case True
  then show ?thesis
    unfolding same_but_trace_def
    by (intro exI [of _ "[Sent msg (ee_send env msg)]"]) (simp add: econn_transp_send_def act_def)
qed (simp add: econn_transp_send_def)

lemma send_same: "same_but_trace conn (snd (send_cancel env conn))" "same_but_trace conn (snd (send_hangup env conn r))"
    "same_but_trace conn (snd (econn_send_alert env conn l d))" "same_but_trace conn (snd (econn_send_ping env conn r))"
    "same_but_trace conn (snd (econn_send_propsync env conn r p))"
  by (auto simp: send_cancel_def send_hangup_def econn_send_alert_def econn_send_ping_def
        econn_send_propsync_def econn_message_init_def transp_send_same)

lemmas send_simps = send_same [THEN same_but_traceD(1)] send_same [THEN same_but_traceD(2)]
  send_same [THEN same_but_traceD(3)] send_same [THEN same_but_traceD(4)] send_same [THEN same_but_traceD(5)]
  send_same [THEN same_but_traceD(6)] send_same [THEN same_but_traceD(7)]

declare send_simps [simp]

lemma close_simps [simp]:
  "ec_state (econn_close env conn e t) = ECONN_TERMINATING" "ec_conf (econn_close env conn e t) = ec_conf conn"
  "ec_tmr_local (econn_close env conn e t) = None" "\<not> ec_closeh (econn_close env conn e t)"
  "closes (econn_close env conn e t) = closes conn + (if ec_closeh conn then 1 else 0)"
  by (simp_all add: econn_close_def Let_def)

lemma close_token_close [simp]: "close_token (econn_close env conn e t) = close_token conn"
  by (simp add: close_token_def)

lemma send_setup_cases:
  assumes "econn_send_setup env conn resp sdp props update = (e, conn')"
  obtains c where "same_but_trace conn c"
    "e = OK \<and> conn' = c \<or> e \<noteq> OK \<and> conn' = c\<lparr>ec_setup_err := e, ec_state := ECONN_TERMINATING\<rparr>"
proof -
  obtain msg where "econn_send_setup env conn resp sdp props update =
      (let (e, conn) = econn_transp_send env conn msg
       in if e \<noteq> OK then (e, econn_set_state ECONN_TERMINATING (conn\<lparr>ec_setup_err := e\<rparr>)) else (OK, conn))"
    by (simp add: econn_send_setup_def econn_message_init_def)
  then show thesis
    using that [OF transp_send_same [of conn env msg]] assms by (auto simp: Let_def split: prod.splits if_splits)
qed

lemma okstepI_end:
  "ec_conf c' = ec_conf c \<Longrightarrow> close_token c' = close_token c \<Longrightarrow> ec_state c' = ECONN_TERMINATING \<Longrightarrow> okstep c c'"
  by (simp add: okstep_def econn_edge.terminate)

lemma okstepI:
  "econn_edge (ec_state c) (ec_state c') \<Longrightarrow> ec_conf c' = ec_conf c \<Longrightarrow> closes c' = closes c \<Longrightarrow>
   ec_closeh c' = ec_closeh c \<Longrightarrow> ec_state c' \<noteq> ECONN_HANGUP_RECV \<Longrightarrow>
   (timeout_setup (ec_conf c) \<noteq> 0 \<Longrightarrow> waiting (ec_state c') \<Longrightarrow>
      ec_tmr_local c' \<noteq> None \<or> waiting (ec_state c) \<and> ec_tmr_local c' = ec_tmr_local c) \<Longrightarrow> okstep c c'"
  by (simp add: okstep_def close_token_def)

lemma okstepI_same:
  "ec_state c' = ec_state c \<Longrightarrow> ec_conf c' = ec_conf c \<Longrightarrow> closes c' = closes c \<Longrightarrow>
   ec_closeh c' = ec_closeh c \<Longrightarrow> ec_tmr_local c' = ec_tmr_local c \<Longrightarrow> okstep c c'"
  by (simp add: okstep_def close_token_def econn_edge.stay)

lemma okstep_refl [simp]: "okstep c c"
  by (rule okstepI_same) simp_all

lemma okstep_ids:
  "okstep (c\<lparr>ec_userid_remote := u\<rparr>) c' = okstep c c'" "okstep (c\<lparr>ec_clientid_remote := u\<rparr>) c' = okstep c c'"
  by (simp_all add: okstep_def close_token_def)

lemma close_okstep [simp]: "okstep c (econn_close env c e t)"
  by (rule okstepI_end) simp_all

lemma handle_setup_request_okstep: "okstep conn (handle_setup_request env conn u c msg)"
proof (cases "ec_state conn \<in> {ECONN_IDLE, ECONN_ANSWERED, ECONN_DATACHAN_ESTABLISHED, ECONN_UPDATE_SENT,
    ECONN_PENDING_OUTGOING}")
  case True
  then show ?thesis
    by (intro okstepI)
       (auto simp: handle_setup_request_def Let_def intro: econn_edge.intros split: econn_state.splits)
next
  case False
  then show ?thesis by (cases "ec_state conn") (simp_all add: handle_setup_request_def Let_def)
qed

lemma handle_setup_response_okstep: "okstep conn (handle_setup_response env conn u c msg)"
proof (cases "ec_state conn = ECONN_PENDING_OUTGOING \<or> ec_state conn = ECONN_CONFLICT_RESOLUTION")
  case True
  then show ?thesis
    by (intro okstepI) (auto simp: handle_setup_response_def Let_def intro: econn_edge.intros split: if_splits)
qed (simp add: handle_setup_response_def)

lemma handle_update_request_okstep: "okstep conn (handle_update_request env conn u c msg)"
proof (cases "ec_state conn \<in> {ECONN_ANSWERED, ECONN_DATACHAN_ESTABLISHED, ECONN_UPDATE_SENT}
    \<and> \<not> differ env (ec_clientid_remote conn) c")
  case True
  then show ?thesis
    by (intro okstepI) (auto simp: handle_update_request_def Let_def intro: econn_edge.intros)
next
  case False
  then show ?thesis by (cases "ec_state conn") (simp_all add: handle_update_request_def Let_def)
qed

lemma handle_update_response_okstep: "okstep conn (handle_update_response env conn u c msg)"
proof (cases "ec_state conn = ECONN_UPDATE_SENT \<and> \<not> differ env (ec_clientid_remote conn) c")
  case True
  then show ?thesis
    by (intro okstepI) (auto simp: handle_update_response_def Let_def intro: econn_edge.intros split: if_splits)
qed (auto simp: handle_update_response_def)

lemma recv_setup_okstep: "okstep conn (recv_setup env conn u c msg)"
proof -
  have part: "okstep conn (conn\<lparr>ec_userid_remote := x\<rparr>)" for x by (rule okstepI_same) simp_all
  note h = handle_setup_request_okstep handle_setup_response_okstep
  have "okstep conn (handle_setup_request env (conn\<lparr>ec_userid_remote := x\<rparr>) u c msg)"
    "okstep conn (handle_setup_request env (conn\<lparr>ec_clientid_remote := y\<rparr>) u c msg)"
    "okstep conn (handle_setup_request env (conn\<lparr>ec_userid_remote := x, ec_clientid_remote := y\<rparr>) u c msg)"
    "okstep conn (handle_setup_response env (conn\<lparr>ec_userid_remote := x\<rparr>) u c msg)"
    "okstep conn (handle_setup_response env (conn\<lparr>ec_clientid_remote := y\<rparr>) u c msg)"
    "okstep conn (handle_setup_response env (conn\<lparr>ec_userid_remote := x, ec_clientid_remote := y\<rparr>) u c msg)" for x y
    using h [of "conn\<lparr>ec_userid_remote := x\<rparr>"] h [of "conn\<lparr>ec_clientid_remote := y\<rparr>"]
      h [of "conn\<lparr>ec_userid_remote := x, ec_clientid_remote := y\<rparr>"]
    by (simp_all only: okstep_ids)
  then show ?thesis using h [of conn] part by (simp add: recv_setup_def Let_def)
qed

lemma recv_cancel_okstep: "okstep conn (recv_cancel env conn c msg)"
proof -
  have "okstep conn (econn_close env (conn\<lparr>ec_state := ECONN_TERMINATING\<rparr>) e t)" for e t
    by (rule okstepI_end) (simp_all add: close_token_def)
  then show ?thesis by (simp add: recv_cancel_def Let_def)
qed

lemma recv_hangup_okstep: "okstep conn (recv_hangup env conn msg)"
proof (cases "differ env (ec_sessid_remote conn) (em_sessid_sender msg) \<or>
    ec_state conn \<noteq> ECONN_DATACHAN_ESTABLISHED \<and> ec_state conn \<noteq> ECONN_HANGUP_SENT")
  case False
  then show ?thesis by (intro okstepI_end) (auto simp: recv_hangup_def Let_def close_token_def)
qed (auto simp: recv_hangup_def)

lemma act_okstep: "\<not> is_close a \<Longrightarrow> okstep conn (act a conn)"
  by (rule okstepI_same) simp_all

lemma recv_okstep: "okstep conn (econn_recv_message env conn u c msg)"
proof -
  have "okstep conn (recv_update env conn u c msg)"
    by (simp add: recv_update_def handle_update_request_okstep handle_update_response_okstep)
  moreover have "okstep conn (recv_alert conn msg)" "okstep conn (recv_confmsg conn msg)" "okstep conn (recv_ping conn msg)"
    by (simp_all add: recv_alert_def recv_confmsg_def recv_ping_def act_okstep)
  ultimately show ?thesis
    by (simp add: econn_recv_message_def recv_setup_okstep recv_cancel_okstep recv_hangup_okstep
        split: option.split econn_msg.split)
qed

lemma start_okstep: "okstep conn (snd (econn_start env conn sdp props))"
proof (cases "ec_state conn = ECONN_IDLE \<or> ec_state conn = ECONN_PENDING_OUTGOING")
  case True
  let ?conn = "conn\<lparr>ec_state := ECONN_PENDING_OUTGOING, ec_dir := ECONN_DIR_OUTGOING\<rparr>"
  obtain e conn' where s: "econn_send_setup env ?conn False sdp props False = (e, conn')" by fastforce
  then obtain c where c: "same_but_trace ?conn c"
      "e = OK \<and> conn' = c \<or> e \<noteq> OK \<and> conn' = c\<lparr>ec_setup_err := e, ec_state := ECONN_TERMINATING\<rparr>"
    by (rule send_setup_cases)
  note d = same_but_traceD [OF c(1)]
  have edge: "econn_edge (ec_state conn) ECONN_PENDING_OUTGOING" using True by (auto intro: econn_edge.intros)
  show ?thesis
  proof (cases "e = OK")
    case ok: True
    then show ?thesis
      using True s c(2) d edge by (intro okstepI) (auto simp: econn_start_def Let_def)
  next
    case False
    then show ?thesis
      using True s c(2) d by (intro okstepI_end) (auto simp: econn_start_def Let_def close_token_def)
  qed
qed (simp add: econn_start_def)

lemma update_req_okstep: "okstep conn (snd (econn_update_req env conn sdp props))"
proof (cases "ec_state conn \<in> {ECONN_ANSWERED, ECONN_DATACHAN_ESTABLISHED, ECONN_UPDATE_SENT, ECONN_UPDATE_RECV}")
  case True
  let ?conn = "conn\<lparr>ec_state := ECONN_UPDATE_SENT\<rparr>"
  obtain e conn' where s: "econn_send_setup env ?conn False sdp props True = (e, conn')" by fastforce
  then obtain c where c: "same_but_trace ?conn c"
      "e = OK \<and> conn' = c \<or> e \<noteq> OK \<and> conn' = c\<lparr>ec_setup_err := e, ec_state := ECONN_TERMINATING\<rparr>"
    by (rule send_setup_cases)
  note d = same_but_traceD [OF c(1)]
  have edge: "econn_edge (ec_state conn) ECONN_UPDATE_SENT" using True by (auto intro: econn_edge.intros)
  show ?thesis
  proof (cases "e = OK")
    case ok: True
    then show ?thesis
      using True s c(2) d edge by (intro okstepI) (auto simp: econn_update_req_def Let_def)
  next
    case False
    then show ?thesis
      using True s c(2) d by (intro okstepI_end) (auto simp: econn_update_req_def Let_def close_token_def)
  qed
qed (simp add: econn_update_req_def)

text \<open>Answering a SETUP or an UPDATE.\<close>

lemma respond_okstep:
  assumes "econn_edge (ec_state conn) ECONN_ANSWERED"
  shows "okstep conn (snd (case econn_send_setup env (tmr_cancel conn) True sdp props up of
    (e, c) \<Rightarrow> if e \<noteq> OK then (e, c) else (OK, econn_set_state ECONN_ANSWERED c)))"
proof -
  obtain e conn' where s: "econn_send_setup env (tmr_cancel conn) True sdp props up = (e, conn')" by fastforce
  then obtain c where c: "same_but_trace (tmr_cancel conn) c"
      "e = OK \<and> conn' = c \<or> e \<noteq> OK \<and> conn' = c\<lparr>ec_setup_err := e, ec_state := ECONN_TERMINATING\<rparr>"
    by (rule send_setup_cases)
  note d = same_but_traceD [OF c(1)]
  show ?thesis
  proof (cases "e = OK")
    case True
    then show ?thesis using s c(2) d assms by (intro okstepI) (auto simp: Let_def)
  next
    case False
    then show ?thesis using s c(2) d by (intro okstepI_end) (auto simp: Let_def close_token_def)
  qed
qed

lemma answer_okstep: "okstep conn (snd (econn_answer env conn sdp props))"
proof (cases "ec_state conn = ECONN_PENDING_INCOMING \<or> ec_state conn = ECONN_CONFLICT_RESOLUTION")
  case True
  then have "econn_edge (ec_state conn) ECONN_ANSWERED" by (auto intro: econn_edge.intros)
  from respond_okstep [OF this, of env sdp props False] True show ?thesis
    by (simp only: econn_answer_def Let_def) auto
qed (simp add: econn_answer_def)

lemma update_resp_okstep: "okstep conn (snd (econn_update_resp env conn sdp props))"
  unfolding econn_update_resp_def by (auto intro: respond_okstep econn_edge.intros)

lemma end_okstep: "okstep conn (econn_end env conn)"
proof (cases "ec_state conn = ECONN_DATACHAN_ESTABLISHED")
  case True
  obtain e c where s: "send_hangup env conn False = (e, c)" by fastforce
  have "same_but_trace conn c" using send_same(2) [of conn env False] s by simp
  note d = same_but_traceD [OF this]
  show ?thesis
    using True s d
    by (intro okstepI) (auto simp: econn_end_def Let_def s intro: econn_edge.intros)
next
  case False
  then show ?thesis
    by (cases "ec_state conn") (simp_all add: econn_end_def Let_def okstepI_end close_token_def)
qed

lemma timer_okstep: "okstep conn (econn_timer env conn)"
proof -
  have "okstep conn (econn_close env (tmr_cancel conn) e t)" for e t
    by (rule okstepI_end) (simp_all add: close_token_def)
  then show ?thesis
    by (simp add: econn_timer_def tmr_local_handler_def tmr_term_handler_def tmr_cancel_handler_def
        split: option.split tmr_handler.split)
qed

lemma econn_do_okstep: "okstep conn (econn_do env conn op)"
proof (cases op)
  case OpDatachan
  then show ?thesis
    by (auto simp: econn_set_datachan_established_def intro!: okstepI econn_edge.established)
next
  case (OpSetError e)
  then show ?thesis by (intro okstepI_same) (simp_all add: econn_set_error_def)
next
  case (OpSendPropsync r p)
  then show ?thesis by (intro okstepI_same) simp_all
next
  case (OpSendAlert l d)
  then show ?thesis by (intro okstepI_same) simp_all
next
  case (OpSendPing r)
  then show ?thesis by (intro okstepI_same) simp_all
qed (simp_all add: start_okstep answer_okstep update_req_okstep update_resp_okstep end_okstep recv_okstep timer_okstep)

lemma okstep_inv:
  assumes "econn_inv c" and "okstep c c'"
  shows "econn_inv c'"
proof -
  have "0 < closes c' \<Longrightarrow> ec_state c' = ECONN_TERMINATING"
    using assms by (cases "closes c' = closes c") (auto simp: econn_inv_def okstep_def elim: edge_terminating)
  then show ?thesis
    using assms by (auto simp: econn_inv_def okstep_def close_token_def)
qed

interpretation ecm: inv_machine econn_step "\<lambda>_ _. True" econn_inv
  by unfold_locales (auto simp: econn_step_def intro: okstep_inv [OF _ econn_do_okstep])

section \<open>Two ends of a call\<close>

text \<open>
  What the exchange below uses of libre: a string equals itself, a string is set when it is not empty,
  and a string shorter than the buffer is copied as it is.
\<close>

definition re_str_ok :: "re_env \<Rightarrow> bool" where
  "re_str_ok re \<longleftrightarrow> (\<forall>s. re_casecmp re s s) \<and> (\<forall>s. re_isset re (Some s) \<longleftrightarrow> s \<noteq> []) \<and>
     (\<forall>d s n. length s < n \<longrightarrow> re_ncpy re d (Some s) n = s)"

definition id_ok :: "string \<Rightarrow> bool" where
  "id_ok s \<longleftrightarrow> s \<noteq> [] \<and> length s < ECONN_ID_LEN"

text \<open>An end before the call, with a transport and a set up time, that has not heard of a peer.\<close>

definition fresh_end :: "econn \<Rightarrow> bool" where
  "fresh_end conn \<longleftrightarrow> ec_state conn = ECONN_IDLE \<and> ec_transp conn \<and> timeout_setup (ec_conf conn) \<noteq> 0 \<and>
     id_ok (ec_userid_self conn) \<and> id_ok (ec_clientid conn) \<and> id_ok (ec_sessid_local conn) \<and>
     ec_userid_remote conn = [] \<and> ec_clientid_remote conn = []"

text \<open>The message an end sent last, and its delivery to the other end at some time.\<close>

definition last_sent :: "econn \<Rightarrow> econn_message" where
  "last_sent conn = (case last (ec_trace conn) of Sent m _ \<Rightarrow> m | _ \<Rightarrow> econn_message_zero)"

definition deliver :: "ec_env \<Rightarrow> econn \<Rightarrow> econn \<Rightarrow> u32 \<Rightarrow> u32 \<Rightarrow> econn" where
  "deliver env from dest t age =
     econn_recv_message env dest (ec_userid_self from) (ec_clientid from)
       ((last_sent from)\<lparr>em_time := t, em_age := age\<rparr>)"

definition setup_msg :: "string \<Rightarrow> bool \<Rightarrow> string option \<Rightarrow> econn_props option \<Rightarrow> econn_message" where
  "setup_msg sess resp sdp props =
     econn_message_zero\<lparr>em_msg_type := Some ECONN_SETUP, em_sessid_sender := sess,
       em_u := U_setup \<lparr>su_sdp_msg = sdp, su_props = props, su_url = None, su_sft_tuple = None\<rparr>, em_resp := resp\<rparr>"

lemma setup_msg_simps [simp]:
  "em_msg_type (setup_msg s r d p) = Some ECONN_SETUP" "em_sessid_sender (setup_msg s r d p) = s"
  "econn_message_isrequest ((setup_msg s r d p)\<lparr>em_time := t, em_age := g\<rparr>) = (\<not> r)"
  by (simp_all add: setup_msg_def econn_message_isrequest_def)

lemma send_setup_ok:
  assumes "re_str_ok (ee_re env)" and "ee_send env = (\<lambda>_. OK)" and "ec_transp conn" and "id_ok (ec_sessid_local conn)"
  shows "econn_send_setup env conn resp sdp props False =
    (OK, act (Sent (setup_msg (ec_sessid_local conn) resp sdp props) OK) conn)"
  using assms
  by (simp add: econn_send_setup_def econn_message_init_def econn_transp_send_def setup_msg_def re_str_ok_def
        id_ok_def Let_def)

lemma last_sent_act [simp]: "last_sent (act (Sent m e) conn) = m"
  by (simp add: last_sent_def act_def)

lemma last_sent_upd [simp]:
  "last_sent (tmr_start d h conn) = last_sent conn" "last_sent (conn\<lparr>ec_state := st\<rparr>) = last_sent conn"
  by (simp_all add: last_sent_def tmr_start_def)

lemma record_simps [simp]:
  "ec_userid_self (act a c) = ec_userid_self c" "ec_clientid (act a c) = ec_clientid c"
  "ec_sessid_local (act a c) = ec_sessid_local c" "ec_sessid_remote (act a c) = ec_sessid_remote c"
  "ec_userid_remote (act a c) = ec_userid_remote c" "ec_clientid_remote (act a c) = ec_clientid_remote c"
  "ec_transp (act a c) = ec_transp c" "ec_conflict (act a c) = ec_conflict c"
  "ec_userid_self (tmr_start d h c) = ec_userid_self c" "ec_clientid (tmr_start d h c) = ec_clientid c"
  "ec_sessid_local (tmr_start d h c) = ec_sessid_local c" "ec_sessid_remote (tmr_start d h c) = ec_sessid_remote c"
  "ec_userid_remote (tmr_start d h c) = ec_userid_remote c" "ec_clientid_remote (tmr_start d h c) = ec_clientid_remote c"
  "ec_transp (tmr_start d h c) = ec_transp c" "ec_conflict (tmr_start d h c) = ec_conflict c"
  "ec_userid_self (tmr_cancel c) = ec_userid_self c" "ec_clientid (tmr_cancel c) = ec_clientid c"
  "ec_sessid_local (tmr_cancel c) = ec_sessid_local c" "ec_sessid_remote (tmr_cancel c) = ec_sessid_remote c"
  "ec_userid_remote (tmr_cancel c) = ec_userid_remote c" "ec_clientid_remote (tmr_cancel c) = ec_clientid_remote c"
  "ec_transp (tmr_cancel c) = ec_transp c" "ec_conflict (tmr_cancel c) = ec_conflict c"
  by (simp_all add: act_def tmr_start_def tmr_cancel_def)

text \<open>The three moves: calling, receiving the SETUP of a peer, answering.\<close>

lemma start_fresh:
  fixes sdp :: "string option" and props :: "econn_props option"
  assumes "re_str_ok (ee_re env)" and "ee_send env = (\<lambda>_. OK)" and "fresh_end a"
  defines "a1 \<equiv> snd (econn_start env a sdp props)"
  shows "ec_state a1 = ECONN_PENDING_OUTGOING" "last_sent a1 = setup_msg (ec_sessid_local a) False sdp props"
    "ec_userid_self a1 = ec_userid_self a" "ec_clientid a1 = ec_clientid a" "ec_sessid_local a1 = ec_sessid_local a"
    "ec_userid_remote a1 = []" "ec_clientid_remote a1 = []" "ec_transp a1"
    "ec_conf a1 = ec_conf a" "ec_closeh a1 = ec_closeh a"
  using assms by (simp_all add: econn_start_def fresh_end_def send_setup_ok)

lemma answer_ok:
  fixes sdp :: "string option" and props :: "econn_props option"
  assumes "re_str_ok (ee_re env)" and "ee_send env = (\<lambda>_. OK)" and "ec_transp b" and "id_ok (ec_sessid_local b)"
    and "ec_state b = ECONN_PENDING_INCOMING \<or> ec_state b = ECONN_CONFLICT_RESOLUTION"
  defines "b2 \<equiv> snd (econn_answer env b sdp props)"
  shows "ec_state b2 = ECONN_ANSWERED" "last_sent b2 = setup_msg (ec_sessid_local b) True sdp props"
    "ec_userid_self b2 = ec_userid_self b" "ec_clientid b2 = ec_clientid b" "ec_sessid_local b2 = ec_sessid_local b"
    "ec_sessid_remote b2 = ec_sessid_remote b" "ec_userid_remote b2 = ec_userid_remote b"
    "ec_clientid_remote b2 = ec_clientid_remote b"
  using assms by (auto simp: econn_answer_def send_setup_ok)

text \<open>Receiving a SETUP: the ids of the sender are those of the peer, or there is no peer yet.\<close>

definition knows :: "econn \<Rightarrow> econn \<Rightarrow> bool" where
  "knows b a \<longleftrightarrow> ec_userid_remote b \<in> {[], ec_userid_self a} \<and> ec_clientid_remote b \<in> {[], ec_clientid a}"

lemma recv_setup_known:
  assumes "re_str_ok (ee_re env)" and "id_ok u" and "id_ok c"
    and "ec_userid_remote b \<in> {[], u}" and "ec_clientid_remote b \<in> {[], c}"
  shows "recv_setup env b u c msg =
    (let b' = b\<lparr>ec_userid_remote := u, ec_clientid_remote := c\<rparr>
     in if econn_message_isrequest msg then handle_setup_request env b' u c msg
        else handle_setup_response env b' u c msg)"
proof -
  have "b\<lparr>ec_userid_remote := u\<rparr> = b" if "ec_userid_remote b = u" using that by simp
  moreover have "b\<lparr>ec_clientid_remote := c\<rparr> = b" if "ec_clientid_remote b = c" using that by simp
  moreover have "b\<lparr>ec_userid_remote := u, ec_clientid_remote := c\<rparr> = b\<lparr>ec_clientid_remote := c\<rparr>"
    if "ec_userid_remote b = u" using that by simp
  moreover have "b\<lparr>ec_userid_remote := u, ec_clientid_remote := c\<rparr> = b\<lparr>ec_userid_remote := u\<rparr>"
    if "ec_clientid_remote b = c" using that by simp
  ultimately show ?thesis
    using assms by (auto simp: recv_setup_def Let_def re_str_ok_def id_ok_def differ_def str_ncpy_def)
qed

text \<open>The delivery of the peer's last message, a SETUP with session id \<open>sess\<close>.\<close>

lemma deliver_setup:
  assumes "re_str_ok (ee_re env)" and "id_ok (ec_userid_self a)" and "id_ok (ec_clientid a)" and "knows b a"
    and "last_sent a = setup_msg sess resp sdp props"
  shows "deliver env a b t g =
    (let b' = b\<lparr>ec_userid_remote := ec_userid_self a, ec_clientid_remote := ec_clientid a\<rparr>;
         msg = (setup_msg sess resp sdp props)\<lparr>em_time := t, em_age := g\<rparr>
     in if \<not> resp then handle_setup_request env b' (ec_userid_self a) (ec_clientid a) msg
        else handle_setup_response env b' (ec_userid_self a) (ec_clientid a) msg)"
  using recv_setup_known [OF assms(1-3), of b] assms(4,5)
  by (simp add: deliver_def econn_recv_message_def knows_def Let_def)

lemma deliver_props:
  fixes t g :: u32
  assumes "re_str_ok (ee_re env)" and "id_ok (ec_userid_self a)" and "id_ok (ec_clientid a)" and "knows b a"
    and "last_sent a = setup_msg sess resp sdp props"
  defines "b1 \<equiv> deliver env a b t g"
  shows "ec_userid_self b1 = ec_userid_self b" "ec_clientid b1 = ec_clientid b" "ec_sessid_local b1 = ec_sessid_local b"
    "ec_userid_remote b1 = ec_userid_self a" "ec_clientid_remote b1 = ec_clientid a" "ec_transp b1 = ec_transp b"
    "ec_conf b1 = ec_conf b"
  unfolding b1_def deliver_setup [OF assms(1-5)] Let_def handle_setup_request_def handle_setup_response_def
  by (auto split: econn_state.split)

lemma deliver_idle:
  assumes "re_str_ok (ee_re env)" and "id_ok (ec_userid_self a)" and "id_ok (ec_clientid a)" and "knows b a"
    and "last_sent a = setup_msg sess False sdp props" and "id_ok sess" and "ec_state b = ECONN_IDLE"
  shows "ec_state (deliver env a b t g) = ECONN_PENDING_INCOMING" "ec_sessid_remote (deliver env a b t g) = sess"
  using assms(1,6,7)
  by (simp_all add: deliver_setup [OF assms(1-5)] handle_setup_request_def Let_def str_ncpy_def re_str_ok_def id_ok_def)

lemma deliver_conflict:
  assumes "re_str_ok (ee_re env)" and "id_ok (ec_userid_self a)" and "id_ok (ec_clientid a)" and "knows b a"
    and "last_sent a = setup_msg sess False sdp props" and "id_ok sess" and "ec_state b = ECONN_PENDING_OUTGOING"
  shows "ec_state (deliver env a b t g) =
      (if econn_iswinner (ec_userid_self b) (ec_clientid b) (ec_userid_self a) (ec_clientid a)
       then ECONN_PENDING_OUTGOING else ECONN_CONFLICT_RESOLUTION)"
    "ec_sessid_remote (deliver env a b t g) = sess"
  using assms(1,6,7)
  by (simp_all add: deliver_setup [OF assms(1-5)] handle_setup_request_def Let_def str_ncpy_def re_str_ok_def id_ok_def)

lemma deliver_answer:
  assumes "re_str_ok (ee_re env)" and "id_ok (ec_userid_self a)" and "id_ok (ec_clientid a)" and "knows b a"
    and "last_sent a = setup_msg sess True sdp props" and "id_ok sess"
    and "ec_state b = ECONN_PENDING_OUTGOING \<or> ec_state b = ECONN_CONFLICT_RESOLUTION"
  shows "ec_state (deliver env a b t g) = ECONN_ANSWERED" "ec_sessid_remote (deliver env a b t g) = sess"
  using assms(1,6,7)
  by (auto simp: deliver_setup [OF assms(1-5)] handle_setup_response_def Let_def str_ncpy_def re_str_ok_def id_ok_def)

text \<open>Both ends in the call: answered, and each with the ids of the other.\<close>

definition connected :: "econn \<Rightarrow> econn \<Rightarrow> bool" where
  "connected a b \<longleftrightarrow>
     ec_state a = ECONN_ANSWERED \<and> ec_state b = ECONN_ANSWERED \<and>
     ec_sessid_remote a = ec_sessid_local b \<and> ec_sessid_remote b = ec_sessid_local a \<and>
     ec_userid_remote a = ec_userid_self b \<and> ec_userid_remote b = ec_userid_self a \<and>
     ec_clientid_remote a = ec_clientid b \<and> ec_clientid_remote b = ec_clientid a"

lemma connected_sym: "connected a b \<Longrightarrow> connected b a"
  by (simp add: connected_def)

lemma call_connects:
  fixes sdp sdp' :: "string option" and props props' :: "econn_props option" and t g :: u32
  assumes re: "re_str_ok (ee_re env)" and send: "ee_send env = (\<lambda>_. OK)" and a: "fresh_end a" and b: "fresh_end b"
  defines "a1 \<equiv> snd (econn_start env a sdp props)"
  defines "b1 \<equiv> deliver env a1 b t g"
  defines "b2 \<equiv> snd (econn_answer env b1 sdp' props')"
  shows "ec_state b1 = ECONN_PENDING_INCOMING \<and> connected (deliver env b2 a1 t' g') b2"
proof -
  note ids = a [unfolded fresh_end_def] b [unfolded fresh_end_def]
  note a1 = start_fresh [OF re send a, of sdp props, folded a1_def]
  have idsa: "id_ok (ec_userid_self a1)" "id_ok (ec_clientid a1)" using ids a1 by simp_all
  have k: "knows b a1" using ids by (simp add: knows_def)
  have sa: "id_ok (ec_sessid_local a)" using ids by simp
  have st: "ec_state b = ECONN_IDLE" using ids by simp
  note b1 = deliver_idle [OF re idsa k a1(2) sa st, of t g, folded b1_def]
    deliver_props [OF re idsa k a1(2), of t g, folded b1_def]
  have tr: "ec_transp b1" "id_ok (ec_sessid_local b1)" "ec_state b1 = ECONN_PENDING_INCOMING \<or> ec_state b1 = ECONN_CONFLICT_RESOLUTION"
    using b1 ids by simp_all
  note b2 = answer_ok [OF re send tr, of sdp' props', folded b2_def]
  have idsb: "id_ok (ec_userid_self b2)" "id_ok (ec_clientid b2)" using ids b1 b2 by simp_all
  have k': "knows a1 b2" using a1 by (simp add: knows_def)
  have out: "ec_state a1 = ECONN_PENDING_OUTGOING \<or> ec_state a1 = ECONN_CONFLICT_RESOLUTION" using a1 by simp
  note a2 = deliver_answer [OF re idsb k' b2(2) tr(2) out, of t' g']
    deliver_props [OF re idsb k' b2(2), of t' g']
  show ?thesis using a1 b1 b2 a2 by (simp add: connected_def)
qed

text \<open>Both call: \<open>w\<close> wins and \<open>l\<close> answers.\<close>

lemma conflict_connects:
  fixes sdp sdp' sdp'' :: "string option" and props props' props'' :: "econn_props option" and t g t' g' :: u32
  assumes re: "re_str_ok (ee_re env)" and send: "ee_send env = (\<lambda>_. OK)" and w: "fresh_end w" and l: "fresh_end l"
    and win: "econn_iswinner (ec_userid_self w) (ec_clientid w) (ec_userid_self l) (ec_clientid l)"
  defines "w1 \<equiv> snd (econn_start env w sdp props)" and "l1 \<equiv> snd (econn_start env l sdp' props')"
  defines "w2 \<equiv> deliver env l1 w1 t g" and "l2 \<equiv> deliver env w1 l1 t' g'"
  defines "l3 \<equiv> snd (econn_answer env l2 sdp'' props'')"
  shows "ec_state w2 = ECONN_PENDING_OUTGOING \<and> ec_state l2 = ECONN_CONFLICT_RESOLUTION \<and>
    connected (deliver env l3 w2 t'' g'') l3"
proof -
  note ids = w [unfolded fresh_end_def] l [unfolded fresh_end_def]
  note w1 = start_fresh [OF re send w, of sdp props, folded w1_def]
    and l1 = start_fresh [OF re send l, of sdp' props', folded l1_def]
  have idsw: "id_ok (ec_userid_self w1)" "id_ok (ec_clientid w1)" "id_ok (ec_sessid_local w)"
    and idsl: "id_ok (ec_userid_self l1)" "id_ok (ec_clientid l1)" "id_ok (ec_sessid_local l)"
    using ids w1 l1 by simp_all
  have k: "knows w1 l1" "knows l1 w1" using w1 l1 by (simp_all add: knows_def)
  note w2 = deliver_conflict [OF re idsl(1,2) k(1) l1(2) idsl(3) w1(1), of t g, folded w2_def]
    deliver_props [OF re idsl(1,2) k(1) l1(2), of t g, folded w2_def]
  note l2 = deliver_conflict [OF re idsw(1,2) k(2) w1(2) idsw(3) l1(1), of t' g', folded l2_def]
    deliver_props [OF re idsw(1,2) k(2) w1(2), of t' g', folded l2_def]
  have win': "ec_state w2 = ECONN_PENDING_OUTGOING" using w2(1) win w1 l1 by simp
  have lost: "ec_state l2 = ECONN_CONFLICT_RESOLUTION" using l2(1) econn_iswinner_asym [OF win] w1 l1 by simp
  have tr: "ec_transp l2" "id_ok (ec_sessid_local l2)"
    "ec_state l2 = ECONN_PENDING_INCOMING \<or> ec_state l2 = ECONN_CONFLICT_RESOLUTION"
    using l2 l1 ids lost by simp_all
  note l3 = answer_ok [OF re send tr, of sdp'' props'', folded l3_def]
  have ids3: "id_ok (ec_userid_self l3)" "id_ok (ec_clientid l3)" using idsl l2 l3 by simp_all
  have k': "knows w2 l3" using w2 l2 l3 by (simp add: knows_def)
  have out: "ec_state w2 = ECONN_PENDING_OUTGOING \<or> ec_state w2 = ECONN_CONFLICT_RESOLUTION" using win' by simp
  note w3 = deliver_answer [OF re ids3 k' l3(2) tr(2) out, of t'' g'']
    deliver_props [OF re ids3 k' l3(2), of t'' g'']
  show ?thesis using win' lost w1 l1 w2 l2 l3 w3 by (simp add: connected_def)
qed

section \<open>Properties\<close>

definition demo_re :: re_env where
  "demo_re = \<lparr>re_casecmp = (=), re_ncpy = (\<lambda>d s n. case s of None \<Rightarrow> d | Some x \<Rightarrow> take (n - 1) x),
     re_isset = (\<lambda>s. s \<noteq> None \<and> s \<noteq> Some []), re_fmt_s = (\<lambda>s. case s of None \<Rightarrow> [] | Some x \<Rightarrow> x),
     re_fmt_u = (\<lambda>n. replicate n CHR ''1''), re_pl_set_str = (\<lambda>_ s. s), re_pl_u32 = (\<lambda>_. 0), re_pl_u64 = (\<lambda>_. 0),
     re_b64_encode = (\<lambda>b. (OK, map (\<lambda>w. char_of (unat w)) b)),
     re_b64_decode = (\<lambda>s n. (OK, map (\<lambda>c. of_char c) s)),
     od_lookup = map_of, od_add = (\<lambda>d k v. (OK, d @ [(k, v)])),
     js_print = (\<lambda>_. (OK, [])), js_parse = (\<lambda>_. (OK, []))\<rparr>"

lemma demo_re_str_ok: "re_str_ok demo_re"
  by (simp add: re_str_ok_def demo_re_def)

definition demo_handlers :: econn_handlers where
  "demo_handlers = \<lparr>h_connh = True, h_answerh = True, h_update_reqh = True, h_update_resph = True,
     h_alerth = True, h_confmsgh = True, h_pingh = True\<rparr>"

definition demo_end :: "string \<Rightarrow> string \<Rightarrow> econn" where
  "demo_end u c = the (snd (the (econn_alloc demo_re True OK ''r'' None (Some u) (Some c) (Some (''s'' @ u @ c))
                                  True demo_handlers True)))"

definition demo_ec :: ec_env where
  "demo_ec = \<lparr>ee_re = demo_re, ee_send = (\<lambda>_. OK)\<rparr>"

lemma demo_end_alloc:
  "econn_alloc demo_re True OK ''r'' None (Some ''alice'') (Some ''c1'') (Some (''s'' @ ''alice'' @ ''c1''))
     True demo_handlers True = Some (OK, Some (demo_end ''alice'' ''c1''))"
  by (simp add: demo_end_def econn_alloc_def demo_re_def Let_def)

lemma demo_fresh: "fresh_end (demo_end ''alice'' ''c1'')" "fresh_end (demo_end ''bob'' ''c2'')"
  by (simp_all add: fresh_end_def demo_end_def econn_alloc_def demo_re_def default_conf_def id_ok_def
        ECONN_ID_LEN_def Let_def)

lemma demo_ids: "ec_userid_self (demo_end ''alice'' ''c1'') = ''alice''" "ec_userid_self (demo_end ''bob'' ''c2'') = ''bob''"
  by (simp_all add: demo_end_def econn_alloc_def demo_re_def Let_def)

lemma econn_alloc_inv:
  assumes "econn_alloc re mem de rnd conf u c s tp hs ch = Some (OK, Some conn)"
  shows "econn_inv conn" "ec_state conn = ECONN_IDLE"
  using assms by (auto simp: econn_alloc_def econn_inv_def closes_def Let_def split: option.splits if_splits)

text \<open>
  C6: every operation, message and timer takes a connection along an edge of the protocol's state
  machine. In particular \<^const>\<open>ECONN_TERMINATING\<close> is never left.
\<close>

theorem econn_refines_protocol:
  "econn_edge (ec_state conn) (ec_state (econn_do env conn op)) \<and>
   (ec_state conn = ECONN_TERMINATING \<longrightarrow> ec_state (econn_do env conn op) = ECONN_TERMINATING)"
  using econn_do_okstep [of conn env op] by (auto simp: okstep_def elim: edge_terminating)

theorem econn_refines_protocol_witness:
  "econn_edge (ec_state (demo_end ''alice'' ''c1''))
     (ec_state (econn_do demo_ec (demo_end ''alice'' ''c1'') (OpStart None None)))"
  using econn_refines_protocol [of "demo_end ''alice'' ''c1''" demo_ec "OpStart None None"] by simp

text \<open>
  C10: the close handler is called at most once in the life of a connection, whatever messages arrive
  and whatever the application does, and once it was called the connection is terminating.
\<close>

theorem econn_close_once:
  assumes "econn_alloc re mem dup_err rnd conf u c s tp hs ch = Some (OK, Some conn)"
    and "run econn_step conn evs = Some conn'"
  shows "closes conn' \<le> 1 \<and> (closes conn' = 1 \<longrightarrow> ec_state conn' = ECONN_TERMINATING)"
proof -
  have "econn_inv conn'" using ecm.run_inv [OF econn_alloc_inv(1) [OF assms(1)], of evs] assms(2) by simp
  then show ?thesis by (auto simp: econn_inv_def)
qed

theorem econn_close_once_witness:
  "\<exists>conn'. run econn_step (demo_end ''alice'' ''c1'')
       [(demo_ec, OpStart None None), (demo_ec, OpTimer), (demo_ec, OpClose EIO 3)] = Some conn' \<and>
     ec_state conn' = ECONN_TERMINATING \<and> closes conn' \<le> 1 \<and>
     (closes conn' = 1 \<longrightarrow> ec_state conn' = ECONN_TERMINATING)"
proof -
  obtain conn' where run: "run econn_step (demo_end ''alice'' ''c1'')
       [(demo_ec, OpStart None None), (demo_ec, OpTimer), (demo_ec, OpClose EIO 3)] = Some conn'"
    by (simp add: econn_step_def)
  then have "ec_state conn' = ECONN_TERMINATING" by (auto simp: econn_step_def)
  with econn_close_once [OF demo_end_alloc run] run show ?thesis by blast
qed

text \<open>
  C27: a call cannot hang. In every reachable state that waits for the peer or the user (with a set up
  time other than 0) the timer is running, and when it expires the connection is terminating and
  its close handler has been called.
\<close>

theorem econn_waiting_ends:
  assumes "econn_alloc re mem dup_err rnd conf u c s tp hs ch = Some (OK, Some conn)"
    and "run econn_step conn evs = Some conn'"
    and "waiting (ec_state conn')" and "timeout_setup (ec_conf conn') \<noteq> 0" and "ec_closeh conn'"
  shows "ec_tmr_local conn' \<noteq> None \<and> ec_state (econn_do env conn' OpTimer) = ECONN_TERMINATING \<and>
    closes (econn_do env conn' OpTimer) = closes conn' + 1"
proof -
  have "econn_inv conn'" using ecm.run_inv [OF econn_alloc_inv(1) [OF assms(1)], of evs] assms(2) by simp
  then have "ec_tmr_local conn' \<noteq> None" using assms(3,4) by (simp add: econn_inv_def)
  then show ?thesis
    using assms(5)
    by (auto simp: econn_timer_def tmr_local_handler_def tmr_term_handler_def tmr_cancel_handler_def
        split: tmr_handler.split)
qed

theorem econn_waiting_ends_witness:
  "\<exists>conn'. run econn_step (demo_end ''alice'' ''c1'') [(demo_ec, OpStart None None)] = Some conn' \<and>
     ec_state conn' = ECONN_PENDING_OUTGOING \<and> ec_tmr_local conn' \<noteq> None \<and>
     ec_state (econn_do demo_ec conn' OpTimer) = ECONN_TERMINATING \<and>
     closes (econn_do demo_ec conn' OpTimer) = closes conn' + 1"
proof -
  let ?conn = "snd (econn_start demo_ec (demo_end ''alice'' ''c1'') None None)"
  have run: "run econn_step (demo_end ''alice'' ''c1'') [(demo_ec, OpStart None None)] = Some ?conn"
    by (simp add: econn_step_def)
  have env: "re_str_ok (ee_re demo_ec)" "ee_send demo_ec = (\<lambda>_. OK)" by (simp_all add: demo_ec_def demo_re_str_ok)
  have "ec_state ?conn = ECONN_PENDING_OUTGOING" "timeout_setup (ec_conf ?conn) \<noteq> 0" "ec_closeh ?conn"
    using start_fresh [OF env demo_fresh(1), of None None] demo_fresh(1)
    by (simp_all add: fresh_end_def) (simp add: demo_end_def econn_alloc_def demo_re_def Let_def)
  with econn_waiting_ends [OF demo_end_alloc run, of demo_ec] run show ?thesis by simp
qed

text \<open>
  C15: two ends that call each other at the same time end up in one call. After the crossing SETUPs
  exactly one of them stays in its call and the other is in conflict resolution, and when that one
  answers both are answered and know each other.
\<close>

theorem econn_conflict_connects:
  assumes "re_str_ok (ee_re env)" and "ee_send env = (\<lambda>_. OK)" and "fresh_end a" and "fresh_end b"
    and "(ec_userid_self a, ec_clientid a) \<noteq> (ec_userid_self b, ec_clientid b)"
  shows "let a1 = snd (econn_start env a sdp props); b1 = snd (econn_start env b sdp' props');
             a2 = deliver env b1 a1 t g; b2 = deliver env a1 b1 t' g'
         in {ec_state a2, ec_state b2} = {ECONN_PENDING_OUTGOING, ECONN_CONFLICT_RESOLUTION} \<and>
            (if ec_state b2 = ECONN_CONFLICT_RESOLUTION
             then let b3 = snd (econn_answer env b2 sdp'' props'') in connected (deliver env b3 a2 t'' g'') b3
             else let a3 = snd (econn_answer env a2 sdp'' props'') in connected (deliver env a3 b2 t'' g'') a3)"
proof (cases "econn_iswinner (ec_userid_self a) (ec_clientid a) (ec_userid_self b) (ec_clientid b)")
  case True
  from conflict_connects [OF assms(1-4) True, where sdp = sdp and props = props and sdp' = sdp' and props' = props'
      and sdp'' = sdp'' and props'' = props'' and t = t and g = g and t' = t' and g' = g' and t'' = t'' and g'' = g'']
  show ?thesis by (simp add: Let_def)
next
  case False
  then have "econn_iswinner (ec_userid_self b) (ec_clientid b) (ec_userid_self a) (ec_clientid a)"
    using econn_iswinner_total [OF assms(5)] by simp
  from conflict_connects [OF assms(1,2,4,3) this, where sdp = sdp' and props = props' and sdp' = sdp and props' = props
      and sdp'' = sdp'' and props'' = props'' and t = t' and g = g' and t' = t and g' = g and t'' = t'' and g'' = g'']
  show ?thesis by (auto simp: Let_def)
qed

theorem econn_conflict_connects_witness:
  "let a1 = snd (econn_start demo_ec (demo_end ''alice'' ''c1'') None None);
       b1 = snd (econn_start demo_ec (demo_end ''bob'' ''c2'') None None);
       a2 = deliver demo_ec b1 a1 1 0; b2 = deliver demo_ec a1 b1 1 0
   in {ec_state a2, ec_state b2} = {ECONN_PENDING_OUTGOING, ECONN_CONFLICT_RESOLUTION} \<and>
      (if ec_state b2 = ECONN_CONFLICT_RESOLUTION
       then let b3 = snd (econn_answer demo_ec b2 None None) in connected (deliver demo_ec b3 a2 2 0) b3
       else let a3 = snd (econn_answer demo_ec a2 None None) in connected (deliver demo_ec a3 b2 2 0) a3)"
  by (rule econn_conflict_connects)
     (simp_all add: demo_fresh demo_ec_def demo_re_str_ok demo_ids)

text \<open>
  A message of another session or client does not touch a call. UPDATE, CANCEL and HANGUP with a
  different session id leave the connection as it is, and so do UPDATE and CANCEL of a different
  client; a SETUP of a different client changes neither state, timer nor trace.
\<close>

lemma econn_foreign_message_ignored:
  assumes "em_msg_type msg \<in> {Some ECONN_UPDATE, Some ECONN_CANCEL, Some ECONN_HANGUP} \<and>
             differ env (ec_sessid_remote conn) (em_sessid_sender msg) \<or>
           em_msg_type msg = Some ECONN_UPDATE \<and> differ env (ec_clientid_remote conn) c \<or>
           em_msg_type msg = Some ECONN_CANCEL \<and> differ env c (ec_clientid_remote conn) \<or>
           em_msg_type msg = Some ECONN_SETUP \<and> re_isset (ee_re env) (Some (ec_clientid_remote conn)) \<and>
             differ env (ec_clientid_remote conn) c"
  shows "\<exists>x. econn_recv_message env conn u c msg = conn\<lparr>ec_userid_remote := x\<rparr>"
proof -
  have same: "\<exists>x. conn = conn\<lparr>ec_userid_remote := x\<rparr>" by (rule exI [of _ "ec_userid_remote conn"]) simp
  have "econn_recv_message env conn u c msg = conn"
    if "em_msg_type msg \<in> {Some ECONN_UPDATE, Some ECONN_CANCEL, Some ECONN_HANGUP}"
      "differ env (ec_sessid_remote conn) (em_sessid_sender msg)"
    using that by (elim insertE) (simp_all add: econn_recv_message_def recv_update_def recv_cancel_def recv_hangup_def)
  moreover have "recv_update env conn u c msg = conn" if "differ env (ec_clientid_remote conn) c"
    using that by (simp add: recv_update_def handle_update_request_def handle_update_response_def)
  moreover have "recv_cancel env conn c msg = conn" if "differ env c (ec_clientid_remote conn)"
    using that by (simp add: recv_cancel_def)
  moreover have "recv_setup env conn u c msg =
      (if re_isset (ee_re env) (Some (ec_userid_remote conn)) then conn
       else conn\<lparr>ec_userid_remote := str_ncpy env (ec_userid_remote conn) u\<rparr>)"
    if "re_isset (ee_re env) (Some (ec_clientid_remote conn))" "differ env (ec_clientid_remote conn) c"
    using that by (simp add: recv_setup_def)
  ultimately show ?thesis
    using assms same by (elim disjE conjE) (simp_all only: econn_recv_message_def option.case econn_msg.case, auto)
qed

lemma econn_foreign_message_ignored_witness:
  "\<exists>x. econn_recv_message demo_ec ((demo_end ''alice'' ''c1'')\<lparr>ec_state := ECONN_ANSWERED, ec_sessid_remote := ''x''\<rparr>)
         ''bob'' ''c2'' (econn_message_zero\<lparr>em_msg_type := Some ECONN_HANGUP, em_sessid_sender := ''y''\<rparr>) =
       ((demo_end ''alice'' ''c1'')\<lparr>ec_state := ECONN_ANSWERED, ec_sessid_remote := ''x''\<rparr>)\<lparr>ec_userid_remote := x\<rparr>"
  by (rule econn_foreign_message_ignored) (simp add: differ_def demo_ec_def demo_re_def)

end
