(* ===== verification/Ecall.thy ===== *)
theory Ecall
  imports Turn Ccall Econn
begin

text \<open>
  The call with one peer, \<^verbatim>\<open>src/src/ecall/ecall.c\<close>: it composes the connection of theory Econn, the message
  format of theory Econn_Fmt and a media flow.

  The object is the record \<open>ecall\<close>. A media flow (\<^verbatim>\<open>struct iflow\<close>) is a number: flows are numbered in the order in
  which they are allocated, every call of a flow's function is the act \<open>Flow\<close> of the trace, and what the function
  returns is in the environment \<open>fl_env\<close>. All functions of a flow are set. The callbacks of the application are
  acts of the trace, and \<open>el_cbs\<close> says which are set; what the application does in a callback
  is the next operation. The local properties and the own ids are set by \<^verbatim>\<open>ecall_alloc\<close> and never released.
  Allocation of memory succeeds. \<open>el_ub\<close> is set where the behaviour of the code is undefined.
\<close>

section \<open>State\<close>

datatype async_sdp = ASYNC_NONE | ASYNC_OFFER | ASYNC_ANSWER | ASYNC_COMPLETE

definition EDATACHANNEL :: err where "EDATACHANNEL = EOTHER (-1003)"
definition TIMEOUT_MEDIA_START :: u64 where "TIMEOUT_MEDIA_START = 10000"
definition TIMEOUT_CONNECTION :: u64 where "TIMEOUT_CONNECTION = 10000"
definition TIMEOUT_AUDIO_LEVEL :: u64 where "TIMEOUT_AUDIO_LEVEL = 3000"

datatype icall_cb =
    CB_send | CB_start | CB_answer | CB_media_estab | CB_audio_estab | CB_datachan_estab | CB_media_stopped | CB_leave
  | CB_close | CB_acbr_changed | CB_vstate_changed | CB_muted_changed | CB_quality | CB_req_clients | CB_audio_level | CB_norelay

datatype iflow_call =
    Fl_alloc | Fl_close | Fl_stop_media | Fl_is_gathered | Fl_gather_all_turn bool
  | Fl_generate_offer | Fl_generate_answer | Fl_handle_offer string | Fl_handle_answer "string option"
  | Fl_set_remote_userclientid "string option" "string option" | Fl_set_audio_cbr bool | Fl_get_audio_cbr
  | Fl_set_video_state icall_vstate | Fl_has_video | Fl_set_call_type icall_call_type
  | Fl_add_turnserver zapi_ice_server | Fl_set_keystore | Fl_enable_privacy bool | Fl_dce_send string
  | Fl_get_stats | Fl_get_audio_level | Fl_update_ssrc u32 u32
  | Fl_add_decoders string string "string option" u32 u32 | Fl_remove_decoders string string | Fl_sync_decoders

datatype el_act =
    Flow nat iflow_call
  | App_send econn_message "(string \<times> string) list option" bool
  | App_start u32 string string bool
  | App_answer
  | App_media_estab "string option" "string option" bool
  | App_audio_estab "string option" "string option" bool
  | App_datachan_estab "string option" "string option" bool
  | App_media_stopped
  | App_leave icall_reason
  | App_close err "icall_metrics option" u32 "string option" "string option"
  | App_acbr_changed "string option" "string option" bool
  | App_vstate_changed "string option" "string option" icall_vstate
  | App_muted_changed "string option" "string option" bool
  | App_quality "string option" "string option" stats_report icall_conv_type
  | App_req_clients
  | App_audio_level "audio_level list"
  | App_norelay bool
  | App_confmsg econn_message
  | App_propsync econn_message
  | App_ping bool
  | Set_muted bool

record ecall =
  el_cbs :: "icall_cb set"
  el_call_type :: icall_call_type
  el_vstate :: icall_vstate
  el_glare_vstate :: icall_vstate
  el_conf :: econn_conf
  el_econn :: "econn option"
  el_conv_type :: icall_conv_type
  el_flow :: "nat option"
  el_oldflow :: "nat option"
  el_media_start_tmr :: "u64 option"
  el_connection_tmr :: "u64 option"
  el_props_local :: econn_props
  el_props_remote :: "econn_props option"
  el_propsynch :: bool
  el_convid :: string
  el_userid_self :: string
  el_clientid_self :: string
  el_clientid_real :: "string option"
  el_userid_peer :: "string option"
  el_clientid_peer :: "string option"
  el_sessid :: "string option"
  el_max_retries :: u32
  el_num_retries :: u32
  el_async :: async_sdp
  el_offer :: "string option"
  el_econn_pending :: bool
  el_answered :: bool
  el_established :: bool
  el_update :: bool
  el_update_glare :: bool
  el_delayed_restart :: bool
  el_call_setup_time :: u32
  el_call_estab_time :: u32
  el_audio_setup_time :: u32
  el_ts_started :: u64
  el_ts_answered :: u64
  el_conf_part :: "nat option"
  el_ts_start :: u64
  el_devpair :: bool
  el_audio_cbr :: bool
  el_recv_state :: icall_vstate
  el_audio_estab :: bool
  el_cbr_state :: bool
  el_remote_muted :: bool
  el_level_tmr :: "u64 option"
  el_quality_tmr :: "u64 option"
  el_quality_interval :: u64
  el_turnv :: "zapi_ice_server list"
  el_turn_added :: bool
  el_confmsgh :: bool
  el_media_laddr :: "sa option"
  el_keystore :: bool
  el_should_reject :: bool
  el_pingh :: bool
  el_metrics :: icall_metrics
  el_video_local :: u32
  el_video_remote :: u32
  el_inc_reconnects :: bool
  el_dce_pendingl :: "string list"
  el_flows :: nat
  el_trace :: "el_act list"
  el_ub :: bool

text \<open>
  What the flow, the application and the system answer during one operation. What \<^verbatim>\<open>dce_send\<close> returns may depend on
  what happened before, because one operation may send more than once.
\<close>

record fl_env =
  fe_re :: re_env
  fe_now :: u64
  fe_muted :: bool
  fe_privacy :: bool
  fe_rnd :: string
  fe_flow_alloc :: err
  fe_gathered :: bool
  fe_offer :: "err \<times> string"
  fe_answer :: "err \<times> string"
  fe_handle_offer :: "string \<Rightarrow> err"
  fe_handle_answer :: "string option \<Rightarrow> err"
  fe_dce_send :: "el_act list \<Rightarrow> string \<Rightarrow> err"
  fe_send :: "econn_message \<Rightarrow> err"
  fe_audio_cbr :: bool
  fe_has_video :: bool
  fe_set_video_state :: err
  fe_stats :: "err \<times> stats_report"
  fe_levels :: "err \<times> audio_level list"
  fe_ssrc :: err
  fe_decoders :: err
  fe_propsync :: err

section \<open>Calls of flows and of the application\<close>

definition el_act :: "el_act \<Rightarrow> ecall \<Rightarrow> ecall" where
  "el_act a e = e\<lparr>el_trace := el_trace e @ [a]\<rparr>"

definition el_fail :: "ecall \<Rightarrow> ecall" where
  "el_fail e = e\<lparr>el_ub := True\<rparr>"

text \<open>\<^verbatim>\<open>IFLOW_CALL\<close> on a flow, and \<^verbatim>\<open>IFLOW_CALLE\<close> on the current flow.\<close>

definition IFLOW_CALL :: "nat option \<Rightarrow> iflow_call \<Rightarrow> ecall \<Rightarrow> ecall" where
  "IFLOW_CALL flow c e = (case flow of Some f \<Rightarrow> el_act (Flow f c) e | None \<Rightarrow> e)"

definition on_flow :: "iflow_call \<Rightarrow> ecall \<Rightarrow> ecall" where
  "on_flow c e = IFLOW_CALL (el_flow e) c e"

definition IFLOW_CALLE :: "iflow_call \<Rightarrow> err \<Rightarrow> ecall \<Rightarrow> err \<times> ecall" where
  "IFLOW_CALLE c res e = (if el_flow e = None then OK else res, on_flow c e)"

definition IFLOW_ASK :: "iflow_call \<Rightarrow> bool \<Rightarrow> ecall \<Rightarrow> bool \<times> ecall" where
  "IFLOW_ASK c res e = (el_flow e \<noteq> None \<and> res, on_flow c e)"

definition ICALL_CALL_CB :: "icall_cb \<Rightarrow> el_act \<Rightarrow> ecall \<Rightarrow> ecall" where
  "ICALL_CALL_CB h a e = (if h \<in> el_cbs e then el_act a e else e)"

definition start_connection_tmr :: "ecall \<Rightarrow> ecall" where
  "start_connection_tmr e = (if el_established e then e else e\<lparr>el_connection_tmr := Some TIMEOUT_CONNECTION\<rparr>)"

definition set_offer_sdp :: "string option \<Rightarrow> ecall \<Rightarrow> ecall" where
  "set_offer_sdp sdp e = e\<lparr>el_offer := sdp\<rparr>"

text \<open>\<^verbatim>\<open>strstr\<close> finds the string.\<close>

fun strstr :: "string \<Rightarrow> string \<Rightarrow> bool" where
  "strstr [] pat = (pat = [])"
| "strstr (c # s) pat = (take (length pat) (c # s) = pat \<or> strstr s pat)"

section \<open>The end of a call\<close>

definition close_metrics_of :: "fl_env \<Rightarrow> ecall \<Rightarrow> icall_metrics" where
  "close_metrics_of env e =
     (let d = (fe_now env - el_ts_answered e) div 1000
      in (el_metrics e)\<lparr>im_duration_call := d, im_duration_active := d, im_participants_max := 2,
            im_participants_audio_max := 2, im_participants_video_max := el_video_local e + el_video_remote e\<rparr>)"

definition close_flows :: "ecall \<Rightarrow> ecall" where
  "close_flows e =
     (let flow = el_flow e;
          e = IFLOW_CALL flow Fl_close (e\<lparr>el_flow := None, el_conf_part := None\<rparr>);
          flow = el_oldflow e
      in IFLOW_CALL flow Fl_close (e\<lparr>el_oldflow := None\<rparr>))"

definition ecall_close :: "fl_env \<Rightarrow> err \<Rightarrow> u32 \<Rightarrow> ecall \<Rightarrow> ecall" where
  "ecall_close env err msg_time e =
     (let e = e\<lparr>el_cbs := el_cbs e - {CB_quality}, el_quality_tmr := None, el_media_start_tmr := None,
                el_connection_tmr := None\<rparr>;
          closeh = CB_close \<in> el_cbs e;
          e = close_flows e;
          e = (if el_recv_state e \<noteq> ICALL_VIDEO_STATE_STOPPED
               then (ICALL_CALL_CB CB_vstate_changed
                       (App_vstate_changed (el_userid_peer e) (el_clientid_peer e) ICALL_VIDEO_STATE_STOPPED) e)
                    \<lparr>el_recv_state := ICALL_VIDEO_STATE_STOPPED\<rparr>
               else e)
      in if \<not> closeh then e
         else let e = (if el_ts_answered e \<noteq> 0 then e\<lparr>el_metrics := close_metrics_of env e\<rparr> else e);
                  metrics = (if el_ts_answered e \<noteq> 0 then Some (el_metrics e) else None)
              in el_act (App_close err metrics msg_time (el_userid_peer e) (el_clientid_peer e))
                   (e\<lparr>el_cbs := el_cbs e - {CB_close}\<rparr>))"

text \<open>The destructor also stops the timer of the audio levels and closes the flows.\<close>

definition ecall_destructor :: "ecall \<Rightarrow> ecall" where
  "ecall_destructor e =
     (close_flows (e\<lparr>el_media_start_tmr := None, el_connection_tmr := None, el_quality_tmr := None,
                     el_level_tmr := None\<rparr>))\<lparr>el_econn := None, el_dce_pendingl := []\<rparr>"

section \<open>Messages sent\<close>

definition ecall_dce_sendmsg :: "fl_env \<Rightarrow> econn_message \<Rightarrow> ecall \<Rightarrow> err \<times> ecall" where
  "ecall_dce_sendmsg env msg e =
     (case econn_message_encode (fe_re env) msg of
        None \<Rightarrow> (OK, el_fail e)
      | Some (OK, Some str) \<Rightarrow> IFLOW_CALLE (Fl_dce_send str) (fe_dce_send env (el_trace e) str) e
      | Some (er, _) \<Rightarrow> (er, e))"

text \<open>The transport of the connection: the ids of both ends are filled in, and the message goes over the data channel or to the backend.\<close>

definition stamp_ids :: "re_env \<Rightarrow> ecall \<Rightarrow> econn_message \<Rightarrow> econn_message" where
  "stamp_ids re e msg =
     msg\<lparr>em_src_userid := re_ncpy re (em_src_userid msg) (Some (el_userid_self e)) ECONN_ID_LEN,
         em_src_clientid := re_ncpy re (em_src_clientid msg) (Some (el_clientid_self e)) ECONN_ID_LEN,
         em_dest_userid := (if el_userid_peer e = None then em_dest_userid msg
                            else re_ncpy re (em_dest_userid msg) (el_userid_peer e) ECONN_ID_LEN),
         em_dest_clientid := (if el_clientid_peer e = None then em_dest_clientid msg
                              else re_ncpy re (em_dest_clientid msg) (el_clientid_peer e) ECONN_ID_LEN)\<rparr>"

definition send_handler :: "fl_env \<Rightarrow> econn_message \<Rightarrow> ecall \<Rightarrow> err \<times> ecall" where
  "send_handler env msg e =
     (let msg = stamp_ids (fe_re env) e msg
      in if em_msg_type msg \<in> {Some ECONN_PROPSYNC, Some ECONN_HANGUP, Some ECONN_PING}
         then (OK, snd (ecall_dce_sendmsg env msg e))
         else if em_msg_type msg \<in> {Some ECONN_SETUP, Some ECONN_UPDATE, Some ECONN_CANCEL, Some ECONN_ALERT}
         then (if CB_send \<in> el_cbs e then fe_send env msg else OK, ICALL_CALL_CB CB_send (App_send msg None False) e)
         else (EPROTO, e))"

section \<open>Operations of the connection\<close>

text \<open>
  What a connection did in an operation is the new part of its trace. A message that it sent goes through
  \<^const>\<open>send_handler\<close>, whose result is the one the connection has got.
\<close>

definition conn_env :: "fl_env \<Rightarrow> ecall \<Rightarrow> ec_env" where
  "conn_env env e = \<lparr>ee_re = fe_re env, ee_send = (\<lambda>msg. fst (send_handler env msg e))\<rparr>"

definition new_acts :: "econn \<Rightarrow> econn \<Rightarrow> econn_act list" where
  "new_acts conn conn' = drop (length (ec_trace conn)) (ec_trace conn')"

fun conn_sent :: "fl_env \<Rightarrow> econn_act \<Rightarrow> ecall \<Rightarrow> ecall" where
  "conn_sent env (Sent msg _) e = snd (send_handler env msg e)"
| "conn_sent env _ e = e"

definition conn_op :: "fl_env \<Rightarrow> (ec_env \<Rightarrow> econn \<Rightarrow> err \<times> econn) \<Rightarrow> ecall \<Rightarrow> err \<times> ecall" where
  "conn_op env f e =
     (case el_econn e of
        None \<Rightarrow> (EINVAL, e)
      | Some conn \<Rightarrow>
          (case f (conn_env env e) conn of
             (er, conn') \<Rightarrow> (er, fold (conn_sent env) (new_acts conn conn') (e\<lparr>el_econn := Some conn'\<rparr>))))"

definition conn_end :: "fl_env \<Rightarrow> ecall \<Rightarrow> ecall" where
  "conn_end env e = snd (conn_op env (\<lambda>ce conn. (OK, econn_end ce conn)) e)"

definition conn_set_error :: "err \<Rightarrow> ecall \<Rightarrow> ecall" where
  "conn_set_error er e = e\<lparr>el_econn := map_option (\<lambda>conn. econn_set_error conn er) (el_econn e)\<rparr>"

definition state_of :: "ecall \<Rightarrow> econn_state" where
  "state_of e = econn_current_state (el_econn e)"

definition send_propsync :: "fl_env \<Rightarrow> bool \<Rightarrow> ecall \<Rightarrow> err \<times> ecall" where
  "send_propsync env resp e =
     (if el_devpair e \<or> \<not> econn_can_send_propsync (el_econn e) then (OK, e)
      else conn_op env (\<lambda>ce conn. econn_send_propsync ce conn resp (Some (el_props_local e))) e)"

section \<open>Flows, offers and answers\<close>

definition gather_all :: "bool \<Rightarrow> ecall \<Rightarrow> ecall" where
  "gather_all offer e = on_flow (Fl_gather_all_turn offer) e"

definition flow_setup :: "fl_env \<Rightarrow> async_sdp \<Rightarrow> bool \<Rightarrow> ecall \<Rightarrow> ecall" where
  "flow_setup env role audio_cbr e =
     (let e = on_flow (Fl_set_audio_cbr audio_cbr) (e\<lparr>el_audio_cbr := audio_cbr\<rparr>);
          e = (if re_isset (fe_re env) (el_userid_peer e) \<or> re_isset (fe_re env) (el_clientid_peer e)
               then on_flow (Fl_set_remote_userclientid (el_userid_peer e) (el_clientid_peer e)) e else e);
          e = on_flow (Fl_set_video_state (el_vstate e)) e;
          e = fold (\<lambda>t. on_flow (Fl_add_turnserver t)) (el_turnv e) e;
          e = (if el_keystore e then on_flow Fl_set_keystore e else e);
          e = (if fe_privacy env then on_flow (Fl_enable_privacy True) e else e);
          e = e\<lparr>el_turn_added := True\<rparr>
      in if role = ASYNC_OFFER then gather_all True e else e)"

text \<open>The type of the call goes to \<^verbatim>\<open>iflow_alloc\<close> only.\<close>

definition alloc_flow :: "fl_env \<Rightarrow> async_sdp \<Rightarrow> icall_call_type \<Rightarrow> bool \<Rightarrow> ecall \<Rightarrow> err \<times> ecall" where
  "alloc_flow env role call_type audio_cbr e =
     (let e = IFLOW_CALL (el_oldflow e) Fl_close e;
          e = e\<lparr>el_oldflow := el_flow e, el_flow := None, el_established := False\<rparr>
      in if fe_flow_alloc env \<noteq> OK then (fe_flow_alloc env, e)
         else let f = el_flows e;
                  e = el_act (Flow f Fl_alloc) (e\<lparr>el_flow := Some f, el_flows := f + 1\<rparr>)
              in (OK, flow_setup env role audio_cbr e))"

definition generate_answer :: "fl_env \<Rightarrow> bool \<Rightarrow> ecall \<Rightarrow> err \<times> ecall" where
  "generate_answer env pend e =
     (if \<not> pend then (EPROTO, e)
      else let (er, e) = IFLOW_CALLE Fl_generate_answer (fst (fe_answer env)) e;
               sdp = (if el_flow e = None then [] else snd (fe_answer env))
           in if er \<noteq> OK then (er, e)
              else let (er, e) =
                         (if el_update e
                          then conn_op env (\<lambda>ce conn. econn_update_resp ce conn (Some sdp) (Some (el_props_local e)))
                                 (e\<lparr>el_num_retries := el_num_retries e + 1\<rparr>)
                          else conn_op env (\<lambda>ce conn. econn_answer ce conn (Some sdp) (Some (el_props_local e))) e)
                   in if er \<noteq> OK then (er, e) else (OK, start_connection_tmr e))"

definition handle_pending_offer :: "fl_env \<Rightarrow> ecall \<Rightarrow> err \<times> ecall" where
  "handle_pending_offer env e =
     (case el_offer e of
        None \<Rightarrow> (OK, e)
      | Some offer \<Rightarrow>
          (case IFLOW_CALLE (Fl_handle_offer offer) (fe_handle_offer env offer) e of
             (er, e) \<Rightarrow> if er \<noteq> OK then (EBADMSG, e) else (OK, e\<lparr>el_offer := None\<rparr>)))"

definition generate_or_gather_answer :: "fl_env \<Rightarrow> bool \<Rightarrow> ecall \<Rightarrow> err \<times> ecall" where
  "generate_or_gather_answer env pend e =
     (let (er, e) = handle_pending_offer env e
      in if er \<noteq> OK then (er, e)
         else let (gathered, e) = IFLOW_ASK Fl_is_gathered (fe_gathered env) e
              in if gathered then generate_answer env pend e
                 else if el_async e = ASYNC_NONE
                 then (OK, gather_all False (e\<lparr>el_async := ASYNC_ANSWER, el_econn_pending := pend\<rparr>))
                 else (OK, e))"

definition ecall_props_get_local :: "fl_env \<Rightarrow> string \<Rightarrow> ecall \<Rightarrow> string option option" where
  "ecall_props_get_local env key e =
     (if el_econn e = None then Some None else econn_props_get (fe_re env) (Some (el_props_local e)) (Some key))"

definition ecall_props_get_remote :: "fl_env \<Rightarrow> string \<Rightarrow> ecall \<Rightarrow> string option option" where
  "ecall_props_get_remote env key e =
     (if el_econn e = None then Some None else econn_props_get (fe_re env) (el_props_remote e) (Some key))"

definition props_update :: "fl_env \<Rightarrow> string \<Rightarrow> string \<Rightarrow> ecall \<Rightarrow> err \<times> ecall" where
  "props_update env key val e =
     (case econn_props_update (fe_re env) (el_props_local e) key val of
        None \<Rightarrow> (OK, el_fail e)
      | Some (er, props) \<Rightarrow> (er, e\<lparr>el_props_local := props\<rparr>))"

definition ecall_props_set_local :: "fl_env \<Rightarrow> string option \<Rightarrow> string option \<Rightarrow> ecall \<Rightarrow> err \<times> ecall" where
  "ecall_props_set_local env key val e =
     (case (key, val) of
        (Some k, Some v) \<Rightarrow>
          if el_econn e = None then (EINVAL, e)
          else (case econn_props_get (fe_re env) (Some (el_props_local e)) (Some k) of
                  None \<Rightarrow> (OK, el_fail e)
                | Some (Some _) \<Rightarrow> props_update env k v e
                | Some None \<Rightarrow> (case econn_props_add (fe_re env) (el_props_local e) (Some k) (Some v) of
                                 (er, props) \<Rightarrow> (er, e\<lparr>el_props_local := props\<rparr>)))
      | _ \<Rightarrow> (EINVAL, e))"

definition muted_str :: "fl_env \<Rightarrow> string" where
  "muted_str env = (if fe_muted env then ''true'' else ''false'')"

definition update_mute_props :: "fl_env \<Rightarrow> ecall \<Rightarrow> ecall" where
  "update_mute_props env e = snd (props_update env ''muted'' (muted_str env) e)"

definition ecall_answer :: "fl_env \<Rightarrow> icall_call_type \<Rightarrow> bool \<Rightarrow> ecall \<Rightarrow> err \<times> ecall" where
  "ecall_answer env call_type audio_cbr e =
     (if el_econn e = None then (ENOENT, e)
      else if state_of e \<noteq> ECONN_PENDING_INCOMING then (EPROTO, e)
      else if el_flow e = None then (EPROTO, e)
      else let e = on_flow (Fl_set_call_type call_type) (e\<lparr>el_call_type := call_type\<rparr>);
               e = on_flow (Fl_set_audio_cbr audio_cbr) (e\<lparr>el_audio_cbr := audio_cbr\<rparr>);
               e = update_mute_props env e;
               (er, e) = generate_or_gather_answer env True e
           in if er \<noteq> OK then (er, e)
              else (OK, e\<lparr>el_answered := True, el_audio_setup_time := -1, el_call_estab_time := -1,
                          el_ts_answered := fe_now env\<rparr>))"

definition offer_and_connect :: "fl_env \<Rightarrow> ecall \<Rightarrow> err \<times> ecall" where
  "offer_and_connect env e =
     (let (er, e) = IFLOW_CALLE Fl_generate_offer (fst (fe_offer env)) e;
          sdp = (if el_flow e = None then [] else snd (fe_offer env))
      in if er \<noteq> OK then (EPROTO, e)
         else if el_update e
         then conn_op env (\<lambda>ce conn. econn_update_req ce conn (Some sdp) (Some (el_props_local e))) e
         else conn_op env (\<lambda>ce conn. econn_start ce conn (Some sdp) (Some (el_props_local e))) e)"

definition generate_offer :: "fl_env \<Rightarrow> ecall \<Rightarrow> err \<times> ecall" where
  "generate_offer env e =
     (let (gathered, e) = IFLOW_ASK Fl_is_gathered (fe_gathered env) e
      in if gathered then offer_and_connect env e
         else if el_async e \<noteq> ASYNC_NONE then (EPROTO, e)
         else (OK, e\<lparr>el_async := ASYNC_OFFER\<rparr>))"

section \<open>Callbacks of the connection\<close>

definition conn_peer :: "fl_env \<Rightarrow> string \<Rightarrow> ecall \<Rightarrow> ecall" where
  "conn_peer env userid_sender e =
     (if re_isset (fe_re env) (el_userid_peer e) then e else e\<lparr>el_userid_peer := Some userid_sender\<rparr>)"

definition remote_video :: "fl_env \<Rightarrow> ecall \<Rightarrow> bool option" where
  "remote_video env e = map_option (\<lambda>vr. vr = Some ''true'') (ecall_props_get_remote env ''videosend'' e)"

definition econn_conn_handler ::
  "fl_env \<Rightarrow> u32 \<Rightarrow> string \<Rightarrow> string \<Rightarrow> string option \<Rightarrow> econn_props option \<Rightarrow> bool \<Rightarrow> ecall \<Rightarrow> ecall" where
  "econn_conn_handler env msg_time userid_sender clientid_sender sdp props reset e =
     (let e = conn_peer env userid_sender e;
          (er, e) = (if reset \<or> el_flow e = None then alloc_flow env ASYNC_ANSWER (el_call_type e) False e else (OK, e))
      in if er \<noteq> OK then ecall_close env er msg_time e
         else let e = on_flow (Fl_set_remote_userclientid (Some userid_sender) (Some clientid_sender)) e;
                  e = set_offer_sdp sdp e;
                  e = (if reset then e\<lparr>el_props_remote := None\<rparr> else e)
              in if el_props_remote e \<noteq> None then ecall_close env EPROTO msg_time e
                 else let e = e\<lparr>el_props_remote := props\<rparr>
                      in case remote_video env e of
                           None \<Rightarrow> el_fail e
                         | Some video_active \<Rightarrow>
                             if reset
                             then (case ecall_answer env (el_call_type e) (el_audio_cbr e)
                                          (e\<lparr>el_async := ASYNC_NONE, el_update := False\<rparr>) of
                                     (er, e) \<Rightarrow> if er \<noteq> OK then ecall_close env er msg_time e else e)
                             else (ICALL_CALL_CB CB_start
                                     (App_start msg_time userid_sender clientid_sender video_active) e)
                                  \<lparr>el_ts_started := fe_now env, el_call_setup_time := -1\<rparr>)"

definition propsync_handler :: "fl_env \<Rightarrow> ecall \<Rightarrow> ecall" where
  "propsync_handler env e =
     (case propsync_get_states (fe_re env) (el_props_remote e) of
        None \<Rightarrow> el_fail e
      | Some (vstate, muted) \<Rightarrow>
          (let e = (case vstate of
                      Some v \<Rightarrow>
                        if v \<noteq> el_recv_state e
                        then ICALL_CALL_CB CB_vstate_changed (App_vstate_changed (el_userid_peer e) (el_clientid_peer e) v)
                               (e\<lparr>el_recv_state := v,
                                  el_video_remote := (if v = ICALL_VIDEO_STATE_STARTED then 1 else el_video_remote e)\<rparr>)
                        else e
                    | None \<Rightarrow> e)
           in case muted of
                Some m \<Rightarrow>
                  if m \<noteq> el_remote_muted e
                  then ICALL_CALL_CB CB_muted_changed (App_muted_changed (el_userid_peer e) (el_clientid_peer e) m)
                         (e\<lparr>el_remote_muted := m\<rparr>)
                  else e
              | None \<Rightarrow> e))"

definition econn_update_req_handler ::
  "fl_env \<Rightarrow> string \<Rightarrow> string option \<Rightarrow> econn_props option \<Rightarrow> ecall \<Rightarrow> ecall" where
  "econn_update_req_handler env userid_sender sdp props e =
     (case sdp of
        None \<Rightarrow> el_fail e
      | Some s \<Rightarrow>
          (let e = e\<lparr>el_update := True\<rparr>;
               (er, e) = (if el_flow e \<noteq> None \<and> strstr s ''x-streamchange'' then (OK, on_flow Fl_stop_media e)
                          else case alloc_flow env ASYNC_ANSWER (el_call_type e) (el_audio_cbr e) e of
                                 (er, e) \<Rightarrow>
                                   if er \<noteq> OK then (er, e)
                                   else (OK, on_flow (Fl_set_remote_userclientid (Some userid_sender)
                                                        (econn_clientid_remote (el_econn e))) e))
           in if er \<noteq> OK then ecall_close env er ECONN_MESSAGE_TIME_UNKNOWN e
              else let e = propsync_handler env ((el_act (Set_muted (fe_muted env)) e)\<lparr>el_props_remote := props\<rparr>);
                       (er, e) = generate_or_gather_answer env True (set_offer_sdp sdp (e\<lparr>el_async := ASYNC_NONE\<rparr>))
                   in if er \<noteq> OK then ecall_close env er ECONN_MESSAGE_TIME_UNKNOWN e else e))"

definition answer_reset :: "fl_env \<Rightarrow> string option \<Rightarrow> ecall \<Rightarrow> ecall" where
  "answer_reset env sdp e =
     (let (er, e) = alloc_flow env ASYNC_ANSWER (el_call_type e) False e;
          e = el_act (Set_muted (fe_muted env)) e
      in if er \<noteq> OK then ecall_close env er ECONN_MESSAGE_TIME_UNKNOWN e
         else let e = on_flow (Fl_set_remote_userclientid (econn_userid_remote (el_econn e))
                                 (econn_clientid_remote (el_econn e))) e;
                  (er, e) = generate_or_gather_answer env True (set_offer_sdp sdp (e\<lparr>el_async := ASYNC_NONE\<rparr>))
              in if er \<noteq> OK then ecall_close env er ECONN_MESSAGE_TIME_UNKNOWN e else e\<lparr>el_answered := True\<rparr>)"

text \<open>The result of \<^verbatim>\<open>handle_answer\<close> is not used.\<close>

definition econn_answer_handler :: "fl_env \<Rightarrow> bool \<Rightarrow> string option \<Rightarrow> econn_props option \<Rightarrow> ecall \<Rightarrow> ecall" where
  "econn_answer_handler env reset sdp props e =
     (let e = e\<lparr>el_audio_setup_time := -1, el_call_estab_time := -1, el_ts_answered := fe_now env\<rparr>
      in if reset then answer_reset env sdp e
         else if el_answered e then e
         else let e = on_flow (Fl_set_remote_userclientid (econn_userid_remote (el_econn e))
                                 (econn_clientid_remote (el_econn e))) e;
                  e = on_flow (Fl_handle_answer sdp) e;
                  e = ICALL_CALL_CB CB_answer App_answer (e\<lparr>el_props_remote := props, el_answered := True\<rparr>)
              in start_connection_tmr e)"

definition econn_update_resp_handler :: "fl_env \<Rightarrow> string option \<Rightarrow> econn_props option \<Rightarrow> ecall \<Rightarrow> ecall" where
  "econn_update_resp_handler env sdp props e =
     (if \<not> el_update e then e
      else case IFLOW_CALLE (Fl_handle_answer sdp) (fe_handle_answer env sdp) e of
             (er, e) \<Rightarrow> if er \<noteq> OK then ecall_close env er ECONN_MESSAGE_TIME_UNKNOWN e
                        else start_connection_tmr (e\<lparr>el_props_remote := props\<rparr>))"

definition econn_confmsg_handler :: "econn_message \<Rightarrow> ecall \<Rightarrow> ecall" where
  "econn_confmsg_handler msg e = (if el_confmsgh e then el_act (App_confmsg msg) e else e)"

definition econn_ping_handler :: "bool \<Rightarrow> ecall \<Rightarrow> ecall" where
  "econn_ping_handler response e = (if el_pingh e then el_act (App_ping response) e else e)"

definition ecall_media_stop :: "ecall \<Rightarrow> ecall" where
  "ecall_media_stop e = on_flow Fl_stop_media e"

definition econn_close_handler :: "fl_env \<Rightarrow> err \<Rightarrow> u32 \<Rightarrow> ecall \<Rightarrow> ecall" where
  "econn_close_handler env er msg_time e = ecall_close env er msg_time (ecall_media_stop e)"

fun conn_callback :: "fl_env \<Rightarrow> econn_act \<Rightarrow> ecall \<Rightarrow> ecall" where
  "conn_callback env (Sent msg r) e = snd (send_handler env msg e)"
| "conn_callback env (Connh t u c age sdp props reset) e = econn_conn_handler env t u c sdp props reset e"
| "conn_callback env (Answerh reset sdp props) e = econn_answer_handler env reset sdp props e"
| "conn_callback env (Update_reqh u c sdp props reset) e = econn_update_req_handler env u sdp props e"
| "conn_callback env (Update_resph sdp props) e = econn_update_resp_handler env sdp props e"
| "conn_callback env (Alerth level descr) e = e"
| "conn_callback env (Confmsgh msg) e = econn_confmsg_handler msg e"
| "conn_callback env (Pingh resp) e = econn_ping_handler resp e"
| "conn_callback env (Closeh er t) e = econn_close_handler env er t e"

text \<open>An operation of the connection that may call back: a message received, its end, and its timer.\<close>

definition conn_run :: "fl_env \<Rightarrow> (ec_env \<Rightarrow> econn \<Rightarrow> econn) \<Rightarrow> ecall \<Rightarrow> ecall" where
  "conn_run env f e =
     (case el_econn e of
        None \<Rightarrow> e
      | Some conn \<Rightarrow>
          (let conn' = f (conn_env env e) conn
           in fold (conn_callback env) (new_acts conn conn') (e\<lparr>el_econn := Some conn'\<rparr>)))"

section \<open>Operations of the application\<close>

definition ecall_default_conf :: econn_conf where
  "ecall_default_conf = \<lparr>timeout_setup = 60000, timeout_term = 5000\<rparr>"

definition ecall_init ::
  "fl_env \<Rightarrow> icall_conv_type \<Rightarrow> icall_call_type \<Rightarrow> econn_conf option \<Rightarrow> econn_props \<Rightarrow> string \<Rightarrow> string \<Rightarrow> string \<Rightarrow> ecall" where
  "ecall_init env conv_type call_type conf props convid userid clientid =
     \<lparr>el_cbs = {}, el_call_type = call_type,
      el_vstate = (if call_type = ICALL_CALL_TYPE_VIDEO then ICALL_VIDEO_STATE_STARTED else ICALL_VIDEO_STATE_STOPPED),
      el_glare_vstate = ICALL_VIDEO_STATE_STOPPED,
      el_conf = (case conf of Some c \<Rightarrow> c | None \<Rightarrow> ecall_default_conf), el_econn = None, el_conv_type = conv_type,
      el_flow = None, el_oldflow = None, el_media_start_tmr = None, el_connection_tmr = None,
      el_props_local = props, el_props_remote = None, el_propsynch = False, el_convid = convid, el_userid_self = userid,
      el_clientid_self = clientid, el_clientid_real = None, el_userid_peer = None, el_clientid_peer = None,
      el_sessid = None,
      el_max_retries = (if conv_type = ICALL_CONV_TYPE_CONFERENCE \<or> conv_type = ICALL_CONV_TYPE_GROUP then 2 else 0),
      el_num_retries = 0, el_async = ASYNC_NONE, el_offer = None, el_econn_pending = False, el_answered = False,
      el_established = False, el_update = False, el_update_glare = False, el_delayed_restart = False,
      el_call_setup_time = 0, el_call_estab_time = 0, el_audio_setup_time = 0, el_ts_started = 0, el_ts_answered = 0,
      el_conf_part = None, el_ts_start = fe_now env, el_devpair = False, el_audio_cbr = False,
      el_recv_state = ICALL_VIDEO_STATE_STOPPED, el_audio_estab = False, el_cbr_state = False, el_remote_muted = False,
      el_level_tmr = None, el_quality_tmr = None, el_quality_interval = 0, el_turnv = [], el_turn_added = False,
      el_confmsgh = False, el_media_laddr = None, el_keystore = False, el_should_reject = False, el_pingh = False,
      el_metrics = metrics_zero ICALL_CONV_TYPE_ONEONONE, el_video_local = 0, el_video_remote = 0,
      el_inc_reconnects = False, el_dce_pendingl = [], el_flows = 0, el_trace = [], el_ub = False\<rparr>"

fun add_props :: "re_env \<Rightarrow> (string \<times> string) list \<Rightarrow> econn_props \<Rightarrow> err \<times> econn_props" where
  "add_props re [] props = (OK, props)"
| "add_props re ((k, v) # kvs) props =
     (case econn_props_add re props (Some k) (Some v) of
        (er, props) \<Rightarrow> if er \<noteq> OK then (er, props) else add_props re kvs props)"

definition ecall_alloc ::
  "fl_env \<Rightarrow> icall_conv_type \<Rightarrow> icall_call_type \<Rightarrow> econn_conf option \<Rightarrow> bool \<Rightarrow> string option \<Rightarrow> string option \<Rightarrow> string option
   \<Rightarrow> err \<times> ecall option" where
  "ecall_alloc env conv_type call_type conf msys convid userid_self clientid =
     (if \<not> msys \<or> \<not> re_isset (fe_re env) convid then (EINVAL, None)
      else let (er, props) = add_props (fe_re env)
                 [(''videosend'', if call_type = ICALL_CALL_TYPE_VIDEO then ''true'' else ''false''),
                  (''screensend'', ''false''), (''audiocbr'', ''false''), (''muted'', muted_str env)] []
           in if er \<noteq> OK then (er, None)
              else case (convid, userid_self, clientid) of
                     (Some cv, Some u, Some c) \<Rightarrow> (OK, Some (ecall_init env conv_type call_type conf props cv u c))
                   | _ \<Rightarrow> (EINVAL, None))"

definition ecall_add_turnserver :: "zapi_ice_server option \<Rightarrow> ecall \<Rightarrow> err \<times> ecall" where
  "ecall_add_turnserver srv e =
     (case srv of
        None \<Rightarrow> (EINVAL, e)
      | Some s \<Rightarrow>
          if MAX_TURN_SERVERS \<le> length (el_turnv e) then (OK, e)
          else if take 6 (ice_url s) = ''turns:'' then (OK, e)
          else (OK, e\<lparr>el_turnv := el_turnv e @ [s], el_turn_added := True\<rparr>))"

definition ecall_create_econn :: "fl_env \<Rightarrow> ecall \<Rightarrow> err \<times> ecall" where
  "ecall_create_econn env e =
     (if el_econn e \<noteq> None then (OK, el_fail e)
      else case econn_alloc (fe_re env) True OK (fe_rnd env) (Some (el_conf e)) (Some (el_userid_self e))
                  (Some (el_clientid_self e)) (el_sessid e) True
                  \<lparr>h_connh = True, h_answerh = True, h_update_reqh = True, h_update_resph = True, h_alerth = True,
                   h_confmsgh = True, h_pingh = True\<rparr> True of
             None \<Rightarrow> (OK, el_fail e)
           | Some (er, conn) \<Rightarrow> if er \<noteq> OK then (er, e) else (OK, e\<lparr>el_econn := conn\<rparr>))"

definition ecall_start :: "fl_env \<Rightarrow> icall_call_type \<Rightarrow> bool \<Rightarrow> ecall \<Rightarrow> err \<times> ecall" where
  "ecall_start env call_type audio_cbr e =
     (if el_econn e \<noteq> None
      then (if state_of e = ECONN_PENDING_INCOMING then ecall_answer env call_type audio_cbr e else (EALREADY, e))
      else let (er, e) = ecall_create_econn env (e\<lparr>el_call_type := call_type\<rparr>)
           in if er \<noteq> OK then (er, e)
              else let e = e\<lparr>el_econn := map_option (econn_set_state ECONN_PENDING_OUTGOING) (el_econn e)\<rparr>;
                       (er, e) = alloc_flow env ASYNC_OFFER (el_call_type e) audio_cbr e
                   in if er \<noteq> OK then (er, e)
                      else let e = update_mute_props env (on_flow (Fl_set_audio_cbr audio_cbr) e);
                               e = (if call_type = ICALL_CALL_TYPE_VIDEO \<and> el_vstate e = ICALL_VIDEO_STATE_STARTED
                                    then snd (props_update env ''videosend'' ''true'' e) else e);
                               (er, e) = generate_offer env (e\<lparr>el_async := ASYNC_NONE\<rparr>)
                           in if er \<noteq> OK then (er, e)
                              else (OK, e\<lparr>el_ts_started := fe_now env, el_call_setup_time := -1,
                                          el_metrics := (el_metrics e)\<lparr>im_initiator := True\<rparr>\<rparr>))"

definition reconnecting_stats :: stats_report where
  "reconnecting_stats = \<lparr>sr_rtt = 0, sr_lost_rx = ICALL_RECONNECTING, sr_lost_tx = ICALL_RECONNECTING\<rparr>"

definition restart_notify :: "ecall \<Rightarrow> ecall" where
  "restart_notify e =
     (let m = el_metrics e
      in ICALL_CALL_CB CB_quality
           (App_quality (el_userid_peer e) (el_clientid_peer e) reconnecting_stats ICALL_CONV_TYPE_ONEONONE)
           (e\<lparr>el_metrics := m\<lparr>im_reconnects_attempted := im_reconnects_attempted m + 1\<rparr>, el_inc_reconnects := True\<rparr>))"

definition ecall_restart :: "fl_env \<Rightarrow> icall_call_type \<Rightarrow> bool \<Rightarrow> ecall \<Rightarrow> err \<times> ecall" where
  "ecall_restart env call_type notify e =
     (if state_of e \<notin> {ECONN_ANSWERED, ECONN_DATACHAN_ESTABLISHED, ECONN_UPDATE_SENT, ECONN_UPDATE_RECV}
      then (EPROTO, e)
      else if el_conv_type e = ICALL_CONV_TYPE_CONFERENCE
      then (OK, ICALL_CALL_CB CB_close (App_close (if notify then ENOTCONN else EAGAIN) None 0 None None) e)
      else let e = e\<lparr>el_call_type := call_type, el_update := True, el_audio_estab := False, el_conf_part := None\<rparr>;
               (er, e) = alloc_flow env ASYNC_OFFER (el_call_type e) (el_audio_cbr e) e;
               e = el_act (Set_muted (fe_muted env)) e
           in if er \<noteq> OK then (er, e)
              else let e = (if notify then restart_notify e else e);
                       e = on_flow (Fl_set_remote_userclientid (econn_userid_remote (el_econn e))
                                      (econn_clientid_remote (el_econn e))) e;
                       e = on_flow (Fl_set_video_state (el_vstate e)) e
                   in generate_offer env (e\<lparr>el_async := ASYNC_NONE\<rparr>))"

definition ecall_end :: "fl_env \<Rightarrow> ecall \<Rightarrow> ecall" where
  "ecall_end env e = on_flow Fl_stop_media (conn_end env e)"

definition ecall_media_start :: "fl_env \<Rightarrow> ecall \<Rightarrow> err \<times> ecall" where
  "ecall_media_start env e =
     (case ecall_props_get_local env ''videosend'' e of
        None \<Rightarrow> (OK, el_fail e)
      | Some is_video \<Rightarrow>
          (let e = (if is_video = Some ''true'' then on_flow (Fl_set_video_state (el_vstate e)) e else e)
           in (OK, e\<lparr>el_media_start_tmr := None\<rparr>)))"

fun video_strings :: "icall_vstate \<Rightarrow> string \<times> string" where
  "video_strings ICALL_VIDEO_STATE_STARTED = (''true'', ''false'')"
| "video_strings ICALL_VIDEO_STATE_SCREENSHARE = (''false'', ''true'')"
| "video_strings ICALL_VIDEO_STATE_PAUSED = (''paused'', ''false'')"
| "video_strings _ = (''false'', ''false'')"

text \<open>The state of the video is told to the flow, or the call is restarted with video, or the peer is told.\<close>

definition video_sync :: "fl_env \<Rightarrow> ecall \<Rightarrow> err \<times> ecall" where
  "video_sync env e = (if el_update e then (OK, e) else send_propsync env False e)"

definition video_flow :: "fl_env \<Rightarrow> icall_vstate \<Rightarrow> ecall \<Rightarrow> err \<times> ecall" where
  "video_flow env vstate e =
     (let (video, e) = IFLOW_ASK Fl_has_video (fe_has_video env) e
      in if video
         then (case IFLOW_CALLE (Fl_set_video_state vstate) (fe_set_video_state env) e of
                 (er, e) \<Rightarrow> if er \<noteq> OK then (er, e) else video_sync env e)
         else if (vstate = ICALL_VIDEO_STATE_STARTED \<or> vstate = ICALL_VIDEO_STATE_SCREENSHARE) \<and>
                 state_of e \<in> {ECONN_ANSWERED, ECONN_DATACHAN_ESTABLISHED}
         then (OK, snd (ecall_restart env ICALL_CALL_TYPE_VIDEO False e))
         else video_sync env e)"

definition video_glare :: "ecall \<Rightarrow> bool" where
  "video_glare e \<longleftrightarrow>
     el_conv_type e = ICALL_CONV_TYPE_ONEONONE \<and>
     (state_of e \<in> {ECONN_PENDING_OUTGOING, ECONN_PENDING_INCOMING, ECONN_UPDATE_RECV} \<or> el_update e)"

definition ecall_set_video_send_state :: "fl_env \<Rightarrow> icall_vstate \<Rightarrow> ecall \<Rightarrow> err \<times> ecall" where
  "ecall_set_video_send_state env vstate e =
     (if el_vstate e = vstate then (OK, e)
      else if video_glare e then (OK, e\<lparr>el_update_glare := True, el_glare_vstate := vstate\<rparr>)
      else let (v, s) = video_strings vstate;
               e = (if vstate = ICALL_VIDEO_STATE_STARTED then e\<lparr>el_video_local := 1\<rparr> else e);
               (er, e) = props_update env ''videosend'' v e
           in if er \<noteq> OK then (er, e)
              else let (er, e) = props_update env ''screensend'' s e
                   in if er \<noteq> OK then (er, e)
                      else let e = e\<lparr>el_vstate := vstate\<rparr>;
                               e = (if el_conv_type e = ICALL_CONV_TYPE_ONEONONE
                                    then ICALL_CALL_CB CB_vstate_changed
                                           (App_vstate_changed (Some (el_userid_self e)) (Some (el_clientid_self e)) vstate) e
                                    else e)
                           in video_flow env vstate e)"

definition ecall_update_mute_state :: "fl_env \<Rightarrow> ecall \<Rightarrow> err \<times> ecall" where
  "ecall_update_mute_state env e =
     (let (er, e) = props_update env ''muted'' (muted_str env) e
      in if er \<noteq> OK then (er, e) else video_sync env e)"

definition ecall_sync_props :: "fl_env \<Rightarrow> bool \<Rightarrow> ecall \<Rightarrow> err \<times> ecall" where
  "ecall_sync_props env response e = (if el_econn e = None then (EINTR, e) else send_propsync env response e)"

definition ecall_dce_send :: "fl_env \<Rightarrow> string \<Rightarrow> ecall \<Rightarrow> err \<times> ecall" where
  "ecall_dce_send env mb e =
     (let (er, e) = IFLOW_CALLE (Fl_dce_send mb) (fe_dce_send env (el_trace e) mb) e
      in if er = ENOENT then (OK, e\<lparr>el_dce_pendingl := el_dce_pendingl e @ [mb]\<rparr>) else (er, e))"

definition ecall_has_video :: "fl_env \<Rightarrow> ecall \<Rightarrow> bool \<times> ecall" where
  "ecall_has_video env e =
     (if el_econn e = None \<or> el_flow e = None then (False, e) else IFLOW_ASK Fl_has_video (fe_has_video env) e)"

definition ecall_state :: "ecall \<Rightarrow> econn_state" where
  "ecall_state e = (case el_econn e of Some conn \<Rightarrow> econn_current_state (Some conn) | None \<Rightarrow> ECONN_IDLE)"

text \<open>The members: oneself, and the peer if both of its ids are known.\<close>

definition ecall_get_members :: "fl_env \<Rightarrow> ecall \<Rightarrow> wcall_member list" where
  "ecall_get_members env e =
     (let au = (if el_audio_estab e then ICALL_AUDIO_STATE_ESTABLISHED else ICALL_AUDIO_STATE_CONNECTING);
          self = \<lparr>wm_userid = Some (el_userid_self e), wm_clientid = Some (el_clientid_self e), wm_audio_state = au,
                  wm_video_recv = el_vstate e, wm_muted = fe_muted env\<rparr>;
          peer = \<lparr>wm_userid = el_userid_peer e, wm_clientid = el_clientid_peer e, wm_audio_state = au,
                  wm_video_recv = el_recv_state e, wm_muted = el_remote_muted e\<rparr>
      in if el_userid_peer e \<noteq> None \<and> el_clientid_peer e \<noteq> None then [self, peer] else [self])"

text \<open>Rejecting a call: the other clients of the user are told once the application has given the list of clients.\<close>

definition icall_send_reject_msg :: "fl_env \<Rightarrow> (string \<times> string) list \<Rightarrow> ecall \<Rightarrow> err \<times> ecall" where
  "icall_send_reject_msg env clientl e =
     (let re = fe_re env;
          targets = filter (\<lambda>(u, c). re_casecmp re u (el_userid_self e) \<and> \<not> re_casecmp re c (el_clientid_self e)) clientl;
          msg = econn_message_zero\<lparr>em_src_userid := re_ncpy re [] (Some (el_userid_self e)) ECONN_ID_LEN,
                  em_src_clientid := re_ncpy re [] (Some (el_clientid_self e)) ECONN_ID_LEN,
                  em_msg_type := Some ECONN_REJECT, em_resp := False\<rparr>
      in if targets = [] then (OK, e)
         else (if CB_send \<in> el_cbs e then fe_send env msg else OK,
               ICALL_CALL_CB CB_send (App_send msg (Some targets) True) e))"

definition ecall_set_clients :: "fl_env \<Rightarrow> (string \<times> string) list option \<Rightarrow> ecall \<Rightarrow> ecall" where
  "ecall_set_clients env clientl e =
     (case clientl of
        None \<Rightarrow> e
      | Some cl \<Rightarrow> if el_should_reject e then (snd (icall_send_reject_msg env cl e))\<lparr>el_should_reject := False\<rparr> else e)"

definition ecall_reject :: "ecall \<Rightarrow> ecall" where
  "ecall_reject e = ICALL_CALL_CB CB_req_clients App_req_clients (e\<lparr>el_should_reject := True\<rparr>)"

definition ecall_set_quality_interval :: "u64 \<Rightarrow> ecall \<Rightarrow> err \<times> ecall" where
  "ecall_set_quality_interval interval e =
     (OK, e\<lparr>el_quality_interval := interval, el_quality_tmr := (if interval = 0 then None else Some interval)\<rparr>)"

definition ecall_set_keystore :: "bool \<Rightarrow> ecall \<Rightarrow> err \<times> ecall" where
  "ecall_set_keystore ks e = (if \<not> ks then (EINVAL, e) else (OK, on_flow Fl_set_keystore (e\<lparr>el_keystore := True\<rparr>)))"

definition ecall_ping :: "fl_env \<Rightarrow> bool \<Rightarrow> ecall \<Rightarrow> err \<times> ecall" where
  "ecall_ping env response e = conn_op env (\<lambda>ce conn. econn_send_ping ce conn response) e"

definition ecall_update_ssrc :: "fl_env \<Rightarrow> u32 \<Rightarrow> u32 \<Rightarrow> ecall \<Rightarrow> err \<times> ecall" where
  "ecall_update_ssrc env ssrca ssrcv e = IFLOW_CALLE (Fl_update_ssrc ssrca ssrcv) (fe_ssrc env) e"

definition ecall_add_decoders_for_user ::
  "fl_env \<Rightarrow> string option \<Rightarrow> string option \<Rightarrow> string option \<Rightarrow> u32 \<Rightarrow> u32 \<Rightarrow> ecall \<Rightarrow> err \<times> ecall" where
  "ecall_add_decoders_for_user env userid clientid userid_hash ssrca ssrcv e =
     (case (userid, clientid) of
        (Some u, Some c) \<Rightarrow>
          if ssrca = 0 \<and> ssrcv = 0 then (EINVAL, e)
          else IFLOW_CALLE (Fl_add_decoders u c userid_hash ssrca ssrcv) (fe_decoders env) e
      | _ \<Rightarrow> (EINVAL, e))"

definition ecall_remove_decoders_for_user ::
  "fl_env \<Rightarrow> string option \<Rightarrow> string option \<Rightarrow> u32 \<Rightarrow> u32 \<Rightarrow> ecall \<Rightarrow> err \<times> ecall" where
  "ecall_remove_decoders_for_user env userid clientid ssrca ssrcv e =
     (case (userid, clientid) of
        (Some u, Some c) \<Rightarrow>
          if ssrca = 0 \<and> ssrcv = 0 then (EINVAL, e) else IFLOW_CALLE (Fl_remove_decoders u c) (fe_decoders env) e
      | _ \<Rightarrow> (EINVAL, e))"

definition ecall_sync_decoders :: "fl_env \<Rightarrow> ecall \<Rightarrow> err \<times> ecall" where
  "ecall_sync_decoders env e = IFLOW_CALLE Fl_sync_decoders (fe_decoders env) e"

definition ecall_stats_struct :: "ecall \<Rightarrow> err \<times> ecall" where
  "ecall_stats_struct e = (OK, on_flow Fl_get_stats e)"

definition ecall_activate :: "bool \<Rightarrow> err" where
  "ecall_activate active = (if \<not> active then EINVAL else OK)"

text \<open>Without a new id the pointer to the old one stays, which has been released.\<close>

definition ecall_set_sessid :: "string option \<Rightarrow> ecall \<Rightarrow> err \<times> ecall" where
  "ecall_set_sessid sessid e =
     (case sessid of
        None \<Rightarrow> (EINVAL, if el_sessid e \<noteq> None then el_fail e else e)
      | Some s \<Rightarrow> (OK, e\<lparr>el_sessid := Some s\<rparr>))"

definition ecall_set_peer_userid :: "string option \<Rightarrow> ecall \<Rightarrow> ecall" where
  "ecall_set_peer_userid userid e = e\<lparr>el_userid_peer := userid\<rparr>"

definition ecall_set_peer_clientid :: "string option \<Rightarrow> ecall \<Rightarrow> ecall" where
  "ecall_set_peer_clientid clientid e = e\<lparr>el_clientid_peer := clientid\<rparr>"

definition ecall_set_real_clientid :: "string option \<Rightarrow> ecall \<Rightarrow> err \<times> ecall" where
  "ecall_set_real_clientid clientid e = (OK, e\<lparr>el_clientid_real := clientid\<rparr>)"

definition ecall_set_conf_part :: "nat option \<Rightarrow> ecall \<Rightarrow> ecall" where
  "ecall_set_conf_part cp e = e\<lparr>el_conf_part := cp\<rparr>"

definition ecall_set_media_laddr :: "sa option \<Rightarrow> ecall \<Rightarrow> err \<times> ecall" where
  "ecall_set_media_laddr laddr e =
     (case laddr of None \<Rightarrow> (EINVAL, e) | Some a \<Rightarrow> (OK, e\<lparr>el_media_laddr := Some a\<rparr>))"

definition ecall_set_confmsg_handler :: "bool \<Rightarrow> ecall \<Rightarrow> err \<times> ecall" where
  "ecall_set_confmsg_handler h e = (OK, e\<lparr>el_confmsgh := h\<rparr>)"

definition ecall_set_propsync_handler :: "bool \<Rightarrow> ecall \<Rightarrow> err \<times> ecall" where
  "ecall_set_propsync_handler h e = (OK, e\<lparr>el_propsynch := h\<rparr>)"

definition ecall_set_ping_handler :: "bool \<Rightarrow> ecall \<Rightarrow> err \<times> ecall" where
  "ecall_set_ping_handler h e = (OK, e\<lparr>el_pingh := h\<rparr>)"

definition ecall_find_convid :: "re_env \<Rightarrow> ecall list \<Rightarrow> string \<Rightarrow> ecall option" where
  "ecall_find_convid re ecalls convid = List.find (\<lambda>e. re_casecmp re convid (el_convid e)) ecalls"

definition ecall_find_userclient :: "re_env \<Rightarrow> ecall list \<Rightarrow> string \<Rightarrow> string \<Rightarrow> ecall option" where
  "ecall_find_userclient re ecalls userid clientid =
     List.find (\<lambda>e. (case el_userid_peer e of Some u \<Rightarrow> re_casecmp re userid u | None \<Rightarrow> False) \<and>
                     (case el_clientid_peer e of Some c \<Rightarrow> re_casecmp re clientid c | None \<Rightarrow> False)) ecalls"

section \<open>Messages received\<close>

definition handle_propsync :: "fl_env \<Rightarrow> econn_message \<Rightarrow> ecall \<Rightarrow> err \<times> ecall" where
  "handle_propsync env msg e =
     (let (er, e) = (if econn_message_isrequest msg \<and> el_conv_type e \<noteq> ICALL_CONV_TYPE_CONFERENCE
                     then send_propsync env True e else (OK, e))
      in if el_propsynch e then (fe_propsync env, el_act (App_propsync msg) e)
         else case u_props (em_u msg) of
                None \<Rightarrow> (OK, el_fail e)
              | Some props \<Rightarrow>
                  (er, propsync_handler env (if props = None then e else e\<lparr>el_props_remote := props\<rparr>)))"

definition recv_ids :: "string \<Rightarrow> string \<Rightarrow> ecall \<Rightarrow> ecall" where
  "recv_ids userid_sender clientid_sender e =
     (let e = (if el_userid_peer e = None then ecall_set_peer_userid (Some userid_sender) e else e);
          e = (if el_clientid_peer e = None then ecall_set_peer_clientid (Some clientid_sender) e else e)
      in on_flow (Fl_set_remote_userclientid (el_userid_peer e) (el_clientid_peer e)) e)"

definition recv_same_user :: "fl_env \<Rightarrow> econn_message \<Rightarrow> ecall \<Rightarrow> ecall" where
  "recv_same_user env msg e =
     (if el_econn e \<noteq> None \<and> state_of e = ECONN_PENDING_INCOMING
      then (if em_msg_type msg = Some ECONN_SETUP \<and> em_resp msg
            then conn_run env (\<lambda>ce conn. econn_close ce conn EALREADY (em_time msg)) e
            else if em_msg_type msg = Some ECONN_REJECT
            then ICALL_CALL_CB CB_leave (App_leave ICALL_REASON_REJECTED) e
            else e)
      else e)"

definition ecall_msg_recv ::
  "fl_env \<Rightarrow> string option \<Rightarrow> string option \<Rightarrow> econn_message option \<Rightarrow> ecall \<Rightarrow> err \<times> ecall" where
  "ecall_msg_recv env userid_sender clientid_sender msg e =
     (case (userid_sender, clientid_sender, msg) of
        (Some u, Some c, Some m) \<Rightarrow>
          (let e = recv_ids u c e
           in if em_msg_type m = Some ECONN_PROPSYNC then handle_propsync env m e
              else if re_casecmp (fe_re env) (el_userid_self e) u \<and> el_conv_type e = ICALL_CONV_TYPE_ONEONONE
              then (OK, recv_same_user env m e)
              else let (er, e) =
                         (if el_econn e = None \<and>
                             econn_is_creator_full (fe_re env) (Some (el_userid_self e)) (el_clientid_self e) (Some u) c m
                          then ecall_create_econn env e else (OK, e))
                   in if er \<noteq> OK then (er, e)
                      else (OK, conn_run env (\<lambda>ce conn. econn_recv_message ce conn u c m) e))
      | _ \<Rightarrow> (EINVAL, e))"

definition ecall_transp_recv ::
  "fl_env \<Rightarrow> u64 \<Rightarrow> u64 \<Rightarrow> string option \<Rightarrow> string option \<Rightarrow> string option \<Rightarrow> ecall \<Rightarrow> ecall" where
  "ecall_transp_recv env curr_time msg_time userid_sender clientid_sender str e =
     (case (userid_sender, clientid_sender, str) of
        (Some u, Some c, Some s) \<Rightarrow>
          (case econn_message_decode (fe_re env) True curr_time msg_time s of
             None \<Rightarrow> el_fail e
           | Some (OK, Some m) \<Rightarrow> snd (ecall_msg_recv env (Some u) (Some c) (Some m) e)
           | Some _ \<Rightarrow> e)
      | _ \<Rightarrow> e)"

section \<open>Timers\<close>

definition connection_timeout_handler :: "fl_env \<Rightarrow> ecall \<Rightarrow> ecall" where
  "connection_timeout_handler env e =
     (if el_conv_type e = ICALL_CONV_TYPE_GROUP then snd (ecall_restart env (el_call_type e) True e)
      else if CB_media_estab \<notin> el_cbs e then ecall_close env ETIMEDOUT ECONN_MESSAGE_TIME_UNKNOWN e
      else e)"

definition media_start_timeout_handler :: "fl_env \<Rightarrow> ecall \<Rightarrow> ecall" where
  "media_start_timeout_handler env e =
     (if el_econn e \<noteq> None then ecall_end env (conn_set_error EIO e)
      else ecall_close env EIO ECONN_MESSAGE_TIME_UNKNOWN e)"

definition audio_level_handler :: "fl_env \<Rightarrow> ecall \<Rightarrow> ecall" where
  "audio_level_handler env e =
     (let e = e\<lparr>el_level_tmr := Some TIMEOUT_AUDIO_LEVEL\<rparr>
      in if CB_audio_level \<notin> el_cbs e then e
         else let (er, e) = IFLOW_CALLE Fl_get_audio_level (fst (fe_levels env)) e;
                  levell = (if el_flow e = None then [] else snd (fe_levels env))
              in if er \<noteq> OK then e else ICALL_CALL_CB CB_audio_level (App_audio_level levell) e)"

definition quality_handler :: "fl_env \<Rightarrow> ecall \<Rightarrow> ecall" where
  "quality_handler env e =
     (let e = e\<lparr>el_quality_tmr := Some (el_quality_interval e)\<rparr>
      in if CB_quality \<notin> el_cbs e \<or> el_flow e = None \<or> el_update e then e
         else let (er, e) = IFLOW_CALLE Fl_get_stats (fst (fe_stats env)) e;
                  stats = snd (fe_stats env);
                  dloss = word_of_int (sr_lost_rx stats);
                  rtt = word_of_int (sr_rtt stats)
              in if er \<noteq> OK then e
                 else let e = ICALL_CALL_CB CB_quality
                                (App_quality (el_userid_peer e) (el_clientid_peer e) stats (el_conv_type e)) e;
                          m = el_metrics e
                      in e\<lparr>el_metrics := m\<lparr>im_packetloss_last := dloss, im_packetloss_max := max (im_packetloss_max m) dloss,
                                            im_rtt_last := rtt, im_rtt_max := max (im_rtt_max m) rtt\<rparr>\<rparr>)"

section \<open>Callbacks of the flow\<close>

definition stale :: "nat \<Rightarrow> ecall \<Rightarrow> bool" where
  "stale iflow e \<longleftrightarrow> el_flow e \<noteq> Some iflow"

definition mf_estab_handler :: "fl_env \<Rightarrow> nat \<Rightarrow> ecall \<Rightarrow> ecall" where
  "mf_estab_handler env iflow e =
     (if stale iflow e then e
      else let e = (if sint (el_call_estab_time e) < 0 \<and> el_ts_answered e \<noteq> 0
                    then e\<lparr>el_call_estab_time := ucast (fe_now env - el_ts_answered e)\<rparr> else e);
               e = e\<lparr>el_audio_estab := True, el_established := True, el_connection_tmr := None\<rparr>
           in if CB_media_estab \<in> el_cbs e
              then ICALL_CALL_CB CB_media_estab (App_media_estab (el_userid_peer e) (el_clientid_peer e) (el_update e))
                     (e\<lparr>el_media_start_tmr := Some TIMEOUT_MEDIA_START\<rparr>)
              else case ecall_media_start env e of (er, e) \<Rightarrow> if er \<noteq> OK then ecall_end env e else e)"

definition mf_restart_handler :: "fl_env \<Rightarrow> nat \<Rightarrow> bool \<Rightarrow> ecall \<Rightarrow> ecall" where
  "mf_restart_handler env iflow force_cbr e =
     (if stale iflow e then e
      else let e = (if state_of e = ECONN_ANSWERED \<and> force_cbr
                    then e\<lparr>el_audio_cbr := True, el_delayed_restart := True\<rparr> else e)
           in if state_of e = ECONN_DATACHAN_ESTABLISHED then snd (ecall_restart env (el_call_type e) True e) else e)"

definition mf_close_handler :: "fl_env \<Rightarrow> nat \<Rightarrow> err \<Rightarrow> ecall \<Rightarrow> ecall" where
  "mf_close_handler env iflow er e =
     (if el_oldflow e = Some iflow then IFLOW_CALL (Some iflow) Fl_close (e\<lparr>el_oldflow := None\<rparr>)
      else if stale iflow e then e
      else if state_of e = ECONN_ANSWERED \<and> er = ETIMEDOUT \<and> el_num_retries e < el_max_retries e
      then snd (ecall_restart env (el_call_type e) True e)
      else if el_econn e \<noteq> None then ecall_end env (conn_set_error er e)
      else ecall_close env er ECONN_MESSAGE_TIME_UNKNOWN e)"

definition mf_stopped_handler :: "nat \<Rightarrow> ecall \<Rightarrow> ecall" where
  "mf_stopped_handler iflow e = (if stale iflow e then e else ICALL_CALL_CB CB_media_stopped App_media_stopped e)"

definition gather_done :: "fl_env \<Rightarrow> err \<times> ecall \<Rightarrow> ecall" where
  "gather_done env r =
     (case r of (er, e) \<Rightarrow> if er \<noteq> OK then ecall_close env er ECONN_MESSAGE_TIME_UNKNOWN e else e\<lparr>el_async := ASYNC_COMPLETE\<rparr>)"

definition mf_gather_handler :: "fl_env \<Rightarrow> nat \<Rightarrow> ecall \<Rightarrow> ecall" where
  "mf_gather_handler env iflow e =
     (if stale iflow e then e
      else if state_of e \<in> {ECONN_TERMINATING, ECONN_HANGUP_SENT, ECONN_HANGUP_RECV} then e
      else case el_async e of
             ASYNC_OFFER \<Rightarrow> gather_done env (offer_and_connect env e)
           | ASYNC_ANSWER \<Rightarrow> gather_done env (generate_answer env (el_econn_pending e) e)
           | _ \<Rightarrow> e)"

text \<open>
  The messages that wait for the data channel: each is sent, and then taken from the list. One that
  cannot be sent yet is put at the end of the same list. The result is \<open>None\<close> if the loop does not end.
\<close>

definition pending_step :: "fl_env \<Rightarrow> ecall \<Rightarrow> ecall" where
  "pending_step env e =
     (let e = snd (ecall_dce_send env (hd (el_dce_pendingl e)) e)
      in e\<lparr>el_dce_pendingl := tl (el_dce_pendingl e)\<rparr>)"

definition send_pending :: "fl_env \<Rightarrow> ecall \<Rightarrow> ecall option" where
  "send_pending env e = while_option (\<lambda>e. el_dce_pendingl e \<noteq> []) (pending_step env) e"

definition estab_done :: "fl_env \<Rightarrow> ecall \<Rightarrow> ecall" where
  "estab_done env e =
     (let m = el_metrics e;
          e = e\<lparr>el_update := False, el_num_retries := 0,
                el_metrics := (if el_inc_reconnects e
                               then m\<lparr>im_reconnects_successful := im_reconnects_successful m + 1\<rparr> else m),
                el_inc_reconnects := False\<rparr>;
          e = (if CB_audio_level \<in> el_cbs e then e\<lparr>el_level_tmr := Some TIMEOUT_AUDIO_LEVEL\<rparr> else e);
          e = ICALL_CALL_CB CB_datachan_estab (App_datachan_estab (el_userid_peer e) (el_clientid_peer e) (el_update e)) e;
          e = ICALL_CALL_CB CB_quality
                (App_quality (el_userid_peer e) (el_clientid_peer e) \<lparr>sr_rtt = 0, sr_lost_rx = 0, sr_lost_tx = 0\<rparr>
                   ICALL_CONV_TYPE_ONEONONE) e
      in if el_update_glare e
         then snd (ecall_set_video_send_state env (el_glare_vstate e) (e\<lparr>el_update_glare := False\<rparr>))
         else e)"

definition estab_sync :: "fl_env \<Rightarrow> ecall \<Rightarrow> err \<times> ecall" where
  "estab_sync env e =
     (let (cbr, e) = IFLOW_ASK Fl_get_audio_cbr (fe_audio_cbr env) e;
          (er, e) = (if cbr then props_update env ''audiocbr'' ''true'' e else (OK, e))
      in if er \<noteq> OK then (er, e) else send_propsync env False e)"

definition channel_estab_handler :: "fl_env \<Rightarrow> nat \<Rightarrow> ecall \<Rightarrow> ecall option" where
  "channel_estab_handler env iflow e =
     (if stale iflow e then Some e
      else let e = (IFLOW_CALL (el_oldflow e) Fl_close e)\<lparr>el_oldflow := None\<rparr>;
               e = e\<lparr>el_econn := map_option econn_set_datachan_established (el_econn e)\<rparr>
           in if el_delayed_restart e
              then Some (snd (ecall_restart env (el_call_type e) False (e\<lparr>el_delayed_restart := False\<rparr>)))
              else case estab_sync env e of
                     (er, e) \<Rightarrow>
                       if er \<noteq> OK then Some (ecall_close env er ECONN_MESSAGE_TIME_UNKNOWN e)
                       else map_option (estab_done env) (send_pending env e))"

definition data_channel_handler :: "fl_env \<Rightarrow> nat \<Rightarrow> string \<Rightarrow> ecall \<Rightarrow> ecall" where
  "data_channel_handler env iflow data e =
     (if el_oldflow e \<noteq> Some iflow \<and> stale iflow e then e
      else case econn_message_decode (fe_re env) True 0 0 data of
             None \<Rightarrow> el_fail e
           | Some (OK, Some m) \<Rightarrow>
               if el_oldflow e = Some iflow \<and> em_msg_type m \<noteq> Some ECONN_HANGUP then e
               else if em_msg_type m = Some ECONN_PROPSYNC then snd (handle_propsync env m e)
               else conn_run env (\<lambda>ce conn. econn_recv_message ce conn (ec_userid_remote conn) (ec_clientid_remote conn) m) e
           | Some _ \<Rightarrow> e)"

definition channel_close_handler :: "fl_env \<Rightarrow> nat \<Rightarrow> ecall \<Rightarrow> ecall" where
  "channel_close_handler env iflow e =
     (if stale iflow e then e
      else if state_of e = ECONN_DATACHAN_ESTABLISHED then snd (ecall_restart env (el_call_type e) True e)
      else ecall_close env EDATACHANNEL ECONN_MESSAGE_TIME_UNKNOWN e)"

definition rtp_start_handler :: "fl_env \<Rightarrow> nat \<Rightarrow> bool \<Rightarrow> ecall \<Rightarrow> ecall" where
  "rtp_start_handler env iflow started e =
     (if stale iflow e \<or> \<not> started then e
      else let e = ICALL_CALL_CB CB_audio_estab (App_audio_estab (el_userid_peer e) (el_clientid_peer e) (el_update e))
                     (e\<lparr>el_num_retries := 0\<rparr>)
           in if sint (el_audio_setup_time e) < 0 \<and> el_ts_answered e \<noteq> 0
              then e\<lparr>el_audio_setup_time := ucast (fe_now env - el_ts_answered e),
                     el_call_setup_time := ucast (fe_now env - el_ts_started e)\<rparr>
              else e)"

definition acbr_detect_handler :: "fl_env \<Rightarrow> nat \<Rightarrow> int \<Rightarrow> ecall \<Rightarrow> ecall" where
  "acbr_detect_handler env iflow enabled e =
     (if stale iflow e then e
      else case (ecall_props_get_local env ''audiocbr'' e, ecall_props_get_remote env ''audiocbr'' e) of
             (Some cl, Some cr) \<Rightarrow>
               (let cbr_enabled = (enabled \<noteq> 0 \<and> cr = Some ''true'' \<and> cl = Some ''true'')
                in if cbr_enabled \<noteq> el_cbr_state e \<and> CB_acbr_changed \<in> el_cbs e
                   then (el_act (App_acbr_changed (el_userid_peer e) (el_clientid_peer e) cbr_enabled) e)
                        \<lparr>el_cbr_state := cbr_enabled\<rparr>
                   else e)
           | _ \<Rightarrow> el_fail e)"

definition norelay_handler :: "bool \<Rightarrow> ecall \<Rightarrow> ecall" where
  "norelay_handler local e = ICALL_CALL_CB CB_norelay (App_norelay local) e"

section \<open>Runs\<close>

datatype ecall_op =
    EOp_start icall_call_type bool
  | EOp_answer icall_call_type bool
  | EOp_end
  | EOp_reject
  | EOp_set_clients "(string \<times> string) list option"
  | EOp_msg_recv "string option" "string option" "econn_message option"
  | EOp_transp_recv u64 u64 "string option" "string option" "string option"
  | EOp_restart icall_call_type bool
  | EOp_video icall_vstate
  | EOp_mute
  | EOp_media_start
  | EOp_media_stop
  | EOp_sync_props bool
  | EOp_props_set_local "string option" "string option"
  | EOp_dce_send string
  | EOp_ping bool
  | EOp_has_video
  | EOp_add_turnserver "zapi_ice_server option"
  | EOp_quality_interval u64
  | EOp_keystore bool
  | EOp_ssrc u32 u32
  | EOp_add_decoders "string option" "string option" "string option" u32 u32
  | EOp_remove_decoders "string option" "string option" u32 u32
  | EOp_sync_decoders
  | EOp_stats
  | EOp_sessid "string option"
  | EOp_peer "string option" "string option"
  | EOp_handlers bool bool bool
  | EOp_close err u32
  | EOp_conn_timer
  | EOp_connection_timer
  | EOp_media_start_timer
  | EOp_quality_timer
  | EOp_level_timer
  | EOp_flow_estab nat
  | EOp_flow_restart nat bool
  | EOp_flow_close nat err
  | EOp_flow_stopped nat
  | EOp_flow_gathered nat
  | EOp_channel_estab nat
  | EOp_channel_data nat string
  | EOp_channel_close nat
  | EOp_rtp_start nat bool
  | EOp_acbr nat int
  | EOp_norelay bool

text \<open>A timer that expires is no longer running when its handler is called.\<close>

fun ecall_apply :: "fl_env \<Rightarrow> ecall_op \<Rightarrow> ecall \<Rightarrow> ecall" where
  "ecall_apply env (EOp_start t cbr) e = snd (ecall_start env t cbr e)"
| "ecall_apply env (EOp_answer t cbr) e = snd (ecall_answer env t cbr e)"
| "ecall_apply env EOp_end e = ecall_end env e"
| "ecall_apply env EOp_reject e = ecall_reject e"
| "ecall_apply env (EOp_set_clients cl) e = ecall_set_clients env cl e"
| "ecall_apply env (EOp_msg_recv u c m) e = snd (ecall_msg_recv env u c m e)"
| "ecall_apply env (EOp_transp_recv ct mt u c s) e = ecall_transp_recv env ct mt u c s e"
| "ecall_apply env (EOp_restart t n) e = snd (ecall_restart env t n e)"
| "ecall_apply env (EOp_video v) e = snd (ecall_set_video_send_state env v e)"
| "ecall_apply env EOp_mute e = snd (ecall_update_mute_state env e)"
| "ecall_apply env EOp_media_start e = snd (ecall_media_start env e)"
| "ecall_apply env EOp_media_stop e = ecall_media_stop e"
| "ecall_apply env (EOp_sync_props r) e = snd (ecall_sync_props env r e)"
| "ecall_apply env (EOp_props_set_local k v) e = snd (ecall_props_set_local env k v e)"
| "ecall_apply env (EOp_dce_send mb) e = snd (ecall_dce_send env mb e)"
| "ecall_apply env (EOp_ping r) e = snd (ecall_ping env r e)"
| "ecall_apply env EOp_has_video e = snd (ecall_has_video env e)"
| "ecall_apply env (EOp_add_turnserver s) e = snd (ecall_add_turnserver s e)"
| "ecall_apply env (EOp_quality_interval i) e = snd (ecall_set_quality_interval i e)"
| "ecall_apply env (EOp_keystore k) e = snd (ecall_set_keystore k e)"
| "ecall_apply env (EOp_ssrc a v) e = snd (ecall_update_ssrc env a v e)"
| "ecall_apply env (EOp_add_decoders u c h a v) e = snd (ecall_add_decoders_for_user env u c h a v e)"
| "ecall_apply env (EOp_remove_decoders u c a v) e = snd (ecall_remove_decoders_for_user env u c a v e)"
| "ecall_apply env EOp_sync_decoders e = snd (ecall_sync_decoders env e)"
| "ecall_apply env EOp_stats e = snd (ecall_stats_struct e)"
| "ecall_apply env (EOp_sessid s) e = snd (ecall_set_sessid s e)"
| "ecall_apply env (EOp_peer u c) e = ecall_set_peer_clientid c (ecall_set_peer_userid u e)"
| "ecall_apply env (EOp_handlers cm ps pg) e =
     snd (ecall_set_confmsg_handler cm (snd (ecall_set_propsync_handler ps (snd (ecall_set_ping_handler pg e)))))"
| "ecall_apply env (EOp_close er t) e = ecall_close env er t e"
| "ecall_apply env EOp_conn_timer e = conn_run env econn_timer e"
| "ecall_apply env EOp_connection_timer e =
     (if el_connection_tmr e = None then e else connection_timeout_handler env (e\<lparr>el_connection_tmr := None\<rparr>))"
| "ecall_apply env EOp_media_start_timer e =
     (if el_media_start_tmr e = None then e else media_start_timeout_handler env (e\<lparr>el_media_start_tmr := None\<rparr>))"
| "ecall_apply env EOp_quality_timer e = (if el_quality_tmr e = None then e else quality_handler env e)"
| "ecall_apply env EOp_level_timer e = (if el_level_tmr e = None then e else audio_level_handler env e)"
| "ecall_apply env (EOp_flow_estab f) e = mf_estab_handler env f e"
| "ecall_apply env (EOp_flow_restart f cbr) e = mf_restart_handler env f cbr e"
| "ecall_apply env (EOp_flow_close f er) e = mf_close_handler env f er e"
| "ecall_apply env (EOp_flow_stopped f) e = mf_stopped_handler f e"
| "ecall_apply env (EOp_flow_gathered f) e = mf_gather_handler env f e"
| "ecall_apply env (EOp_channel_data f d) e = data_channel_handler env f d e"
| "ecall_apply env (EOp_channel_close f) e = channel_close_handler env f e"
| "ecall_apply env (EOp_rtp_start f s) e = rtp_start_handler env f s e"
| "ecall_apply env (EOp_acbr f i) e = acbr_detect_handler env f i e"
| "ecall_apply env (EOp_norelay l) e = norelay_handler l e"
| "ecall_apply env (EOp_channel_estab f) e = e"

definition ecall_step :: "ecall \<Rightarrow> fl_env \<times> ecall_op \<Rightarrow> ecall option" where
  "ecall_step e ev =
     (case snd ev of
        EOp_channel_estab f \<Rightarrow> channel_estab_handler (fst ev) f e
      | op \<Rightarrow> Some (ecall_apply (fst ev) op e))"

end
