(* ===== verification/Ecall_Props.thy ===== *)
theory Ecall_Props
  imports Ecall
begin

text \<open>
  What holds of a call with one peer in every run: how it uses media flows, that it ends once, and how the messages
  that wait for the data channel are sent. The call is a machine (\<open>elm\<close>) whose invariant every event keeps.
\<close>

section \<open>The invariant\<close>

text \<open>The flows that are open after the acts of a trace; there is no value if a flow is used that is not open.\<close>

fun flow_act :: "el_act \<Rightarrow> nat set \<Rightarrow> nat set option" where
  "flow_act (Flow f c) S =
     (if c = Fl_alloc then if f \<in> S then None else Some (insert f S)
      else if f \<notin> S then None
      else if c = Fl_close then Some (S - {f})
      else Some S)"
| "flow_act _ S = Some S"

definition flows_after :: "el_act list \<Rightarrow> nat set option" where
  "flows_after acts = fold (\<lambda>a S. Option.bind S (flow_act a)) acts (Some {})"

definition open_flows :: "ecall \<Rightarrow> nat set" where
  "open_flows e = set_option (el_flow e) \<union> set_option (el_oldflow e)"

definition flows_inv :: "ecall \<Rightarrow> bool" where
  "flows_inv e \<longleftrightarrow> flows_after (el_trace e) = Some (open_flows e) \<and> (\<forall>f \<in> open_flows e. f < el_flows e) \<and>
     (el_flow e \<noteq> None \<longrightarrow> el_flow e \<noteq> el_oldflow e)"

fun is_app_close :: "el_act \<Rightarrow> bool" where
  "is_app_close (App_close _ _ _ _ _) = True"
| "is_app_close _ = False"

text \<open>A conference's connection reports each restart through the close handler; any other call closes once.\<close>

definition once_inv :: "ecall \<Rightarrow> bool" where
  "once_inv e \<longleftrightarrow>
     (el_conv_type e \<noteq> ICALL_CONV_TYPE_CONFERENCE \<longrightarrow>
      length (filter is_app_close (el_trace e)) + (if CB_close \<in> el_cbs e then 1 else 0) \<le> 1)"

definition el_inv :: "icall_conv_type \<Rightarrow> ecall \<Rightarrow> bool" where
  "el_inv ct e \<longleftrightarrow> el_conv_type e = ct \<and> flows_inv e \<and> once_inv e"

lemma el_inv_fields [simp]:
  "el_inv ct (e\<lparr>el_call_type := x0\<rparr>) = el_inv ct e" "el_inv ct (e\<lparr>el_vstate := x1\<rparr>) = el_inv ct e"
  "el_inv ct (e\<lparr>el_glare_vstate := x2\<rparr>) = el_inv ct e" "el_inv ct (e\<lparr>el_conf := x3\<rparr>) = el_inv ct e"
  "el_inv ct (e\<lparr>el_econn := x4\<rparr>) = el_inv ct e" "el_inv ct (e\<lparr>el_media_start_tmr := x5\<rparr>) = el_inv ct e"
  "el_inv ct (e\<lparr>el_connection_tmr := x6\<rparr>) = el_inv ct e" "el_inv ct (e\<lparr>el_props_local := x7\<rparr>) = el_inv ct e"
  "el_inv ct (e\<lparr>el_props_remote := x8\<rparr>) = el_inv ct e" "el_inv ct (e\<lparr>el_propsynch := x9\<rparr>) = el_inv ct e"
  "el_inv ct (e\<lparr>el_convid := x10\<rparr>) = el_inv ct e" "el_inv ct (e\<lparr>el_userid_self := x11\<rparr>) = el_inv ct e"
  "el_inv ct (e\<lparr>el_clientid_self := x12\<rparr>) = el_inv ct e" "el_inv ct (e\<lparr>el_clientid_real := x13\<rparr>) = el_inv ct e"
  "el_inv ct (e\<lparr>el_userid_peer := x14\<rparr>) = el_inv ct e" "el_inv ct (e\<lparr>el_clientid_peer := x15\<rparr>) = el_inv ct e"
  "el_inv ct (e\<lparr>el_sessid := x16\<rparr>) = el_inv ct e" "el_inv ct (e\<lparr>el_max_retries := x17\<rparr>) = el_inv ct e"
  "el_inv ct (e\<lparr>el_num_retries := x18\<rparr>) = el_inv ct e" "el_inv ct (e\<lparr>el_async := x19\<rparr>) = el_inv ct e"
  "el_inv ct (e\<lparr>el_offer := x20\<rparr>) = el_inv ct e" "el_inv ct (e\<lparr>el_econn_pending := x21\<rparr>) = el_inv ct e"
  "el_inv ct (e\<lparr>el_answered := x22\<rparr>) = el_inv ct e" "el_inv ct (e\<lparr>el_established := x23\<rparr>) = el_inv ct e"
  "el_inv ct (e\<lparr>el_update := x24\<rparr>) = el_inv ct e" "el_inv ct (e\<lparr>el_update_glare := x25\<rparr>) = el_inv ct e"
  "el_inv ct (e\<lparr>el_delayed_restart := x26\<rparr>) = el_inv ct e" "el_inv ct (e\<lparr>el_call_setup_time := x27\<rparr>) = el_inv ct e"
  "el_inv ct (e\<lparr>el_call_estab_time := x28\<rparr>) = el_inv ct e" "el_inv ct (e\<lparr>el_audio_setup_time := x29\<rparr>) = el_inv ct e"
  "el_inv ct (e\<lparr>el_ts_started := x30\<rparr>) = el_inv ct e" "el_inv ct (e\<lparr>el_ts_answered := x31\<rparr>) = el_inv ct e"
  "el_inv ct (e\<lparr>el_conf_part := x32\<rparr>) = el_inv ct e" "el_inv ct (e\<lparr>el_ts_start := x33\<rparr>) = el_inv ct e"
  "el_inv ct (e\<lparr>el_devpair := x34\<rparr>) = el_inv ct e" "el_inv ct (e\<lparr>el_audio_cbr := x35\<rparr>) = el_inv ct e"
  "el_inv ct (e\<lparr>el_recv_state := x36\<rparr>) = el_inv ct e" "el_inv ct (e\<lparr>el_audio_estab := x37\<rparr>) = el_inv ct e"
  "el_inv ct (e\<lparr>el_cbr_state := x38\<rparr>) = el_inv ct e" "el_inv ct (e\<lparr>el_remote_muted := x39\<rparr>) = el_inv ct e"
  "el_inv ct (e\<lparr>el_level_tmr := x40\<rparr>) = el_inv ct e" "el_inv ct (e\<lparr>el_quality_tmr := x41\<rparr>) = el_inv ct e"
  "el_inv ct (e\<lparr>el_quality_interval := x42\<rparr>) = el_inv ct e" "el_inv ct (e\<lparr>el_turnv := x43\<rparr>) = el_inv ct e"
  "el_inv ct (e\<lparr>el_turn_added := x44\<rparr>) = el_inv ct e" "el_inv ct (e\<lparr>el_confmsgh := x45\<rparr>) = el_inv ct e"
  "el_inv ct (e\<lparr>el_media_laddr := x46\<rparr>) = el_inv ct e" "el_inv ct (e\<lparr>el_keystore := x47\<rparr>) = el_inv ct e"
  "el_inv ct (e\<lparr>el_should_reject := x48\<rparr>) = el_inv ct e" "el_inv ct (e\<lparr>el_pingh := x49\<rparr>) = el_inv ct e"
  "el_inv ct (e\<lparr>el_metrics := x50\<rparr>) = el_inv ct e" "el_inv ct (e\<lparr>el_video_local := x51\<rparr>) = el_inv ct e"
  "el_inv ct (e\<lparr>el_video_remote := x52\<rparr>) = el_inv ct e" "el_inv ct (e\<lparr>el_inc_reconnects := x53\<rparr>) = el_inv ct e"
  "el_inv ct (e\<lparr>el_dce_pendingl := x54\<rparr>) = el_inv ct e" "el_inv ct (e\<lparr>el_ub := x55\<rparr>) = el_inv ct e"
  by (simp_all add: el_inv_def flows_inv_def once_inv_def open_flows_def)

lemma flows_after_snoc: "flows_after (acts @ [a]) = Option.bind (flows_after acts) (flow_act a)"
  by (simp add: flows_after_def)

text \<open>An act that is neither a call of a flow nor the end of the call.\<close>

fun plain :: "el_act \<Rightarrow> bool" where
  "plain (Flow _ _) = False"
| "plain (App_close _ _ _ _ _) = False"
| "plain _ = True"

lemma plainD: "plain a \<Longrightarrow> flow_act a = Some" "plain a \<Longrightarrow> \<not> is_app_close a"
  by (cases a; auto)+

lemma el_inv_act: "plain a \<Longrightarrow> el_inv ct (el_act a e) = el_inv ct e"
  by (simp add: el_act_def el_inv_def flows_inv_def once_inv_def flows_after_snoc open_flows_def plainD)

lemma el_inv_on_flow: "el_inv ct e \<Longrightarrow> c \<noteq> Fl_alloc \<Longrightarrow> c \<noteq> Fl_close \<Longrightarrow> el_inv ct (on_flow c e)"
  by (auto simp: on_flow_def IFLOW_CALL_def el_act_def el_inv_def flows_inv_def once_inv_def flows_after_snoc open_flows_def
      split: option.split)

lemma el_inv_cb: "el_inv ct e \<Longrightarrow> plain a \<Longrightarrow> el_inv ct (ICALL_CALL_CB h a e)"
  by (simp add: ICALL_CALL_CB_def el_inv_act)

lemma el_inv_cbs: "el_inv ct e \<Longrightarrow> el_inv ct (e\<lparr>el_cbs := el_cbs e - hs\<rparr>)"
  by (auto simp: el_inv_def flows_inv_def once_inv_def open_flows_def)

lemma close_old_inv: "el_inv ct e \<Longrightarrow> el_inv ct ((IFLOW_CALL (el_oldflow e) Fl_close e)\<lparr>el_oldflow := None\<rparr>)"
  by (auto simp: IFLOW_CALL_def el_act_def el_inv_def flows_inv_def once_inv_def flows_after_snoc open_flows_def
      split: option.split)

text \<open>How a proof goes through the shape of a definition.\<close>

lemma el_inv_if: "(b \<Longrightarrow> el_inv ct x) \<Longrightarrow> (\<not> b \<Longrightarrow> el_inv ct y) \<Longrightarrow> el_inv ct (if b then x else y)"
  by simp

lemma el_inv_snd_if: "(b \<Longrightarrow> el_inv ct (snd p)) \<Longrightarrow> (\<not> b \<Longrightarrow> el_inv ct (snd q)) \<Longrightarrow> el_inv ct (snd (if b then p else q))"
  by simp

lemma el_inv_case: "el_inv ct (snd p) \<Longrightarrow> (\<And>r e. el_inv ct e \<Longrightarrow> el_inv ct (k r e)) \<Longrightarrow> el_inv ct (case p of (r, e) \<Rightarrow> k r e)"
  by (cases p) simp

lemma el_inv_snd_case:
  "el_inv ct (snd p) \<Longrightarrow> (\<And>r e. el_inv ct e \<Longrightarrow> el_inv ct (snd (k r e))) \<Longrightarrow> el_inv ct (snd (case p of (r, e) \<Rightarrow> k r e))"
  by (cases p) simp

lemma el_inv_option:
  "(x = None \<Longrightarrow> el_inv ct n) \<Longrightarrow> (\<And>y. x = Some y \<Longrightarrow> el_inv ct (s y)) \<Longrightarrow> el_inv ct (case x of None \<Rightarrow> n | Some y \<Rightarrow> s y)"
  "(x = None \<Longrightarrow> el_inv ct (snd n')) \<Longrightarrow> (\<And>y. x = Some y \<Longrightarrow> el_inv ct (snd (s' y))) \<Longrightarrow>
   el_inv ct (snd (case x of None \<Rightarrow> n' | Some y \<Rightarrow> s' y))"
  by (simp_all split: option.split)

lemma el_inv_let:
  "el_inv ct v \<Longrightarrow> (\<And>x. el_inv ct x \<Longrightarrow> el_inv ct (k x)) \<Longrightarrow> el_inv ct (let x = v in k x)"
  "el_inv ct v \<Longrightarrow> (\<And>x. el_inv ct x \<Longrightarrow> el_inv ct (snd (k' x))) \<Longrightarrow> el_inv ct (snd (let x = v in k' x))"
  by (simp_all add: Let_def)

lemma el_inv_let_pair:
  "el_inv ct (snd p) \<Longrightarrow> (\<And>r e. el_inv ct e \<Longrightarrow> el_inv ct (k r e)) \<Longrightarrow> el_inv ct (let (r, e) = p in k r e)"
  "el_inv ct (snd p) \<Longrightarrow> (\<And>r e. el_inv ct e \<Longrightarrow> el_inv ct (snd (k' r e))) \<Longrightarrow> el_inv ct (snd (let (r, e) = p in k' r e))"
  by (cases p; simp)+

lemma el_inv_let_other:
  "(\<And>x. el_inv ct (k x)) \<Longrightarrow> el_inv ct (let x = v in k x)" "(\<And>x. el_inv ct (snd (k' x))) \<Longrightarrow> el_inv ct (snd (let x = v in k' x))"
  by (simp_all add: Let_def)

lemma el_inv_snd_pair: "el_inv ct e \<Longrightarrow> el_inv ct (snd (r, e))"
  by simp

lemma el_inv_fold: "el_inv ct e \<Longrightarrow> (\<And>a e. el_inv ct e \<Longrightarrow> el_inv ct (f a e)) \<Longrightarrow> el_inv ct (fold f as e)"
  by (induction as arbitrary: e) simp_all

lemmas el_shape = el_inv_let el_inv_let_pair el_inv_let_other el_inv_if el_inv_snd_if el_inv_case el_inv_snd_case el_inv_option el_inv_snd_pair

lemma el_inv_calle: "el_inv ct e \<Longrightarrow> c \<noteq> Fl_alloc \<Longrightarrow> c \<noteq> Fl_close \<Longrightarrow> el_inv ct (snd (IFLOW_CALLE c r e))"
  by (simp add: IFLOW_CALLE_def el_inv_on_flow)

lemma el_inv_ask: "el_inv ct e \<Longrightarrow> c \<noteq> Fl_alloc \<Longrightarrow> c \<noteq> Fl_close \<Longrightarrow> el_inv ct (snd (IFLOW_ASK c b e))"
  by (simp add: IFLOW_ASK_def el_inv_on_flow)

lemma el_inv_fail: "el_inv ct e \<Longrightarrow> el_inv ct (el_fail e)"
  by (simp add: el_fail_def)

lemmas el_calls = el_inv_on_flow el_inv_calle el_inv_ask el_inv_cb el_inv_fail

subsection \<open>Closing\<close>

lemma close_flows_inv: "el_inv ct e \<Longrightarrow> el_inv ct (close_flows e)"
  by (auto simp: close_flows_def Let_def IFLOW_CALL_def el_act_def el_inv_def flows_inv_def once_inv_def flows_after_snoc
      open_flows_def split: option.splits)

lemma close_flows_none: "el_inv ct e \<Longrightarrow> open_flows (close_flows e) = {}"
  by (auto simp: close_flows_def Let_def IFLOW_CALL_def el_act_def open_flows_def split: option.splits)

lemma app_close_inv:
  "el_inv ct e \<Longrightarrow> CB_close \<in> el_cbs e \<Longrightarrow> el_inv ct (el_act (App_close er m t u c) (e\<lparr>el_cbs := el_cbs e - {CB_close}\<rparr>))"
  by (auto simp: el_act_def el_inv_def flows_inv_def once_inv_def flows_after_snoc open_flows_def)

lemma close_flows_cbs [simp]: "el_cbs (close_flows e) = el_cbs e"
  by (simp add: close_flows_def Let_def IFLOW_CALL_def el_act_def split: option.split)

lemma cb_cbs [simp]: "el_cbs (ICALL_CALL_CB h a e) = el_cbs e" "el_cbs (on_flow c e) = el_cbs e"
  by (simp_all add: ICALL_CALL_CB_def on_flow_def IFLOW_CALL_def el_act_def split: option.split)

lemma ecall_close_inv:
  assumes "el_inv ct e"
  shows "el_inv ct (ecall_close env er t e)"
proof -
  define e1 where "e1 = close_flows (e\<lparr>el_cbs := el_cbs e - {CB_quality}, el_quality_tmr := None, el_media_start_tmr := None,
                            el_connection_tmr := None\<rparr>)"
  define e2 where "e2 = (if el_recv_state e1 \<noteq> ICALL_VIDEO_STATE_STOPPED
       then (ICALL_CALL_CB CB_vstate_changed
               (App_vstate_changed (el_userid_peer e1) (el_clientid_peer e1) ICALL_VIDEO_STATE_STOPPED) e1)
            \<lparr>el_recv_state := ICALL_VIDEO_STATE_STOPPED\<rparr>
       else e1)"
  define e3 where "e3 = (if el_ts_answered e2 \<noteq> 0 then e2\<lparr>el_metrics := close_metrics_of env e2\<rparr> else e2)"
  have "el_inv ct e1" using assms by (simp add: e1_def close_flows_inv el_inv_cbs)
  then have e2: "el_inv ct e2" by (simp add: e2_def el_inv_cb)
  then have e3: "el_inv ct e3" by (simp add: e3_def)
  have cbs: "el_cbs e2 = el_cbs e1" "el_cbs e3 = el_cbs e1" by (simp_all add: e3_def e2_def)
  have "ecall_close env er t e =
    (if CB_close \<notin> el_cbs e1 then e2
     else el_act (App_close er (if el_ts_answered e3 \<noteq> 0 then Some (el_metrics e3) else None) t (el_userid_peer e3)
            (el_clientid_peer e3)) (e3\<lparr>el_cbs := el_cbs e3 - {CB_close}\<rparr>))"
    unfolding ecall_close_def Let_def e3_def e2_def e1_def close_flows_cbs by (rule refl)
  then show ?thesis using e2 app_close_inv [OF e3] cbs by simp
qed

subsection \<open>Messages and flows\<close>

lemma dce_sendmsg_inv: "el_inv ct e \<Longrightarrow> el_inv ct (snd (ecall_dce_sendmsg env msg e))"
  by (auto simp: ecall_dce_sendmsg_def el_calls split: option.splits prod.splits err.splits)

lemma send_handler_inv: "el_inv ct e \<Longrightarrow> el_inv ct (snd (send_handler env msg e))"
  unfolding send_handler_def by (intro el_shape el_calls dce_sendmsg_inv | simp)+

lemma conn_op_inv: "el_inv ct e \<Longrightarrow> el_inv ct (snd (conn_op env f e))"
proof -
  have sent: "el_inv ct (conn_sent env a e)" if "el_inv ct e" for a e
    using that by (cases a) (simp_all add: send_handler_inv)
  show "el_inv ct e \<Longrightarrow> ?thesis" by (auto simp: conn_op_def intro!: el_inv_fold sent split: option.split prod.split)
qed

lemma send_propsync_inv: "el_inv ct e \<Longrightarrow> el_inv ct (snd (send_propsync env r e))"
  by (simp add: send_propsync_def conn_op_inv)

lemma flow_setup_inv: "el_inv ct e \<Longrightarrow> el_inv ct (flow_setup env role cbr e)"
  unfolding flow_setup_def gather_all_def by (intro el_shape el_calls el_inv_fold | simp)+

lemma new_flow_inv:
  assumes "el_inv ct e" and "el_flow e = None"
  shows "el_inv ct (el_act (Flow (el_flows e) Fl_alloc) (e\<lparr>el_flow := Some (el_flows e), el_flows := Suc (el_flows e)\<rparr>))"
  using assms by (auto simp: el_act_def el_inv_def flows_inv_def once_inv_def flows_after_snoc open_flows_def)

lemma shift_flow_inv:
  assumes "el_inv ct e"
  shows "el_inv ct ((IFLOW_CALL (el_oldflow e) Fl_close e)\<lparr>el_oldflow := el_flow e, el_flow := None\<rparr>)"
  using assms by (auto simp: IFLOW_CALL_def el_act_def el_inv_def flows_inv_def once_inv_def flows_after_snoc open_flows_def
      split: option.splits)

lemma call_flow [simp]: "el_flow (IFLOW_CALL f c e) = el_flow e" "el_flow (on_flow c e) = el_flow e"
  by (simp_all add: on_flow_def IFLOW_CALL_def el_act_def split: option.split)

lemma alloc_flow_inv:
  assumes "el_inv ct e"
  shows "el_inv ct (snd (alloc_flow env role kt cbr e))"
proof -
  define e1 where "e1 = (IFLOW_CALL (el_oldflow e) Fl_close e)\<lparr>el_oldflow := el_flow e, el_flow := None, el_established := False\<rparr>"
  have "el_inv ct e1" "el_flow e1 = None" using shift_flow_inv [OF assms] by (simp_all add: e1_def)
  then show ?thesis
    by (simp add: alloc_flow_def Let_def e1_def [symmetric] flow_setup_inv new_flow_inv)
qed

lemma start_tmr_inv: "el_inv ct e \<Longrightarrow> el_inv ct (start_connection_tmr e)"
  by (simp add: start_connection_tmr_def)

lemmas el_msgs = el_calls send_handler_inv conn_op_inv send_propsync_inv alloc_flow_inv start_tmr_inv ecall_close_inv

lemma generate_answer_inv: "el_inv ct e \<Longrightarrow> el_inv ct (snd (generate_answer env p e))"
  unfolding generate_answer_def by (intro el_shape el_msgs | simp)+

lemma pending_offer_inv: "el_inv ct e \<Longrightarrow> el_inv ct (snd (handle_pending_offer env e))"
  unfolding handle_pending_offer_def by (intro el_shape el_msgs | simp)+

lemma generate_or_gather_inv: "el_inv ct e \<Longrightarrow> el_inv ct (snd (generate_or_gather_answer env p e))"
  unfolding generate_or_gather_answer_def gather_all_def
  by (intro el_shape el_msgs generate_answer_inv pending_offer_inv | simp)+

lemma props_update_inv: "el_inv ct e \<Longrightarrow> el_inv ct (snd (props_update env k v e))"
  by (auto simp: props_update_def el_calls split: option.split prod.split)

lemma props_set_local_inv: "el_inv ct e \<Longrightarrow> el_inv ct (snd (ecall_props_set_local env k v e))"
  by (auto simp: ecall_props_set_local_def props_update_inv el_calls split: option.split prod.split)

lemma mute_props_inv: "el_inv ct e \<Longrightarrow> el_inv ct (update_mute_props env e)"
  by (simp add: update_mute_props_def props_update_inv)

lemma ecall_answer_inv: "el_inv ct e \<Longrightarrow> el_inv ct (snd (ecall_answer env t cbr e))"
  unfolding ecall_answer_def by (intro el_shape el_msgs generate_or_gather_inv mute_props_inv | simp)+

lemma offer_and_connect_inv: "el_inv ct e \<Longrightarrow> el_inv ct (snd (offer_and_connect env e))"
  unfolding offer_and_connect_def by (intro el_shape el_msgs | simp)+

lemma generate_offer_inv: "el_inv ct e \<Longrightarrow> el_inv ct (snd (generate_offer env e))"
  unfolding generate_offer_def by (intro el_shape el_msgs offer_and_connect_inv | simp)+

subsection \<open>Callbacks of the connection\<close>

lemma propsync_handler_inv: "el_inv ct e \<Longrightarrow> el_inv ct (propsync_handler env e)"
  by (auto simp: propsync_handler_def Let_def el_calls split: option.split prod.split)

lemma conn_handler_inv: "el_inv ct e \<Longrightarrow> el_inv ct (econn_conn_handler env t u c sdp props reset e)"
  unfolding econn_conn_handler_def conn_peer_def set_offer_sdp_def
  by (intro el_shape el_msgs ecall_answer_inv | simp)+

lemma update_req_handler_inv: "el_inv ct e \<Longrightarrow> el_inv ct (econn_update_req_handler env u sdp props e)"
  unfolding econn_update_req_handler_def set_offer_sdp_def
  by (intro el_shape el_msgs generate_or_gather_inv propsync_handler_inv | simp add: el_inv_act)+

lemma answer_handler_inv: "el_inv ct e \<Longrightarrow> el_inv ct (econn_answer_handler env reset sdp props e)"
  unfolding econn_answer_handler_def answer_reset_def set_offer_sdp_def
  by (intro el_shape el_msgs generate_or_gather_inv | simp add: el_inv_act)+

lemma update_resp_handler_inv: "el_inv ct e \<Longrightarrow> el_inv ct (econn_update_resp_handler env sdp props e)"
  unfolding econn_update_resp_handler_def by (intro el_shape el_msgs | simp)+

lemma conn_callback_inv: "el_inv ct e \<Longrightarrow> el_inv ct (conn_callback env a e)"
  by (cases a) (auto simp: conn_handler_inv update_req_handler_inv answer_handler_inv update_resp_handler_inv send_handler_inv
      econn_confmsg_handler_def econn_ping_handler_def econn_close_handler_def ecall_media_stop_def el_msgs el_inv_act)

lemma conn_run_inv: "el_inv ct e \<Longrightarrow> el_inv ct (conn_run env f e)"
  by (auto simp: conn_run_def Let_def intro!: el_inv_fold conn_callback_inv split: option.split)

subsection \<open>Operations\<close>

lemma create_econn_inv: "el_inv ct e \<Longrightarrow> el_inv ct (snd (ecall_create_econn env e))"
  by (auto simp: ecall_create_econn_def el_calls split: option.split prod.split)

lemma ecall_start_inv: "el_inv ct e \<Longrightarrow> el_inv ct (snd (ecall_start env t cbr e))"
  unfolding ecall_start_def
  by (intro el_shape el_msgs ecall_answer_inv create_econn_inv mute_props_inv props_update_inv generate_offer_inv | simp)+

lemma restart_close_inv:
  "el_inv ct e \<Longrightarrow> el_conv_type e = ICALL_CONV_TYPE_CONFERENCE \<Longrightarrow> el_inv ct (ICALL_CALL_CB CB_close (App_close er m t u c) e)"
  by (auto simp: ICALL_CALL_CB_def el_act_def el_inv_def flows_inv_def once_inv_def flows_after_snoc open_flows_def)

lemma restart_notify_inv: "el_inv ct e \<Longrightarrow> el_inv ct (restart_notify e)"
  by (simp add: restart_notify_def Let_def el_calls)

lemma ecall_restart_inv: "el_inv ct e \<Longrightarrow> el_inv ct (snd (ecall_restart env t n e))"
  unfolding ecall_restart_def
  by (intro el_shape restart_close_inv el_msgs restart_notify_inv generate_offer_inv | simp add: el_inv_act)+

lemma ecall_end_inv: "el_inv ct e \<Longrightarrow> el_inv ct (ecall_end env e)"
  by (simp add: ecall_end_def conn_end_def el_msgs)

lemma media_start_inv: "el_inv ct e \<Longrightarrow> el_inv ct (snd (ecall_media_start env e))"
  unfolding ecall_media_start_def by (intro el_shape el_msgs | simp)+

lemma video_sync_inv: "el_inv ct e \<Longrightarrow> el_inv ct (snd (video_sync env e))"
  by (simp add: video_sync_def el_msgs)

lemma video_flow_inv: "el_inv ct e \<Longrightarrow> el_inv ct (snd (video_flow env v e))"
  unfolding video_flow_def by (intro el_shape el_msgs video_sync_inv ecall_restart_inv | simp)+

lemma video_state_inv:
  assumes "el_inv ct e"
  shows "el_inv ct (snd (ecall_set_video_send_state env v e))"
proof -
  obtain vs ss where vs: "video_strings v = (vs, ss)" by (cases "video_strings v")
  show ?thesis unfolding ecall_set_video_send_state_def vs prod.case Let_def [of "(vs, ss)"] using assms
    by (intro el_shape el_msgs props_update_inv video_flow_inv | simp)+
qed

lemma mute_state_inv: "el_inv ct e \<Longrightarrow> el_inv ct (snd (ecall_update_mute_state env e))"
  unfolding ecall_update_mute_state_def by (intro el_shape props_update_inv video_sync_inv | simp)+

lemma dce_send_inv: "el_inv ct e \<Longrightarrow> el_inv ct (snd (ecall_dce_send env mb e))"
  unfolding ecall_dce_send_def by (intro el_shape el_msgs | simp)+

lemma reject_inv: "el_inv ct e \<Longrightarrow> el_inv ct (ecall_reject e)"
  by (simp add: ecall_reject_def el_msgs)

lemma ecall_set_clients_inv: "el_inv ct e \<Longrightarrow> el_inv ct (ecall_set_clients env cl e)"
  by (simp add: ecall_set_clients_def icall_send_reject_msg_def Let_def el_msgs split: option.split)

lemma flow_calls_inv:
  assumes "el_inv ct e"
  shows "el_inv ct (snd (ecall_update_ssrc env a v e))" "el_inv ct (snd (ecall_add_decoders_for_user env u c h a v e))"
    "el_inv ct (snd (ecall_remove_decoders_for_user env u c a v e))" "el_inv ct (snd (ecall_sync_decoders env e))"
    "el_inv ct (snd (ecall_stats_struct e))" "el_inv ct (snd (ecall_set_keystore k e))" "el_inv ct (snd (ecall_has_video env e))"
    "el_inv ct (ecall_media_stop e)"
  using assms
  by (simp_all add: ecall_update_ssrc_def ecall_add_decoders_for_user_def ecall_remove_decoders_for_user_def ecall_sync_decoders_def
      ecall_stats_struct_def ecall_set_keystore_def ecall_has_video_def ecall_media_stop_def el_msgs split: option.split)

lemma settings_inv:
  assumes "el_inv ct e"
  shows "el_inv ct (snd (ecall_add_turnserver s e))" "el_inv ct (snd (ecall_set_quality_interval i e))"
    "el_inv ct (snd (ecall_set_sessid sid e))" "el_inv ct (ecall_set_peer_userid u e)" "el_inv ct (ecall_set_peer_clientid u e)"
    "el_inv ct (snd (ecall_set_confmsg_handler b e))" "el_inv ct (snd (ecall_set_propsync_handler b e))"
    "el_inv ct (snd (ecall_set_ping_handler b e))"
  using assms
  by (simp_all add: ecall_add_turnserver_def ecall_set_quality_interval_def ecall_set_sessid_def ecall_set_peer_userid_def
      ecall_set_peer_clientid_def ecall_set_confmsg_handler_def ecall_set_propsync_handler_def ecall_set_ping_handler_def
      el_inv_fail split: option.split)

lemma ecall_sync_props_inv: "el_inv ct e \<Longrightarrow> el_inv ct (snd (ecall_sync_props env r e))"
  by (simp add: ecall_sync_props_def el_msgs)

lemma ping_inv: "el_inv ct e \<Longrightarrow> el_inv ct (snd (ecall_ping env r e))"
  by (simp add: ecall_ping_def el_msgs)

subsection \<open>Messages received, timers and flows\<close>

lemma handle_propsync_inv: "el_inv ct e \<Longrightarrow> el_inv ct (snd (handle_propsync env m e))"
  unfolding handle_propsync_def by (intro el_shape el_msgs propsync_handler_inv | simp add: el_inv_act)+

lemma recv_ids_inv: "el_inv ct e \<Longrightarrow> el_inv ct (recv_ids u c e)"
  unfolding recv_ids_def by (intro el_shape el_msgs settings_inv | simp)+

lemma same_user_inv: "el_inv ct e \<Longrightarrow> el_inv ct (recv_same_user env m e)"
  unfolding recv_same_user_def by (intro el_shape el_msgs conn_run_inv | simp)+

lemma ecall_msg_recv_inv:
  assumes "el_inv ct e"
  shows "el_inv ct (snd (ecall_msg_recv env u c m e))"
proof -
  have "el_inv ct (snd (ecall_msg_recv env (Some u') (Some c') (Some m') e))" for u' c' m'
    unfolding ecall_msg_recv_def prod.case option.case using assms
    by (intro el_shape recv_ids_inv handle_propsync_inv same_user_inv create_econn_inv conn_run_inv | simp)+
  then show ?thesis using assms by (cases u; cases c; cases m) (simp_all add: ecall_msg_recv_def)
qed

lemma transp_recv_inv: "el_inv ct e \<Longrightarrow> el_inv ct (ecall_transp_recv env t0 t1 u c s e)"
  by (auto simp: ecall_transp_recv_def ecall_msg_recv_inv el_inv_fail split: option.split prod.split err.split)

lemma timers_inv:
  assumes "el_inv ct e"
  shows "el_inv ct (connection_timeout_handler env e)" "el_inv ct (media_start_timeout_handler env e)"
    "el_inv ct (audio_level_handler env e)" "el_inv ct (quality_handler env e)"
proof -
  show "el_inv ct (connection_timeout_handler env e)" "el_inv ct (media_start_timeout_handler env e)"
    using assms by (simp_all add: connection_timeout_handler_def media_start_timeout_handler_def conn_set_error_def
        ecall_restart_inv ecall_end_inv el_msgs)
  show "el_inv ct (audio_level_handler env e)" unfolding audio_level_handler_def using assms by (intro el_shape el_msgs | simp)+
  show "el_inv ct (quality_handler env e)" unfolding quality_handler_def using assms by (intro el_shape el_msgs | simp)+
qed

lemma mf_estab_inv: "el_inv ct e \<Longrightarrow> el_inv ct (mf_estab_handler env f e)"
  unfolding mf_estab_handler_def by (intro el_shape el_msgs media_start_inv ecall_end_inv | simp)+

lemma mf_restart_inv: "el_inv ct e \<Longrightarrow> el_inv ct (mf_restart_handler env f cbr e)"
  unfolding mf_restart_handler_def by (intro el_shape ecall_restart_inv | simp)+

lemma mf_close_old_inv:
  assumes "el_inv ct e" and "el_oldflow e = Some f"
  shows "el_inv ct (IFLOW_CALL (Some f) Fl_close (e\<lparr>el_oldflow := None\<rparr>))"
  using assms by (auto simp: IFLOW_CALL_def el_act_def el_inv_def flows_inv_def once_inv_def flows_after_snoc open_flows_def)

lemma mf_close_inv: "el_inv ct e \<Longrightarrow> el_inv ct (mf_close_handler env f er e)"
  unfolding mf_close_handler_def
  by (intro el_shape mf_close_old_inv ecall_restart_inv ecall_end_inv ecall_close_inv | simp add: conn_set_error_def)+

lemma gather_done_inv: "el_inv ct (snd r) \<Longrightarrow> el_inv ct (gather_done env r)"
  by (cases r) (simp add: gather_done_def ecall_close_inv)

lemma mf_gather_inv: "el_inv ct e \<Longrightarrow> el_inv ct (mf_gather_handler env f e)"
  by (simp add: mf_gather_handler_def gather_done_inv offer_and_connect_inv generate_answer_inv split: async_sdp.split)

lemma estab_sync_inv: "el_inv ct e \<Longrightarrow> el_inv ct (snd (estab_sync env e))"
  unfolding estab_sync_def by (intro el_shape el_msgs props_update_inv | simp)+

lemma estab_done_inv: "el_inv ct e \<Longrightarrow> el_inv ct (estab_done env e)"
  unfolding estab_done_def by (intro el_shape el_msgs video_state_inv | simp)+

lemma data_channel_inv: "el_inv ct e \<Longrightarrow> el_inv ct (data_channel_handler env f d e)"
  by (auto simp: data_channel_handler_def handle_propsync_inv conn_run_inv el_inv_fail split: option.split prod.split err.split)

lemma channel_close_inv: "el_inv ct e \<Longrightarrow> el_inv ct (channel_close_handler env f e)"
  by (simp add: channel_close_handler_def ecall_restart_inv ecall_close_inv)

lemma rtp_start_inv: "el_inv ct e \<Longrightarrow> el_inv ct (rtp_start_handler env f s e)"
  unfolding rtp_start_handler_def by (intro el_shape el_msgs | simp)+

lemma acbr_inv: "el_inv ct e \<Longrightarrow> el_inv ct (acbr_detect_handler env f i e)"
  by (auto simp: acbr_detect_handler_def Let_def el_inv_act el_inv_fail split: option.split)

lemma small_handlers_inv: "el_inv ct e \<Longrightarrow> el_inv ct (mf_stopped_handler f e)" "el_inv ct e \<Longrightarrow> el_inv ct (norelay_handler l e)"
  by (simp_all add: mf_stopped_handler_def norelay_handler_def el_msgs)

lemma apply_inv: "el_inv ct e \<Longrightarrow> el_inv ct (ecall_apply env op e)"
  by (cases op)
    (simp_all add: ecall_start_inv ecall_answer_inv ecall_end_inv reject_inv ecall_set_clients_inv ecall_msg_recv_inv transp_recv_inv
      ecall_restart_inv video_state_inv mute_state_inv media_start_inv flow_calls_inv ecall_sync_props_inv props_set_local_inv
      dce_send_inv ping_inv settings_inv ecall_close_inv conn_run_inv timers_inv mf_estab_inv mf_restart_inv mf_close_inv
      mf_gather_inv data_channel_inv channel_close_inv rtp_start_inv acbr_inv small_handlers_inv)

subsection \<open>The data channel\<close>

text \<open>The channel that has been established takes data.\<close>

definition dce_ready :: "fl_env \<Rightarrow> bool" where
  "dce_ready env \<longleftrightarrow> (\<forall>acts s. fe_dce_send env acts s \<noteq> ENOENT)"

definition sends_to :: "nat option \<Rightarrow> string list \<Rightarrow> el_act list" where
  "sends_to flow mbs = (case flow of Some f \<Rightarrow> map (\<lambda>mb. Flow f (Fl_dce_send mb)) mbs | None \<Rightarrow> [])"

lemma pending_step_ready:
  assumes "dce_ready env" and "el_dce_pendingl e = mb # mbs"
  shows "pending_step env e =
    (e\<lparr>el_dce_pendingl := mbs, el_trace := el_trace e @ sends_to (el_flow e) [mb]\<rparr>)"
  using assms by (auto simp: pending_step_def ecall_dce_send_def IFLOW_CALLE_def on_flow_def IFLOW_CALL_def el_act_def Let_def
      dce_ready_def sends_to_def split: option.split)

lemma send_pending_ready:
  assumes "dce_ready env"
  shows "send_pending env e =
    Some (e\<lparr>el_dce_pendingl := [], el_trace := el_trace e @ sends_to (el_flow e) (el_dce_pendingl e)\<rparr>)"
proof (induction "el_dce_pendingl e" arbitrary: e)
  case Nil
  then show ?case by (simp add: send_pending_def while_option_unfold sends_to_def split: option.split)
next
  case (Cons mb mbs)
  have "send_pending env e = send_pending env (pending_step env e)"
    using Cons.hyps(2) [symmetric] by (simp add: send_pending_def while_option_unfold [of _ _ e])
  also have "\<dots> = Some (e\<lparr>el_dce_pendingl := [], el_trace := el_trace e @ sends_to (el_flow e) (el_dce_pendingl e)\<rparr>)"
    using Cons.hyps(1) [of "pending_step env e"] pending_step_ready [OF assms Cons.hyps(2) [symmetric]] Cons.hyps(2) [symmetric]
    by (simp add: sends_to_def split: option.splits)
  finally show ?case .
qed

lemma sends_flows: "S = Some T \<Longrightarrow> f \<in> T \<Longrightarrow> fold (\<lambda>a S. Option.bind S (flow_act a)) (sends_to (Some f) mbs) S = S"
  by (induction mbs) (simp_all add: sends_to_def)

lemma sends_no_close: "filter is_app_close (sends_to flow mbs) = []"
  by (induction mbs) (simp_all add: sends_to_def split: option.split)

lemma send_pending_inv: "el_inv ct e \<Longrightarrow> el_inv ct (e\<lparr>el_dce_pendingl := [], el_trace := el_trace e @ sends_to (el_flow e) mbs\<rparr>)"
  by (cases "el_flow e")
    (auto simp: el_inv_def flows_inv_def once_inv_def open_flows_def flows_after_def sends_no_close sends_flows
      sends_to_def [of None])

lemma channel_estab_inv:
  assumes "el_inv ct e" and "dce_ready env"
  shows "\<exists>e'. channel_estab_handler env f e = Some e' \<and> el_inv ct e'"
proof (cases "stale f e")
  case False
  define e1 where "e1 = ((IFLOW_CALL (el_oldflow e) Fl_close e)\<lparr>el_oldflow := None\<rparr>)
      \<lparr>el_econn := map_option econn_set_datachan_established
         (el_econn ((IFLOW_CALL (el_oldflow e) Fl_close e)\<lparr>el_oldflow := None\<rparr>))\<rparr>"
  have e1: "el_inv ct e1" using close_old_inv [OF assms(1)] by (simp add: e1_def)
  obtain er e2 where e2: "estab_sync env e1 = (er, e2)" "el_inv ct e2" using estab_sync_inv [OF e1, of env] by (cases "estab_sync env e1") auto
  have "channel_estab_handler env f e =
    (if el_delayed_restart e1 then Some (snd (ecall_restart env (el_call_type e1) False (e1\<lparr>el_delayed_restart := False\<rparr>)))
     else if er \<noteq> OK then Some (ecall_close env er ECONN_MESSAGE_TIME_UNKNOWN e2)
     else map_option (estab_done env) (send_pending env e2))"
    using False e2(1) unfolding channel_estab_handler_def Let_def e1_def by simp
  then show ?thesis
    using e1 e2(2) by (simp add: ecall_restart_inv ecall_close_inv send_pending_ready [OF assms(2)] estab_done_inv send_pending_inv)
qed (use assms in \<open>simp add: channel_estab_handler_def\<close>)

subsection \<open>The machine\<close>

fun is_estab :: "ecall_op \<Rightarrow> bool" where
  "is_estab (EOp_channel_estab _) = True"
| "is_estab _ = False"

definition el_guard :: "ecall \<Rightarrow> fl_env \<times> ecall_op \<Rightarrow> bool" where
  "el_guard e ev \<longleftrightarrow> (is_estab (snd ev) \<longrightarrow> dce_ready (fst ev))"

lemma el_step_inv:
  assumes "el_inv ct e" and "el_guard e ev"
  shows "\<exists>e'. ecall_step e ev = Some e' \<and> el_inv ct e'"
proof (cases "is_estab (snd ev)")
  case True
  then obtain f where "snd ev = EOp_channel_estab f" by (cases "snd ev") simp_all
  then show ?thesis using channel_estab_inv [OF assms(1)] assms(2) by (simp add: ecall_step_def el_guard_def)
next
  case False
  then have "ecall_step e ev = Some (ecall_apply (fst ev) (snd ev) e)" by (cases "snd ev") (simp_all add: ecall_step_def)
  then show ?thesis using apply_inv [OF assms(1)] by simp
qed

interpretation elm: inv_machine ecall_step el_guard "el_inv ct" for ct
  by unfold_locales (rule el_step_inv)

section \<open>Theorems\<close>

lemma alloc_init:
  assumes "ecall_alloc env ct kt conf msys cv u c = (OK, Some e)"
  obtains props cv' u' c' where "e = ecall_init env ct kt conf props cv' u' c'"
  using assms unfolding ecall_alloc_def Let_def by (auto split: prod.splits if_splits option.splits)

lemma ecall_alloc_inv:
  assumes "ecall_alloc env ct kt conf msys cv u c = (OK, Some e)"
  shows "el_inv ct (e\<lparr>el_cbs := cbs\<rparr>)"
  using assms by (rule alloc_init) (simp add: ecall_init_def el_inv_def flows_inv_def once_inv_def open_flows_def flows_after_def)

lemma destructor_flows:
  assumes "el_inv ct e"
  shows "flows_after (el_trace (ecall_destructor e)) = Some {}"
proof -
  let ?e = "e\<lparr>el_media_start_tmr := None, el_connection_tmr := None, el_quality_tmr := None, el_level_tmr := None\<rparr>"
  have "el_inv ct ?e" using assms by simp
  from close_flows_inv [OF this] close_flows_none [OF this] show ?thesis
    by (simp add: ecall_destructor_def el_inv_def flows_inv_def)
qed

lemma open_card: "card (open_flows e) \<le> 2"
proof -
  have "card (set_option x) \<le> 1" for x :: "nat option" by (cases x) simp_all
  then have "card (set_option (el_flow e)) + card (set_option (el_oldflow e)) \<le> 1 + 1" by (intro add_mono) 
  then show ?thesis using card_Un_le [of "set_option (el_flow e)" "set_option (el_oldflow e)"] by (simp add: open_flows_def)
qed

text \<open>
  C5: media flows are used safely. In every sequence of operations, timers, messages and events of
  flows, no function of a flow is called before it is allocated or after it is closed, none is closed twice,
  at most two are open, namely the current and the previous one, and the destructor closes those.
\<close>

theorem ecall_flows_safe:
  assumes "ecall_alloc env ct kt conf msys cv u c = (OK, Some e)" and "guarded ecall_step el_guard (e\<lparr>el_cbs := cbs\<rparr>) evs"
  shows "\<exists>e'. run ecall_step (e\<lparr>el_cbs := cbs\<rparr>) evs = Some e' \<and> flows_after (el_trace e') = Some (open_flows e') \<and>
    card (open_flows e') \<le> 2 \<and> flows_after (el_trace (ecall_destructor e')) = Some {}"
proof -
  obtain e' where e': "run ecall_step (e\<lparr>el_cbs := cbs\<rparr>) evs = Some e'" "el_inv ct e'"
    using elm.run_inv [OF ecall_alloc_inv [OF assms(1)] assms(2)] by blast
  then have "flows_after (el_trace e') = Some (open_flows e')" by (simp add: el_inv_def flows_inv_def)
  then show ?thesis using e' open_card destructor_flows [OF e'(2)] by simp
qed

definition demo_fl :: fl_env where
  "demo_fl = \<lparr>fe_re = wire_re, fe_now = 5, fe_muted = False, fe_privacy = False, fe_rnd = ''s'', fe_flow_alloc = OK,
     fe_gathered = True, fe_offer = (OK, ''v=0''), fe_answer = (OK, ''v=1''), fe_handle_offer = (\<lambda>_. OK),
     fe_handle_answer = (\<lambda>_. OK), fe_dce_send = (\<lambda>_ _. OK), fe_send = (\<lambda>_. OK), fe_audio_cbr = False,
     fe_has_video = False, fe_set_video_state = OK, fe_stats = (OK, \<lparr>sr_rtt = 0, sr_lost_rx = 0, sr_lost_tx = 0\<rparr>),
     fe_levels = (OK, []), fe_ssrc = OK, fe_decoders = OK, fe_propsync = OK\<rparr>"

definition demo_call :: "string \<Rightarrow> string \<Rightarrow> ecall" where
  "demo_call u c =
     ecall_init demo_fl ICALL_CONV_TYPE_ONEONONE ICALL_CALL_TYPE_NORMAL None
       [(''videosend'', ODICT_STRING ''false''), (''screensend'', ODICT_STRING ''false''),
        (''audiocbr'', ODICT_STRING ''false''), (''muted'', ODICT_STRING ''false'')] ''conv'' u c"

lemma demo_call_alloc:
  "ecall_alloc demo_fl ICALL_CONV_TYPE_ONEONONE ICALL_CALL_TYPE_NORMAL None True (Some ''conv'') (Some u) (Some c) =
   (OK, Some (demo_call u c))"
  by (simp add: ecall_alloc_def demo_call_def demo_fl_def wire_re_def econn_props_add_def muted_str_def Let_def)

theorem ecall_flows_safe_witness:
  "\<exists>e'. run ecall_step ((demo_call ''alice'' ''c1'')\<lparr>el_cbs := {CB_send}\<rparr>)
      [(demo_fl, EOp_start ICALL_CALL_TYPE_NORMAL False), (demo_fl, EOp_channel_estab 0), (demo_fl, EOp_end)] = Some e' \<and>
    flows_after (el_trace e') = Some (open_flows e') \<and>
    card (open_flows e') \<le> 2 \<and> flows_after (el_trace (ecall_destructor e')) = Some {}"
proof (rule ecall_flows_safe [OF demo_call_alloc])
  have g: "guarded ecall_step el_guard e ((demo_fl, op) # evs)"
    if "\<And>e'. guarded ecall_step el_guard e' evs" for e op evs
    using that by (auto simp: el_guard_def dce_ready_def demo_fl_def split: option.split)
  show "guarded ecall_step el_guard ((demo_call ''alice'' ''c1'')\<lparr>el_cbs := {CB_send}\<rparr>)
      [(demo_fl, EOp_start ICALL_CALL_TYPE_NORMAL False), (demo_fl, EOp_channel_estab 0), (demo_fl, EOp_end)]"
    by (intro g) simp
qed

text \<open>
  C13: a call ends once. Whatever happens to a call that is not the connection of a conference, the application's
  close handler is called at most once.
\<close>

theorem ecall_close_at_most_once:
  assumes "ecall_alloc env ct kt conf msys cv u c = (OK, Some e)" and "ct \<noteq> ICALL_CONV_TYPE_CONFERENCE"
    and "run ecall_step (e\<lparr>el_cbs := cbs\<rparr>) evs = Some e'" and "guarded ecall_step el_guard (e\<lparr>el_cbs := cbs\<rparr>) evs"
  shows "length (filter is_app_close (el_trace e')) \<le> 1"
proof -
  have "el_inv ct e'" using elm.run_inv [OF ecall_alloc_inv [OF assms(1)] assms(4)] assms(3) by simp
  then show ?thesis using assms(2) by (auto simp: el_inv_def once_inv_def split: if_splits)
qed

lemma demo_close_run:
  "run ecall_step ((demo_call ''alice'' ''c1'')\<lparr>el_cbs := {CB_close}\<rparr>)
     [(demo_fl, EOp_close EIO 3), (demo_fl, EOp_close EIO 4)] =
   Some (ecall_close demo_fl EIO 4 (ecall_close demo_fl EIO 3 ((demo_call ''alice'' ''c1'')\<lparr>el_cbs := {CB_close}\<rparr>)))"
  by (simp add: ecall_step_def)

theorem ecall_close_at_most_once_witness:
  "length (filter is_app_close (el_trace
     (ecall_close demo_fl EIO 4 (ecall_close demo_fl EIO 3 ((demo_call ''alice'' ''c1'')\<lparr>el_cbs := {CB_close}\<rparr>))))) \<le> 1"
  by (rule ecall_close_at_most_once [OF demo_call_alloc _ demo_close_run]) (simp_all add: ecall_step_def el_guard_def)

text \<open>
  C21: messages that wait for the data channel are sent in order. When the channel is established and takes
  data, the loop over the list ends, every message has been given to the current flow in the order in which the
  messages came, and none is left.
\<close>

theorem ecall_pending_in_order:
  assumes "dce_ready env"
  shows "send_pending env e =
    Some (e\<lparr>el_dce_pendingl := [], el_trace := el_trace e @ sends_to (el_flow e) (el_dce_pendingl e)\<rparr>)"
  by (rule send_pending_ready [OF assms])

theorem ecall_pending_in_order_witness:
  "map_option (\<lambda>e. (el_dce_pendingl e, el_trace e))
     (send_pending demo_fl ((demo_call ''alice'' ''c1'')\<lparr>el_flow := Some 0, el_dce_pendingl := [''a'', ''b'']\<rparr>)) =
   Some ([], [Flow 0 (Fl_dce_send ''a''), Flow 0 (Fl_dce_send ''b'')])"
proof -
  have "dce_ready demo_fl" by (simp add: dce_ready_def demo_fl_def)
  from ecall_pending_in_order [OF this] show ?thesis by (simp add: sends_to_def demo_call_def ecall_init_def)
qed

lemma while_option_never:
  assumes "P s" and "\<And>s. P s \<Longrightarrow> b s \<and> P (c s)"
  shows "while_option b c s = None"
proof (rule ccontr)
  assume "while_option b c s \<noteq> None"
  then obtain t where t: "while_option b c s = Some t" by auto
  have "P t" using while_option_rule [where P = P, OF _ t assms(1)] assms(2) by blast
  then show False using assms(2) while_option_stop [OF t] by blast
qed

text \<open>
  C32: a channel that does not take data yet makes the loop endless. If the flow still answers
  ENOENT when the channel is reported as established, each message is put back at the end of the list it is
  taken from, and the handler does not return.
\<close>

theorem ecall_pending_endless:
  assumes "\<forall>acts s. fe_dce_send env acts s = ENOENT" and "el_flow e = Some f" and "el_dce_pendingl e \<noteq> []"
  shows "send_pending env e = None"
  unfolding send_pending_def
proof (rule while_option_never [of "\<lambda>e. el_flow e = Some f \<and> el_dce_pendingl e \<noteq> []"])
  show "el_flow e = Some f \<and> el_dce_pendingl e \<noteq> []" using assms by simp
  show "el_dce_pendingl e \<noteq> [] \<and> el_flow (pending_step env e) = Some f \<and> el_dce_pendingl (pending_step env e) \<noteq> []"
    if "el_flow e = Some f \<and> el_dce_pendingl e \<noteq> []" for e
    using that assms(1)
    by (auto simp: pending_step_def ecall_dce_send_def IFLOW_CALLE_def on_flow_def IFLOW_CALL_def el_act_def Let_def)
qed

theorem ecall_pending_endless_witness:
  "send_pending (demo_fl\<lparr>fe_dce_send := (\<lambda>_ _. ENOENT)\<rparr>)
     ((demo_call ''alice'' ''c1'')\<lparr>el_flow := Some 0, el_dce_pendingl := [''a'']\<rparr>) = None"
  by (rule ecall_pending_endless [of _ _ 0]) simp_all

end
