(* ===== verification/Ecall_Setup.thy ===== *)
theory Ecall_Setup
  imports Ecall_Props
begin

text \<open>
  A call between two ends, from the start to the answer: the calls, their connections, the format of the messages
  and the media flows together.
\<close>

text \<open>\<open>prints\<close>: every object can be printed.\<close>

definition prints :: "re_env \<Rightarrow> bool" where
  "prints re \<longleftrightarrow> (\<forall>d. fst (js_print re (ODICT_OBJECT d)) = OK)"

lemma re_str_ok_env: "re_env_ok re \<Longrightarrow> re_str_ok re"
  by (simp add: re_str_ok_def)

lemma wire_ok:
  assumes "re_env_ok re" and "prints re" and "msg_ok m"
  obtains str where "econn_message_encode re m = Some (OK, Some str)"
    and "\<And>t0 t1. econn_message_decode re True t0 t1 str = Some (OK, Some (stamped t0 t1 m))"
proof -
  obtain t where t: "em_msg_type m = Some t" "u_typed t (em_u m)" using assms(3) by (auto simp: msg_ok_def split: option.splits)
  obtain str where str: "js_print re (ODICT_OBJECT (msg_entries re m)) = (OK, str)"
    using assms(2) unfolding prints_def by (metis prod.collapse)
  show thesis
  proof (rule that)
    show "econn_message_encode re m = Some (OK, Some str)"
      using encode_wire [OF assms(1) t msg_ok_sendable [OF assms(3)]] str by (simp add: wire_text_def)
    show "econn_message_decode re True t0 t1 str = Some (OK, Some (stamped t0 t1 m))" for t0 t1
      by (rule decode_wire [OF assms(1,3) str])
  qed
qed

section \<open>Properties of a call\<close>

lemma odict_set_keys [simp]: "map fst (odict_set d k v) = map fst d"
  by (induction d k v rule: odict_set.induct) simp_all

lemma odict_set_ok: "props_ok d \<Longrightarrow> props_ok (odict_set d k (ODICT_STRING v))"
proof -
  have "list_all P d \<Longrightarrow> P (k, ODICT_STRING v) \<Longrightarrow> list_all P (odict_set d k (ODICT_STRING v))" for P
    by (induction d k "ODICT_STRING v" rule: odict_set.induct) auto
  then show "props_ok d \<Longrightarrow> ?thesis" by (simp add: props_ok_def)
qed

lemma props_string:
  assumes "props_ok d" and "map_of d k = Some j"
  shows "\<exists>s. j = ODICT_STRING s"
proof -
  have "case j of ODICT_STRING x \<Rightarrow> True | _ \<Rightarrow> False"
    using assms(1) map_of_SomeD [OF assms(2)] unfolding props_ok_def list_all_iff by fastforce
  then show ?thesis by (cases j) simp_all
qed

lemma props_lookup: "re_env_ok re \<Longrightarrow> props_ok d \<Longrightarrow> od_lookup re d k = map_of d k"
  unfolding re_env_ok_def odict_ok_def props_ok_def by blast

lemma props_append: "re_env_ok re \<Longrightarrow> map_of d k = None \<Longrightarrow> od_add re d k v = (OK, d @ [(k, v)])"
  unfolding re_env_ok_def odict_ok_def map_of_eq_None_iff by blast

lemma props_update_ok:
  assumes "re_env_ok (fe_re env)" and "props_ok (el_props_local e)"
  obtains p where "props_ok p" and "props_update env k v e = (OK, e\<lparr>el_props_local := p\<rparr>)"
proof (cases "map_of (el_props_local e) k")
  case None
  have "props_ok (el_props_local e @ [(k, ODICT_STRING v)])"
    using assms(2) None by (simp add: props_ok_def map_of_eq_None_iff)
  then show thesis using that props_append [OF assms(1) None] props_lookup [OF assms, of k] None
    by (simp add: props_update_def econn_props_update_def econn_props_add_def)
next
  case (Some j)
  then obtain s where "od_lookup (fe_re env) (el_props_local e) k = Some (ODICT_STRING s)"
    using props_lookup [OF assms, of k] props_string [OF assms(2) Some] by auto
  then show thesis using that [OF odict_set_ok [OF assms(2)]] by (simp add: props_update_def econn_props_update_def)
qed

lemma props_get_ok:
  assumes "re_env_ok re" and "props_ok d"
  shows "\<exists>s. econn_props_get re (Some d) (Some k) = Some s"
proof (cases "map_of d k")
  case None
  then show ?thesis using props_lookup [OF assms, of k] by (simp add: econn_props_get_def)
next
  case (Some j)
  then show ?thesis using props_string [OF assms(2) Some] props_lookup [OF assms, of k] by (auto simp: econn_props_get_def)
qed

section \<open>One call, two ends\<close>

definition call_env :: "fl_env \<Rightarrow> bool" where
  "call_env env \<longleftrightarrow> re_env_ok (fe_re env) \<and> prints (fe_re env) \<and> fe_flow_alloc env = OK \<and> fe_gathered env \<and>
     fst (fe_offer env) = OK \<and> fst (fe_answer env) = OK \<and> (\<forall>s. fe_handle_offer env s = OK) \<and>
     (\<forall>m. fe_send env m = OK) \<and> id_ok (fe_rnd env)"

definition idle_call :: "ecall \<Rightarrow> bool" where
  "idle_call e \<longleftrightarrow> el_econn e = None \<and> el_flow e = None \<and> el_oldflow e = None \<and> CB_send \<in> el_cbs e \<and>
     el_conv_type e = ICALL_CONV_TYPE_ONEONONE \<and> timeout_setup (el_conf e) \<noteq> 0 \<and> id_ok (el_userid_self e) \<and>
     id_ok (el_clientid_self e) \<and> el_sessid e = None \<and> props_ok (el_props_local e) \<and> el_props_remote e = None \<and>
     el_userid_peer e = None \<and> el_clientid_peer e = None \<and> \<not> el_update e \<and> \<not> el_established e \<and> \<not> el_answered e"

text \<open>The message that the application was last given to send, and its way to the other end.\<close>

definition last_app :: "ecall \<Rightarrow> econn_message" where
  "last_app e = (case last (el_trace e) of App_send m _ _ \<Rightarrow> m | _ \<Rightarrow> econn_message_zero)"

definition ecall_deliver :: "fl_env \<Rightarrow> ecall \<Rightarrow> ecall \<Rightarrow> u64 \<Rightarrow> u64 \<Rightarrow> ecall option" where
  "ecall_deliver env from dest t0 t1 =
     (case econn_message_encode (fe_re env) (last_app from) of
        Some (OK, Some str) \<Rightarrow>
          Some (ecall_transp_recv env t0 t1 (Some (el_userid_self from)) (Some (el_clientid_self from)) (Some str) dest)
      | _ \<Rightarrow> None)"

lemma deliver_msg:
  assumes "re_env_ok (fe_re env)" and "prints (fe_re env)" and "msg_ok (last_app from)"
  shows "ecall_deliver env from dest t0 t1 =
    Some (snd (ecall_msg_recv env (Some (el_userid_self from)) (Some (el_clientid_self from))
           (Some (stamped t0 t1 (last_app from))) dest))"
  by (rule wire_ok [OF assms]) (simp add: ecall_deliver_def ecall_transp_recv_def)

text \<open>The calls of a flow only add to the trace.\<close>

lemma on_flow_eq: "el_flow e = Some f \<Longrightarrow> on_flow c e = e\<lparr>el_trace := el_trace e @ [Flow f c]\<rparr>"
  by (simp add: on_flow_def IFLOW_CALL_def el_act_def)

lemma turnservers_eq:
  "el_flow e = Some f \<Longrightarrow> fold (\<lambda>t. on_flow (Fl_add_turnserver t)) ts e =
     e\<lparr>el_trace := el_trace e @ map (\<lambda>t. Flow f (Fl_add_turnserver t)) ts\<rparr>"
  by (induction ts arbitrary: e) (simp_all add: on_flow_eq)

definition adds :: "ecall \<Rightarrow> ecall \<Rightarrow> bool" where
  "adds e e' \<longleftrightarrow> (\<exists>acts. e' = e\<lparr>el_trace := el_trace e @ acts\<rparr>)"

lemma adds_refl: "adds e e"
  unfolding adds_def by (rule exI [of _ "[]"]) simp

lemma adds_on_flow: "adds e e' \<Longrightarrow> el_flow e = Some f \<Longrightarrow> adds e (on_flow c e')"
  by (auto simp: adds_def on_flow_eq)

lemma adds_turnservers: "adds e e' \<Longrightarrow> el_flow e = Some f \<Longrightarrow> adds e (fold (\<lambda>t. on_flow (Fl_add_turnserver t)) ts e')"
  by (auto simp: adds_def turnservers_eq)

lemma adds_if: "adds e x \<Longrightarrow> adds e y \<Longrightarrow> adds e (if b then x else y)"
  by simp

lemmas adds_rules = adds_if adds_on_flow adds_turnservers adds_refl

lemma flow_setup_eq:
  assumes "el_flow e = Some f"
  obtains acts where "flow_setup env role cbr e =
    e\<lparr>el_audio_cbr := cbr, el_turn_added := True, el_trace := el_trace e @ acts\<rparr>"
proof -
  let ?e0 = "e\<lparr>el_audio_cbr := cbr\<rparr>"
  define e1 where "e1 = on_flow (Fl_set_audio_cbr cbr) ?e0"
  define e2 where "e2 = (if re_isset (fe_re env) (el_userid_peer e1) \<or> re_isset (fe_re env) (el_clientid_peer e1)
               then on_flow (Fl_set_remote_userclientid (el_userid_peer e1) (el_clientid_peer e1)) e1 else e1)"
  define e3 where "e3 = on_flow (Fl_set_video_state (el_vstate e2)) e2"
  define e4 where "e4 = fold (\<lambda>t. on_flow (Fl_add_turnserver t)) (el_turnv e3) e3"
  define e5 where "e5 = (if el_keystore e4 then on_flow Fl_set_keystore e4 else e4)"
  define e6 where "e6 = (if fe_privacy env then on_flow (Fl_enable_privacy True) e5 else e5)"
  have "el_flow ?e0 = Some f" using assms by simp
  then have "adds ?e0 e6" unfolding e6_def e5_def e4_def e3_def e2_def e1_def by (intro adds_rules)
  then obtain acts where e6: "e6 = ?e0\<lparr>el_trace := el_trace ?e0 @ acts\<rparr>" by (auto simp: adds_def)
  have "flow_setup env role cbr e =
    (if role = ASYNC_OFFER then on_flow (Fl_gather_all_turn True) (e6\<lparr>el_turn_added := True\<rparr>) else e6\<lparr>el_turn_added := True\<rparr>)"
    unfolding flow_setup_def gather_all_def Let_def e6_def e5_def e4_def e3_def e2_def e1_def by (rule refl)
  moreover have "on_flow (Fl_gather_all_turn True) (e6\<lparr>el_turn_added := True\<rparr>) =
      e\<lparr>el_audio_cbr := cbr, el_turn_added := True, el_trace := el_trace e @ acts @ [Flow f (Fl_gather_all_turn True)]\<rparr>"
    using assms by (cases e) (simp add: e6 on_flow_eq)
  moreover have "e6\<lparr>el_turn_added := True\<rparr> = e\<lparr>el_audio_cbr := cbr, el_turn_added := True, el_trace := el_trace e @ acts\<rparr>"
    by (cases e) (simp add: e6)
  ultimately show thesis using that by (cases "role = ASYNC_OFFER") simp_all
qed

lemma alloc_first_flow:
  assumes "fe_flow_alloc env = OK" and "el_flow e = None" and "el_oldflow e = None"
  obtains acts where "alloc_flow env role kt cbr e =
    (OK, e\<lparr>el_flow := Some (el_flows e), el_flows := el_flows e + 1, el_established := False, el_audio_cbr := cbr,
           el_turn_added := True, el_trace := el_trace e @ acts\<rparr>)"
proof -
  let ?e = "e\<lparr>el_flow := Some (el_flows e), el_flows := el_flows e + 1, el_established := False,
              el_trace := el_trace e @ [Flow (el_flows e) Fl_alloc]\<rparr>"
  obtain acts where "flow_setup env role cbr ?e =
      ?e\<lparr>el_audio_cbr := cbr, el_turn_added := True, el_trace := el_trace ?e @ acts\<rparr>"
    by (rule flow_setup_eq [of ?e "el_flows e"]) simp
  moreover have "alloc_flow env role kt cbr e = (OK, flow_setup env role cbr ?e)"
    using assms by (cases e) (simp add: alloc_flow_def Let_def IFLOW_CALL_def el_act_def)
  moreover have "?e\<lparr>el_audio_cbr := cbr, el_turn_added := True, el_trace := el_trace ?e @ acts\<rparr> =
      e\<lparr>el_flow := Some (el_flows e), el_flows := el_flows e + 1, el_established := False, el_audio_cbr := cbr,
        el_turn_added := True, el_trace := el_trace e @ Flow (el_flows e) Fl_alloc # acts\<rparr>"
    by (cases e) simp
  ultimately show thesis using that by metis
qed

text \<open>The connection of a call, and a SETUP that it sends.\<close>

definition conn_of :: "fl_env \<Rightarrow> ecall \<Rightarrow> econn \<Rightarrow> bool" where
  "conn_of env e conn \<longleftrightarrow> ec_transp conn \<and> ec_userid_self conn = el_userid_self e \<and> ec_clientid conn = el_clientid_self e \<and>
     ec_sessid_local conn = fe_rnd env \<and> ec_conf conn = el_conf e \<and> h_connh (ec_handlers conn) \<and> h_answerh (ec_handlers conn)"

lemma create_conn:
  assumes "call_env env" and "el_econn e = None" and "el_sessid e = None" and "id_ok (el_userid_self e)"
    and "id_ok (el_clientid_self e)"
  obtains conn where "ecall_create_econn env e = (OK, e\<lparr>el_econn := Some conn\<rparr>)" and "conn_of env e conn"
    and "ec_state conn = ECONN_IDLE" and "ec_userid_remote conn = []" and "ec_clientid_remote conn = []"
  using assms re_str_ok_env [of "fe_re env"]
  by (simp add: ecall_create_econn_def econn_alloc_def call_env_def re_str_ok_def id_ok_def conn_of_def Let_def)

lemma send_setup_eq:
  assumes "call_env env" and "conn_of env e conn"
  shows "econn_send_setup (conn_env env e') conn resp sdp props False =
    (OK, act (Sent (setup_msg (fe_rnd env) resp sdp props) OK) conn)"
  using assms re_str_ok_env [of "fe_re env"]
  by (simp add: econn_send_setup_def econn_message_init_def econn_transp_send_def setup_msg_def re_str_ok_def id_ok_def Let_def
      conn_env_def send_handler_def stamp_ids_def call_env_def conn_of_def)

lemma conn_op_sent:
  assumes "f (conn_env env e) conn = (er, conn')" and "el_econn e = Some conn" and "ec_trace conn' = ec_trace conn @ [Sent m r]"
    and "em_msg_type m = Some ECONN_SETUP" and "CB_send \<in> el_cbs e"
  shows "conn_op env f e =
    (er, e\<lparr>el_econn := Some conn', el_trace := el_trace e @ [App_send (stamp_ids (fe_re env) e m) None False]\<rparr>)"
  using assms by (simp add: conn_op_def new_acts_def send_handler_def ICALL_CALL_CB_def el_act_def stamp_ids_def Let_def)

text \<open>
  The three stages of a call: the caller has sent its SETUP, the callee has been told, the callee has answered.
\<close>

definition calling :: "fl_env \<Rightarrow> ecall \<Rightarrow> ecall \<Rightarrow> bool" where
  "calling env a a1 \<longleftrightarrow>
     (\<exists>conn p. el_econn a1 = Some conn \<and> conn_of env a conn \<and> ec_state conn = ECONN_PENDING_OUTGOING \<and>
        ec_userid_remote conn = [] \<and> ec_clientid_remote conn = [] \<and> props_ok p \<and>
        last_app a1 = (setup_msg (fe_rnd env) False (Some (snd (fe_offer env))) (Some p))
          \<lparr>em_src_userid := el_userid_self a, em_src_clientid := el_clientid_self a\<rparr>) \<and>
     el_flow a1 = Some (el_flows a) \<and> el_userid_self a1 = el_userid_self a \<and> el_clientid_self a1 = el_clientid_self a \<and>
     el_userid_peer a1 = None \<and> el_clientid_peer a1 = None \<and> el_conv_type a1 = ICALL_CONV_TYPE_ONEONONE \<and>
     \<not> el_answered a1 \<and> \<not> el_established a1"

lemma stamp_self:
  assumes "call_env env" and "id_ok (el_userid_self e)" and "id_ok (el_clientid_self e)"
    and "el_userid_peer e = None" and "el_clientid_peer e = None"
  shows "stamp_ids (fe_re env) e m = m\<lparr>em_src_userid := el_userid_self e, em_src_clientid := el_clientid_self e\<rparr>"
  using assms re_str_ok_env [of "fe_re env"] by (simp add: stamp_ids_def call_env_def re_str_ok_def id_ok_def)

lemma offer_sent:
  assumes "call_env env" and "idle_call a" and "el_econn e = Some conn" and "conn_of env a conn"
    and "ec_state conn = ECONN_PENDING_OUTGOING" and "ec_userid_remote conn = []" and "ec_clientid_remote conn = []"
    and "el_flow e = Some (el_flows a)" and "props_ok (el_props_local e)" and "el_cbs e = el_cbs a"
    and "el_userid_self e = el_userid_self a" and "el_clientid_self e = el_clientid_self a"
    and "el_userid_peer e = None" and "el_clientid_peer e = None" and "el_conv_type e = ICALL_CONV_TYPE_ONEONONE"
    and "\<not> el_answered e" and "\<not> el_established e" and "\<not> el_update e" and "el_async e = ASYNC_NONE"
  shows "\<exists>a1. generate_offer env e = (OK, a1) \<and> calling env a a1"
proof -
  let ?e = "e\<lparr>el_trace := el_trace e @ [Flow (el_flows a) Fl_is_gathered, Flow (el_flows a) Fl_generate_offer]\<rparr>"
  let ?m = "setup_msg (fe_rnd env) False (Some (snd (fe_offer env))) (Some (el_props_local e))"
  let ?f = "\<lambda>ce conn. econn_start ce conn (Some (snd (fe_offer env))) (Some (el_props_local e))"
  have tmo: "timeout_setup (ec_conf conn) \<noteq> 0" using assms(2,4) by (simp add: idle_call_def conn_of_def)
  have c: "conn_of env a (conn\<lparr>ec_state := ECONN_PENDING_OUTGOING, ec_dir := ECONN_DIR_OUTGOING\<rparr>)" using assms(4) by (simp add: conn_of_def)
  define conn' where "conn' = tmr_start (timeout_setup (ec_conf conn)) Tmr_local
      (act (Sent ?m OK) (conn\<lparr>ec_state := ECONN_PENDING_OUTGOING, ec_dir := ECONN_DIR_OUTGOING\<rparr>))"
  have "?f (conn_env env ?e) conn = (OK, conn')"
    using tmo assms(5) by (simp add: econn_start_def econn_set_state_def Let_def send_setup_eq [OF assms(1) c] conn'_def act_def)
  then have "conn_op env ?f ?e =
    (OK, ?e\<lparr>el_econn := Some conn', el_trace := el_trace ?e @ [App_send (stamp_ids (fe_re env) ?e ?m) None False]\<rparr>)"
    using assms(2,3,10) by (intro conn_op_sent [of ?f env ?e conn OK conn' ?m OK])
      (simp_all add: conn'_def act_def tmr_start_def idle_call_def)
  moreover have "generate_offer env e = conn_op env ?f ?e"
    using assms by (simp add: generate_offer_def offer_and_connect_def IFLOW_ASK_def IFLOW_CALLE_def on_flow_eq call_env_def Let_def)
  moreover have "stamp_ids (fe_re env) ?e ?m =
      ?m\<lparr>em_src_userid := el_userid_self a, em_src_clientid := el_clientid_self a\<rparr>"
    using stamp_self [of env ?e ?m] assms by (simp add: idle_call_def)
  moreover have "conn_of env a conn'" "ec_state conn' = ECONN_PENDING_OUTGOING" "ec_userid_remote conn' = []"
    "ec_clientid_remote conn' = []"
    using c assms(5-7) by (simp_all add: conn'_def conn_of_def act_def tmr_start_def)
  ultimately show ?thesis using assms by (auto simp: calling_def last_app_def intro!: exI [of _ "el_props_local e"])
qed

lemma call_started:
  assumes "call_env env" and "idle_call a"
  shows "\<exists>a1. ecall_start env kt cbr a = (OK, a1) \<and> calling env a a1"
proof -
  let ?a = "a\<lparr>el_call_type := kt\<rparr>"
  have re: "re_env_ok (fe_re env)" using assms(1) by (simp add: call_env_def)
  obtain conn where conn: "ecall_create_econn env ?a = (OK, ?a\<lparr>el_econn := Some conn\<rparr>)" "conn_of env ?a conn"
      "ec_state conn = ECONN_IDLE" "ec_userid_remote conn = []" "ec_clientid_remote conn = []"
    by (rule create_conn [OF assms(1), of ?a]) (use assms(2) in \<open>simp_all add: idle_call_def\<close>)
  let ?conn = "econn_set_state ECONN_PENDING_OUTGOING conn"
  let ?b = "?a\<lparr>el_econn := Some ?conn\<rparr>"
  have c: "conn_of env a ?conn" "ec_state ?conn = ECONN_PENDING_OUTGOING" "ec_userid_remote ?conn = []" "ec_clientid_remote ?conn = []"
    using conn(2-5) by (simp_all add: conn_of_def econn_set_state_def)
  obtain acts where fl: "alloc_flow env ASYNC_OFFER kt cbr ?b =
    (OK, ?b\<lparr>el_flow := Some (el_flows ?b), el_flows := el_flows ?b + 1, el_established := False, el_audio_cbr := cbr,
           el_turn_added := True, el_trace := el_trace ?b @ acts\<rparr>)"
    by (rule alloc_first_flow [of env ?b ASYNC_OFFER kt cbr]) (use assms in \<open>simp_all add: call_env_def idle_call_def\<close>)
  let ?c = "?b\<lparr>el_flow := Some (el_flows ?b), el_flows := el_flows ?b + 1, el_established := False, el_audio_cbr := cbr,
           el_turn_added := True, el_trace := el_trace ?b @ acts\<rparr>"
  let ?d = "?c\<lparr>el_trace := el_trace ?c @ [Flow (el_flows a) (Fl_set_audio_cbr cbr)]\<rparr>"
  have d: "on_flow (Fl_set_audio_cbr cbr) ?c = ?d" by (simp add: on_flow_eq)
  have "props_ok (el_props_local ?d)" using assms(2) by (simp add: idle_call_def)
  then obtain p where p: "props_ok p" "props_update env ''muted'' (muted_str env) ?d = (OK, ?d\<lparr>el_props_local := p\<rparr>)"
    by (rule props_update_ok [OF re])
  obtain q where q: "props_ok q" "props_update env ''videosend'' ''true'' (?d\<lparr>el_props_local := p\<rparr>) = (OK, ?d\<lparr>el_props_local := q\<rparr>)"
    by (rule props_update_ok [OF re, of "?d\<lparr>el_props_local := p\<rparr>" "''videosend''" "''true''"]) (use p(1) in simp_all)
  define video where "video \<longleftrightarrow> kt = ICALL_CALL_TYPE_VIDEO \<and> el_vstate a = ICALL_VIDEO_STATE_STARTED"
  define r where "r = (if video then q else p)"
  let ?g = "?d\<lparr>el_props_local := r, el_async := ASYNC_NONE\<rparr>"
  have "\<exists>a1. generate_offer env ?g = (OK, a1) \<and> calling env a a1"
    by (rule offer_sent [OF assms, of _ ?conn]) (use c p(1) q(1) assms(2) in \<open>simp_all add: r_def idle_call_def\<close>)
  then obtain a1 where a1: "generate_offer env ?g = (OK, a1)" "calling env a a1" by blast
  have "ecall_start env kt cbr a =
    (OK, a1\<lparr>el_ts_started := fe_now env, el_call_setup_time := -1, el_metrics := (el_metrics a1)\<lparr>im_initiator := True\<rparr>\<rparr>)"
    using assms(2) conn(1) fl d p(2) q(2) a1(1)
    by (cases video) (simp_all add: ecall_start_def idle_call_def update_mute_props_def r_def video_def [symmetric] Let_def)
  then show ?thesis using a1(2) by (simp add: calling_def last_app_def)
qed

text \<open>The callee rings: it has the offer, a flow and the ids of the caller.\<close>

definition ringing :: "fl_env \<Rightarrow> string \<Rightarrow> string \<Rightarrow> string \<Rightarrow> string \<Rightarrow> ecall \<Rightarrow> ecall \<Rightarrow> bool" where
  "ringing env u c sess sdp b b1 \<longleftrightarrow>
     (\<exists>conn. el_econn b1 = Some conn \<and> conn_of env b conn \<and> ec_state conn = ECONN_PENDING_INCOMING \<and>
        ec_userid_remote conn = u \<and> ec_clientid_remote conn = c \<and> ec_sessid_remote conn = sess) \<and>
     el_offer b1 = Some sdp \<and> el_flow b1 = Some (el_flows b) \<and> el_userid_peer b1 = Some u \<and> el_clientid_peer b1 = Some c \<and>
     props_ok (el_props_local b1) \<and> el_cbs b1 = el_cbs b \<and> el_userid_self b1 = el_userid_self b \<and>
     el_clientid_self b1 = el_clientid_self b \<and> \<not> el_update b1 \<and> \<not> el_established b1"

lemma conn_handler_rings:
  assumes "call_env env" and "idle_call b" and "el_econn e = Some conn" and "conn_of env b conn"
    and "ec_state conn = ECONN_PENDING_INCOMING" and "ec_userid_remote conn = u" and "ec_clientid_remote conn = c"
    and "ec_sessid_remote conn = sess" and "e = b\<lparr>el_userid_peer := Some u, el_clientid_peer := Some c, el_econn := Some conn\<rparr>"
    and "props_ok p" and "id_ok u"
  shows "ringing env u c sess sdp b (econn_conn_handler env t u c (Some sdp) (Some p) False e)"
proof -
  have re: "re_env_ok (fe_re env)" using assms(1) by (simp add: call_env_def)
  have e: "conn_peer env u e = e" "el_flow e = None" "el_oldflow e = None" "el_call_type e = el_call_type b" "el_flows e = el_flows b"
    using assms(2,9,11) re_str_ok_env [OF re] by (simp_all add: conn_peer_def idle_call_def re_str_ok_def id_ok_def)
  obtain acts where fl: "alloc_flow env ASYNC_ANSWER (el_call_type b) False e =
    (OK, e\<lparr>el_flow := Some (el_flows e), el_flows := el_flows e + 1, el_established := False, el_audio_cbr := False,
           el_turn_added := True, el_trace := el_trace e @ acts\<rparr>)"
    by (rule alloc_first_flow [of env e ASYNC_ANSWER "el_call_type b" False]) (use assms(1) e in \<open>simp_all add: call_env_def\<close>)
  let ?c = "e\<lparr>el_flow := Some (el_flows e), el_flows := el_flows e + 1, el_established := False, el_audio_cbr := False,
           el_turn_added := True, el_trace := el_trace e @ acts\<rparr>"
  let ?d = "?c\<lparr>el_trace := el_trace ?c @ [Flow (el_flows b) (Fl_set_remote_userclientid (Some u) (Some c))],
               el_offer := Some sdp, el_props_remote := Some p\<rparr>"
  obtain s where s: "econn_props_get (fe_re env) (Some p) (Some ''videosend'') = Some s"
    using props_get_ok [OF re assms(10), of "''videosend''"] by blast
  have "remote_video env ?d = Some (s = Some ''true'')"
    using assms(3) s by (simp add: remote_video_def ecall_props_get_remote_def)
  then have "econn_conn_handler env t u c (Some sdp) (Some p) False e =
    (ICALL_CALL_CB CB_start (App_start t u c (s = Some ''true'')) ?d)\<lparr>el_ts_started := fe_now env, el_call_setup_time := -1\<rparr>"
    using fl e assms(2,9) by (simp add: econn_conn_handler_def on_flow_eq set_offer_sdp_def idle_call_def Let_def)
  then show ?thesis
    using assms(2-9) by (simp add: ringing_def ICALL_CALL_CB_def el_act_def idle_call_def)
qed

lemma call_rings:
  assumes "call_env env" and "idle_call b" and "id_ok u" and "id_ok c" and "id_ok sess" and "props_ok p"
    and "\<not> re_casecmp (fe_re env) (el_userid_self b) u"
    and "m = (setup_msg sess False (Some sdp) (Some p))\<lparr>em_src_userid := su, em_src_clientid := sc, em_time := t, em_age := g\<rparr>"
  shows "\<exists>b1. ecall_msg_recv env (Some u) (Some c) (Some m) b = (OK, b1) \<and> ringing env u c sess sdp b b1"
proof -
  let ?b = "b\<lparr>el_userid_peer := Some u, el_clientid_peer := Some c\<rparr>"
  have re: "re_str_ok (fe_re env)" using assms(1) by (simp add: call_env_def re_str_ok_env)
  have ids: "recv_ids u c b = ?b"
    using assms(2) by (simp add: recv_ids_def idle_call_def ecall_set_peer_userid_def ecall_set_peer_clientid_def on_flow_def
        IFLOW_CALL_def Let_def)
  obtain conn where conn: "ecall_create_econn env ?b = (OK, ?b\<lparr>el_econn := Some conn\<rparr>)" "conn_of env ?b conn"
      "ec_state conn = ECONN_IDLE" "ec_userid_remote conn = []" "ec_clientid_remote conn = []"
    by (rule create_conn [OF assms(1), of ?b]) (use assms(2) in \<open>simp_all add: idle_call_def\<close>)
  have new: "econn_is_creator_full (fe_re env) (Some (el_userid_self b)) (el_clientid_self b) (Some u) c m"
    using assms(2,3,7,8) re by (simp add: econn_is_creator_full_def idle_call_def id_ok_def re_str_ok_def econn_message_isrequest_def
        setup_msg_def)
  define conn' where "conn' = tmr_start (timeout_setup (ec_conf conn)) Tmr_local
     (conn\<lparr>ec_userid_remote := u, ec_clientid_remote := c, ec_state := ECONN_PENDING_INCOMING, ec_dir := ECONN_DIR_INCOMING,
           ec_sessid_remote := sess\<rparr>)"
  have msg: "em_msg_type m = Some ECONN_SETUP" "econn_message_isrequest m" "em_sessid_sender m = sess" "em_time m = t"
      "em_age m = g" "em_setup m = \<lparr>su_sdp_msg = Some sdp, su_props = Some p, su_url = None, su_sft_tuple = None\<rparr>"
    using assms(8) by (simp_all add: setup_msg_def econn_message_isrequest_def em_setup_def)
  have "econn_recv_message (conn_env env e) conn u c m = act (Connh t u c g (Some sdp) (Some p) False) conn'" for e
    using recv_setup_known [of "conn_env env e" u c conn m] re assms(3-5) conn(2-5) msg
    by (simp add: econn_recv_message_def handle_setup_request_def conn_env_def conn'_def conn_of_def str_ncpy_def re_str_ok_def
        id_ok_def econn_set_state_def Let_def tmr_start_def)
  then have "conn_run env (\<lambda>ce conn. econn_recv_message ce conn u c m) (?b\<lparr>el_econn := Some conn\<rparr>) =
      econn_conn_handler env t u c (Some sdp) (Some p) False
        (?b\<lparr>el_econn := Some (act (Connh t u c g (Some sdp) (Some p) False) conn')\<rparr>)"
    by (simp add: conn_run_def new_acts_def conn'_def act_def tmr_start_def)
  moreover have "ringing env u c sess sdp b (econn_conn_handler env t u c (Some sdp) (Some p) False
        (?b\<lparr>el_econn := Some (act (Connh t u c g (Some sdp) (Some p) False) conn')\<rparr>))"
    by (rule conn_handler_rings [OF assms(1,2)])
      (use conn(2) assms(3,6) in \<open>simp_all add: conn'_def conn_of_def act_def tmr_start_def\<close>)
  moreover have "ecall_msg_recv env (Some u) (Some c) (Some m) b =
      (OK, conn_run env (\<lambda>ce conn. econn_recv_message ce conn u c m) (?b\<lparr>el_econn := Some conn\<rparr>))"
    using assms(2,7) ids new conn(1) msg(1) by (simp add: ecall_msg_recv_def idle_call_def Let_def)
  ultimately show ?thesis by simp
qed

text \<open>The callee has answered: its flow has the offer, and the answer is on its way.\<close>

definition answered_call :: "fl_env \<Rightarrow> string \<Rightarrow> string \<Rightarrow> string \<Rightarrow> string \<Rightarrow> ecall \<Rightarrow> ecall \<Rightarrow> bool" where
  "answered_call env u c sess sdp b b2 \<longleftrightarrow>
     (\<exists>conn p. el_econn b2 = Some conn \<and> conn_of env b conn \<and> ec_state conn = ECONN_ANSWERED \<and>
        ec_userid_remote conn = u \<and> ec_clientid_remote conn = c \<and> ec_sessid_remote conn = sess \<and> props_ok p \<and>
        last_app b2 = (setup_msg (fe_rnd env) True (Some (snd (fe_answer env))) (Some p))
          \<lparr>em_src_userid := el_userid_self b, em_src_clientid := el_clientid_self b, em_dest_userid := u, em_dest_clientid := c\<rparr>) \<and>
     Flow (el_flows b) (Fl_handle_offer sdp) \<in> set (el_trace b2) \<and> el_connection_tmr b2 = Some TIMEOUT_CONNECTION \<and>
     el_userid_self b2 = el_userid_self b \<and> el_clientid_self b2 = el_clientid_self b"

lemma stamp_peer:
  assumes "call_env env" and "id_ok (el_userid_self e)" and "id_ok (el_clientid_self e)"
    and "el_userid_peer e = Some u" and "el_clientid_peer e = Some c" and "id_ok u" and "id_ok c"
  shows "stamp_ids (fe_re env) e m = m\<lparr>em_src_userid := el_userid_self e, em_src_clientid := el_clientid_self e,
           em_dest_userid := u, em_dest_clientid := c\<rparr>"
  using assms re_str_ok_env [of "fe_re env"] by (simp add: stamp_ids_def call_env_def re_str_ok_def id_ok_def)

lemma call_answered:
  assumes "call_env env" and "idle_call b" and "ringing env u c sess sdp b b1" and "id_ok u" and "id_ok c"
  shows "\<exists>b2. ecall_answer env kt cbr b1 = (OK, b2) \<and> answered_call env u c sess sdp b b2"
proof -
  let ?fl = "el_flows b"
  obtain conn where conn: "el_econn b1 = Some conn" "conn_of env b conn" "ec_state conn = ECONN_PENDING_INCOMING"
      "ec_userid_remote conn = u" "ec_clientid_remote conn = c" "ec_sessid_remote conn = sess"
    using assms(3) by (auto simp: ringing_def)
  have b1: "el_flow b1 = Some ?fl" "el_offer b1 = Some sdp" "props_ok (el_props_local b1)" "CB_send \<in> el_cbs b1"
      "el_userid_peer b1 = Some u" "el_clientid_peer b1 = Some c" "\<not> el_update b1" "\<not> el_established b1"
      "el_userid_self b1 = el_userid_self b" "el_clientid_self b1 = el_clientid_self b"
    using assms(2,3) by (simp_all add: ringing_def idle_call_def)
  define e1 where "e1 = b1\<lparr>el_call_type := kt, el_trace := el_trace b1 @ [Flow ?fl (Fl_set_call_type kt)], el_audio_cbr := cbr\<rparr>
      \<lparr>el_trace := el_trace b1 @ [Flow ?fl (Fl_set_call_type kt), Flow ?fl (Fl_set_audio_cbr cbr)]\<rparr>"
  obtain p where p: "props_ok p" "props_update env ''muted'' (muted_str env) e1 = (OK, e1\<lparr>el_props_local := p\<rparr>)"
    by (rule props_update_ok [of env e1 "''muted''" "muted_str env"]) (use assms(1) b1(3) in \<open>simp_all add: e1_def call_env_def\<close>)
  define e2 where "e2 = e1\<lparr>el_props_local := p, el_offer := None,
      el_trace := el_trace e1 @ [Flow ?fl (Fl_handle_offer sdp), Flow ?fl Fl_is_gathered, Flow ?fl Fl_generate_answer]\<rparr>"
  let ?m = "setup_msg (fe_rnd env) True (Some (snd (fe_answer env))) (Some p)"
  let ?f = "\<lambda>ce conn. econn_answer ce conn (Some (snd (fe_answer env))) (Some p)"
  define conn' where "conn' = econn_set_state ECONN_ANSWERED (act (Sent ?m OK) (tmr_cancel conn))"
  have "conn_of env b (tmr_cancel conn)" using conn(2) by (simp add: conn_of_def tmr_cancel_def)
  from send_setup_eq [OF assms(1) this] have "?f (conn_env env e2) conn = (OK, conn')"
    using conn(3) by (simp add: econn_answer_def conn'_def)
  then have "conn_op env ?f e2 =
    (OK, e2\<lparr>el_econn := Some conn', el_trace := el_trace e2 @ [App_send (stamp_ids (fe_re env) e2 ?m) None False]\<rparr>)"
    by (rule conn_op_sent [where m = ?m and r = OK])
      (use conn(1) b1(4) in \<open>simp_all add: conn'_def act_def tmr_cancel_def econn_set_state_def e2_def e1_def\<close>)
  moreover have "stamp_ids (fe_re env) e2 ?m = ?m\<lparr>em_src_userid := el_userid_self b, em_src_clientid := el_clientid_self b,
      em_dest_userid := u, em_dest_clientid := c\<rparr>"
    using stamp_peer [of env e2 u c ?m] assms b1 by (simp add: e2_def e1_def idle_call_def)
  moreover have "ecall_answer env kt cbr b1 =
    (case conn_op env ?f e2 of (er, e) \<Rightarrow>
       if er \<noteq> OK then (er, e)
       else (OK, (start_connection_tmr e)\<lparr>el_answered := True, el_audio_setup_time := -1, el_call_estab_time := -1,
                   el_ts_answered := fe_now env\<rparr>))"
  proof -
    have "on_flow (Fl_set_audio_cbr cbr) ((on_flow (Fl_set_call_type kt) (b1\<lparr>el_call_type := kt\<rparr>))\<lparr>el_audio_cbr := cbr\<rparr>) = e1"
      using b1(1) by (simp add: on_flow_eq e1_def)
    then have "ecall_answer env kt cbr b1 =
      (case generate_or_gather_answer env True (e1\<lparr>el_props_local := p\<rparr>) of (er, e) \<Rightarrow>
         if er \<noteq> OK then (er, e)
         else (OK, e\<lparr>el_answered := True, el_audio_setup_time := -1, el_call_estab_time := -1, el_ts_answered := fe_now env\<rparr>))"
      using conn(1,3) b1(1) p(2) by (simp add: ecall_answer_def state_of_def econn_current_state_def update_mute_props_def Let_def)
    moreover have "el_flow e1 = Some ?fl" "el_offer e1 = Some sdp" "\<not> el_update e1" using b1 by (simp_all add: e1_def)
    then have "generate_or_gather_answer env True (e1\<lparr>el_props_local := p\<rparr>) =
      (case conn_op env ?f e2 of (er, e) \<Rightarrow> if er \<noteq> OK then (er, e) else (OK, start_connection_tmr e))"
      using assms(1) by (simp add: generate_or_gather_answer_def handle_pending_offer_def IFLOW_CALLE_def IFLOW_ASK_def on_flow_eq
          generate_answer_def call_env_def e2_def Let_def)
    ultimately show ?thesis by (simp split: prod.split)
  qed
  moreover have "conn_of env b conn'" "ec_state conn' = ECONN_ANSWERED" "ec_userid_remote conn' = u" "ec_clientid_remote conn' = c"
      "ec_sessid_remote conn' = sess"
    using conn by (simp_all add: conn'_def conn_of_def act_def tmr_cancel_def econn_set_state_def)
  ultimately show ?thesis
    using p(1) b1 by (auto simp: answered_call_def last_app_def start_connection_tmr_def e2_def e1_def intro!: exI [of _ p])
qed

lemma caller_answered:
  assumes "call_env env" and "calling env a a1" and "id_ok u" and "id_ok c" and "id_ok sess"
    and "\<not> re_casecmp (fe_re env) (el_userid_self a) u"
    and "m = (setup_msg sess True (Some sdp) (Some p))\<lparr>em_src_userid := su, em_src_clientid := sc, em_dest_userid := du,
               em_dest_clientid := dc, em_time := t, em_age := g\<rparr>"
  shows "\<exists>a2 conn. ecall_msg_recv env (Some u) (Some c) (Some m) a1 = (OK, a2) \<and> el_econn a2 = Some conn \<and>
    conn_of env a conn \<and> ec_state conn = ECONN_ANSWERED \<and> ec_userid_remote conn = u \<and> ec_clientid_remote conn = c \<and>
    ec_sessid_remote conn = sess \<and> Flow (el_flows a) (Fl_handle_answer (Some sdp)) \<in> set (el_trace a2) \<and>
    el_connection_tmr a2 = Some TIMEOUT_CONNECTION"
proof -
  let ?fl = "el_flows a"
  obtain conn where conn: "el_econn a1 = Some conn" "conn_of env a conn" "ec_state conn = ECONN_PENDING_OUTGOING"
      "ec_userid_remote conn = []" "ec_clientid_remote conn = []"
    using assms(2) by (auto simp: calling_def)
  have a1: "el_flow a1 = Some ?fl" "el_userid_self a1 = el_userid_self a" "el_userid_peer a1 = None" "el_clientid_peer a1 = None"
      "\<not> el_answered a1" "\<not> el_established a1"
    using assms(2) by (simp_all add: calling_def)
  have re: "re_str_ok (fe_re env)" using assms(1) by (simp add: call_env_def re_str_ok_env)
  define e1 where "e1 = a1\<lparr>el_userid_peer := Some u, el_clientid_peer := Some c,
      el_trace := el_trace a1 @ [Flow ?fl (Fl_set_remote_userclientid (Some u) (Some c))]\<rparr>"
  have ids: "recv_ids u c a1 = e1"
    using a1 by (simp add: recv_ids_def ecall_set_peer_userid_def ecall_set_peer_clientid_def on_flow_eq e1_def Let_def)
  define conn' where "conn' = (tmr_cancel (conn\<lparr>ec_userid_remote := u, ec_clientid_remote := c\<rparr>))
      \<lparr>ec_state := ECONN_ANSWERED, ec_sessid_remote := sess\<rparr>"
  have msg: "em_msg_type m = Some ECONN_SETUP" "\<not> econn_message_isrequest m" "em_sessid_sender m = sess"
      "em_setup m = \<lparr>su_sdp_msg = Some sdp, su_props = Some p, su_url = None, su_sft_tuple = None\<rparr>"
    using assms(7) by (simp_all add: setup_msg_def econn_message_isrequest_def em_setup_def)
  have "econn_recv_message (conn_env env e1) conn u c m = act (Answerh False (Some sdp) (Some p)) conn'"
    using recv_setup_known [of "conn_env env e1" u c conn m] re assms(3-5) conn(2-5) msg
    by (simp add: econn_recv_message_def handle_setup_response_def conn_env_def conn'_def conn_of_def str_ncpy_def re_str_ok_def
        id_ok_def econn_set_state_def Let_def tmr_cancel_def)
  then have "conn_run env (\<lambda>ce conn. econn_recv_message ce conn u c m) e1 =
      econn_answer_handler env False (Some sdp) (Some p) (e1\<lparr>el_econn := Some (act (Answerh False (Some sdp) (Some p)) conn')\<rparr>)"
    using conn(1) by (simp add: conn_run_def new_acts_def e1_def conn'_def act_def tmr_cancel_def)
  moreover have "ecall_msg_recv env (Some u) (Some c) (Some m) a1 =
      (OK, conn_run env (\<lambda>ce conn. econn_recv_message ce conn u c m) e1)"
    using assms(6) ids msg(1) conn(1) a1(2) by (simp add: ecall_msg_recv_def e1_def Let_def)
  ultimately show ?thesis
    using conn(2) a1 by (auto simp: econn_answer_handler_def on_flow_eq e1_def ICALL_CALL_CB_def el_act_def start_connection_tmr_def
        conn'_def conn_of_def act_def tmr_cancel_def Let_def)
qed

lemma setup_msg_ok:
  "id_ok sess \<Longrightarrow> props_ok props \<Longrightarrow> msg_ok (setup_msg sess resp (Some sdp) (Some props))"
  by (simp add: setup_msg_def msg_ok_def econn_message_zero_def id_ok_def ECONN_ID_LEN_def)

lemma stamped_msg_ok:
  assumes "id_ok sess" and "props_ok p" and "id_ok u" and "id_ok c" and "length du < ECONN_ID_LEN" and "length dc < ECONN_ID_LEN"
  shows "msg_ok ((setup_msg sess resp (Some sdp) (Some p))
    \<lparr>em_src_userid := u, em_src_clientid := c, em_dest_userid := du, em_dest_clientid := dc\<rparr>)"
  using setup_msg_ok [OF assms(1,2), of resp sdp] assms(3-6) by (simp add: msg_ok_def id_ok_def)

section \<open>Theorem\<close>

text \<open>
  C4: a call connects. If the caller starts a call, what its application is given to send is
  delivered as text to the callee, the callee answers and its answer is delivered, then both connections are answered
  and know the other's user, client and session, the callee's media flow has been given the offer of the
  caller's flow, the caller's flow the answer of the callee's, and both ends
  watch that media gets established.
\<close>

theorem ecall_call_connects:
  assumes "call_env ea" and "call_env eb" and "fe_re ea = fe_re eb" and "idle_call a" and "idle_call b"
    and "\<not> re_casecmp (fe_re ea) (el_userid_self a) (el_userid_self b)"
    and "\<not> re_casecmp (fe_re ea) (el_userid_self b) (el_userid_self a)"
  shows "\<exists>a1 b1 b2 a2 ca cb. ecall_start ea kt cbr a = (OK, a1) \<and> ecall_deliver eb a1 b t0 t1 = Some b1 \<and>
    state_of b1 = ECONN_PENDING_INCOMING \<and> ecall_answer eb kt' cbr' b1 = (OK, b2) \<and>
    ecall_deliver ea b2 a1 t2 t3 = Some a2 \<and> el_econn a2 = Some ca \<and> el_econn b2 = Some cb \<and> connected ca cb \<and>
    Flow (el_flows b) (Fl_handle_offer (snd (fe_offer ea))) \<in> set (el_trace b2) \<and>
    Flow (el_flows a) (Fl_handle_answer (Some (snd (fe_answer eb)))) \<in> set (el_trace a2) \<and>
    el_connection_tmr a2 = Some TIMEOUT_CONNECTION \<and> el_connection_tmr b2 = Some TIMEOUT_CONNECTION"
proof -
  let ?ua = "el_userid_self a" and ?ca = "el_clientid_self a" and ?ub = "el_userid_self b" and ?cb = "el_clientid_self b"
  have ids: "id_ok ?ua" "id_ok ?ca" "id_ok ?ub" "id_ok ?cb" "id_ok (fe_rnd ea)" "id_ok (fe_rnd eb)"
    using assms(1,2,4,5) by (simp_all add: idle_call_def call_env_def)
  have envs: "re_env_ok (fe_re ea)" "prints (fe_re ea)" using assms(1) by (simp_all add: call_env_def)
  obtain a1 where a1: "ecall_start ea kt cbr a = (OK, a1)" "calling ea a a1" using call_started [OF assms(1,4)] by blast
  then obtain p where p: "props_ok p" "last_app a1 = (setup_msg (fe_rnd ea) False (Some (snd (fe_offer ea))) (Some p))
        \<lparr>em_src_userid := ?ua, em_src_clientid := ?ca\<rparr>" and self: "el_userid_self a1 = ?ua" "el_clientid_self a1 = ?ca"
    by (auto simp: calling_def)
  have "msg_ok (last_app a1)"
    using stamped_msg_ok [OF ids(5) p(1) ids(1,2), of "[]" "[]" False "snd (fe_offer ea)"]
    by (simp add: p(2) setup_msg_def econn_message_zero_def ECONN_ID_LEN_def)
  note d1 = deliver_msg [of eb a1 b t0 t1, unfolded assms(3) [symmetric], OF envs this, unfolded self]
  have "\<exists>b1. ecall_msg_recv eb (Some ?ua) (Some ?ca) (Some (stamped t0 t1 (last_app a1))) b = (OK, b1) \<and>
      ringing eb ?ua ?ca (fe_rnd ea) (snd (fe_offer ea)) b b1"
    by (rule call_rings [OF assms(2,5) ids(1,2,5) p(1)]) (use assms(3,7) in \<open>simp_all add: stamped_def p(2)\<close>)
  then obtain b1 where b1: "ecall_deliver eb a1 b t0 t1 = Some b1" "ringing eb ?ua ?ca (fe_rnd ea) (snd (fe_offer ea)) b b1"
    using d1 by auto
  then obtain b2 where b2: "ecall_answer eb kt' cbr' b1 = (OK, b2)"
      "answered_call eb ?ua ?ca (fe_rnd ea) (snd (fe_offer ea)) b b2"
    using call_answered [OF assms(2,5) _ ids(1,2)] by blast
  then obtain cb q where cb: "el_econn b2 = Some cb" "conn_of eb b cb" "ec_state cb = ECONN_ANSWERED" "ec_userid_remote cb = ?ua"
      "ec_clientid_remote cb = ?ca" "ec_sessid_remote cb = fe_rnd ea" "props_ok q"
      "last_app b2 = (setup_msg (fe_rnd eb) True (Some (snd (fe_answer eb))) (Some q))
          \<lparr>em_src_userid := ?ub, em_src_clientid := ?cb, em_dest_userid := ?ua, em_dest_clientid := ?ca\<rparr>"
    and self2: "el_userid_self b2 = ?ub" "el_clientid_self b2 = ?cb"
    by (auto simp: answered_call_def)
  have "msg_ok (last_app b2)"
    using stamped_msg_ok [OF ids(6) cb(7) ids(3,4)] ids(1,2) by (simp add: cb(8) id_ok_def)
  note d2 = deliver_msg [of ea b2 a1 t2 t3, OF envs this, unfolded self2]
  have "\<exists>a2 conn. ecall_msg_recv ea (Some ?ub) (Some ?cb) (Some (stamped t2 t3 (last_app b2))) a1 = (OK, a2) \<and> el_econn a2 = Some conn \<and>
      conn_of ea a conn \<and> ec_state conn = ECONN_ANSWERED \<and> ec_userid_remote conn = ?ub \<and> ec_clientid_remote conn = ?cb \<and>
      ec_sessid_remote conn = fe_rnd eb \<and> Flow (el_flows a) (Fl_handle_answer (Some (snd (fe_answer eb)))) \<in> set (el_trace a2) \<and>
      el_connection_tmr a2 = Some TIMEOUT_CONNECTION"
    by (rule caller_answered [OF assms(1) a1(2) ids(3,4,6) assms(6)]) (simp add: stamped_def cb(8))
  then obtain a2 ca where a2: "ecall_deliver ea b2 a1 t2 t3 = Some a2" "el_econn a2 = Some ca" "conn_of ea a ca"
      "ec_state ca = ECONN_ANSWERED" "ec_userid_remote ca = ?ub" "ec_clientid_remote ca = ?cb" "ec_sessid_remote ca = fe_rnd eb"
      "Flow (el_flows a) (Fl_handle_answer (Some (snd (fe_answer eb)))) \<in> set (el_trace a2)"
      "el_connection_tmr a2 = Some TIMEOUT_CONNECTION"
    using d2 by auto
  have "connected ca cb" using cb a2 by (simp add: connected_def conn_of_def)
  moreover have "state_of b1 = ECONN_PENDING_INCOMING" using b1(2) by (auto simp: ringing_def state_of_def econn_current_state_def)
  ultimately show ?thesis using a1(1) b1(1) b2 a2(1,2,8,9) cb(1) by (auto simp: answered_call_def)
qed

definition alice :: ecall where
  "alice = (demo_call ''alice'' ''c1'')\<lparr>el_cbs := {CB_send}\<rparr>"

definition bob :: ecall where
  "bob = (demo_call ''bob'' ''c2'')\<lparr>el_cbs := {CB_send, CB_start}\<rparr>"

theorem ecall_call_connects_witness:
  "\<exists>a1 b1 b2 a2 ca cb. ecall_start demo_fl ICALL_CALL_TYPE_NORMAL False alice = (OK, a1) \<and> ecall_deliver demo_fl a1 bob 9 8 = Some b1 \<and>
    state_of b1 = ECONN_PENDING_INCOMING \<and> ecall_answer demo_fl ICALL_CALL_TYPE_NORMAL False b1 = (OK, b2) \<and>
    ecall_deliver demo_fl b2 a1 11 10 = Some a2 \<and> el_econn a2 = Some ca \<and> el_econn b2 = Some cb \<and> connected ca cb \<and>
    Flow (el_flows bob) (Fl_handle_offer (snd (fe_offer demo_fl))) \<in> set (el_trace b2) \<and>
    Flow (el_flows alice) (Fl_handle_answer (Some (snd (fe_answer demo_fl)))) \<in> set (el_trace a2) \<and>
    el_connection_tmr a2 = Some TIMEOUT_CONNECTION \<and> el_connection_tmr b2 = Some TIMEOUT_CONNECTION"
proof (rule ecall_call_connects)
  have re: "fe_re demo_fl = wire_re" by (simp add: demo_fl_def)
  have pr: "prints wire_re" by (simp add: prints_def wire_re_def)
  show env: "call_env demo_fl" "call_env demo_fl" unfolding call_env_def re using wire_re_ok pr
    by (simp_all add: demo_fl_def id_ok_def ECONN_ID_LEN_def)
  show "idle_call alice" "idle_call bob"
    by (simp_all add: alice_def bob_def idle_call_def demo_call_def ecall_init_def ecall_default_conf_def id_ok_def ECONN_ID_LEN_def
        props_ok_def)
  show "\<not> re_casecmp (fe_re demo_fl) (el_userid_self alice) (el_userid_self bob)"
    "\<not> re_casecmp (fe_re demo_fl) (el_userid_self bob) (el_userid_self alice)"
    by (simp_all add: re alice_def bob_def demo_call_def ecall_init_def wire_re_def)
qed simp

end
