(* ===== verification/Spec2Isabelle.thy ===== *)
theory Spec2Isabelle
  imports Frame_Crypt Ccall_Props Ecall_Setup
begin

text \<open>
  A verification library for the calling code of Wire (AVS), the C sources under \<^verbatim>\<open>src/src\<close> and \<^verbatim>\<open>src/include\<close>.

  \<^bold>\<open>The program.\<close> A call between two clients is an object of \<^verbatim>\<open>ecall.c\<close>. It owns a signalling connection
  (\<^verbatim>\<open>econn.c\<close>), which exchanges messages with the connection of the peer, and media flows, which carry audio, video and
  a data channel. The messages (\<^verbatim>\<open>avs_econn.h\<close>) travel as JSON texts (\<^verbatim>\<open>econn_fmt/msg.c\<close> over \<^verbatim>\<open>jzon\<close>). A conference
  (\<^verbatim>\<open>ccall.c\<close>) connects with a media server: it takes the addresses of servers from the configuration
  (\<^verbatim>\<open>config.c\<close>), announces and finds calls by messages to the other clients, keeps the list of participants
  (\<^verbatim>\<open>userlist.c\<close>), which also elects the one that makes the keys, and stores session keys (\<^verbatim>\<open>keystore.c\<close>). Media frames of a
  conference are encrypted end to end with these keys (\<^verbatim>\<open>frame_encryptor.c\<close>, \<^verbatim>\<open>frame_decryptor.c\<close>) behind a small header
  (\<^verbatim>\<open>frame_hdr.c\<close>). Relays are reached over \<^verbatim>\<open>turnconn.c\<close>.

  \<^bold>\<open>The theories.\<close>
  \<^item> \<open>AVS_Prelude\<close>: words, bytes with checked access, the error codes, sorting, and the locale \<open>inv_machine\<close>: a
    step function with a guard and an invariant that every guarded step defines and keeps.
  \<^item> \<open>Frame_Hdr\<close>: writer and reader of the frame header.
  \<^item> \<open>Keystore\<close>: the key store, one definition per function; the locale \<open>key_source\<close> is what the frame encryptor
    relies on, and is interpreted on the store (\<open>ksrc\<close>).
  \<^item> \<open>Frame_Crypt\<close>: encryptor and decryptor; a call is cut at the steps of the C function (\<open>encrypt_ctx\<close>,
    \<open>encrypt_seal\<close>, \<open>decrypt_user\<close>, \<open>decrypt_new_iv\<close>, \<open>decrypt_ctx\<close>, \<open>decrypt_open\<close>, \<open>decrypt_count\<close>).
  \<^item> \<open>Jzon\<close>, \<open>Econn_Msg\<close>, \<open>Econn_Fmt\<close>: JSON objects, messages and properties, and the encoder and decoder of messages.
    \<open>msg_entries\<close> is the specification of the format.
  \<^item> \<open>Econn\<close>: the connection, its messages, timers and operations, and the protocol state machine it refines.
  \<^item> \<open>Userlist\<close>, \<open>Config\<close>: participants and configuration, with the parts of \<^verbatim>\<open>audio_level.c\<close>, \<^verbatim>\<open>icall.c\<close>,
    \<^verbatim>\<open>stringlist.c\<close> and \<^verbatim>\<open>zapi\<close> that they use.
  \<^item> \<open>Ccall\<close>, \<open>Ccall_Inv\<close>, \<open>Ccall_Props\<close>: the conference (every call, message, timer and callback is an event of
    \<open>cl_do\<close>), its invariant, and its theorems.
  \<^item> \<open>Turn\<close>: connections with relays and the reassembly of frames from a TCP stream.
  \<^item> \<open>Ecall\<close>, \<open>Ecall_Props\<close>, \<open>Ecall_Setup\<close>: the call with one peer, its theorems, and two such calls with each other.
  \<^item> This theory: two connections whose messages go through the encoder and the decoder.

  \<^bold>\<open>State and operations.\<close> A struct is a record with the fields of the struct (prefixed), an enum a datatype, a
  pointer that may be NULL an option; an operation takes the record and returns it updated, with the error
  code of the C function. Integers have the width they have in C. Undefined behaviour (a read outside of a buffer, through
  a NULL or dangling pointer, of the wrong member of a union) is the value \<open>None\<close>, or in the large objects the flags \<open>cl_ub\<close> and
  \<open>el_ub\<close>. Callbacks of the application and calls into other objects are recorded in a trace, timers
  are fields that say whether they run, and a timer that expires is an event. Functions of libre, OpenSSL, the
  TURN client and the media flows are fields of environments (\<open>ks_env\<close>, \<open>gcm_env\<close>, \<open>pf_env\<close>, \<open>re_env\<close>, \<open>ec_env\<close>, \<open>ul_env\<close>,
  \<open>cl_env\<close>, \<open>turn_env\<close>, \<open>fl_env\<close>); what the theorems need of them is stated where it is used (\<open>gcm_ok\<close>, \<open>re_env_ok\<close>,
  \<open>list_sort_ok\<close>, \<open>ul_env_ok\<close>, \<open>cl_env_ok\<close>, \<open>mem_suffices\<close>) and is met by a concrete environment in every witness.

  \<^bold>\<open>What is shown.\<close>
  \<^item> Invariants of all reachable states, by interpretation of \<open>inv_machine\<close>: the key store (\<open>ksm\<close>), the connection (\<open>ecm\<close>), the
    list of participants (\<open>ulm\<close>), the conference (\<open>clm\<close>) and the call (\<open>elm\<close>); from them that no run within the guards reaches undefined
    behaviour, that old keys are erased, that keys are never broadcast, that the end of a call is reported at most once, and
    that flows are used between their allocation and their end.
  \<^item> Round trips: frame headers, frames of a stream with changing keys and cached contexts, messages.
  \<^item> Refinement: the connection moves along the protocol, the encoder writes the format.
  \<^item> Agreement: two clients on a call, all clients on a key generator, two ends of a call on its session.
  \<^item> Progress: states that wait have a timer whose expiry ends them; loops end.
  \<^item> The places where the code does not do what it should, as theorems about the same definitions (short frames,
    headers beyond 32 bits, padding on a stream, a configuration without servers, messages without a session or
    properties, waiting messages that are never sent).

  \<^bold>\<open>Loops and bounds.\<close> Loops are structural recursion or functions with a termination proof. Two loops may depend on
  what a library answers: the frames of a TCP stream and the messages waiting for the data channel are
  \<^const>\<open>while_option\<close>, so that not ending is \<open>None\<close>; the first is proved to end always, the second
  when the channel takes data, and not to end when it refuses. There is no fuel. Numbers of calls and events are
  not bounded, except for the \<open>2 ^ 32\<close> calls after which the frame counter repeats.

  \<^bold>\<open>Not modelled.\<close> Operations do not interleave: locks and threads are left out (\<^verbatim>\<open>keystore_get_current\<close> takes no lock in
  the source). Memory that cannot be allocated is modelled where a function has a parameter for it, and destructors only
  where they do more than release memory. Log lines and debug output are left out, except for the two lines of \<^verbatim>\<open>ccall.c\<close> that read an
  argument that is not there (\<open>info_missing_arg\<close>); the same mistake in lines of \<^verbatim>\<open>ecall.c\<close> and \<^verbatim>\<open>turnconn.c\<close> is not part of
  the models of these files. The library interface (\<^verbatim>\<open>wcall\<close>), group calls of the previous generation (\<^verbatim>\<open>egcall\<close>), the media
  stack (\<^verbatim>\<open>peerflow\<close>, \<^verbatim>\<open>jsflow\<close>, \<^verbatim>\<open>dce\<close>, \<^verbatim>\<open>mediamgr\<close>, \<^verbatim>\<open>msystem\<close>, \<^verbatim>\<open>audio_io\<close>, \<^verbatim>\<open>audio_effect\<close>), the backend client of the
  tools (\<^verbatim>\<open>engine\<close>, \<^verbatim>\<open>rest\<close>, \<^verbatim>\<open>nevent\<close>, \<^verbatim>\<open>cryptobox\<close>, \<^verbatim>\<open>store\<close>) and the platform bindings are not modelled: they dispatch between
  threads, talk to the network or to devices, or wrap libraries that are not part of the sources.
\<close>

section \<open>Calls over the wire\<close>

text \<open>
  The message a connection sent last goes through the encoder, the transport and the decoder of
  \<^verbatim>\<open>src/src/econn_fmt/msg.c\<close> into \<^const>\<open>econn_recv_message\<close>; \<open>None\<close> if one of them fails.
\<close>

definition wire_deliver :: "ec_env \<Rightarrow> econn \<Rightarrow> econn \<Rightarrow> u64 \<Rightarrow> u64 \<Rightarrow> econn option" where
  "wire_deliver env from dest curr_time msg_time =
     (case econn_message_encode (ee_re env) (last_sent from) of
        Some (OK, Some str) \<Rightarrow>
          (case econn_message_decode (ee_re env) True curr_time msg_time str of
             Some (OK, Some msg) \<Rightarrow>
               Some (econn_recv_message env dest (ec_userid_self from) (ec_clientid from) msg)
           | _ \<Rightarrow> None)
      | _ \<Rightarrow> None)"

lemma wire_deliver_ok:
  assumes "re_env_ok (ee_re env)" and "prints (ee_re env)" and "msg_ok (last_sent from)"
  shows "wire_deliver env from dest curr_time msg_time =
    Some (deliver env from dest (ucast msg_time)
      (if curr_time < msg_time then 0 else ucast (curr_time - msg_time)))"
  by (rule wire_ok [OF assms]) (simp add: wire_deliver_def deliver_def stamped_def)

text \<open>
  C9: a call is set up over the wire. With sessions that describe themselves and have well formed
  properties, the caller's SETUP is encoded, decoded and received, the callee's answer goes back the
  same way, and both ends are answered and know each other.
\<close>

theorem econn_call_connects_over_wire:
  assumes "re_env_ok (ee_re env)" and "prints (ee_re env)" and "ee_send env = (\<lambda>_. OK)"
    and "fresh_end a" and "fresh_end b" and "props_ok props" and "props_ok props'"
  shows "\<exists>b1 a2. let a1 = snd (econn_start env a (Some sdp) (Some props)) in
    wire_deliver env a1 b t0 t1 = Some b1 \<and> ec_state b1 = ECONN_PENDING_INCOMING \<and>
    (let b2 = snd (econn_answer env b1 (Some sdp') (Some props')) in
       wire_deliver env b2 a1 t2 t3 = Some a2 \<and> connected a2 b2)"
proof -
  define a1 where "a1 = snd (econn_start env a (Some sdp) (Some props))"
  define g g' where "g = (if t0 < t1 then 0 else ucast (t0 - t1) :: u32)"
    and "g' = (if t2 < t3 then 0 else ucast (t2 - t3) :: u32)"
  define b1 where "b1 = deliver env a1 b (ucast t1) g"
  define b2 where "b2 = snd (econn_answer env b1 (Some sdp') (Some props'))"
  note re = re_str_ok_env [OF assms(1)]
  have c: "ec_state b1 = ECONN_PENDING_INCOMING" "connected (deliver env b2 a1 (ucast t3) g') b2"
    using call_connects [OF re assms(3-5)] by (simp_all add: a1_def b1_def b2_def)
  note a1 = start_fresh [OF re assms(3,4), of "Some sdp" "Some props", folded a1_def]
  then have a: "wire_deliver env a1 b t0 t1 = Some b1"
    using wire_deliver_ok [OF assms(1,2)] setup_msg_ok assms(4,6) by (simp add: fresh_end_def b1_def g_def)
  have "id_ok (ec_userid_self a1)" "id_ok (ec_clientid a1)" "knows b a1"
    using assms(4,5) a1 by (simp_all add: fresh_end_def knows_def)
  then have "ec_transp b1" "ec_sessid_local b1 = ec_sessid_local b"
    using deliver_props [OF re _ _ _ a1(2), of b "ucast t1" g] assms(5) by (simp_all add: b1_def fresh_end_def)
  then have "last_sent b2 = setup_msg (ec_sessid_local b) True (Some sdp') (Some props')"
    using answer_ok [OF re assms(3)] c(1) assms(5) by (simp add: b2_def fresh_end_def)
  then have "wire_deliver env b2 a1 t2 t3 = Some (deliver env b2 a1 (ucast t3) g')"
    using wire_deliver_ok [OF assms(1,2)] setup_msg_ok assms(5,7) by (simp add: fresh_end_def g'_def)
  then show ?thesis using a c by (auto simp: a1_def [symmetric] b2_def [symmetric] Let_def)
qed

definition wire_ec :: ec_env where
  "wire_ec = \<lparr>ee_re = wire_re, ee_send = (\<lambda>_. OK)\<rparr>"

theorem econn_call_connects_over_wire_witness:
  "\<exists>b1 a2. let a1 = snd (econn_start wire_ec (demo_end ''alice'' ''c1'') (Some ''v=0'') (Some [(''a'', ODICT_STRING ''b'')])) in
    wire_deliver wire_ec a1 (demo_end ''bob'' ''c2'') 9 8 = Some b1 \<and> ec_state b1 = ECONN_PENDING_INCOMING \<and>
    (let b2 = snd (econn_answer wire_ec b1 (Some ''v=1'') (Some [])) in
       wire_deliver wire_ec b2 a1 11 10 = Some a2 \<and> connected a2 b2)"
proof (rule econn_call_connects_over_wire)
  show "re_env_ok (ee_re wire_ec)" by (simp add: wire_ec_def wire_re_ok)
  show "prints (ee_re wire_ec)" by (simp add: wire_ec_def prints_def wire_re_def)
qed (simp_all add: wire_ec_def demo_fresh props_ok_def)

end
